(* ===== verification/Elp_Prelude.thy ===== *)
theory Elp_Prelude
  imports Main "HOL-Library.AList" "HOL-Library.Word" "HOL-Library.Sublist" "HOL-Library.Multiset"
begin

text \<open>
  What every component of the development shares: the machine integers of the Go source, Go's
  built-in maps, the counting loop over \<^verbatim>\<open>uint16\<close>, runs of a state machine, and the lemma
  collections the component proofs use.

  A Go map is an association list with distinct keys (\<open>gm_wf\<close>). Its order is the order in
  which one particular run of the program would range over it; Go leaves that order open, so
  no property of the development may depend on it, and the components that range over a map
  take the order as a parameter where the result depends on it.

  A fallible Go function returns \<open>'e + 'a\<close>, with \<open>Inl\<close> for the error.
\<close>

unbundle bit_operations_syntax

section \<open>Integers and lemma collections\<close>

type_synonym u8 = "8 word"
type_synonym u16 = "16 word"
type_synonym u32 = "32 word"
type_synonym i32 = "32 word"

named_theorems gomap_simps "lookup and size of Go maps after an update"
named_theorems go_text_defs "definitions of the string functions, for evaluation"
named_theorems elp_consts "the named string and number constants of the source"

section \<open>Go maps\<close>

type_synonym ('k, 'v) gomap = "('k \<times> 'v) list"

definition gm_wf :: "('k, 'v) gomap \<Rightarrow> bool" where
  "gm_wf m \<longleftrightarrow> distinct (map fst m)"

definition gm_get :: "('k, 'v) gomap \<Rightarrow> 'k \<Rightarrow> 'v option" where
  "gm_get m k = map_of m k"

definition gm_set :: "'k \<Rightarrow> 'v \<Rightarrow> ('k, 'v) gomap \<Rightarrow> ('k, 'v) gomap" where
  "gm_set k v m = AList.update k v m"

definition gm_del :: "'k \<Rightarrow> ('k, 'v) gomap \<Rightarrow> ('k, 'v) gomap" where
  "gm_del k m = AList.delete k m"

definition gm_has :: "('k, 'v) gomap \<Rightarrow> 'k \<Rightarrow> bool" where
  "gm_has m k = (case gm_get m k of None \<Rightarrow> False | Some _ \<Rightarrow> True)"

lemmas gm_defs = gm_get_def gm_set_def gm_del_def gm_has_def

lemma gm_wf_Nil [simp]: "gm_wf []"
  by (simp add: gm_wf_def)

lemma gm_get_Nil [simp]: "gm_get [] k = None"
  by (simp add: gm_get_def)

lemma gm_has_Nil [simp]: "\<not> gm_has [] k"
  by (simp add: gm_has_def)

lemma gm_has_iff: "gm_has m k \<longleftrightarrow> gm_get m k \<noteq> None"
  by (simp add: gm_has_def split: option.splits)

lemma gm_has_fst: "gm_has m k \<longleftrightarrow> k \<in> fst ` set m"
  by (simp add: gm_has_iff gm_get_def map_of_eq_None_iff)

lemma gm_get_set [simp, gomap_simps]:
  "gm_get (gm_set k v m) j = (if j = k then Some v else gm_get m j)"
  by (auto simp: gm_get_def gm_set_def update_conv')

lemma gm_get_del [simp, gomap_simps]:
  "gm_get (gm_del k m) j = (if j = k then None else gm_get m j)"
  by (auto simp: gm_get_def gm_del_def delete_conv')

lemma gm_has_set [simp]: "gm_has (gm_set k v m) j \<longleftrightarrow> j = k \<or> gm_has m j"
  by (simp add: gm_has_iff)

lemma gm_has_del [simp]: "gm_has (gm_del k m) j \<longleftrightarrow> j \<noteq> k \<and> gm_has m j"
  by (simp add: gm_has_iff)

lemma gm_wf_set [simp, intro]: "gm_wf m \<Longrightarrow> gm_wf (gm_set k v m)"
  by (simp add: gm_wf_def gm_set_def distinct_update)

lemma gm_wf_del [simp, intro]: "gm_wf m \<Longrightarrow> gm_wf (gm_del k m)"
  by (simp add: gm_wf_def gm_del_def distinct_delete)

lemma gm_get_in: "gm_wf m \<Longrightarrow> gm_get m k = Some v \<longleftrightarrow> (k, v) \<in> set m"
  by (simp add: gm_wf_def gm_get_def)

lemma gm_set_fresh: "gm_get m k = None \<Longrightarrow> gm_set k v m = m @ [(k, v)]"
  by (induction m) (auto simp: gm_get_def gm_set_def split: if_splits)

lemma gm_length_set: "length (gm_set k v m) = (if gm_has m k then length m else Suc (length m))"
  by (induction m) (auto simp: gm_has_def gm_get_def gm_set_def)

lemma gm_length_card: "gm_wf m \<Longrightarrow> length m = card {k. gm_has m k}"
  by (metis Collect_cong Collect_mem_eq distinct_card gm_has_fst gm_wf_def length_map list.set_map)

lemma gm_del_absent: "gm_get m k = None \<Longrightarrow> gm_del k m = m"
  by (induction m) (auto simp: gm_get_def gm_del_def AList.delete_eq split: if_splits)

section \<open>Counting loops over uint16\<close>

lemma unat_u16_less: "unat (x :: u16) < 65536"
  using unsigned_less [where ?'a = nat, of x] by simp

text \<open>
  \<^verbatim>\<open>for addr := lo; addr <= hi; addr++ { body }\<close> over \<^verbatim>\<open>uint16\<close>. The body either
  goes on with a new state (\<open>Inl\<close>) or returns (\<open>Inr\<close>). The increment wraps, so
  with \<open>hi = 65535\<close> the loop only ends by returning: not ending is the value \<open>None\<close>.
\<close>

partial_function (option) for_u16 ::
  "u16 \<Rightarrow> u16 \<Rightarrow> ('s \<Rightarrow> u16 \<Rightarrow> 's + 'r) \<Rightarrow> 's \<Rightarrow> ('s + 'r) option" where
  "for_u16 lo hi body s =
     (if lo \<le> hi
      then (case body s lo of Inl s' \<Rightarrow> for_u16 (lo + 1) hi body s' | Inr r \<Rightarrow> Some (Inr r))
      else Some (Inl s))"

text \<open>The same loop over the list of its counter values, for reasoning.\<close>

declare for_u16.simps [code]

fun loop_list :: "('s \<Rightarrow> 'a \<Rightarrow> 's + 'r) \<Rightarrow> 's \<Rightarrow> 'a list \<Rightarrow> 's + 'r" where
  "loop_list body s [] = Inl s"
| "loop_list body s (x # xs) =
     (case body s x of Inl s' \<Rightarrow> loop_list body s' xs | Inr r \<Rightarrow> Inr r)"

definition u16_range :: "u16 \<Rightarrow> u16 \<Rightarrow> u16 list" where
  "u16_range lo hi = map of_nat [unat lo ..< Suc (unat hi)]"

lemma u16_range_empty: "hi < lo \<Longrightarrow> u16_range lo hi = []"
  by (simp add: u16_range_def word_less_nat_alt)

lemma u16_range_Cons:
  assumes "lo \<le> hi" and "hi < 0xFFFF"
  shows "u16_range lo hi = lo # u16_range (lo + 1) hi"
proof -
  have le: "unat lo \<le> unat hi" using assms(1) by (simp add: word_le_nat_alt)
  have "unat hi < unat (0xFFFF :: u16)" using assms(2) by (simp add: word_less_nat_alt)
  then have "unat (lo + 1) = Suc (unat lo)"
    using le by (simp add: unat_word_ariths)
  then show ?thesis
    using le by (simp add: u16_range_def upt_conv_Cons del: upt_Suc)
qed

lemma set_u16_range: "a \<in> set (u16_range lo hi) \<longleftrightarrow> lo \<le> a \<and> a \<le> hi"
proof
  assume "a \<in> set (u16_range lo hi)"
  then obtain n where n: "a = of_nat n" "unat lo \<le> n" "n \<le> unat hi"
    by (auto simp: u16_range_def)
  have "n < 65536" using n(3) unat_u16_less [of hi] by simp
  then have "unat a = n" using n(1) by (simp add: unat_of_nat)
  then show "lo \<le> a \<and> a \<le> hi" using n by (simp add: word_le_nat_alt)
next
  assume "lo \<le> a \<and> a \<le> hi"
  then have "unat lo \<le> unat a" "unat a \<le> unat hi" by (simp_all add: word_le_nat_alt)
  then have "unat a \<in> set [unat lo ..< Suc (unat hi)]" by (simp add: less_Suc_eq_le del: upt_Suc)
  then have "(of_nat (unat a) :: u16) \<in> of_nat ` set [unat lo ..< Suc (unat hi)]" by (rule imageI)
  then show "a \<in> set (u16_range lo hi)" by (simp add: u16_range_def del: upt_Suc set_upt)
qed

lemma u16_range_unat: "map unat (u16_range lo hi) = [unat lo ..< Suc (unat hi)]"
proof -
  have "map unat (u16_range lo hi) = map (\<lambda>n. n) [unat lo ..< Suc (unat hi)]"
    unfolding u16_range_def map_map
  proof (rule map_cong [OF refl])
    fix n assume "n \<in> set [unat lo ..< Suc (unat hi)]"
    then have "n < 65536" using unat_u16_less [of hi] by auto
    then show "(unat \<circ> (of_nat :: nat \<Rightarrow> u16)) n = n" by (simp add: unat_of_nat)
  qed
  then show ?thesis by simp
qed

lemma length_u16_range: "length (u16_range lo hi) = Suc (unat hi) - unat lo"
  by (simp add: u16_range_def Suc_diff_le)

lemma sorted_u16_range: "sorted_wrt (<) (u16_range lo hi)"
proof -
  have "sorted_wrt (<) (map unat (u16_range lo hi))"
    by (simp only: u16_range_unat sorted_wrt_upt)
  then show ?thesis by (simp add: sorted_wrt_map word_less_nat_alt [abs_def])
qed

lemma distinct_u16_range: "distinct (u16_range lo hi)"
  using sorted_u16_range strict_sorted_iff by blast

text \<open>Below the largest \<^verbatim>\<open>uint16\<close> the loop always ends.\<close>

lemma for_u16_list:
  assumes "hi < 0xFFFF"
  shows "for_u16 lo hi body s = Some (loop_list body s (u16_range lo hi))"
proof (induction "unat hi + 1 - unat lo" arbitrary: lo s)
  case 0
  then have "hi < lo" by (simp add: word_less_nat_alt)
  then show ?case by (simp add: for_u16.simps [of lo] u16_range_empty not_le [symmetric])
next
  case (Suc n)
  then have le: "lo \<le> hi" by (simp add: word_le_nat_alt)
  have "unat hi < unat (0xFFFF :: u16)" using assms by (simp add: word_less_nat_alt)
  then have "unat (lo + 1) = Suc (unat lo)"
    using le by (simp add: unat_word_ariths word_le_nat_alt)
  then have IH: "\<And>s'. for_u16 (lo + 1) hi body s' = Some (loop_list body s' (u16_range (lo + 1) hi))"
    using Suc by simp
  show ?case
    using le by (simp add: for_u16.simps [of lo] u16_range_Cons [OF le assms] IH split: sum.splits)
qed

lemma loop_list_find:
  "loop_list (\<lambda>s x. if P x then Inr x else Inl s) s xs =
     (case find P xs of None \<Rightarrow> Inl s | Some x \<Rightarrow> Inr x)"
  by (induction xs) auto

lemma loop_list_filter:
  "loop_list (\<lambda>out x. Inl (if P x then out @ [x] else out)) out xs = Inl (out @ filter P xs)"
  by (induction xs arbitrary: out) auto

lemma loop_list_count:
  "loop_list (\<lambda>n x. Inl (if P x then Suc n else n)) n xs = Inl (n + length (filter P xs))"
  by (induction xs arbitrary: n) auto

section \<open>Runs of a state machine\<close>

text \<open>
  Several components are deterministic machines: a state, events, a step function. They share
  one contract: the step keeps an invariant; then so does every run.
\<close>

definition run_events :: "('s \<Rightarrow> 'e \<Rightarrow> 's) \<Rightarrow> 's \<Rightarrow> 'e list \<Rightarrow> 's" where
  "run_events step s es = foldl step s es"

lemma run_events_Nil [simp]: "run_events step s [] = s"
  by (simp add: run_events_def)

lemma run_events_Cons [simp]: "run_events step s (e # es) = run_events step (step s e) es"
  by (simp add: run_events_def)

lemma run_events_snoc: "run_events step s (es @ [e]) = step (run_events step s es) e"
  by (simp add: run_events_def)

locale invariant_machine =
  fixes step :: "'s \<Rightarrow> 'e \<Rightarrow> 's" and inv :: "'s \<Rightarrow> bool"
  assumes step_inv: "inv s \<Longrightarrow> inv (step s e)"
begin

lemma run_inv: "inv s \<Longrightarrow> inv (run_events step s es)"
  by (induction es arbitrary: s) (auto intro: step_inv)

end

section \<open>Lists\<close>

lemma option_eq_by_Some: "(\<And>a. x = Some a \<longleftrightarrow> y = Some a) \<Longrightarrow> x = y"
  by (cases x; cases y) auto

lemma find_Some_sorted:
  assumes "sorted_wrt (<) xs" and "find P xs = Some (x :: 'a :: linorder)"
  shows "x \<in> set xs \<and> P x \<and> (\<forall>y \<in> set xs. P y \<longrightarrow> x \<le> y)"
  using assms by (induction xs) (auto split: if_splits intro: less_imp_le)

lemma find_eq_hd_filter: "find P xs = (case filter P xs of [] \<Rightarrow> None | x # _ \<Rightarrow> Some x)"
  by (induction xs) auto

end
