(* ===== verification/Go_Text.thy ===== *)
theory Go_Text
  imports Elp_Prelude
begin

text \<open>
  The functions of Go's standard library on strings that the source calls: \<^verbatim>\<open>strings\<close>,
  \<^verbatim>\<open>strconv\<close>, the \<^verbatim>\<open>fmt\<close> verbs it uses and \<^verbatim>\<open>net.JoinHostPort\<close> and
  \<^verbatim>\<open>net.SplitHostPort\<close>. A Go string is a sequence of bytes and so is a \<^typ>\<open>string\<close>
  (\<^typ>\<open>char\<close> has 256 values). The round trips of numbers and of host and port are proved
  here; the components use them.
\<close>

section \<open>Numbers to text\<close>

definition digit_chars :: "bool \<Rightarrow> string" where
  "digit_chars upper = (if upper then ''0123456789ABCDEF'' else ''0123456789abcdef'')"

text \<open>\<^verbatim>\<open>%d\<close> of a number that is not negative, and of any integer.\<close>

fun nat_dec :: "nat \<Rightarrow> string" where
  "nat_dec n =
     (if n < 10 then [digit_chars False ! n]
      else nat_dec (n div 10) @ [digit_chars False ! (n mod 10)])"

declare nat_dec.simps [simp del]

definition int_dec :: "int \<Rightarrow> string" where
  "int_dec i = (if i < 0 then CHR ''-'' # nat_dec (nat (- i)) else nat_dec (nat i))"

text \<open>\<^verbatim>\<open>%0nx\<close> and \<^verbatim>\<open>%0nX\<close> of a number below \<open>16 ^ n\<close>.\<close>

fun hex_pad :: "bool \<Rightarrow> nat \<Rightarrow> nat \<Rightarrow> string" where
  "hex_pad upper 0 k = []"
| "hex_pad upper (Suc n) k = hex_pad upper n (k div 16) @ [digit_chars upper ! (k mod 16)]"

text \<open>
  \<^verbatim>\<open>%q\<close>. Bytes from 128 on are copied, which is what \<^verbatim>\<open>strconv.Quote\<close> does for printable
  UTF-8; names and messages of this program are ASCII.
\<close>

definition quote_char :: "char \<Rightarrow> string" where
  "quote_char c =
     (let n = of_char c :: nat in
      if c = CHR 0x22 then [CHR 0x5C, CHR 0x22]
      else if c = CHR 0x5C then [CHR 0x5C, CHR 0x5C]
      else if n = 7 then CHR 0x5C # ''a'' else if n = 8 then CHR 0x5C # ''b''
      else if n = 9 then CHR 0x5C # ''t'' else if n = 10 then CHR 0x5C # ''n''
      else if n = 11 then CHR 0x5C # ''v'' else if n = 12 then CHR 0x5C # ''f''
      else if n = 13 then CHR 0x5C # ''r''
      else if n < 32 \<or> n = 127 then CHR 0x5C # ''x'' @ hex_pad False 2 n
      else [c])"

definition quote :: "string \<Rightarrow> string" where
  "quote s = CHR 0x22 # concat (map quote_char s) @ [CHR 0x22]"

section \<open>Text to numbers\<close>

datatype num_error = NumSyntax | NumRange

definition digit_val :: "char \<Rightarrow> nat option" where
  "digit_val c =
     (let n = of_char c :: nat in
      if 48 \<le> n \<and> n \<le> 57 then Some (n - 48)
      else if 97 \<le> n \<and> n \<le> 122 then Some (n - 87)
      else if 65 \<le> n \<and> n \<le> 90 then Some (n - 55)
      else None)"

fun parse_digits :: "nat \<Rightarrow> nat \<Rightarrow> nat \<Rightarrow> string \<Rightarrow> num_error + nat" where
  "parse_digits base max_val acc [] = Inr acc"
| "parse_digits base max_val acc (c # cs) =
     (case digit_val c of
        None \<Rightarrow> Inl NumSyntax
      | Some d \<Rightarrow>
          if base \<le> d then Inl NumSyntax
          else if max_val < acc * base + d then Inl NumRange
          else parse_digits base max_val (acc * base + d) cs)"

text \<open>\<^verbatim>\<open>strconv.ParseUint(s, base, bits)\<close> with a base given, so no prefix and no underscore.\<close>

definition parse_uint :: "nat \<Rightarrow> nat \<Rightarrow> string \<Rightarrow> num_error + nat" where
  "parse_uint base bits s =
     (if s = [] then Inl NumSyntax else parse_digits base (2 ^ bits - 1) 0 s)"

text \<open>\<^verbatim>\<open>strconv.ParseInt(s, 10, bits)\<close>.\<close>

definition parse_int :: "nat \<Rightarrow> string \<Rightarrow> num_error + int" where
  "parse_int bits s =
     (let neg = (s \<noteq> [] \<and> hd s = CHR ''-'');
          body = (if s \<noteq> [] \<and> (hd s = CHR ''-'' \<or> hd s = CHR ''+'') then tl s else s)
      in case parse_uint 10 bits body of
           Inl e \<Rightarrow> Inl e
         | Inr u \<Rightarrow>
             if \<not> neg \<and> 2 ^ (bits - 1) \<le> u then Inl NumRange
             else if neg \<and> 2 ^ (bits - 1) < u then Inl NumRange
             else Inr (if neg then - int u else int u))"

text \<open>\<^verbatim>\<open>strconv.ParseBool\<close>: \<open>None\<close> is its error.\<close>

definition parse_bool_str :: "string \<Rightarrow> bool option" where
  "parse_bool_str s =
     (if s \<in> set [''1'', ''t'', ''T'', ''true'', ''TRUE'', ''True''] then Some True
      else if s \<in> set [''0'', ''f'', ''F'', ''false'', ''FALSE'', ''False''] then Some False
      else None)"

section \<open>The strings package\<close>

definition has_prefix :: "string \<Rightarrow> string \<Rightarrow> bool" where
  "has_prefix s p \<longleftrightarrow> take (length p) s = p"

definition has_suffix :: "string \<Rightarrow> string \<Rightarrow> bool" where
  "has_suffix s p \<longleftrightarrow> length p \<le> length s \<and> drop (length s - length p) s = p"

definition trim_suffix :: "string \<Rightarrow> string \<Rightarrow> string" where
  "trim_suffix s p = (if has_suffix s p then take (length s - length p) s else s)"

definition cut_prefix :: "string \<Rightarrow> string \<Rightarrow> string option" where
  "cut_prefix s p = (if has_prefix s p then Some (drop (length p) s) else None)"

text \<open>\<^verbatim>\<open>strings.Cut\<close> and \<^verbatim>\<open>strings.Split\<close> with a separator of one byte.\<close>

fun cut_at :: "char \<Rightarrow> string \<Rightarrow> (string \<times> string) option" where
  "cut_at c [] = None"
| "cut_at c (x # xs) =
     (if x = c then Some ([], xs)
      else (case cut_at c xs of None \<Rightarrow> None | Some (b, a) \<Rightarrow> Some (x # b, a)))"

fun split_on :: "char \<Rightarrow> string \<Rightarrow> string list" where
  "split_on c [] = [[]]"
| "split_on c (x # xs) =
     (if x = c then [] # split_on c xs
      else (case split_on c xs of [] \<Rightarrow> [[x]] | w # ws \<Rightarrow> (x # w) # ws))"

fun join_with :: "string \<Rightarrow> string list \<Rightarrow> string" where
  "join_with sep [] = []"
| "join_with sep [w] = w"
| "join_with sep (w # ws) = w @ sep @ join_with sep ws"

definition trim_right_char :: "char \<Rightarrow> string \<Rightarrow> string" where
  "trim_right_char c s = rev (dropWhile (\<lambda>x. x = c) (rev s))"

text \<open>
  \<^verbatim>\<open>strings.TrimSpace\<close>: the UTF-8 encodings of the characters \<^verbatim>\<open>unicode.IsSpace\<close> accepts.
\<close>

definition space_runes :: "string list" where
  "space_runes =
     [[CHR 0x09], [CHR 0x0A], [CHR 0x0B], [CHR 0x0C], [CHR 0x0D], [CHR 0x20],
      [CHR 0xC2, CHR 0x85], [CHR 0xC2, CHR 0xA0], [CHR 0xE1, CHR 0x9A, CHR 0x80],
      [CHR 0xE2, CHR 0x80, CHR 0x80], [CHR 0xE2, CHR 0x80, CHR 0x81], [CHR 0xE2, CHR 0x80, CHR 0x82],
      [CHR 0xE2, CHR 0x80, CHR 0x83], [CHR 0xE2, CHR 0x80, CHR 0x84], [CHR 0xE2, CHR 0x80, CHR 0x85],
      [CHR 0xE2, CHR 0x80, CHR 0x86], [CHR 0xE2, CHR 0x80, CHR 0x87], [CHR 0xE2, CHR 0x80, CHR 0x88],
      [CHR 0xE2, CHR 0x80, CHR 0x89], [CHR 0xE2, CHR 0x80, CHR 0x8A], [CHR 0xE2, CHR 0x80, CHR 0xA8],
      [CHR 0xE2, CHR 0x80, CHR 0xA9], [CHR 0xE2, CHR 0x80, CHR 0xAF], [CHR 0xE2, CHR 0x81, CHR 0x9F],
      [CHR 0xE3, CHR 0x80, CHR 0x80]]"

fun trim_left_runes :: "string list \<Rightarrow> nat \<Rightarrow> string \<Rightarrow> string" where
  "trim_left_runes rs 0 s = s"
| "trim_left_runes rs (Suc n) s =
     (case find (\<lambda>r. has_prefix s r) rs of
        None \<Rightarrow> s
      | Some r \<Rightarrow> trim_left_runes rs n (drop (length r) s))"

definition trim_left_space :: "string \<Rightarrow> string" where
  "trim_left_space s = trim_left_runes space_runes (length s) s"

definition trim_space :: "string \<Rightarrow> string" where
  "trim_space s =
     (let l = trim_left_space s
      in rev (trim_left_runes (map rev space_runes) (length l) (rev l)))"

text \<open>
  \<^verbatim>\<open>strings.EqualFold(s, t)\<close> for an ASCII string \<open>t\<close>. Besides the ASCII letters, Unicode
  folding maps the Kelvin sign to \<^verbatim>\<open>k\<close> and the long s to \<^verbatim>\<open>s\<close>; no other character folds
  to an ASCII one.
\<close>

definition ascii_lower :: "char \<Rightarrow> char" where
  "ascii_lower c =
     (let n = of_char c :: nat in if 65 \<le> n \<and> n \<le> 90 then char_of (n + 32) else c)"

fun fold_ascii :: "string \<Rightarrow> string" where
  "fold_ascii [] = []"
| "fold_ascii (c # cs) =
     (if has_prefix (c # cs) [CHR 0xE2, CHR 0x84, CHR 0xAA] then CHR ''k'' # fold_ascii (drop 2 cs)
      else if has_prefix (c # cs) [CHR 0xC5, CHR 0xBF] then CHR ''s'' # fold_ascii (drop 1 cs)
      else ascii_lower c # fold_ascii cs)"

definition equal_fold_ascii :: "string \<Rightarrow> string \<Rightarrow> bool" where
  "equal_fold_ascii s t \<longleftrightarrow> fold_ascii s = map ascii_lower t"

section \<open>Host and port\<close>

fun index_of :: "char \<Rightarrow> string \<Rightarrow> nat option" where
  "index_of c [] = None"
| "index_of c (x # xs) = (if x = c then Some 0 else map_option Suc (index_of c xs))"

fun last_index_of :: "char \<Rightarrow> string \<Rightarrow> nat option" where
  "last_index_of c [] = None"
| "last_index_of c (x # xs) =
     (case last_index_of c xs of
        Some i \<Rightarrow> Some (Suc i)
      | None \<Rightarrow> if x = c then Some 0 else None)"

definition join_host_port :: "string \<Rightarrow> string \<Rightarrow> string" where
  "join_host_port host port =
     (if CHR '':'' \<in> set host then ''['' @ host @ '']:'' @ port else host @ '':'' @ port)"

datatype addr_error =
  MissingPort | TooManyColons | MissingBracket | UnexpectedOpen | UnexpectedClose

definition split_host_port :: "string \<Rightarrow> addr_error + (string \<times> string)" where
  "split_host_port hostport =
     (case last_index_of (CHR '':'') hostport of
        None \<Rightarrow> Inl MissingPort
      | Some i \<Rightarrow>
          (let finish = (\<lambda>host j k.
                 if CHR ''['' \<in> set (drop j hostport) then Inl UnexpectedOpen
                 else if CHR '']'' \<in> set (drop k hostport) then Inl UnexpectedClose
                 else Inr (host, drop (i + 1) hostport))
           in if hd hostport = CHR ''['' then
                (case index_of (CHR '']'') hostport of
                   None \<Rightarrow> Inl MissingBracket
                 | Some e \<Rightarrow>
                     if e + 1 = length hostport then Inl MissingPort
                     else if e + 1 = i then finish (take (e - 1) (drop 1 hostport)) 1 (e + 1)
                     else if hostport ! (e + 1) = CHR '':'' then Inl TooManyColons
                     else Inl MissingPort)
              else if CHR '':'' \<in> set (take i hostport) then Inl TooManyColons
              else finish (take i hostport) 0 0))"

lemmas [go_text_defs] =
  digit_chars_def int_dec_def quote_char_def quote_def digit_val_def parse_uint_def parse_int_def
  parse_bool_str_def has_prefix_def has_suffix_def trim_suffix_def cut_prefix_def
  trim_right_char_def join_host_port_def split_host_port_def

section \<open>Round trips\<close>

lemma digit_val_digit:
  assumes "d < 16"
  shows "digit_val (digit_chars upper ! d) = Some d"
proof -
  have "\<forall>d \<in> set [0..<16]. digit_val (digit_chars True ! d) = Some d"
    and "\<forall>d \<in> set [0..<16]. digit_val (digit_chars False ! d) = Some d" by code_simp+
  then show ?thesis using assms by (cases upper) auto
qed

lemma mod10_less16 [simp]: "n mod 10 < (16::nat)"
  by (rule less_trans [of _ 10]) simp_all

lemma digit_chars_plain:
  assumes "d < 16"
  shows "digit_chars upper ! d \<notin> set '':[]-+/\"''"
proof -
  have "\<forall>d \<in> set [0..<16]. digit_chars True ! d \<notin> set '':[]-+/\"''"
    and "\<forall>d \<in> set [0..<16]. digit_chars False ! d \<notin> set '':[]-+/\"''" by code_simp+
  then show ?thesis using assms by (cases upper) (auto simp del: set_simps)
qed

lemma parse_digits_snoc:
  "parse_digits b m acc (s @ [c]) =
     (case parse_digits b m acc s of Inl e \<Rightarrow> Inl e | Inr a \<Rightarrow> parse_digits b m a [c])"
  by (induction s arbitrary: acc) (auto split: option.splits)

lemma nat_dec_nonempty: "nat_dec n \<noteq> []"
  by (subst nat_dec.simps) simp

lemma nat_dec_plain: "c \<in> set (nat_dec n) \<Longrightarrow> c \<notin> set '':[]-+/\"''"
proof (induction n rule: nat_dec.induct)
  case (1 n)
  show ?case
  proof (cases "n < 10")
    case True
    then have "c = digit_chars False ! n" using "1.prems" by (subst (asm) nat_dec.simps) simp
    then show ?thesis using digit_chars_plain [of n False] True by simp
  next
    case False
    then have "c \<in> set (nat_dec (n div 10)) \<or> c = digit_chars False ! (n mod 10)"
      using "1.prems" by (subst (asm) nat_dec.simps) auto
    then show ?thesis using "1.IH" False digit_chars_plain [OF mod10_less16, of False] by blast
  qed
qed

lemma parse_digits_nat_dec: "n \<le> m \<Longrightarrow> parse_digits 10 m 0 (nat_dec n) = Inr n"
proof (induction n rule: nat_dec.induct)
  case (1 n)
  show ?case
  proof (cases "n < 10")
    case True
    then show ?thesis using "1.prems" by (subst nat_dec.simps) (simp add: digit_val_digit)
  next
    case False
    then have "parse_digits 10 m 0 (nat_dec (n div 10)) = Inr (n div 10)"
      using "1.IH" "1.prems" div_le_dividend order_trans by blast
    then show ?thesis using False "1.prems"
      by (subst nat_dec.simps) (simp add: parse_digits_snoc digit_val_digit mult.commute)
  qed
qed

theorem parse_uint_nat_dec: "n < 2 ^ bits \<Longrightarrow> parse_uint 10 bits (nat_dec n) = Inr n"
  by (simp add: parse_uint_def nat_dec_nonempty parse_digits_nat_dec less_Suc_eq_le [symmetric])

theorem parse_int_int_dec:
  assumes "0 \<le> i" and "i < 2 ^ (bits - 1)" and "0 < bits"
  shows "parse_int bits (int_dec i) = Inr i"
proof -
  obtain n where n: "i = int n" using assms(1) nonneg_int_cases by blast
  obtain c cs where s: "nat_dec n = c # cs" using nat_dec_nonempty by (cases "nat_dec n") auto
  have c: "c \<noteq> CHR ''-''" "c \<noteq> CHR ''+''" using nat_dec_plain [of c n] s by auto
  have lt: "n < 2 ^ (bits - 1)" using assms(2) n by simp
  also have "(2::nat) ^ (bits - 1) \<le> 2 ^ bits" by simp
  finally have p: "parse_uint 10 bits (c # cs) = Inr n" using parse_uint_nat_dec [of n bits] s by simp
  show ?thesis using c p lt by (simp add: parse_int_def int_dec_def n s Let_def)
qed

lemma hex_pad_nonempty: "hex_pad u (Suc n) k \<noteq> []"
  by simp

lemma parse_digits_hex_pad:
  "k < 16 ^ n \<Longrightarrow> k \<le> m \<Longrightarrow> parse_digits 16 m 0 (hex_pad u n k) = Inr k"
proof (induction n arbitrary: k)
  case 0
  then show ?case by simp
next
  case (Suc n)
  have "k div 16 < 16 ^ n" using Suc.prems(1) by (simp add: less_mult_imp_div_less mult.commute)
  moreover have "k div 16 \<le> m" using Suc.prems(2) by simp
  ultimately have "parse_digits 16 m 0 (hex_pad u n (k div 16)) = Inr (k div 16)" by (rule Suc.IH)
  then show ?case
    using Suc.prems by (simp add: parse_digits_snoc digit_val_digit mult.commute)
qed

theorem parse_uint_hex_pad:
  assumes "k < 16 ^ n" and "k < 2 ^ bits" and "0 < n"
  shows "parse_uint 16 bits (hex_pad u n k) = Inr k"
proof -
  obtain n' where "n = Suc n'" using assms(3) gr0_conv_Suc by blast
  then have "hex_pad u n k \<noteq> []" by simp
  then show ?thesis using assms
    by (simp add: parse_uint_def parse_digits_hex_pad less_Suc_eq_le [symmetric])
qed

lemma last_index_of_none: "c \<notin> set s \<Longrightarrow> last_index_of c s = None"
  by (induction s) auto

lemma last_index_of_append:
  "c \<notin> set t \<Longrightarrow> last_index_of c (s @ c # t) = Some (length s)"
  by (induction s) (auto simp: last_index_of_none)

lemma index_of_append: "c \<notin> set s \<Longrightarrow> index_of c (s @ c # t) = Some (length s)"
  by (induction s) auto

theorem split_join_host_port:
  assumes h: "CHR ''['' \<notin> set host" "CHR '']'' \<notin> set host"
    and p: "CHR '':'' \<notin> set port" "CHR ''['' \<notin> set port" "CHR '']'' \<notin> set port"
  shows "split_host_port (join_host_port host port) = Inr (host, port)"
proof (cases "CHR '':'' \<in> set host")
  case True
  let ?s = "''['' @ host @ '']:'' @ port"
  have l: "last_index_of (CHR '':'') ?s = Some (length host + 2)"
    using last_index_of_append [of "CHR '':''" port "''['' @ host @ '']''"] p(1) by simp
  have i: "index_of (CHR '']'') ?s = Some (length host + 1)"
    using index_of_append [of "CHR '']''" "''['' @ host" "'':'' @ port"] h(2) by simp
  show ?thesis using True h p l i
    by (simp add: join_host_port_def split_host_port_def Let_def)
next
  case False
  let ?s = "host @ '':'' @ port"
  have l: "last_index_of (CHR '':'') ?s = Some (length host)"
    using last_index_of_append [of "CHR '':''" port host] p(1) by simp
  have "hd ?s \<noteq> CHR ''[''" using h(1) by (cases host) auto
  then show ?thesis using False h p l
    by (simp add: join_host_port_def split_host_port_def Let_def)
qed

lemma split_on_nonempty [simp]: "split_on c s \<noteq> []"
  by (induction s) (auto split: list.split)

lemma split_on_line: "c \<notin> set l \<Longrightarrow> split_on c (l @ c # rest) = l # split_on c rest"
  by (induction l) auto

end
