(* ===== verification/Can_Pool.thy ===== *)
theory Can_Pool
  imports Go_Text
begin

text \<open>
  The CAN module address pool of one command station (\<^verbatim>\<open>packages/canpool\<close>): its configuration
  and \<^verbatim>\<open>Validate\<close>, and \<^verbatim>\<open>Pool\<close> with the two maps it keeps in step. The loops that count
  addresses in a \<^verbatim>\<open>uint16\<close> are \<^const>\<open>for_u16\<close> loops, so an operation that runs one returns an
  option: \<open>None\<close> is a loop that does not end. \<^verbatim>\<open>Validate\<close> bounds the range by 255, and
  from the pool invariant every loop ends.

  Lemmas: the invariant (the maps are inverse to each other, addresses in range) holds
  after every operation; the operations on every branch; the pool as a partial injective
  function from owners to addresses; and the interface \<open>address_pool\<close> that the
  CANDetector controller relies on, interpreted here on the pool.
\<close>

section \<open>Configuration\<close>

definition MaxModuleAddress :: u16 where
  "MaxModuleAddress = 255"

record pool_config =
  cfg_start :: u16
  cfg_end :: u16
  cfg_reserved :: "u16 list"

datatype pool_error =
    CfgStartZero | CfgEndTooHigh | CfgStartAfterEnd u16 u16
  | CfgReservedZero | CfgReservedOutside u16 u16 u16 | CfgDuplicateReserved u16
  | ErrAddressInUse u16 string | ErrAddressOutOfRange | ErrAddressReserved
  | ErrNoAddressAvailable | ErrOwnerAlreadyAssigned string u16 | ErrOwnerNotFound
  | OwnerRequired | AddressZero
  | AsgOwnerRequired | AsgAddressRequired string | AsgOutOfRange u16 string
  | AsgDuplicateAddress u16 string string | AsgDuplicateOwner string u16 u16

definition u16_dec :: "u16 \<Rightarrow> string" where
  "u16_dec w = nat_dec (unat w)"

text \<open>\<^verbatim>\<open>err.Error()\<close>, which the controllers copy into status messages.\<close>

fun pool_error_text :: "pool_error \<Rightarrow> string" where
  "pool_error_text CfgStartZero = ''canpool: start address must be >= 1''"
| "pool_error_text CfgEndTooHigh =
     ''canpool: end address must be <= '' @ u16_dec MaxModuleAddress"
| "pool_error_text (CfgStartAfterEnd s e) =
     ''canpool: start address '' @ u16_dec s @ '' must be <= end address '' @ u16_dec e"
| "pool_error_text CfgReservedZero = ''canpool: reserved address must be >= 1''"
| "pool_error_text (CfgReservedOutside a s e) =
     ''canpool: reserved address '' @ u16_dec a @ '' outside range '' @ u16_dec s @ ''-'' @ u16_dec e"
| "pool_error_text (CfgDuplicateReserved a) = ''canpool: duplicate reserved address '' @ u16_dec a"
| "pool_error_text (ErrAddressInUse a other) =
     ''canpool: address '' @ u16_dec a @ '' assigned to '' @ quote other
       @ '': canpool: address already assigned''"
| "pool_error_text ErrAddressOutOfRange = ''canpool: address outside pool range''"
| "pool_error_text ErrAddressReserved = ''canpool: address is reserved for manual use''"
| "pool_error_text ErrNoAddressAvailable = ''canpool: no address available in range''"
| "pool_error_text (ErrOwnerAlreadyAssigned owner existing) =
     ''canpool: owner '' @ quote owner @ '' already has address '' @ u16_dec existing
       @ '': canpool: owner already has an address''"
| "pool_error_text ErrOwnerNotFound = ''canpool: owner has no assignment''"
| "pool_error_text OwnerRequired = ''canpool: owner is required''"
| "pool_error_text AddressZero = ''canpool: address must be >= 1''"
| "pool_error_text AsgOwnerRequired = ''canpool: assignment owner is required''"
| "pool_error_text (AsgAddressRequired owner) =
     ''canpool: assignment address is required for owner '' @ quote owner"
| "pool_error_text (AsgOutOfRange a owner) =
     ''canpool: assignment address '' @ u16_dec a @ '' for owner '' @ quote owner
       @ '': canpool: address outside pool range''"
| "pool_error_text (AsgDuplicateAddress a other owner) =
     ''canpool: duplicate assignment for address '' @ u16_dec a @ '' ('' @ quote other
       @ '' and '' @ quote owner @ '')''"
| "pool_error_text (AsgDuplicateOwner owner prev a) =
     ''canpool: duplicate assignment for owner '' @ quote owner @ '' (addresses ''
       @ u16_dec prev @ '' and '' @ u16_dec a @ '')''"

fun validate_reserved ::
  "pool_config \<Rightarrow> (u16, unit) gomap \<Rightarrow> u16 list \<Rightarrow> pool_error option" where
  "validate_reserved c seen [] = None"
| "validate_reserved c seen (addr # rest) =
     (if addr = 0 then Some CfgReservedZero
      else if addr < cfg_start c \<or> cfg_end c < addr
      then Some (CfgReservedOutside addr (cfg_start c) (cfg_end c))
      else if gm_has seen addr then Some (CfgDuplicateReserved addr)
      else validate_reserved c (gm_set addr () seen) rest)"

definition config_Validate :: "pool_config \<Rightarrow> pool_error option" where
  "config_Validate c =
     (if cfg_start c = 0 then Some CfgStartZero
      else if MaxModuleAddress < cfg_end c then Some CfgEndTooHigh
      else if cfg_end c < cfg_start c then Some (CfgStartAfterEnd (cfg_start c) (cfg_end c))
      else validate_reserved c [] (cfg_reserved c))"

definition reservedSet :: "pool_config \<Rightarrow> (u16, unit) gomap" where
  "reservedSet c = fold (\<lambda>addr m. gm_set addr () m) (cfg_reserved c) []"

record pool_stats =
  RangeSize :: int
  Reserved :: int
  Allocated :: int
  AutoAvailable :: int

section \<open>The pool\<close>

record assignment =
  asg_owner :: string
  asg_address :: u16
  asg_netid :: u16

record pool =
  pool_cfg :: pool_config
  reserved :: "(u16, unit) gomap"
  ownerByAddr :: "(u16, string) gomap"
  addrByOwner :: "(string, u16) gomap"

definition pool_New :: "pool_config \<Rightarrow> pool_error + pool" where
  "pool_New c =
     (case config_Validate c of
        Some e \<Rightarrow> Inl e
      | None \<Rightarrow> Inr \<lparr>pool_cfg = c, reserved = reservedSet c, ownerByAddr = [], addrByOwner = []\<rparr>)"

definition pool_Config :: "pool \<Rightarrow> pool_config" where
  "pool_Config p = pool_cfg p"

definition inRange :: "pool \<Rightarrow> u16 \<Rightarrow> bool" where
  "inRange p addr \<longleftrightarrow> cfg_start (pool_cfg p) \<le> addr \<and> addr \<le> cfg_end (pool_cfg p)"

definition isReserved :: "pool \<Rightarrow> u16 \<Rightarrow> bool" where
  "isReserved p addr = gm_has (reserved p) addr"

definition bind_addr :: "pool \<Rightarrow> string \<Rightarrow> u16 \<Rightarrow> pool" where
  "bind_addr p owner addr =
     p\<lparr>ownerByAddr := gm_set addr owner (ownerByAddr p),
       addrByOwner := gm_set owner addr (addrByOwner p)\<rparr>"

text \<open>\<^verbatim>\<open>Rebuild\<close> stops at the first bad assignment and keeps what it stored before.\<close>

fun rebuild_loop :: "pool \<Rightarrow> assignment list \<Rightarrow> pool \<times> pool_error option" where
  "rebuild_loop p [] = (p, None)"
| "rebuild_loop p (a # as) =
     (if asg_owner a = [] then (p, Some AsgOwnerRequired)
      else if asg_address a = 0 then (p, Some (AsgAddressRequired (asg_owner a)))
      else if \<not> inRange p (asg_address a)
      then (p, Some (AsgOutOfRange (asg_address a) (asg_owner a)))
      else (case gm_get (ownerByAddr p) (asg_address a) of
              Some other \<Rightarrow> (p, Some (AsgDuplicateAddress (asg_address a) other (asg_owner a)))
            | None \<Rightarrow>
                (case gm_get (addrByOwner p) (asg_owner a) of
                   Some prev \<Rightarrow> (p, Some (AsgDuplicateOwner (asg_owner a) prev (asg_address a)))
                 | None \<Rightarrow> rebuild_loop (bind_addr p (asg_owner a) (asg_address a)) as)))"

definition pool_Rebuild :: "pool \<Rightarrow> assignment list \<Rightarrow> pool \<times> pool_error option" where
  "pool_Rebuild p as = rebuild_loop (p\<lparr>ownerByAddr := [], addrByOwner := []\<rparr>) as"

definition pool_Allocate :: "pool \<Rightarrow> string \<Rightarrow> (pool \<times> (pool_error + u16)) option" where
  "pool_Allocate p owner =
     (if owner = [] then Some (p, Inl OwnerRequired)
      else (case gm_get (addrByOwner p) owner of
              Some addr \<Rightarrow> Some (p, Inr addr)
            | None \<Rightarrow>
                (case for_u16 (cfg_start (pool_cfg p)) (cfg_end (pool_cfg p))
                        (\<lambda>s addr.
                           if isReserved p addr then Inl s
                           else if gm_has (ownerByAddr p) addr then Inl s
                           else Inr (bind_addr p owner addr, addr)) () of
                   None \<Rightarrow> None
                 | Some (Inl _) \<Rightarrow> Some (p, Inl ErrNoAddressAvailable)
                 | Some (Inr (p', addr)) \<Rightarrow> Some (p', Inr addr))))"

definition pool_Claim :: "pool \<Rightarrow> string \<Rightarrow> u16 \<Rightarrow> pool \<times> pool_error option" where
  "pool_Claim p owner addr =
     (if owner = [] then (p, Some OwnerRequired)
      else if addr = 0 then (p, Some AddressZero)
      else if \<not> inRange p addr then (p, Some ErrAddressOutOfRange)
      else (case gm_get (addrByOwner p) owner of
              Some existing \<Rightarrow>
                if existing = addr then (p, None)
                else (p, Some (ErrOwnerAlreadyAssigned owner existing))
            | None \<Rightarrow>
                (case gm_get (ownerByAddr p) addr of
                   Some other \<Rightarrow> (p, Some (ErrAddressInUse addr other))
                 | None \<Rightarrow> (bind_addr p owner addr, None))))"

definition pool_Release :: "pool \<Rightarrow> string \<Rightarrow> pool \<times> pool_error option" where
  "pool_Release p owner =
     (if owner = [] then (p, Some OwnerRequired)
      else (case gm_get (addrByOwner p) owner of
              None \<Rightarrow> (p, Some ErrOwnerNotFound)
            | Some addr \<Rightarrow>
                (p\<lparr>addrByOwner := gm_del owner (addrByOwner p),
                   ownerByAddr := gm_del addr (ownerByAddr p)\<rparr>, None)))"

definition pool_ReleaseAddress :: "pool \<Rightarrow> u16 \<Rightarrow> pool \<times> pool_error option" where
  "pool_ReleaseAddress p addr =
     (case gm_get (ownerByAddr p) addr of
        None \<Rightarrow> (p, Some ErrOwnerNotFound)
      | Some owner \<Rightarrow> pool_Release p owner)"

definition pool_OwnerOf :: "pool \<Rightarrow> u16 \<Rightarrow> string option" where
  "pool_OwnerOf p addr = gm_get (ownerByAddr p) addr"

definition pool_AddressOf :: "pool \<Rightarrow> string \<Rightarrow> u16 option" where
  "pool_AddressOf p owner = gm_get (addrByOwner p) owner"

definition pool_IsAvailable :: "pool \<Rightarrow> u16 \<Rightarrow> bool" where
  "pool_IsAvailable p addr \<longleftrightarrow> inRange p addr \<and> \<not> gm_has (ownerByAddr p) addr"

definition pool_IsAutoAllocatable :: "pool \<Rightarrow> u16 \<Rightarrow> bool" where
  "pool_IsAutoAllocatable p addr \<longleftrightarrow> pool_IsAvailable p addr \<and> \<not> isReserved p addr"

definition pool_Available :: "pool \<Rightarrow> u16 list option" where
  "pool_Available p =
     map_option projl
       (for_u16 (cfg_start (pool_cfg p)) (cfg_end (pool_cfg p))
          (\<lambda>out addr. Inl (if pool_IsAutoAllocatable p addr then out @ [addr] else out)
             :: u16 list + unit) [])"

definition pool_Assignments :: "pool \<Rightarrow> assignment list" where
  "pool_Assignments p =
     sort_key asg_address
       (map (\<lambda>(addr, owner). \<lparr>asg_owner = owner, asg_address = addr, asg_netid = 0\<rparr>)
          (ownerByAddr p))"

definition pool_Stats :: "pool \<Rightarrow> pool_stats option" where
  "pool_Stats p =
     (case for_u16 (cfg_start (pool_cfg p)) (cfg_end (pool_cfg p))
             (\<lambda>n addr. Inl (if pool_IsAutoAllocatable p addr then Suc n else n) :: nat + unit) 0 of
        None \<Rightarrow> None
      | Some autoAvail \<Rightarrow>
          Some \<lparr>RangeSize = int (unat (cfg_end (pool_cfg p) - cfg_start (pool_cfg p))) + 1,
                Reserved = int (length (reserved p)),
                Allocated = int (length (ownerByAddr p)),
                AutoAvailable = int (projl autoAvail)\<rparr>)"

section \<open>Configuration lemmas\<close>

lemma validate_reserved_None:
  "validate_reserved c seen rs = None \<longleftrightarrow>
     (\<forall>a \<in> set rs. a \<noteq> 0 \<and> cfg_start c \<le> a \<and> a \<le> cfg_end c \<and> \<not> gm_has seen a) \<and> distinct rs"
  by (induction rs arbitrary: seen) (auto simp: not_less)

lemma config_Validate_None:
  "config_Validate c = None \<longleftrightarrow>
     cfg_start c \<noteq> 0 \<and> cfg_end c \<le> MaxModuleAddress \<and> cfg_start c \<le> cfg_end c \<and>
     distinct (cfg_reserved c) \<and>
     (\<forall>a \<in> set (cfg_reserved c). cfg_start c \<le> a \<and> a \<le> cfg_end c)"
  by (auto simp: config_Validate_def validate_reserved_None not_less)

lemma config_valid_end: "config_Validate c = None \<Longrightarrow> cfg_end c < 0xFFFF"
  by (auto simp: config_Validate_None MaxModuleAddress_def intro: le_less_trans)

lemma fold_reserved_has:
  "gm_has (fold (\<lambda>addr m. gm_set addr () m) rs m) a \<longleftrightarrow> a \<in> set rs \<or> gm_has m a"
  by (induction rs arbitrary: m) auto

lemma fold_reserved_wf: "gm_wf m \<Longrightarrow> gm_wf (fold (\<lambda>addr m. gm_set addr () m) rs m)"
  by (induction rs arbitrary: m) auto

lemma reservedSet_has: "gm_has (reservedSet c) a \<longleftrightarrow> a \<in> set (cfg_reserved c)"
  by (simp add: reservedSet_def fold_reserved_has)

lemma reservedSet_wf: "gm_wf (reservedSet c)"
  by (simp add: reservedSet_def fold_reserved_wf)

section \<open>The invariant\<close>

definition pool_inv :: "pool \<Rightarrow> bool" where
  "pool_inv p \<longleftrightarrow>
     config_Validate (pool_cfg p) = None \<and> reserved p = reservedSet (pool_cfg p) \<and>
     gm_wf (ownerByAddr p) \<and> gm_wf (addrByOwner p) \<and>
     (\<forall>a w. gm_get (ownerByAddr p) a = Some w \<longleftrightarrow> gm_get (addrByOwner p) w = Some a) \<and>
     (\<forall>a. gm_has (ownerByAddr p) a \<longrightarrow> inRange p a) \<and>
     \<not> gm_has (addrByOwner p) []"

lemma pool_inv_config: "pool_inv p \<Longrightarrow> config_Validate (pool_cfg p) = None"
  by (simp add: pool_inv_def)

lemma pool_inv_inverse:
  "pool_inv p \<Longrightarrow> gm_get (ownerByAddr p) a = Some w \<longleftrightarrow> gm_get (addrByOwner p) w = Some a"
  by (simp add: pool_inv_def)

lemma pool_inv_inRange: "pool_inv p \<Longrightarrow> gm_get (ownerByAddr p) a = Some w \<Longrightarrow> inRange p a"
  unfolding pool_inv_def gm_has_iff by (metis option.distinct(1))

lemma pool_inv_end: "pool_inv p \<Longrightarrow> cfg_end (pool_cfg p) < 0xFFFF"
  by (simp add: pool_inv_config config_valid_end)

lemma inRange_range: "inRange p a \<longleftrightarrow> a \<in> set (u16_range (cfg_start (pool_cfg p)) (cfg_end (pool_cfg p)))"
  by (simp add: inRange_def set_u16_range)

lemma inRange_nonzero: "pool_inv p \<Longrightarrow> inRange p a \<Longrightarrow> a \<noteq> 0"
  by (auto simp: inRange_def dest!: pool_inv_config simp: config_Validate_None)

lemma bind_addr_simps [simp]:
  "pool_cfg (bind_addr p w a) = pool_cfg p"
  "reserved (bind_addr p w a) = reserved p"
  "inRange (bind_addr p w a) b = inRange p b"
  "gm_get (ownerByAddr (bind_addr p w a)) b = (if b = a then Some w else gm_get (ownerByAddr p) b)"
  "gm_get (addrByOwner (bind_addr p w a)) u = (if u = w then Some a else gm_get (addrByOwner p) u)"
  by (simp_all add: bind_addr_def inRange_def)

lemma pool_inv_bind:
  assumes "pool_inv p" and "w \<noteq> []" and "inRange p a"
    and "gm_get (ownerByAddr p) a = None" and "gm_get (addrByOwner p) w = None"
  shows "pool_inv (bind_addr p w a)"
  using assms
  by (auto simp: pool_inv_def bind_addr_def gm_has_iff inRange_def)
     (metis option.distinct(1) option.inject)+

lemma pool_inv_New: "pool_New c = Inr p \<Longrightarrow> pool_inv p"
  by (auto simp: pool_New_def pool_inv_def split: option.splits)

lemma pool_inv_clear: "pool_inv p \<Longrightarrow> pool_inv (p\<lparr>ownerByAddr := [], addrByOwner := []\<rparr>)"
  by (simp add: pool_inv_def)

lemma rebuild_loop_inv: "pool_inv p \<Longrightarrow> pool_inv (fst (rebuild_loop p as))"
  by (induction as arbitrary: p) (auto split: option.splits intro: pool_inv_bind)

lemma pool_Rebuild_inv: "pool_inv p \<Longrightarrow> pool_inv (fst (pool_Rebuild p as))"
  by (simp add: pool_Rebuild_def rebuild_loop_inv pool_inv_clear)

lemma pool_Claim_inv: "pool_inv p \<Longrightarrow> pool_inv (fst (pool_Claim p w a))"
  by (auto simp: pool_Claim_def split: option.splits intro: pool_inv_bind)

lemma pool_Release_inv: "pool_inv p \<Longrightarrow> pool_inv (fst (pool_Release p w))"
  by (auto simp: pool_Release_def pool_inv_def gm_has_iff inRange_def split: option.splits)
     (metis option.inject)

lemma pool_ReleaseAddress_inv: "pool_inv p \<Longrightarrow> pool_inv (fst (pool_ReleaseAddress p a))"
  by (auto simp: pool_ReleaseAddress_def pool_Release_inv split: option.splits)

section \<open>Allocate\<close>

definition free_addrs :: "pool \<Rightarrow> u16 list" where
  "free_addrs p =
     filter (pool_IsAutoAllocatable p) (u16_range (cfg_start (pool_cfg p)) (cfg_end (pool_cfg p)))"

lemma set_free_addrs: "a \<in> set (free_addrs p) \<longleftrightarrow> pool_IsAutoAllocatable p a"
  by (auto simp: free_addrs_def inRange_range [symmetric] pool_IsAutoAllocatable_def
      pool_IsAvailable_def)

lemma free_addrs_lowest:
  assumes "free_addrs p = a # as"
  shows "pool_IsAutoAllocatable p a" and "pool_IsAutoAllocatable p b \<Longrightarrow> a \<le> b"
proof -
  have "sorted_wrt (<) (free_addrs p)"
    by (simp add: free_addrs_def sorted_wrt_filter sorted_u16_range)
  then have "\<forall>b \<in> set (free_addrs p). a \<le> b" using assms by (auto intro: less_imp_le)
  then show "pool_IsAutoAllocatable p a" and "pool_IsAutoAllocatable p b \<Longrightarrow> a \<le> b"
    using assms by (auto simp: set_free_addrs [symmetric])
qed

lemma free_addrs_none: "free_addrs p = [] \<Longrightarrow> \<not> pool_IsAutoAllocatable p b"
  using set_free_addrs [of b p] by simp

lemma alloc_body:
  "loop_list (\<lambda>s addr. if isReserved p addr then Inl s
       else if gm_has (ownerByAddr p) addr then Inl s else Inr (bind_addr p w addr, addr)) s xs =
   (case find (\<lambda>a. \<not> isReserved p a \<and> \<not> gm_has (ownerByAddr p) a) xs of
      None \<Rightarrow> Inl s | Some a \<Rightarrow> Inr (bind_addr p w a, a))"
  by (induction xs) auto

lemma find_free:
  "find (\<lambda>a. \<not> isReserved p a \<and> \<not> gm_has (ownerByAddr p) a)
     (u16_range (cfg_start (pool_cfg p)) (cfg_end (pool_cfg p))) =
   (case free_addrs p of [] \<Rightarrow> None | a # _ \<Rightarrow> Some a)"
proof -
  have "filter (\<lambda>a. \<not> isReserved p a \<and> \<not> gm_has (ownerByAddr p) a)
     (u16_range (cfg_start (pool_cfg p)) (cfg_end (pool_cfg p))) = free_addrs p"
    unfolding free_addrs_def
    by (rule filter_cong)
       (auto simp: pool_IsAutoAllocatable_def pool_IsAvailable_def inRange_range)
  then show ?thesis by (simp add: find_eq_hd_filter)
qed

lemma pool_Allocate_eq:
  assumes "cfg_end (pool_cfg p) < 0xFFFF"
  shows "pool_Allocate p w =
     Some (if w = [] then (p, Inl OwnerRequired)
           else (case gm_get (addrByOwner p) w of
                   Some a \<Rightarrow> (p, Inr a)
                 | None \<Rightarrow>
                     (case free_addrs p of
                        [] \<Rightarrow> (p, Inl ErrNoAddressAvailable)
                      | a # _ \<Rightarrow> (bind_addr p w a, Inr a))))"
  by (simp add: pool_Allocate_def for_u16_list [OF assms] alloc_body find_free
      split: option.splits list.splits)

lemma pool_Allocate_inv:
  assumes "pool_inv p" and "pool_Allocate p w = Some (p', r)"
  shows "pool_inv p'"
proof -
  have "free_addrs p = a # as \<Longrightarrow> pool_IsAutoAllocatable p a" for a as
    using set_free_addrs [of a p] by simp
  then show ?thesis
    using assms
    by (auto simp: pool_Allocate_eq [OF pool_inv_end [OF assms(1)]] pool_IsAutoAllocatable_def
        pool_IsAvailable_def gm_has_iff split: if_splits option.splits list.splits
        intro: pool_inv_bind)
qed

section \<open>Runs of the pool\<close>

datatype pool_op =
  OpRebuild "assignment list" | OpAllocate string | OpClaim string u16
  | OpRelease string | OpReleaseAddress u16

fun pool_step :: "pool \<Rightarrow> pool_op \<Rightarrow> pool" where
  "pool_step p (OpRebuild as) = fst (pool_Rebuild p as)"
| "pool_step p (OpAllocate w) = (case pool_Allocate p w of None \<Rightarrow> p | Some (p', _) \<Rightarrow> p')"
| "pool_step p (OpClaim w a) = fst (pool_Claim p w a)"
| "pool_step p (OpRelease w) = fst (pool_Release p w)"
| "pool_step p (OpReleaseAddress a) = fst (pool_ReleaseAddress p a)"

lemma pool_step_inv: "pool_inv p \<Longrightarrow> pool_inv (pool_step p e)"
  by (cases e)
     (auto simp: pool_Rebuild_inv pool_Claim_inv pool_Release_inv pool_ReleaseAddress_inv
       split: option.splits dest: pool_Allocate_inv)

interpretation pool_machine: invariant_machine pool_step pool_inv
  by unfold_locales (rule pool_step_inv)

section \<open>Rebuild\<close>

definition assignments_ok :: "pool \<Rightarrow> assignment list \<Rightarrow> bool" where
  "assignments_ok p as \<longleftrightarrow>
     (\<forall>a \<in> set as. asg_owner a \<noteq> [] \<and> asg_address a \<noteq> 0 \<and> inRange p (asg_address a)) \<and>
     distinct (map asg_address as) \<and> distinct (map asg_owner as)"

lemma rebuild_loop_success:
  "snd (rebuild_loop p as) = None \<longleftrightarrow>
     assignments_ok p as \<and>
     (\<forall>a \<in> set as. gm_get (ownerByAddr p) (asg_address a) = None \<and>
                   gm_get (addrByOwner p) (asg_owner a) = None)"
proof (induction as arbitrary: p)
  case Nil
  then show ?case by (simp add: assignments_ok_def)
next
  case (Cons a as)
  show ?case
    by (auto simp: Cons.IH assignments_ok_def split: option.splits if_splits) (metis imageI)+
qed

lemma rebuild_loop_lookup:
  assumes "snd (rebuild_loop p as) = None"
  shows "gm_get (addrByOwner (fst (rebuild_loop p as))) w =
    (case map_of (map (\<lambda>a. (asg_owner a, asg_address a)) as) w of
       Some a \<Rightarrow> Some a | None \<Rightarrow> gm_get (addrByOwner p) w)"
  using assms
proof (induction as arbitrary: p)
  case Nil
  then show ?case by simp
next
  case (Cons a as)
  have ok: "assignments_ok p (a # as)"
    and none: "gm_get (ownerByAddr p) (asg_address a) = None" "gm_get (addrByOwner p) (asg_owner a) = None"
    using Cons.prems by (simp_all only: rebuild_loop_success list.set(2) insert_iff) auto
  have "map_of (map (\<lambda>a. (asg_owner a, asg_address a)) as) (asg_owner a) = None"
    using ok by (auto simp: assignments_ok_def map_of_eq_None_iff)
  moreover have "snd (rebuild_loop (bind_addr p (asg_owner a) (asg_address a)) as) = None"
    and "fst (rebuild_loop p (a # as)) = fst (rebuild_loop (bind_addr p (asg_owner a) (asg_address a)) as)"
    using Cons.prems ok none by (simp_all add: assignments_ok_def)
  ultimately show ?case by (auto simp: Cons.IH split: option.splits)
qed

lemma pool_Rebuild_success: "snd (pool_Rebuild p as) = None \<longleftrightarrow> assignments_ok p as"
  by (simp add: pool_Rebuild_def rebuild_loop_success assignments_ok_def inRange_def)

lemma pool_Rebuild_lookup:
  "snd (pool_Rebuild p as) = None \<Longrightarrow>
   gm_get (addrByOwner (fst (pool_Rebuild p as))) w =
     map_of (map (\<lambda>a. (asg_owner a, asg_address a)) as) w"
  by (simp add: pool_Rebuild_def rebuild_loop_lookup split: option.splits)

lemma rebuild_loop_cfg: "pool_cfg (fst (rebuild_loop p as)) = pool_cfg p"
  by (induction as arbitrary: p) (auto split: option.splits)

lemma pool_Rebuild_cfg: "pool_cfg (fst (pool_Rebuild p as)) = pool_cfg p"
  by (simp add: pool_Rebuild_def rebuild_loop_cfg)

section \<open>Assignments\<close>

lemma inj_on_snd_inverse:
  assumes "\<And>a w. map_of xs a = Some w \<longleftrightarrow> g w = Some a" and "distinct (map fst xs)"
  shows "inj_on snd (set xs)"
proof (rule inj_onI)
  fix x y assume xy: "x \<in> set xs" "y \<in> set xs" "snd x = snd y"
  obtain a b w where e: "x = (a, w)" "y = (b, w)" using xy(3) by (metis prod.collapse)
  have "map_of xs a = Some w" "map_of xs b = Some w"
    using xy(1,2) assms(2) unfolding e by (blast intro: map_of_is_SomeI)+
  then have "a = b" using assms(1) [of a w] assms(1) [of b w] by simp
  then show "x = y" using e by simp
qed

lemma map_of_swap:
  assumes "\<And>a w. map_of xs a = Some w \<longleftrightarrow> g w = Some a" and "distinct (map fst xs)"
  shows "map_of (map (\<lambda>(a, w). (w, a)) xs) w = g w"
proof -
  have "distinct xs" using assms(2) by (simp add: distinct_map)
  then have d: "distinct (map fst (map (\<lambda>(a, w). (w, a)) xs))"
    using inj_on_snd_inverse [OF assms] by (simp add: distinct_map comp_def case_prod_unfold)
  show ?thesis
  proof (cases "g w")
    case None
    have "(a, w) \<notin> set xs" for a
      using None assms(1) [of a w] map_of_is_SomeI [OF assms(2), of a w] by auto
    then show ?thesis using None by (auto simp: map_of_eq_None_iff)
  next
    case (Some a)
    then have "(a, w) \<in> set xs" using assms(1) [of a w] by (simp add: map_of_SomeD)
    then have "(w, a) \<in> set (map (\<lambda>(a, w). (w, a)) xs)" by force
    then show ?thesis unfolding Some by (rule map_of_is_SomeI [OF d])
  qed
qed

lemma mset_Assignments:
  "mset (pool_Assignments p) =
   mset (map (\<lambda>(addr, owner). \<lparr>asg_owner = owner, asg_address = addr, asg_netid = 0\<rparr>) (ownerByAddr p))"
  by (simp add: pool_Assignments_def)

lemma Assignments_owner_map:
  assumes "pool_inv p"
  shows "map_of (map (\<lambda>a. (asg_owner a, asg_address a)) (pool_Assignments p)) w = gm_get (addrByOwner p) w"
    and "distinct (map asg_owner (pool_Assignments p))"
    and "distinct (map asg_address (pool_Assignments p))"
proof -
  have wf: "distinct (map fst (ownerByAddr p))"
    and inv: "\<And>a w. map_of (ownerByAddr p) a = Some w \<longleftrightarrow> gm_get (addrByOwner p) w = Some a"
    using assms by (simp_all add: pool_inv_def gm_wf_def gm_get_def)
  have sw: "map_of (map (\<lambda>(a, w). (w, a)) (ownerByAddr p)) w = gm_get (addrByOwner p) w" for w
    using inv wf by (rule map_of_swap)
  let ?ps = "map (\<lambda>a. (asg_owner a, asg_address a)) (pool_Assignments p)"
  have "mset ?ps = mset (map (\<lambda>(a, w). (w, a)) (ownerByAddr p))"
    by (simp add: mset_Assignments image_mset.compositionality comp_def case_prod_unfold)
  moreover have "mset (map asg_address (pool_Assignments p)) = mset (map fst (ownerByAddr p))"
    by (simp add: mset_Assignments image_mset.compositionality comp_def case_prod_unfold)
  ultimately show "distinct (map asg_address (pool_Assignments p))"
    using wf mset_eq_imp_distinct_iff by blast
  have "inj_on snd (set (ownerByAddr p))"
    using inv wf by (rule inj_on_snd_inverse)
  then have "distinct (map snd (ownerByAddr p))"
    using wf by (simp add: distinct_map)
  moreover have "mset (map asg_owner (pool_Assignments p)) = mset (map snd (ownerByAddr p))"
    by (simp add: mset_Assignments image_mset.compositionality comp_def case_prod_unfold)
  ultimately show dw: "distinct (map asg_owner (pool_Assignments p))"
    using mset_eq_imp_distinct_iff by blast
  have "set ?ps = set (map (\<lambda>(a, w). (w, a)) (ownerByAddr p))"
    using \<open>mset ?ps = _\<close> mset_eq_setD by blast
  moreover have "distinct (map fst ?ps)" using dw by (simp add: comp_def)
  moreover have "distinct (map fst (map (\<lambda>(a, w). (w, a)) (ownerByAddr p)))"
    using \<open>distinct (map snd (ownerByAddr p))\<close> by (simp add: comp_def case_prod_unfold)
  ultimately have "map_of ?ps = map_of (map (\<lambda>(a, w). (w, a)) (ownerByAddr p))"
    by (simp add: map_of_inject_set)
  then show "map_of ?ps w = gm_get (addrByOwner p) w" by (simp add: sw)
qed

lemma pool_inv_wf: "pool_inv p \<Longrightarrow> gm_wf (ownerByAddr p)"
  by (simp add: pool_inv_def)

lemma set_Assignments:
  "set (pool_Assignments p) =
   (\<lambda>(addr, owner). \<lparr>asg_owner = owner, asg_address = addr, asg_netid = 0\<rparr>) ` set (ownerByAddr p)"
  by (simp add: pool_Assignments_def)

lemma Assignments_ok:
  assumes "pool_inv p"
  shows "assignments_ok p (pool_Assignments p)"
proof -
  have "asg_owner a \<noteq> [] \<and> asg_address a \<noteq> 0 \<and> inRange p (asg_address a)"
    if "a \<in> set (pool_Assignments p)" for a
  proof -
    from that have "(asg_address a, asg_owner a) \<in> set (ownerByAddr p)"
      by (auto simp: set_Assignments)
    then have g: "gm_get (ownerByAddr p) (asg_address a) = Some (asg_owner a)"
      using assms by (simp add: gm_get_in pool_inv_wf)
    then have "inRange p (asg_address a)" using assms by (rule pool_inv_inRange [rotated])
    moreover have "asg_owner a \<noteq> []"
      using g assms by (auto simp: pool_inv_def gm_has_iff)
    ultimately show ?thesis using inRange_nonzero [OF assms] by blast
  qed
  then show ?thesis
    using Assignments_owner_map [OF assms] by (simp add: assignments_ok_def)
qed

section \<open>Available and Stats\<close>

lemma pool_Available_eq:
  assumes "pool_inv p"
  shows "pool_Available p = Some (free_addrs p)"
  by (simp add: pool_Available_def for_u16_list [OF pool_inv_end [OF assms]] loop_list_filter
      free_addrs_def)

lemma pool_Stats_eq:
  assumes "pool_inv p"
  shows "pool_Stats p =
     Some \<lparr>RangeSize = int (unat (cfg_end (pool_cfg p) - cfg_start (pool_cfg p))) + 1,
           Reserved = int (length (reserved p)), Allocated = int (length (ownerByAddr p)),
           AutoAvailable = int (length (free_addrs p))\<rparr>"
  by (simp add: pool_Stats_def for_u16_list [OF pool_inv_end [OF assms]] loop_list_count
      free_addrs_def)

lemma range_size:
  assumes "pool_inv p"
  shows "unat (cfg_end (pool_cfg p) - cfg_start (pool_cfg p)) + 1 =
         length (u16_range (cfg_start (pool_cfg p)) (cfg_end (pool_cfg p)))"
proof -
  have "cfg_start (pool_cfg p) \<le> cfg_end (pool_cfg p)"
    using pool_inv_config [OF assms] by (simp add: config_Validate_None)
  then show ?thesis
    by (simp add: length_u16_range unat_sub word_le_nat_alt Suc_diff_le)
qed

lemma length_reserved:
  assumes "pool_inv p"
  shows "length (reserved p) = length (cfg_reserved (pool_cfg p))"
proof -
  have r: "reserved p = reservedSet (pool_cfg p)" using assms by (simp add: pool_inv_def)
  have "length (reserved p) = card (set (cfg_reserved (pool_cfg p)))"
    by (simp add: r gm_length_card [OF reservedSet_wf] reservedSet_has)
  also have "\<dots> = length (cfg_reserved (pool_cfg p))"
    using pool_inv_config [OF assms] by (simp add: config_Validate_None distinct_card)
  finally show ?thesis .
qed

lemma length_owners:
  assumes "pool_inv p"
  shows "length (ownerByAddr p) =
    length (filter (gm_has (ownerByAddr p)) (u16_range (cfg_start (pool_cfg p)) (cfg_end (pool_cfg p))))"
proof -
  have "{a. gm_has (ownerByAddr p) a} =
        set (filter (gm_has (ownerByAddr p)) (u16_range (cfg_start (pool_cfg p)) (cfg_end (pool_cfg p))))"
    using assms by (auto simp: pool_inv_def inRange_range)
  then show ?thesis
    using gm_length_card [OF pool_inv_wf [OF assms]] distinct_u16_range
    by (metis distinct_card distinct_filter)
qed

definition reserved_unassigned :: "pool \<Rightarrow> u16 list" where
  "reserved_unassigned p = filter (\<lambda>a. \<not> gm_has (ownerByAddr p) a) (cfg_reserved (pool_cfg p))"

lemma length_filter_split:
  "length (filter P xs) = length (filter (\<lambda>x. P x \<and> Q x) xs) + length (filter (\<lambda>x. P x \<and> \<not> Q x) xs)"
  by (induction xs) auto

lemma length_reserved_unassigned:
  assumes "pool_inv p"
  shows "length (reserved_unassigned p) =
    length (filter (\<lambda>a. \<not> gm_has (ownerByAddr p) a \<and> isReserved p a)
      (u16_range (cfg_start (pool_cfg p)) (cfg_end (pool_cfg p))))"
proof -
  let ?R = "u16_range (cfg_start (pool_cfg p)) (cfg_end (pool_cfg p))"
  have c: "config_Validate (pool_cfg p) = None" and r: "reserved p = reservedSet (pool_cfg p)"
    using assms by (simp_all add: pool_inv_def)
  have "set (reserved_unassigned p) = set (filter (\<lambda>a. \<not> gm_has (ownerByAddr p) a \<and> isReserved p a) ?R)"
    using c by (auto simp: reserved_unassigned_def isReserved_def r reservedSet_has set_u16_range
        config_Validate_None)
  moreover have "distinct (reserved_unassigned p)"
    using c by (simp add: reserved_unassigned_def config_Validate_None)
  moreover have "distinct (filter (\<lambda>a. \<not> gm_has (ownerByAddr p) a \<and> isReserved p a) ?R)"
    by (simp add: distinct_u16_range)
  ultimately show ?thesis by (metis distinct_card)
qed

lemma range_partition:
  assumes "pool_inv p"
  shows "length (u16_range (cfg_start (pool_cfg p)) (cfg_end (pool_cfg p))) =
    length (ownerByAddr p) + length (reserved_unassigned p) + length (free_addrs p)"
proof -
  let ?R = "u16_range (cfg_start (pool_cfg p)) (cfg_end (pool_cfg p))"
  let ?u = "gm_has (ownerByAddr p)"
  have f: "free_addrs p = filter (\<lambda>a. \<not> ?u a \<and> \<not> isReserved p a) ?R"
    unfolding free_addrs_def
    by (rule filter_cong) (auto simp: pool_IsAutoAllocatable_def pool_IsAvailable_def inRange_range)
  have "length ?R = length (filter ?u ?R) + length (filter (\<lambda>a. \<not> ?u a) ?R)"
    by (simp add: sum_length_filter_compl)
  also have "length (filter (\<lambda>a. \<not> ?u a) ?R) =
      length (filter (\<lambda>a. \<not> ?u a \<and> isReserved p a) ?R) + length (free_addrs p)"
    unfolding f by (rule length_filter_split)
  finally show ?thesis
    using length_owners [OF assms] length_reserved_unassigned [OF assms] by simp
qed

section \<open>Claim and Release\<close>

lemma pool_Claim_None:
  assumes "pool_inv p"
  shows "snd (pool_Claim p w a) = None \<longleftrightarrow>
     w \<noteq> [] \<and> inRange p a \<and>
     (gm_get (addrByOwner p) w = Some a \<or>
      gm_get (addrByOwner p) w = None \<and> gm_get (ownerByAddr p) a = None)"
  using inRange_nonzero [OF assms, of a]
  by (auto simp: pool_Claim_def split: option.splits)

lemma pool_Claim_lookup:
  assumes "snd (pool_Claim p w a) = None"
  shows "gm_get (addrByOwner (fst (pool_Claim p w a))) = (gm_get (addrByOwner p))(w \<mapsto> a)"
  using assms by (auto simp: pool_Claim_def fun_eq_iff split: option.splits if_splits)

lemma pool_Claim_error: "snd (pool_Claim p w a) = Some e \<Longrightarrow> fst (pool_Claim p w a) = p"
  by (auto simp: pool_Claim_def split: option.splits if_splits)

section \<open>What the controller relies on\<close>

text \<open>
  The interface of an address pool as the CANDetector controller uses it: look an owner up,
  ask whether an address is available, claim it or have one allocated.
\<close>

locale address_pool =
  fixes inv :: "'p \<Rightarrow> bool"
    and addr_of :: "'p \<Rightarrow> string \<Rightarrow> u16 option"
    and usable :: "'p \<Rightarrow> u16 \<Rightarrow> bool"
    and is_free :: "'p \<Rightarrow> u16 \<Rightarrow> bool"
    and claim :: "'p \<Rightarrow> string \<Rightarrow> u16 \<Rightarrow> 'p \<times> 'e option"
    and alloc :: "'p \<Rightarrow> string \<Rightarrow> ('p \<times> ('e + u16)) option"
  assumes addr_inj: "inv p \<Longrightarrow> addr_of p w = Some a \<Longrightarrow> addr_of p v = Some a \<Longrightarrow> w = v"
    and addr_usable: "inv p \<Longrightarrow> addr_of p w = Some a \<Longrightarrow> usable p a"
    and free_iff: "inv p \<Longrightarrow> is_free p a \<longleftrightarrow> usable p a \<and> (\<forall>w. addr_of p w \<noteq> Some a)"
    and claim_free: "inv p \<Longrightarrow> w \<noteq> [] \<Longrightarrow> addr_of p w = None \<Longrightarrow> is_free p a \<Longrightarrow>
       \<exists>p'. claim p w a = (p', None) \<and> inv p' \<and> addr_of p' = (addr_of p)(w \<mapsto> a)"
    and alloc_total: "inv p \<Longrightarrow> w \<noteq> [] \<Longrightarrow> addr_of p w = None \<Longrightarrow>
       \<exists>p' r. alloc p w = Some (p', r) \<and> inv p' \<and>
         (case r of Inl e \<Rightarrow> p' = p
          | Inr a \<Rightarrow> is_free p a \<and> addr_of p' = (addr_of p)(w \<mapsto> a))"
begin

text \<open>Keep the address the owner has, else take the observed one when free, else allocate.\<close>

lemma keep_adopt_or_alloc:
  assumes p: "inv p" "w \<noteq> []"
  obtains (kept) a where "addr_of p w = Some a"
  | (adopted) a p' where "addr_of p w = None" "obs = Some a" "is_free p a"
      "claim p w a = (p', None)" "inv p'" "addr_of p' = (addr_of p)(w \<mapsto> a)"
  | (allocated) a p' where "addr_of p w = None" "\<forall>b. obs = Some b \<longrightarrow> \<not> is_free p b"
      "alloc p w = Some (p', Inr a)" "is_free p a" "inv p'" "addr_of p' = (addr_of p)(w \<mapsto> a)"
  | (exhausted) e where "addr_of p w = None" "\<forall>b. obs = Some b \<longrightarrow> \<not> is_free p b"
      "alloc p w = Some (p, Inl e)"
proof (cases "addr_of p w")
  case (Some a)
  then show ?thesis by (rule kept)
next
  case None
  show ?thesis
  proof (cases "\<exists>b. obs = Some b \<and> is_free p b")
    case True
    then show ?thesis using claim_free [OF p None] adopted None by blast
  next
    case False
    from alloc_total [OF p None] obtain p' r where r: "alloc p w = Some (p', r)" "inv p'"
      "case r of Inl e \<Rightarrow> p' = p | Inr a \<Rightarrow> is_free p a \<and> addr_of p' = (addr_of p)(w \<mapsto> a)" by blast
    with False None show ?thesis by (cases r) (auto intro: allocated exhausted)
  qed
qed

lemma fresh_not_taken: "inv p \<Longrightarrow> is_free p a \<Longrightarrow> addr_of p v \<noteq> Some a"
  by (simp add: free_iff)

end

lemma available_unassigned:
  assumes "pool_inv p"
  shows "pool_IsAvailable p a \<longleftrightarrow> inRange p a \<and> (\<forall>w. pool_AddressOf p w \<noteq> Some a)"
  using pool_inv_inverse [OF assms]
  by (auto simp: pool_IsAvailable_def pool_AddressOf_def gm_has_iff)

interpretation canpool: address_pool pool_inv pool_AddressOf inRange pool_IsAvailable
  pool_Claim pool_Allocate
proof
  fix p w v a assume p: "pool_inv p"
  show "pool_AddressOf p w = Some a \<Longrightarrow> pool_AddressOf p v = Some a \<Longrightarrow> w = v"
    using pool_inv_inverse [OF p, of a w] pool_inv_inverse [OF p, of a v]
    by (simp add: pool_AddressOf_def)
  show "pool_AddressOf p w = Some a \<Longrightarrow> inRange p a"
    using pool_inv_inverse [OF p, of a w] pool_inv_inRange [OF p] by (simp add: pool_AddressOf_def)
  show "pool_IsAvailable p a \<longleftrightarrow> inRange p a \<and> (\<forall>w. pool_AddressOf p w \<noteq> Some a)"
    by (rule available_unassigned [OF p])
  assume w: "w \<noteq> []" "pool_AddressOf p w = None"
  {
    assume "pool_IsAvailable p a"
    then have "snd (pool_Claim p w a) = None"
      using w by (simp add: pool_Claim_None [OF p] pool_IsAvailable_def pool_AddressOf_def gm_has_iff)
    then show "\<exists>p'. pool_Claim p w a = (p', None) \<and> pool_inv p' \<and>
        pool_AddressOf p' = (pool_AddressOf p)(w \<mapsto> a)"
      using pool_Claim_inv [OF p, of w a] pool_Claim_lookup [of p w a]
      by (cases "pool_Claim p w a") (auto simp: pool_AddressOf_def fun_eq_iff)
  }
  show "\<exists>p' r. pool_Allocate p w = Some (p', r) \<and> pool_inv p' \<and>
      (case r of Inl e \<Rightarrow> p' = p
       | Inr a \<Rightarrow> pool_IsAvailable p a \<and> pool_AddressOf p' = (pool_AddressOf p)(w \<mapsto> a))"
    using w set_free_addrs [of _ p] pool_Allocate_inv [OF p, of w]
    by (auto simp: pool_Allocate_eq [OF pool_inv_end [OF p]] pool_AddressOf_def fun_eq_iff
        pool_IsAutoAllocatable_def p split: list.splits) (metis list.set_intros(1))
qed

section \<open>Properties\<close>

definition example_config :: pool_config where
  "example_config = \<lparr>cfg_start = 10, cfg_end = 12, cfg_reserved = [11]\<rparr>"

definition example_pool :: pool where
  "example_pool =
     \<lparr>pool_cfg = example_config, reserved = [(11, ())],
      ownerByAddr = [(10, ''a'')], addrByOwner = [(''a'', 10)]\<rparr>"

lemma example_valid: "config_Validate example_config = None"
  by (simp add: example_config_def config_Validate_def MaxModuleAddress_def gm_defs)

lemma example_reserved: "reservedSet example_config = [(11, ())]"
  by (simp add: reservedSet_def example_config_def gm_defs)

lemma example_New:
  "pool_New example_config = Inr \<lparr>pool_cfg = example_config, reserved = [(11, ())], ownerByAddr = [], addrByOwner = []\<rparr>"
  by (simp add: pool_New_def example_valid example_reserved)

lemma example_pool_run:
  "example_pool = pool_step \<lparr>pool_cfg = example_config, reserved = [(11, ())], ownerByAddr = [], addrByOwner = []\<rparr> (OpClaim ''a'' 10)"
  by (simp add: example_pool_def pool_Claim_def inRange_def example_config_def bind_addr_def gm_defs)

lemma example_inv: "pool_inv example_pool"
  unfolding example_pool_run by (rule pool_step_inv [OF pool_inv_New [OF example_New]])

text \<open>
  C26: \<^verbatim>\<open>Allocate\<close> is first fit. On a pool that satisfies the invariant it returns; it refuses
  an empty owner, returns the address an owner already has without changing the pool, fails
  exactly when no address of the range is free and unreserved, and otherwise gives the owner
  the lowest such address and changes no other assignment.
\<close>

theorem pool_Allocate_first_fit:
  assumes "pool_inv p"
  shows "\<exists>p' r. pool_Allocate p w = Some (p', r) \<and>
    (case r of
       Inl e \<Rightarrow> p' = p \<and>
         (w = [] \<and> e = OwnerRequired \<or>
          w \<noteq> [] \<and> e = ErrNoAddressAvailable \<and> pool_AddressOf p w = None \<and>
          (\<forall>b. \<not> pool_IsAutoAllocatable p b))
     | Inr a \<Rightarrow> w \<noteq> [] \<and>
         (pool_AddressOf p w = Some a \<and> p' = p \<or>
          pool_AddressOf p w = None \<and> pool_IsAutoAllocatable p a \<and>
          (\<forall>b. pool_IsAutoAllocatable p b \<longrightarrow> a \<le> b) \<and>
          pool_AddressOf p' = (pool_AddressOf p)(w \<mapsto> a)))"
  using free_addrs_lowest [of p] free_addrs_none [of p]
  by (simp add: pool_Allocate_eq [OF pool_inv_end [OF assms]] pool_AddressOf_def fun_eq_iff
      split: option.splits list.splits)

theorem pool_Allocate_first_fit_witness:
  "(\<exists>p' r. pool_Allocate example_pool ''b'' = Some (p', r)) \<and> free_addrs example_pool = [12]"
proof
  show "\<exists>p' r. pool_Allocate example_pool ''b'' = Some (p', r)"
    using pool_Allocate_first_fit [OF example_inv, of "''b''"] by blast
  show "free_addrs example_pool = [12]" by code_simp
qed

text \<open>
  C14: Whatever sequence of \<^verbatim>\<open>Rebuild\<close>, \<^verbatim>\<open>Allocate\<close>, \<^verbatim>\<open>Claim\<close>, \<^verbatim>\<open>Release\<close> and
  \<^verbatim>\<open>ReleaseAddress\<close> runs on a new pool, failing calls included, no address has two owners
  and no owner two addresses, the two maps agree, every assigned address is in the range
  and at most 255, and no owner is empty.
\<close>

theorem pool_assignments_unique:
  assumes "pool_New c = Inr p0" and "p = run_events pool_step p0 ops"
  shows "(\<forall>a w. pool_OwnerOf p a = Some w \<longleftrightarrow> pool_AddressOf p w = Some a) \<and>
    (\<forall>a w. pool_AddressOf p w = Some a \<longrightarrow>
      inRange p a \<and> a \<noteq> 0 \<and> a \<le> MaxModuleAddress \<and> w \<noteq> [] \<and>
      (\<forall>v. pool_AddressOf p v = Some a \<longrightarrow> v = w))"
proof -
  have p: "pool_inv p"
    using pool_machine.run_inv [OF pool_inv_New [OF assms(1)]] assms(2) by simp
  have "inRange p a \<and> a \<noteq> 0 \<and> a \<le> MaxModuleAddress \<and> w \<noteq> [] \<and>
      (\<forall>v. pool_AddressOf p v = Some a \<longrightarrow> v = w)" if a: "pool_AddressOf p w = Some a" for a w
  proof -
    have r: "inRange p a" using a by (rule canpool.addr_usable [OF p])
    have "w \<noteq> []" using a p by (auto simp: pool_inv_def pool_AddressOf_def gm_has_iff)
    moreover have "a \<le> MaxModuleAddress"
      using r pool_inv_config [OF p] by (auto simp: inRange_def config_Validate_None)
    ultimately show ?thesis
      using r inRange_nonzero [OF p r] canpool.addr_inj [OF p _ a] by blast
  qed
  then show ?thesis
    by (simp add: pool_OwnerOf_def pool_AddressOf_def pool_inv_inverse [OF p])
qed

theorem pool_assignments_unique_witness:
  "pool_AddressOf example_pool ''a'' = Some 10 \<and> pool_OwnerOf example_pool 10 = Some ''a''"
proof -
  have a: "pool_AddressOf example_pool ''a'' = Some 10"
    by (simp add: pool_AddressOf_def example_pool_def gm_defs)
  have "example_pool = run_events pool_step
      \<lparr>pool_cfg = example_config, reserved = [(11, ())], ownerByAddr = [], addrByOwner = []\<rparr> [OpClaim ''a'' 10]"
    using example_pool_run by simp
  from pool_assignments_unique [OF example_New this] a show ?thesis by blast
qed

text \<open>
  C28: Every loop of the pool ends. On a pool made by \<^verbatim>\<open>New\<close> and any operations,
  \<^verbatim>\<open>Allocate\<close>, \<^verbatim>\<open>Available\<close> and \<^verbatim>\<open>Stats\<close> return, although their counters are
  \<^verbatim>\<open>uint16\<close> and would wrap for a range that ends at 65535: \<^verbatim>\<open>Validate\<close> bounds it by 255.
\<close>

theorem pool_loops_terminate:
  assumes "pool_New c = Inr p0" and "p = run_events pool_step p0 ops"
  shows "pool_Allocate p w \<noteq> None \<and> pool_Available p \<noteq> None \<and> pool_Stats p \<noteq> None"
proof -
  have "pool_inv p"
    using pool_machine.run_inv [OF pool_inv_New [OF assms(1)]] assms(2) by simp
  then show ?thesis
    by (simp add: pool_Allocate_eq pool_inv_end pool_Available_eq pool_Stats_eq)
qed

theorem pool_loops_terminate_witness: "pool_Allocate example_pool ''b'' \<noteq> None"
proof -
  have "example_pool = run_events pool_step
      \<lparr>pool_cfg = example_config, reserved = [(11, ())], ownerByAddr = [], addrByOwner = []\<rparr> [OpClaim ''a'' 10]"
    using example_pool_run by simp
  from pool_loops_terminate [OF example_New this] show ?thesis by blast
qed

text \<open>
  C27: \<^verbatim>\<open>Rebuild\<close> accepts exactly the assignment lists with nonempty owners, addresses in
  range, and no address or owner twice, and then the pool holds exactly the listed
  assignments. In particular it takes the pool's own \<^verbatim>\<open>Assignments\<close> back: rebuilding any
  pool of the same configuration from them gives every owner the address it had.
\<close>

theorem pool_Rebuild_exact:
  assumes "pool_inv p" and "pool_cfg q = pool_cfg p"
  shows "(\<forall>as. snd (pool_Rebuild q as) = None \<longleftrightarrow> assignments_ok q as) \<and>
    (\<forall>as w. snd (pool_Rebuild q as) = None \<longrightarrow>
       pool_AddressOf (fst (pool_Rebuild q as)) w =
         map_of (map (\<lambda>a. (asg_owner a, asg_address a)) as) w) \<and>
    snd (pool_Rebuild q (pool_Assignments p)) = None \<and>
    pool_AddressOf (fst (pool_Rebuild q (pool_Assignments p))) = pool_AddressOf p"
proof -
  have "assignments_ok q (pool_Assignments p)"
    using Assignments_ok [OF assms(1)] assms(2) by (simp add: assignments_ok_def inRange_def)
  then have s: "snd (pool_Rebuild q (pool_Assignments p)) = None" by (simp add: pool_Rebuild_success)
  then have "pool_AddressOf (fst (pool_Rebuild q (pool_Assignments p))) = pool_AddressOf p"
    by (simp add: pool_AddressOf_def pool_Rebuild_lookup fun_eq_iff
        Assignments_owner_map(1) [OF assms(1)])
  with s show ?thesis by (simp add: pool_Rebuild_success pool_AddressOf_def pool_Rebuild_lookup)
qed

theorem pool_Rebuild_exact_witness:
  "pool_AddressOf (fst (pool_Rebuild example_pool (pool_Assignments example_pool))) ''a'' = Some 10"
proof -
  have "pool_AddressOf example_pool ''a'' = Some 10"
    by (simp add: pool_AddressOf_def example_pool_def gm_defs)
  then show ?thesis using pool_Rebuild_exact [OF example_inv refl] by simp
qed

text \<open>
  \<^verbatim>\<open>Stats\<close> accounts for the whole range: the range size is the number of assigned
  addresses, plus the reserved ones nobody claimed, plus those \<^verbatim>\<open>Allocate\<close> may still choose,
  and the last number is the length of \<^verbatim>\<open>Available\<close>, which is strictly increasing and holds
  exactly the addresses \<^verbatim>\<open>IsAutoAllocatable\<close> accepts.
\<close>

theorem pool_Stats_accounts:
  assumes "pool_inv p"
  shows "\<exists>s free. pool_Stats p = Some s \<and> pool_Available p = Some free \<and>
     RangeSize s = Allocated s + int (length (reserved_unassigned p)) + AutoAvailable s \<and>
     AutoAvailable s = int (length free) \<and> Reserved s = int (length (cfg_reserved (pool_cfg p))) \<and>
     sorted_wrt (<) free \<and> (\<forall>a. a \<in> set free \<longleftrightarrow> pool_IsAutoAllocatable p a)"
proof -
  have "sorted_wrt (<) (free_addrs p)"
    by (simp add: free_addrs_def sorted_wrt_filter sorted_u16_range)
  moreover have "int (unat (cfg_end (pool_cfg p) - cfg_start (pool_cfg p))) + 1 =
      int (length (ownerByAddr p)) + int (length (reserved_unassigned p)) + int (length (free_addrs p))"
    using range_size [OF assms] range_partition [OF assms] by linarith
  ultimately show ?thesis
    by (simp add: pool_Stats_eq [OF assms] pool_Available_eq [OF assms] length_reserved [OF assms]
        set_free_addrs)
qed

theorem pool_Stats_accounts_witness:
  "\<exists>s. pool_Stats example_pool = Some s \<and> RangeSize s = Allocated s + 1 + AutoAvailable s"
proof -
  have "reserved_unassigned example_pool = [11]"
    by (simp add: reserved_unassigned_def example_pool_def example_config_def gm_defs)
  then show ?thesis using pool_Stats_accounts [OF example_inv] by auto
qed

text \<open>
  \<^verbatim>\<open>Claim\<close> succeeds exactly for a nonempty owner and an address of the range that is
  already the owner's, or that nobody has while the owner has none; reserved addresses may be
  claimed. A success binds exactly that owner, an error changes nothing, and \<^verbatim>\<open>Release\<close>
  after a first claim gives back the assignments there were before.
\<close>

theorem pool_Claim_Release:
  assumes "pool_inv p"
  shows "(snd (pool_Claim p w a) = None \<longleftrightarrow>
      w \<noteq> [] \<and> inRange p a \<and>
      (pool_AddressOf p w = Some a \<or> pool_AddressOf p w = None \<and> pool_OwnerOf p a = None)) \<and>
    (snd (pool_Claim p w a) = None \<longrightarrow>
      pool_AddressOf (fst (pool_Claim p w a)) = (pool_AddressOf p)(w \<mapsto> a)) \<and>
    (\<forall>e. snd (pool_Claim p w a) = Some e \<longrightarrow> fst (pool_Claim p w a) = p) \<and>
    (snd (pool_Claim p w a) = None \<and> pool_AddressOf p w = None \<longrightarrow>
      snd (pool_Release (fst (pool_Claim p w a)) w) = None \<and>
      pool_AddressOf (fst (pool_Release (fst (pool_Claim p w a)) w)) = pool_AddressOf p \<and>
      pool_OwnerOf (fst (pool_Release (fst (pool_Claim p w a)) w)) = pool_OwnerOf p)"
proof -
  have c: "snd (pool_Claim p w a) = None \<longleftrightarrow>
      w \<noteq> [] \<and> inRange p a \<and>
      (pool_AddressOf p w = Some a \<or> pool_AddressOf p w = None \<and> pool_OwnerOf p a = None)"
    by (simp add: pool_Claim_None [OF assms] pool_AddressOf_def pool_OwnerOf_def)
  have "snd (pool_Release (fst (pool_Claim p w a)) w) = None \<and>
      pool_AddressOf (fst (pool_Release (fst (pool_Claim p w a)) w)) = pool_AddressOf p \<and>
      pool_OwnerOf (fst (pool_Release (fst (pool_Claim p w a)) w)) = pool_OwnerOf p"
    if s: "snd (pool_Claim p w a) = None" and n: "pool_AddressOf p w = None"
  proof -
    have "w \<noteq> []" "gm_get (ownerByAddr p) a = None" "fst (pool_Claim p w a) = bind_addr p w a"
      using c s n by (auto simp: pool_AddressOf_def pool_OwnerOf_def pool_Claim_def
          split: option.splits if_splits)
    then show ?thesis
      using n by (auto simp: pool_Release_def bind_addr_def pool_AddressOf_def pool_OwnerOf_def)
  qed
  moreover have "pool_AddressOf (fst (pool_Claim p w a)) = (pool_AddressOf p)(w \<mapsto> a)"
    if "snd (pool_Claim p w a) = None"
    using pool_Claim_lookup [OF that] by (simp add: pool_AddressOf_def fun_eq_iff)
  ultimately show ?thesis using c pool_Claim_error [of p w a] by blast
qed

theorem pool_Claim_Release_witness: "snd (pool_Claim example_pool ''b'' 11) = None"
proof -
  have "inRange example_pool 11" "pool_AddressOf example_pool ''b'' = None"
    "pool_OwnerOf example_pool 11 = None"
    by (simp_all add: inRange_def example_pool_def example_config_def pool_AddressOf_def
        pool_OwnerOf_def gm_defs)
  then show ?thesis using pool_Claim_Release [OF example_inv, of "''b''" 11] by simp
qed

end
