(* ===== verification/Device_Api.thy ===== *)
theory Device_Api
  imports Can_Pool
begin

text \<open>
  The custom resources of the operator (\<^verbatim>\<open>operators/z21-device/api/v1alpha1\<close>) with their
  accessors, and the runtime options read from the \<^verbatim>\<open>elp-config\<close> ConfigMap
  (\<^verbatim>\<open>internal/runtimeconfig\<close>). A Go pointer to a value is an option, a Go map a
  \<^typ>\<open>('k, 'v) gomap\<close> (a nil map is the empty one: the code only reads and assigns entries),
  a string enumeration keeps the strings. Type metadata and the resource versions the
  Kubernetes client handles are left out.

  Lemmas: the addresses the accessors build are split again by \<^verbatim>\<open>net.SplitHostPort\<close>, the
  DNS names are stable under normalisation, defaulting leaves no zero and is idempotent.
\<close>

section \<open>Objects\<close>

record object_meta =
  om_name :: string
  om_namespace :: string
  om_labels :: "(string, string) gomap"
  om_annotations :: "(string, string) gomap"
  om_generation :: int
  om_deleting :: bool
  om_finalizers :: "string list"

definition DisplayNameAnnotation :: string where
  "DisplayNameAnnotation = ''z21.trains.io/display-name''"

definition DeviceFinalizerName :: string where
  "DeviceFinalizerName = ''z21.trains.io/finalizer''"

definition DefaultZ21Port :: i32 where
  "DefaultZ21Port = 21105"

text \<open>Durations are nanoseconds.\<close>

definition DefaultHealthCheckInterval :: int where
  "DefaultHealthCheckInterval = 2000000000"

definition DefaultHealthCheckTimeout :: int where
  "DefaultHealthCheckTimeout = 500000000"

definition DefaultHealthCheckFailureThreshold :: i32 where
  "DefaultHealthCheckFailureThreshold = 3"

definition DefaultHealthCheckSuccessThreshold :: i32 where
  "DefaultHealthCheckSuccessThreshold = 1"

definition PhasePending :: string where "PhasePending = ''Pending''"
definition PhaseStarting :: string where "PhaseStarting = ''Starting''"
definition PhaseRunning :: string where "PhaseRunning = ''Running''"
definition PhaseFailed :: string where "PhaseFailed = ''Failed''"
definition PhaseStopping :: string where "PhaseStopping = ''Stopping''"

definition BackendHardware :: string where "BackendHardware = ''hardware''"
definition BackendSimulator :: string where "BackendSimulator = ''simulator''"

definition ConditionGatewayReady :: string where "ConditionGatewayReady = ''GatewayReady''"
definition ConditionDeviceReachable :: string where
  "ConditionDeviceReachable = ''DeviceReachable''"
definition ConditionDegraded :: string where "ConditionDegraded = ''Degraded''"

record hardware_backend =
  hw_host :: string
  hw_port :: i32

record simulator_backend =
  sb_image :: string

record backend_spec =
  be_type :: string
  be_hardware :: "hardware_backend option"
  be_simulator :: "simulator_backend option"

record health_check_spec =
  hc_interval :: int
  hc_timeout :: int
  hc_failure_threshold :: i32
  hc_success_threshold :: i32

record nats_spec =
  nats_url :: string
  nats_subject_prefix :: string

record host_alias =
  ha_ip :: string
  ha_hostnames :: "string list"

record gateway_spec =
  gw_image :: string
  gw_host_network :: bool
  gw_node_selector :: "(string, string) gomap"
  gw_host_aliases :: "host_alias list"

record device_spec =
  ds_backend :: backend_spec
  ds_nats :: nats_spec
  ds_health_check :: health_check_spec
  ds_gateway :: gateway_spec
  ds_broadcast_flags :: "u32 option"
  ds_pool_ref :: "string option"

record condition =
  cond_type :: string
  cond_status :: string
  cond_observed_generation :: int
  cond_last_transition :: int
  cond_reason :: string
  cond_message :: string

record device_status =
  st_phase :: string
  st_conditions :: "condition list"
  st_last_health_check :: "int option"
  st_health_failures :: i32
  st_gateway_deployment :: string
  st_simulator_deployment :: string
  st_simulator_service :: string
  st_last_seen :: "int option"
  st_serial_number :: string
  st_firmware_version :: string
  st_hardware_type :: string
  st_xbus_version :: string
  st_xbus_firmware_version :: string
  st_lock_code :: "u8 option"
  st_observed_generation :: int

record z21device =
  dev_meta :: object_meta
  dev_spec :: device_spec
  dev_status :: device_status

record can_detector_spec =
  det_device_ref :: string
  det_net_id :: u16
  det_desired :: "u16 option"
  det_adopt_observed :: "bool option"

record can_detector_status =
  det_observed :: "u16 option"
  det_assigned :: "u16 option"
  det_phase :: string
  det_message :: string

record can_detector =
  det_meta :: object_meta
  det_spec :: can_detector_spec
  det_status :: can_detector_status

definition LabelDeviceName :: string where "LabelDeviceName = ''z21.trains.io/device''"

definition CANDetectorPhasePending :: string where "CANDetectorPhasePending = ''Pending''"
definition CANDetectorPhaseAllocated :: string where "CANDetectorPhaseAllocated = ''Allocated''"
definition CANDetectorPhaseApplied :: string where "CANDetectorPhaseApplied = ''Applied''"
definition CANDetectorPhaseFailed :: string where "CANDetectorPhaseFailed = ''Failed''"

record can_pool_spec =
  ps_start :: u16
  ps_end :: u16
  ps_reserved :: "u16 list"

record can_pool_status =
  pst_range_size :: int
  pst_reserved :: int
  pst_allocated :: int
  pst_auto_available :: int

record can_address_pool =
  cap_meta :: object_meta
  cap_spec :: can_pool_spec
  cap_status :: can_pool_status

text \<open>
  What a call of the Kubernetes API returns when it fails, as far as the code tells errors
  apart (\<^verbatim>\<open>apierrors.IsNotFound\<close>, \<^verbatim>\<open>IsAlreadyExists\<close>); the rest carry their text.
\<close>

datatype kube_error = KubeNotFound string | KubeAlreadyExists string | KubeError string

section \<open>Accessors of Z21Device\<close>

definition SubjectPrefix :: "z21device \<Rightarrow> string" where
  "SubjectPrefix d =
     (let p = nats_subject_prefix (ds_nats (dev_spec d)) in
      if p \<noteq> [] then p
      else ''z21.'' @ om_namespace (dev_meta d) @ ''.'' @ om_name (dev_meta d))"

definition broadcastFlagXpressNet :: u32 where "broadcastFlagXpressNet = 0x00000001"
definition broadcastFlagSystemState :: u32 where "broadcastFlagSystemState = 0x00000100"
definition broadcastFlagCANDetector :: u32 where "broadcastFlagCANDetector = 0x00080000"

definition DefaultBroadcastFlags :: u32 where
  "DefaultBroadcastFlags =
     broadcastFlagXpressNet OR broadcastFlagSystemState OR broadcastFlagCANDetector"

definition DefaultSimulatorImage :: string where
  "DefaultSimulatorImage = ''ghcr.io/trains-io/z21-sim:latest''"

definition DefaultSimulatorGRPCPort :: nat where "DefaultSimulatorGRPCPort = 50051"

definition DefaultWorkloadNamespace :: string where "DefaultWorkloadNamespace = ''elp''"

definition DefaultNATSURL :: string where
  "DefaultNATSURL = ''nats://nats.default.svc.cluster.local.:4222''"

definition DefaultCANAddressPoolName :: string where "DefaultCANAddressPoolName = ''default''"

definition DefaultCANAddressPoolNamespace :: string where
  "DefaultCANAddressPoolNamespace = DefaultWorkloadNamespace"

definition DefaultCANAddressPoolStart :: u16 where "DefaultCANAddressPoolStart = 10"
definition DefaultCANAddressPoolEnd :: u16 where "DefaultCANAddressPoolEnd = 200"
definition DefaultCANAddressPoolReserved :: "u16 list" where
  "DefaultCANAddressPoolReserved = [1, 2, 3]"

definition DefaultCANAddressPoolSpec :: can_pool_spec where
  "DefaultCANAddressPoolSpec =
     \<lparr>ps_start = DefaultCANAddressPoolStart, ps_end = DefaultCANAddressPoolEnd,
      ps_reserved = DefaultCANAddressPoolReserved\<rparr>"

definition BroadcastFlagsValue :: "z21device \<Rightarrow> u32" where
  "BroadcastFlagsValue d =
     (case ds_broadcast_flags (dev_spec d) of Some f \<Rightarrow> f | None \<Rightarrow> DefaultBroadcastFlags)"

definition HealthCheckSpecOrDefaults :: "z21device \<Rightarrow> health_check_spec" where
  "HealthCheckSpecOrDefaults d =
     (let s0 = ds_health_check (dev_spec d);
          s1 = (if hc_interval s0 = 0 then s0\<lparr>hc_interval := DefaultHealthCheckInterval\<rparr> else s0);
          s2 = (if hc_timeout s1 = 0 then s1\<lparr>hc_timeout := DefaultHealthCheckTimeout\<rparr> else s1);
          s3 = (if hc_failure_threshold s2 = 0
                then s2\<lparr>hc_failure_threshold := DefaultHealthCheckFailureThreshold\<rparr> else s2)
      in if hc_success_threshold s3 = 0
         then s3\<lparr>hc_success_threshold := DefaultHealthCheckSuccessThreshold\<rparr> else s3)"

text \<open>\<^verbatim>\<open>%d\<close> of an \<^verbatim>\<open>int32\<close>.\<close>

definition i32_dec :: "i32 \<Rightarrow> string" where
  "i32_dec w = int_dec (sint w)"

definition SimulatorServiceName :: "string \<Rightarrow> string" where
  "SimulatorServiceName deviceName = ''z21-sim-'' @ deviceName"

definition SimulatorServiceFQDN :: "string \<Rightarrow> string \<Rightarrow> string" where
  "SimulatorServiceFQDN ns deviceName =
     SimulatorServiceName deviceName @ ''.'' @ ns @ ''.svc.cluster.local.''"

datatype address_error = HardwareRequired | UnsupportedBackend string

definition Z21Address :: "z21device \<Rightarrow> address_error + string" where
  "Z21Address d =
     (let be = ds_backend (dev_spec d) in
      if be_type be = BackendHardware then
        (case be_hardware be of
           None \<Rightarrow> Inl HardwareRequired
         | Some hw \<Rightarrow>
             (let port = (if hw_port hw = 0 then DefaultZ21Port else hw_port hw)
              in Inr (join_host_port (hw_host hw) (i32_dec port))))
      else if be_type be = BackendSimulator then
        Inr (join_host_port (SimulatorServiceFQDN DefaultWorkloadNamespace (om_name (dev_meta d)))
               (i32_dec DefaultZ21Port))
      else Inl (UnsupportedBackend (be_type be)))"

definition EnsureClusterDNSFQDN :: "string \<Rightarrow> string" where
  "EnsureClusterDNSFQDN host0 =
     (let host = trim_suffix host0 ''.'' in
      if has_suffix host ''.cluster.local'' then host @ ''.'' else host)"

text \<open>
  What the code uses of \<^verbatim>\<open>net/url\<close>: parsing a text into the host name and port it holds, and the
  text again after its host was replaced.
\<close>

record url_lib =
  url_parse :: "string \<Rightarrow> (string \<times> string) option"
  url_set_host :: "string \<Rightarrow> string \<Rightarrow> string"

definition EnsureNATSURLClusterDNS :: "url_lib \<Rightarrow> string \<Rightarrow> string" where
  "EnsureNATSURLClusterDNS U raw =
     (case url_parse U raw of
        None \<Rightarrow> raw
      | Some (hostname, port) \<Rightarrow>
          if hostname = [] then raw
          else (let host = EnsureClusterDNSFQDN hostname in
                if host = hostname then raw
                else if port = [] then url_set_host U raw host
                else url_set_host U raw (join_host_port host port)))"

definition SimulatorImage :: "z21device \<Rightarrow> string" where
  "SimulatorImage d =
     (case be_simulator (ds_backend (dev_spec d)) of
        Some s \<Rightarrow> if sb_image s \<noteq> [] then sb_image s else DefaultSimulatorImage
      | None \<Rightarrow> DefaultSimulatorImage)"

definition SimulatorGRPCAddress :: "string \<Rightarrow> string \<Rightarrow> string" where
  "SimulatorGRPCAddress workloadNamespace deviceName =
     join_host_port (SimulatorServiceFQDN workloadNamespace deviceName)
       (nat_dec DefaultSimulatorGRPCPort)"

definition CANAddressPoolName :: "z21device \<Rightarrow> string" where
  "CANAddressPoolName d =
     (case ds_pool_ref (dev_spec d) of
        Some n \<Rightarrow> if n \<noteq> [] then n else DefaultCANAddressPoolName
      | None \<Rightarrow> DefaultCANAddressPoolName)"

definition CANAddressPoolNamespace :: "z21device \<Rightarrow> string" where
  "CANAddressPoolNamespace d =
     (case ds_pool_ref (dev_spec d) of
        Some n \<Rightarrow> if n \<noteq> [] then om_namespace (dev_meta d) else DefaultCANAddressPoolNamespace
      | None \<Rightarrow> DefaultCANAddressPoolNamespace)"

text \<open>A lookup in a Go map gives the empty string for a missing key.\<close>

definition gm_str :: "('k, string) gomap \<Rightarrow> 'k \<Rightarrow> string" where
  "gm_str m k = (case gm_get m k of Some v \<Rightarrow> v | None \<Rightarrow> [])"

definition DisplayName :: "z21device \<Rightarrow> string" where
  "DisplayName d =
     (let name = gm_str (om_annotations (dev_meta d)) DisplayNameAnnotation in
      if name \<noteq> [] then name else om_name (dev_meta d))"

section \<open>Accessors of CANDetector and CANAddressPool\<close>

definition AdoptObservedEnabled :: "can_detector \<Rightarrow> bool" where
  "AdoptObservedEnabled d =
     (case det_adopt_observed (det_spec d) of None \<Rightarrow> True | Some b \<Rightarrow> b)"

definition OwnerKey :: "can_detector \<Rightarrow> string" where
  "OwnerKey d = om_namespace (det_meta d) @ ''/'' @ om_name (det_meta d)"

definition PoolConfig :: "can_address_pool \<Rightarrow> u16 \<times> u16 \<times> u16 list" where
  "PoolConfig p = (ps_start (cap_spec p), ps_end (cap_spec p), ps_reserved (cap_spec p))"

section \<open>Runtime options\<close>

definition ELPConfigMapName :: string where "ELPConfigMapName = ''elp-config''"
definition ELPConfigKeyGatewayTrace :: string where "ELPConfigKeyGatewayTrace = ''gateway.trace''"
definition ELPConfigKeySimulatorTrace :: string where
  "ELPConfigKeySimulatorTrace = ''simulator.trace''"

record runtime_config =
  rc_gateway_trace :: bool
  rc_simulator_trace :: bool

definition parseBool :: "string \<Rightarrow> bool" where
  "parseBool raw0 =
     (let raw = trim_space raw0 in
      if raw = [] then False
      else (case parse_bool_str raw of None \<Rightarrow> False | Some v \<Rightarrow> v))"

definition FromConfigMap :: "(string, string) gomap \<Rightarrow> runtime_config" where
  "FromConfigMap data =
     (if length data = 0 then \<lparr>rc_gateway_trace = False, rc_simulator_trace = False\<rparr>
      else \<lparr>rc_gateway_trace = parseBool (gm_str data ELPConfigKeyGatewayTrace),
            rc_simulator_trace = parseBool (gm_str data ELPConfigKeySimulatorTrace)\<rparr>)"

lemmas [elp_consts] =
  DisplayNameAnnotation_def DeviceFinalizerName_def DefaultZ21Port_def
  DefaultHealthCheckInterval_def DefaultHealthCheckTimeout_def
  DefaultHealthCheckFailureThreshold_def DefaultHealthCheckSuccessThreshold_def
  PhasePending_def PhaseStarting_def PhaseRunning_def PhaseFailed_def PhaseStopping_def
  BackendHardware_def BackendSimulator_def ConditionGatewayReady_def
  ConditionDeviceReachable_def ConditionDegraded_def LabelDeviceName_def
  CANDetectorPhasePending_def CANDetectorPhaseAllocated_def CANDetectorPhaseApplied_def
  CANDetectorPhaseFailed_def broadcastFlagXpressNet_def broadcastFlagSystemState_def
  broadcastFlagCANDetector_def DefaultBroadcastFlags_def DefaultSimulatorImage_def
  DefaultSimulatorGRPCPort_def DefaultWorkloadNamespace_def DefaultNATSURL_def
  DefaultCANAddressPoolName_def DefaultCANAddressPoolNamespace_def
  DefaultCANAddressPoolStart_def DefaultCANAddressPoolEnd_def DefaultCANAddressPoolReserved_def
  ELPConfigMapName_def ELPConfigKeyGatewayTrace_def ELPConfigKeySimulatorTrace_def

section \<open>Host names and addresses\<close>

lemma has_suffix_append [simp]: "has_suffix (s @ t) t"
  by (simp add: has_suffix_def)

lemma has_suffix_same_length:
  "length t = length u \<Longrightarrow> has_suffix (s @ t) u \<longleftrightarrow> t = u"
  by (auto simp: has_suffix_def)

lemma trim_suffix_append [simp]: "trim_suffix (s @ t) t = s"
  by (simp add: trim_suffix_def)

lemma trim_suffix_other: "\<not> has_suffix s t \<Longrightarrow> trim_suffix s t = s"
  by (simp add: trim_suffix_def)

lemma cluster_local_dot: "\<not> has_suffix (h @ ''.cluster.local'') ''.''"
proof
  assume "has_suffix (h @ ''.cluster.local'') ''.''"
  then have "last (h @ ''.cluster.local'') = CHR ''.''"
    unfolding has_suffix_def by (metis (no_types) append_take_drop_id last_snoc)
  then show False by simp
qed

lemma FQDN_form:
  "SimulatorServiceFQDN ns n = (''z21-sim-'' @ n @ ''.'' @ ns @ ''.svc'') @ ''.cluster.local.''"
  by (simp add: SimulatorServiceFQDN_def SimulatorServiceName_def)

lemma EnsureClusterDNSFQDN_local [simp]:
  "EnsureClusterDNSFQDN (h @ ''.cluster.local'') = h @ ''.cluster.local.''"
  by (simp add: EnsureClusterDNSFQDN_def trim_suffix_other cluster_local_dot Let_def)

lemma EnsureClusterDNSFQDN_dotted [simp]:
  "EnsureClusterDNSFQDN (h @ ''.cluster.local.'') = h @ ''.cluster.local.''"
  using trim_suffix_append [of "h @ ''.cluster.local''" "''.''"]
  by (simp add: EnsureClusterDNSFQDN_def Let_def)

lemma EnsureClusterDNSFQDN_other:
  "\<not> has_suffix (trim_suffix h ''.'') ''.cluster.local'' \<Longrightarrow>
   EnsureClusterDNSFQDN h = trim_suffix h ''.''"
  by (simp add: EnsureClusterDNSFQDN_def Let_def)

lemma EnsureClusterDNSFQDN_FQDN [simp]:
  "EnsureClusterDNSFQDN (SimulatorServiceFQDN ns n) = SimulatorServiceFQDN ns n"
  unfolding FQDN_form by (rule EnsureClusterDNSFQDN_dotted)

definition no_brackets :: "string \<Rightarrow> bool" where
  "no_brackets s \<longleftrightarrow> CHR ''['' \<notin> set s \<and> CHR '']'' \<notin> set s"

lemma int_dec_plain: "c \<in> set (int_dec i) \<Longrightarrow> c \<notin> set '':[]''"
  using nat_dec_plain [of c "nat i"] nat_dec_plain [of c "nat (- i)"]
  by (auto simp: int_dec_def split: if_splits)

lemma split_join_int_dec:
  "no_brackets h \<Longrightarrow> split_host_port (join_host_port h (int_dec i)) = Inr (h, int_dec i)"
  using int_dec_plain [of _ i] by (intro split_join_host_port) (auto simp: no_brackets_def)

lemma no_brackets_FQDN:
  "no_brackets ns \<Longrightarrow> no_brackets n \<Longrightarrow> no_brackets (SimulatorServiceFQDN ns n)"
  by (simp add: no_brackets_def SimulatorServiceFQDN_def SimulatorServiceName_def)

lemma parse_int_i32_dec: "0 \<le> sint (w :: i32) \<Longrightarrow> parse_int 32 (int_dec (sint w)) = Inr (sint w)"
  using sint_less [of w] by (intro parse_int_int_dec) simp_all

lemma HealthCheckSpecOrDefaults_eq:
  "HealthCheckSpecOrDefaults d =
     (let s = ds_health_check (dev_spec d) in
      \<lparr>hc_interval = (if hc_interval s = 0 then 2000000000 else hc_interval s),
       hc_timeout = (if hc_timeout s = 0 then 500000000 else hc_timeout s),
       hc_failure_threshold = (if hc_failure_threshold s = 0 then 3 else hc_failure_threshold s),
       hc_success_threshold = (if hc_success_threshold s = 0 then 1 else hc_success_threshold s)\<rparr>)"
proof (cases "ds_health_check (dev_spec d)")
  case (fields i t f u)
  show ?thesis
    by (cases "i = 0"; cases "t = 0"; cases "f = 0"; cases "u = 0")
      (simp_all add: HealthCheckSpecOrDefaults_def fields elp_consts)
qed

definition example_meta :: "string \<Rightarrow> string \<Rightarrow> object_meta" where
  "example_meta ns n =
     \<lparr>om_name = n, om_namespace = ns, om_labels = [], om_annotations = [], om_generation = 1,
      om_deleting = False, om_finalizers = []\<rparr>"

definition zero_status :: device_status where
  "zero_status =
     \<lparr>st_phase = [], st_conditions = [], st_last_health_check = None, st_health_failures = 0,
      st_gateway_deployment = [], st_simulator_deployment = [], st_simulator_service = [],
      st_last_seen = None, st_serial_number = [], st_firmware_version = [], st_hardware_type = [],
      st_xbus_version = [], st_xbus_firmware_version = [], st_lock_code = None,
      st_observed_generation = 0\<rparr>"

definition example_spec :: "backend_spec \<Rightarrow> device_spec" where
  "example_spec be =
     \<lparr>ds_backend = be, ds_nats = \<lparr>nats_url = DefaultNATSURL, nats_subject_prefix = []\<rparr>,
      ds_health_check = \<lparr>hc_interval = 0, hc_timeout = 0, hc_failure_threshold = 0,
                         hc_success_threshold = 0\<rparr>,
      ds_gateway = \<lparr>gw_image = [], gw_host_network = False, gw_node_selector = [], gw_host_aliases = []\<rparr>,
      ds_broadcast_flags = None, ds_pool_ref = None\<rparr>"

definition example_hardware :: z21device where
  "example_hardware =
     \<lparr>dev_meta = example_meta ''layout'' ''z1'',
      dev_spec = example_spec
        \<lparr>be_type = ''hardware'', be_hardware = Some \<lparr>hw_host = ''192.168.0.111'', hw_port = 0\<rparr>,
         be_simulator = None\<rparr>,
      dev_status = zero_status\<rparr>"

definition example_simulator :: z21device where
  "example_simulator =
     \<lparr>dev_meta = example_meta ''layout'' ''sim1'',
      dev_spec = example_spec \<lparr>be_type = ''simulator'', be_hardware = None, be_simulator = None\<rparr>,
      dev_status = zero_status\<rparr>"

lemmas example_device_defs =
  example_hardware_def example_simulator_def example_spec_def example_meta_def zero_status_def

section \<open>Status conditions\<close>

text \<open>
  What \<^verbatim>\<open>meta.SetStatusCondition\<close> is documented to do: the condition of the given type is replaced
  or added, the conditions of other types stay as they are. The transition time is left open.
\<close>

definition condition_view :: "condition list \<Rightarrow> string \<Rightarrow> (string \<times> string \<times> string \<times> int) option" where
  "condition_view cs typ =
     map_option (\<lambda>c. (cond_status c, cond_reason c, cond_message c, cond_observed_generation c))
       (find (\<lambda>c. cond_type c = typ) cs)"

definition condition_laws :: "(condition \<Rightarrow> condition list \<Rightarrow> condition list) \<Rightarrow> bool" where
  "condition_laws setc \<longleftrightarrow>
     (\<forall>n cs. condition_view (setc n cs) = (condition_view cs)(cond_type n \<mapsto>
        (cond_status n, cond_reason n, cond_message n, cond_observed_generation n)))"

lemma condition_view_set:
  "condition_laws setc \<Longrightarrow> condition_view (setc n cs) = (condition_view cs)(cond_type n \<mapsto>
      (cond_status n, cond_reason n, cond_message n, cond_observed_generation n))"
  unfolding condition_laws_def by blast

definition conditions_of :: "z21device \<Rightarrow> string \<Rightarrow> (string \<times> string \<times> string \<times> int) option" where
  "conditions_of d = condition_view (st_conditions (dev_status d))"

text \<open>A list that keeps one condition per type meets these laws.\<close>

definition list_set_condition :: "condition \<Rightarrow> condition list \<Rightarrow> condition list" where
  "list_set_condition n cs = n # filter (\<lambda>c. cond_type c \<noteq> cond_type n) cs"

lemma find_filter_other: "(\<And>x. P x \<Longrightarrow> Q x) \<Longrightarrow> find P (filter Q xs) = find P xs"
  by (induction xs) auto

lemma list_set_condition_laws: "condition_laws list_set_condition"
proof -
  have "condition_view (list_set_condition n cs) ty = ((condition_view cs)(cond_type n \<mapsto>
        (cond_status n, cond_reason n, cond_message n, cond_observed_generation n))) ty" for n cs ty
    by (simp add: condition_view_def list_set_condition_def find_filter_other)
  then show ?thesis unfolding condition_laws_def by blast
qed

section \<open>Properties\<close>

text \<open>
  The endpoint the gateway dials is the configured one. When \<^verbatim>\<open>Z21Address\<close> gives an
  address, \<^verbatim>\<open>net.SplitHostPort\<close> takes it apart into the hardware host and its port (21105 when
  the port is zero), IPv6 hosts included, or for a simulator backend into the host name of the
  simulator Service, which the DNS normalisation leaves as it is, and port 21105. It gives an
  error exactly for a hardware backend without endpoint and an unknown backend type.
\<close>

theorem Z21Address_splits:
  assumes "no_brackets (om_name (dev_meta d))"
    and "\<And>hw. be_hardware (ds_backend (dev_spec d)) = Some hw \<Longrightarrow>
           no_brackets (hw_host hw) \<and> 0 \<le> sint (hw_port hw)"
  shows "case Z21Address d of
      Inl e \<Rightarrow>
        be_type (ds_backend (dev_spec d)) = BackendHardware \<and>
          be_hardware (ds_backend (dev_spec d)) = None \<and> e = HardwareRequired \<or>
        be_type (ds_backend (dev_spec d)) \<notin> {BackendHardware, BackendSimulator} \<and>
          e = UnsupportedBackend (be_type (ds_backend (dev_spec d)))
    | Inr a \<Rightarrow> \<exists>host port. split_host_port a = Inr (host, port) \<and>
        (be_type (ds_backend (dev_spec d)) = BackendHardware \<and>
         (\<exists>hw. be_hardware (ds_backend (dev_spec d)) = Some hw \<and> host = hw_host hw \<and>
           parse_int 32 port = Inr (if hw_port hw = 0 then 21105 else sint (hw_port hw))) \<or>
         be_type (ds_backend (dev_spec d)) = BackendSimulator \<and>
           host = SimulatorServiceFQDN ''elp'' (om_name (dev_meta d)) \<and>
           EnsureClusterDNSFQDN host = host \<and> parse_int 32 port = Inr 21105)"
proof -
  have p: "parse_int 32 (int_dec 21105) = Inr 21105"
    by (rule parse_int_int_dec) simp_all
  have n: "no_brackets (SimulatorServiceFQDN ''elp'' (om_name (dev_meta d)))"
    using assms(1) by (intro no_brackets_FQDN) (simp_all add: no_brackets_def)
  consider (hw) hw where "be_type (ds_backend (dev_spec d)) = BackendHardware"
      "be_hardware (ds_backend (dev_spec d)) = Some hw"
    | (sim) "be_type (ds_backend (dev_spec d)) = BackendSimulator"
    | (err) "Z21Address d = Inl HardwareRequired"
        "be_type (ds_backend (dev_spec d)) = BackendHardware"
        "be_hardware (ds_backend (dev_spec d)) = None"
    | (bad) "be_type (ds_backend (dev_spec d)) \<notin> {BackendHardware, BackendSimulator}"
    by (cases "be_hardware (ds_backend (dev_spec d))") (auto simp: Z21Address_def)
  then show ?thesis
  proof cases
    case hw
    then show ?thesis using assms(2) [OF hw(2)] p parse_int_i32_dec [of "hw_port hw"]
      by (simp add: Z21Address_def Let_def i32_dec_def split_join_int_dec DefaultZ21Port_def)
  next
    case sim
    then show ?thesis using n p
      by (simp add: Z21Address_def Let_def i32_dec_def split_join_int_dec elp_consts)
  next
    case bad
    then show ?thesis by (simp add: Z21Address_def Let_def)
  qed (simp add: BackendHardware_def)
qed

theorem Z21Address_splits_witness:
  "split_host_port ''192.168.0.111:21105'' = Inr (''192.168.0.111'', ''21105'') \<and>
   Z21Address example_hardware = Inr ''192.168.0.111:21105''"
proof -
  have d: "int_dec 21105 = ''21105''" by (simp add: int_dec_def nat_dec.simps digit_chars_def)
  have a: "Z21Address example_hardware = Inr ''192.168.0.111:21105''"
    by (simp add: Z21Address_def example_device_defs elp_consts join_host_port_def i32_dec_def d)
  have "\<exists>port. split_host_port ''192.168.0.111:21105'' = Inr (''192.168.0.111'', port) \<and>
      parse_int 32 port = Inr 21105"
    using Z21Address_splits [of example_hardware] unfolding a
    by (simp add: example_device_defs no_brackets_def elp_consts)
  moreover have "split_host_port ''192.168.0.111:21105'' = Inr (''192.168.0.111'', ''21105'')"
    by (simp add: split_host_port_def Let_def)
  ultimately show ?thesis using a by simp
qed

text \<open>
  Defaulting the health check leaves no zero interval, timeout or threshold, keeps every
  value that was set, and applied to its own result changes nothing.
\<close>

theorem HealthCheckSpecOrDefaults_total:
  "(let s = ds_health_check (dev_spec d); r = HealthCheckSpecOrDefaults d in
     r = \<lparr>hc_interval = (if hc_interval s = 0 then 2000000000 else hc_interval s),
          hc_timeout = (if hc_timeout s = 0 then 500000000 else hc_timeout s),
          hc_failure_threshold = (if hc_failure_threshold s = 0 then 3 else hc_failure_threshold s),
          hc_success_threshold = (if hc_success_threshold s = 0 then 1 else hc_success_threshold s)\<rparr> \<and>
     hc_interval r \<noteq> 0 \<and> hc_timeout r \<noteq> 0 \<and> hc_failure_threshold r \<noteq> 0 \<and> hc_success_threshold r \<noteq> 0 \<and>
     HealthCheckSpecOrDefaults (d\<lparr>dev_spec := (dev_spec d)\<lparr>ds_health_check := r\<rparr>\<rparr>) = r)"
  by (simp add: Let_def HealthCheckSpecOrDefaults_eq)

end
