(* ===== verification/Detector_Controller.thy ===== *)
theory Detector_Controller
  imports Device_Api
begin

text \<open>
  The controller that gives every CAN detector a module address
  (\<^verbatim>\<open>operators/z21-device/internal/controller/candetector_allocate.go\<close> and
  \<^verbatim>\<open>candetector_controller.go\<close>). The Kubernetes client is a parameter, a record of the calls
  the controller makes over a world of type \<open>'w\<close>; an update returns the object as the call leaves
  it, which is the server's answer decoded into the object that was sent.
  The allocation runs the pool of \<^theory_text>\<open>Can_Pool\<close>, whose loops could diverge, so it and
  \<open>Reconcile\<close> give an option. Logging is left out. \<^verbatim>\<open>equality.Semantic.DeepEqual\<close> on specs
  and statuses, which have no map or slice, is equality.

  Lemmas: the outcome of an allocation on every branch through the interface
  \<open>address_pool\<close>; what one \<open>Reconcile\<close> leaves in the store, under the documented
  behaviour \<open>api_laws\<close> of writes to the API server and with a cache that has caught up with it
  (\<open>caught_up\<close>); that no reconciliation makes two detectors of a pool share an address,
  whatever others do in between; convergence after two reconciliations; and what goes wrong when the
  cache lags behind.
\<close>

section \<open>Allocation\<close>

record allocation_result =
  ar_desired :: u16
  ar_assigned :: u16
  ar_phase :: string
  ar_message :: string
  ar_stats :: pool_stats

definition zero_stats :: pool_stats where
  "zero_stats = \<lparr>RangeSize = 0, Reserved = 0, Allocated = 0, AutoAvailable = 0\<rparr>"

definition failedResult :: "pool_error \<Rightarrow> allocation_result" where
  "failedResult e =
     \<lparr>ar_desired = 0, ar_assigned = 0, ar_phase = CANDetectorPhaseFailed,
      ar_message = pool_error_text e, ar_stats = zero_stats\<rparr>"

definition successResult :: "pool \<Rightarrow> u16 \<Rightarrow> allocation_result option" where
  "successResult p addr =
     (case pool_Stats p of
        None \<Rightarrow> None
      | Some st \<Rightarrow>
          Some \<lparr>ar_desired = addr, ar_assigned = addr, ar_phase = CANDetectorPhaseAllocated,
                ar_message = [], ar_stats = st\<rparr>)"

definition assignedAddress :: "can_detector \<Rightarrow> u16 option" where
  "assignedAddress det =
     (case det_assigned (det_status det) of
        Some a \<Rightarrow> Some a
      | None \<Rightarrow>
          (case det_desired (det_spec det) of Some a \<Rightarrow> Some a | None \<Rightarrow> None))"

fun assignmentsFromDetectors :: "can_detector list \<Rightarrow> assignment list" where
  "assignmentsFromDetectors [] = []"
| "assignmentsFromDetectors (det # dets) =
     (case assignedAddress det of
        None \<Rightarrow> assignmentsFromDetectors dets
      | Some addr \<Rightarrow>
          \<lparr>asg_owner = OwnerKey det, asg_address = addr, asg_netid = det_net_id (det_spec det)\<rparr>
            # assignmentsFromDetectors dets)"

text \<open>The second result of the Go function is always nil and is left out.\<close>

definition allocateDetectorAddress ::
  "pool_config \<Rightarrow> can_detector list \<Rightarrow> can_detector \<Rightarrow> allocation_result option" where
  "allocateDetectorAddress cfg detectors current =
     (case pool_New cfg of
        Inl e \<Rightarrow> Some (failedResult e)
      | Inr p0 \<Rightarrow>
          (case pool_Rebuild p0 (assignmentsFromDetectors detectors) of
             (p, Some e) \<Rightarrow> Some (failedResult e)
           | (p, None) \<Rightarrow>
               (let owner = OwnerKey current;
                    alloc = (case pool_Allocate p owner of
                               None \<Rightarrow> None
                             | Some (p', Inl e) \<Rightarrow> Some (failedResult e)
                             | Some (p', Inr addr) \<Rightarrow> successResult p' addr)
                in case pool_AddressOf p owner of
                     Some addr \<Rightarrow> successResult p addr
                   | None \<Rightarrow>
                       (case det_observed (det_status current) of
                          None \<Rightarrow> alloc
                        | Some observed \<Rightarrow>
                            if AdoptObservedEnabled current \<and> pool_IsAvailable p observed then
                              (case pool_Claim p owner observed of
                                 (p', Some e) \<Rightarrow> Some (failedResult e)
                               | (p', None) \<Rightarrow> successResult p' observed)
                            else alloc))))"

definition poolConfigFromCR :: "can_address_pool \<Rightarrow> pool_config" where
  "poolConfigFromCR p =
     (case PoolConfig p of (s, e, r) \<Rightarrow> \<lparr>cfg_start = s, cfg_end = e, cfg_reserved = r\<rparr>)"

definition poolStatusFromStats :: "pool_stats \<Rightarrow> can_pool_status" where
  "poolStatusFromStats st =
     \<lparr>pst_range_size = RangeSize st, pst_reserved = Reserved st, pst_allocated = Allocated st,
      pst_auto_available = AutoAvailable st\<rparr>"

definition set_label :: "string \<Rightarrow> string \<Rightarrow> can_detector \<Rightarrow> can_detector" where
  "set_label k v det =
     det\<lparr>det_meta := (det_meta det)\<lparr>om_labels := gm_set k v (om_labels (det_meta det))\<rparr>\<rparr>"

definition ensureDeviceLabel :: "can_detector \<Rightarrow> can_detector \<times> bool" where
  "ensureDeviceLabel det =
     (let want = det_device_ref (det_spec det) in
      if gm_str (om_labels (det_meta det)) LabelDeviceName = want then (det, False)
      else (set_label LabelDeviceName want det, True))"

section \<open>The reconciler\<close>

record 'w detector_client =
  get_detector :: "'w \<Rightarrow> string \<times> string \<Rightarrow> kube_error + can_detector"
  get_device :: "'w \<Rightarrow> string \<times> string \<Rightarrow> kube_error + z21device"
  get_pool :: "'w \<Rightarrow> string \<times> string \<Rightarrow> kube_error + can_address_pool"
  list_detectors :: "'w \<Rightarrow> kube_error + can_detector list"
  list_detectors_in :: "'w \<Rightarrow> string \<Rightarrow> kube_error + can_detector list"
  list_devices :: "'w \<Rightarrow> kube_error + z21device list"
  update_detector :: "'w \<Rightarrow> can_detector \<Rightarrow> 'w \<times> (kube_error + can_detector)"
  update_detector_status :: "'w \<Rightarrow> can_detector \<Rightarrow> 'w \<times> (kube_error + can_detector)"
  update_pool_status :: "'w \<Rightarrow> can_address_pool \<Rightarrow> 'w \<times> (kube_error + can_address_pool)"

definition patchFailed ::
  "'w detector_client \<Rightarrow> 'w \<Rightarrow> can_detector \<Rightarrow> string \<Rightarrow> 'w \<times> kube_error option" where
  "patchFailed c w detector msg =
     (let st = (det_status detector)\<lparr>det_phase := CANDetectorPhaseFailed, det_message := msg\<rparr> in
      if det_status detector = st then (w, None)
      else (case update_detector_status c w (detector\<lparr>det_status := st\<rparr>) of
              (w', Inl e) \<Rightarrow> (w', Some e)
            | (w', Inr _) \<Rightarrow> (w', None)))"

definition listDeviceDetectors ::
  "'w detector_client \<Rightarrow> 'w \<Rightarrow> string \<Rightarrow> string \<Rightarrow> kube_error + can_detector list" where
  "listDeviceDetectors c w ns deviceName =
     (case list_detectors_in c w ns of
        Inl e \<Rightarrow> Inl e
      | Inr items \<Rightarrow> Inr (filter (\<lambda>det. det_device_ref (det_spec det) = deviceName) items))"

fun pool_detectors_loop ::
  "'w detector_client \<Rightarrow> 'w \<Rightarrow> string \<Rightarrow> string \<Rightarrow> can_detector list \<Rightarrow> kube_error + can_detector list" where
  "pool_detectors_loop c w poolNS poolName [] = Inr []"
| "pool_detectors_loop c w poolNS poolName (det # dets) =
     (if det_device_ref (det_spec det) = [] then pool_detectors_loop c w poolNS poolName dets
      else (case get_device c w (om_namespace (det_meta det), det_device_ref (det_spec det)) of
              Inl (KubeNotFound m) \<Rightarrow> pool_detectors_loop c w poolNS poolName dets
            | Inl e \<Rightarrow> Inl e
            | Inr device \<Rightarrow>
                (case pool_detectors_loop c w poolNS poolName dets of
                   Inl e \<Rightarrow> Inl e
                 | Inr out \<Rightarrow>
                     if CANAddressPoolNamespace device = poolNS \<and> CANAddressPoolName device = poolName
                     then Inr (det # out) else Inr out)))"

definition listPoolDetectors ::
  "'w detector_client \<Rightarrow> 'w \<Rightarrow> string \<Rightarrow> string \<Rightarrow> kube_error + can_detector list" where
  "listPoolDetectors c w poolNS poolName =
     (case list_detectors c w of
        Inl e \<Rightarrow> Inl e
      | Inr items \<Rightarrow> pool_detectors_loop c w poolNS poolName items)"

definition updatePoolStatus ::
  "'w detector_client \<Rightarrow> 'w \<Rightarrow> can_address_pool \<Rightarrow> pool_stats \<Rightarrow> 'w \<times> kube_error option" where
  "updatePoolStatus c w p stats =
     (let want = poolStatusFromStats stats in
      if cap_status p = want then (w, None)
      else (case update_pool_status c w (p\<lparr>cap_status := want\<rparr>) of
              (w', Inl e) \<Rightarrow> (w', Some e)
            | (w', Inr _) \<Rightarrow> (w', None)))"

text \<open>The detector the reconciler wants, from the result of the allocation.\<close>

definition applyAllocation :: "can_detector \<Rightarrow> allocation_result \<Rightarrow> can_detector" where
  "applyAllocation det r =
     (if ar_phase r = CANDetectorPhaseAllocated then
        det\<lparr>det_spec := (det_spec det)\<lparr>det_desired := Some (ar_desired r)\<rparr>,
            det_status := (det_status det)\<lparr>det_assigned := Some (ar_assigned r),
              det_phase := ar_phase r, det_message := []\<rparr>\<rparr>
      else det\<lparr>det_status := (det_status det)\<lparr>det_phase := ar_phase r,
              det_message := ar_message r\<rparr>\<rparr>)"

text \<open>
  The writes at the end of \<^verbatim>\<open>Reconcile\<close>. The object the status update sends is the one the
  update returned. An error of the pool status update is only logged.
\<close>

definition writeDetector ::
  "'w detector_client \<Rightarrow> 'w \<Rightarrow> can_detector \<Rightarrow> can_address_pool \<Rightarrow> allocation_result
     \<Rightarrow> 'w \<times> kube_error option" where
  "writeDetector c w orig poolCR r =
     (let (labelled, labelChanged) = ensureDeviceLabel orig;
          det = applyAllocation labelled r;
          specChanged = (det_spec orig \<noteq> det_spec det \<or> labelChanged);
          statusChanged = (det_status orig \<noteq> det_status det)
      in case (if specChanged then update_detector c w det else (w, Inr det)) of
           (w1, Inl e) \<Rightarrow> (w1, Some e)
         | (w1, Inr det1) \<Rightarrow>
             (case (if statusChanged then update_detector_status c w1 det1 else (w1, Inr det1)) of
                (w2, Inl e) \<Rightarrow> (w2, Some e)
              | (w2, Inr det2) \<Rightarrow>
                  if ar_phase r = CANDetectorPhaseAllocated
                  then (fst (updatePoolStatus c w2 poolCR (ar_stats r)), None)
                  else (w2, None)))"

definition Reconcile ::
  "'w detector_client \<Rightarrow> 'w \<Rightarrow> string \<times> string \<Rightarrow> ('w \<times> kube_error option) option" where
  "Reconcile c w req =
     (case get_detector c w req of
        Inl (KubeNotFound m) \<Rightarrow> Some (w, None)
      | Inl e \<Rightarrow> Some (w, Some e)
      | Inr detector \<Rightarrow>
          (let deviceName = det_device_ref (det_spec detector) in
           if deviceName = [] then
             Some (patchFailed c w detector ''spec.deviceRef.name is required'')
           else
             (case get_device c w (fst req, deviceName) of
                Inl (KubeNotFound m) \<Rightarrow>
                  Some (patchFailed c w detector (''Z21Device '' @ quote deviceName @ '' not found''))
              | Inl e \<Rightarrow> Some (w, Some e)
              | Inr device \<Rightarrow>
                  (let poolNS = CANAddressPoolNamespace device; poolName = CANAddressPoolName device in
                   case get_pool c w (poolNS, poolName) of
                     Inl (KubeNotFound m) \<Rightarrow>
                       Some (patchFailed c w detector
                         (''CANAddressPool '' @ quote poolName @ '' not found in namespace '' @ quote poolNS))
                   | Inl e \<Rightarrow> Some (w, Some e)
                   | Inr poolCR \<Rightarrow>
                       (case listPoolDetectors c w poolNS poolName of
                          Inl e \<Rightarrow> Some (w, Some e)
                        | Inr detectors \<Rightarrow>
                            (case allocateDetectorAddress (poolConfigFromCR poolCR) detectors detector of
                               None \<Rightarrow> None
                             | Some r \<Rightarrow> Some (writeDetector c w detector poolCR r)))))))"

section \<open>Which detectors a change of a device or a pool wakes up\<close>

definition enqueueDetectorsForDevice ::
  "'w detector_client \<Rightarrow> 'w \<Rightarrow> string \<Rightarrow> string \<Rightarrow> (string \<times> string) list" where
  "enqueueDetectorsForDevice c w ns deviceName =
     (case listDeviceDetectors c w ns deviceName of
        Inl e \<Rightarrow> []
      | Inr detectors \<Rightarrow> map (\<lambda>det. (ns, om_name (det_meta det))) detectors)"

definition mapDeviceToDetectors ::
  "'w detector_client \<Rightarrow> 'w \<Rightarrow> z21device \<Rightarrow> (string \<times> string) list" where
  "mapDeviceToDetectors c w device =
     enqueueDetectorsForDevice c w (om_namespace (dev_meta device)) (om_name (dev_meta device))"

definition mapPoolToDetectors ::
  "'w detector_client \<Rightarrow> 'w \<Rightarrow> can_address_pool \<Rightarrow> (string \<times> string) list" where
  "mapPoolToDetectors c w p =
     (case list_devices c w of
        Inl e \<Rightarrow> []
      | Inr devices \<Rightarrow>
          concat (map (\<lambda>device.
            if CANAddressPoolNamespace device \<noteq> om_namespace (cap_meta p) \<or>
               CANAddressPoolName device \<noteq> om_name (cap_meta p) then []
            else enqueueDetectorsForDevice c w (om_namespace (dev_meta device))
                   (om_name (dev_meta device))) devices))"

definition formatNetID :: "u16 \<Rightarrow> string" where
  "formatNetID netID = ''0x'' @ hex_pad True 4 (unat netID)"

section \<open>The outcome of an allocation\<close>

text \<open>The pool an allocation works on, and when the code accepts the detectors' addresses.\<close>

definition detector_pool :: "pool_config \<Rightarrow> can_detector list \<Rightarrow> pool_error + pool" where
  "detector_pool cfg dets =
     (case pool_New cfg of
        Inl e \<Rightarrow> Inl e
      | Inr p0 \<Rightarrow>
          (case pool_Rebuild p0 (assignmentsFromDetectors dets) of
             (p, Some e) \<Rightarrow> Inl e | (p, None) \<Rightarrow> Inr p))"

definition held :: "can_detector list \<Rightarrow> can_detector list" where
  "held dets = filter (\<lambda>det. assignedAddress det \<noteq> None) dets"

definition in_config :: "pool_config \<Rightarrow> u16 \<Rightarrow> bool" where
  "in_config cfg a \<longleftrightarrow> cfg_start cfg \<le> a \<and> a \<le> cfg_end cfg"

definition free_for :: "pool_config \<Rightarrow> can_detector list \<Rightarrow> u16 \<Rightarrow> bool" where
  "free_for cfg dets a \<longleftrightarrow> in_config cfg a \<and> (\<forall>det \<in> set dets. assignedAddress det \<noteq> Some a)"

definition accepts :: "pool_config \<Rightarrow> can_detector list \<Rightarrow> bool" where
  "accepts cfg dets \<longleftrightarrow>
     config_Validate cfg = None \<and>
     (\<forall>det \<in> set dets. \<forall>a \<in> set_option (assignedAddress det). in_config cfg a) \<and>
     distinct (map assignedAddress (held dets)) \<and> distinct (map OwnerKey (held dets))"

lemma OwnerKey_nonempty [simp]: "OwnerKey det \<noteq> []"
  by (simp add: OwnerKey_def)

lemma assignments_held:
  "assignmentsFromDetectors dets =
     map (\<lambda>det. \<lparr>asg_owner = OwnerKey det, asg_address = the (assignedAddress det),
                 asg_netid = det_net_id (det_spec det)\<rparr>) (held dets)"
  by (induction dets) (auto simp: held_def split: option.splits)

lemma held_Some: "det \<in> set (held dets) \<longleftrightarrow> det \<in> set dets \<and> (\<exists>a. assignedAddress det = Some a)"
  by (auto simp: held_def)

lemma distinct_map_the:
  "\<forall>x \<in> set xs. f x \<noteq> None \<Longrightarrow> distinct (map (\<lambda>x. the (f x)) xs) = distinct (map f xs)"
  unfolding distinct_map inj_on_def by (metis (no_types, lifting) option.expand)

lemma assignments_ok_held:
  assumes "pool_New cfg = Inr p"
  shows "assignments_ok p (assignmentsFromDetectors dets) \<longleftrightarrow> accepts cfg dets"
proof -
  have v: "config_Validate cfg = None" and c: "pool_cfg p = cfg"
    using assms by (auto simp: pool_New_def split: option.splits)
  have nz: "in_config cfg a \<Longrightarrow> a \<noteq> 0" for a
    using v by (auto simp: in_config_def config_Validate_None)
  have "distinct (map (\<lambda>det. the (assignedAddress det)) (held dets)) =
      distinct (map assignedAddress (held dets))"
    by (rule distinct_map_the) (simp add: held_Some)
  moreover have "(\<forall>det \<in> set dets. \<forall>a \<in> set_option (assignedAddress det). in_config cfg a) \<longleftrightarrow>
      (\<forall>det \<in> set (held dets). in_config cfg (the (assignedAddress det)))"
    by (force simp: held_Some)
  ultimately show ?thesis using nz v c
    by (auto simp: assignments_ok_def accepts_def assignments_held inRange_def in_config_def o_def)
qed

lemma detector_pool_accepts: "(\<exists>p. detector_pool cfg dets = Inr p) \<longleftrightarrow> accepts cfg dets"
proof (cases "pool_New cfg")
  case (Inl e)
  then have "config_Validate cfg \<noteq> None" by (auto simp: pool_New_def split: option.splits)
  then show ?thesis by (simp add: detector_pool_def Inl accepts_def)
next
  case (Inr p)
  have "(\<exists>q. detector_pool cfg dets = Inr q) \<longleftrightarrow>
      snd (pool_Rebuild p (assignmentsFromDetectors dets)) = None"
    by (simp add: detector_pool_def Inr split: prod.split option.split)
  then show ?thesis by (simp add: pool_Rebuild_success assignments_ok_held [OF Inr])
qed

lemma map_of_distinct_map:
  assumes "distinct (map f xs)"
  shows "map_of (map (\<lambda>x. (f x, g x)) xs) k = Some v \<longleftrightarrow> (\<exists>x \<in> set xs. f x = k \<and> g x = v)"
proof -
  have "distinct (map fst (map (\<lambda>x. (f x, g x)) xs))" using assms by (simp add: o_def)
  then have "map_of (map (\<lambda>x. (f x, g x)) xs) k = Some v \<longleftrightarrow>
      (k, v) \<in> set (map (\<lambda>x. (f x, g x)) xs)" by simp
  then show ?thesis by auto
qed

lemma detector_pool_facts:
  assumes "detector_pool cfg dets = Inr p"
  shows "pool_inv p" and "pool_cfg p = cfg" and "accepts cfg dets"
    and "pool_AddressOf p w = Some a \<longleftrightarrow>
      (\<exists>det \<in> set dets. OwnerKey det = w \<and> assignedAddress det = Some a)"
proof -
  obtain p0 where p0: "pool_New cfg = Inr p0"
    and r: "pool_Rebuild p0 (assignmentsFromDetectors dets) = (p, None)"
    using assms by (auto simp: detector_pool_def split: sum.splits prod.splits option.splits)
  show "pool_inv p" using pool_Rebuild_inv [OF pool_inv_New [OF p0]] r by (metis fst_conv)
  have "pool_cfg p0 = cfg" using p0 by (auto simp: pool_New_def split: option.splits)
  then show "pool_cfg p = cfg"
    using pool_Rebuild_cfg [of p0 "assignmentsFromDetectors dets"] by (simp add: r)
  show acc: "accepts cfg dets" using detector_pool_accepts assms by blast
  have "pool_AddressOf p w =
      map_of (map (\<lambda>a. (asg_owner a, asg_address a)) (assignmentsFromDetectors dets)) w"
    using pool_Rebuild_lookup [of p0 "assignmentsFromDetectors dets" w]
    by (simp add: r pool_AddressOf_def)
  also have "\<dots> = map_of (map (\<lambda>det. (OwnerKey det, the (assignedAddress det))) (held dets)) w"
    by (simp add: assignments_held o_def)
  finally have "pool_AddressOf p w =
      map_of (map (\<lambda>det. (OwnerKey det, the (assignedAddress det))) (held dets)) w" .
  then show "pool_AddressOf p w = Some a \<longleftrightarrow>
      (\<exists>det \<in> set dets. OwnerKey det = w \<and> assignedAddress det = Some a)"
    using acc by (auto simp: map_of_distinct_map accepts_def held_Some)
qed

lemma detector_pool_available:
  assumes "detector_pool cfg dets = Inr p"
  shows "pool_IsAvailable p a \<longleftrightarrow> free_for cfg dets a"
  using available_unassigned [OF detector_pool_facts(1) [OF assms]] detector_pool_facts(2,4) [OF assms]
  by (auto simp: free_for_def in_config_def inRange_def)

lemma detector_pool_auto:
  assumes "detector_pool cfg dets = Inr p"
  shows "pool_IsAutoAllocatable p a \<longleftrightarrow> free_for cfg dets a \<and> a \<notin> set (cfg_reserved cfg)"
  using detector_pool_available [OF assms] detector_pool_facts(1,2) [OF assms]
  by (auto simp: pool_IsAutoAllocatable_def isReserved_def pool_inv_def reservedSet_has)

definition allocated_as :: "allocation_result \<Rightarrow> u16 \<Rightarrow> bool" where
  "allocated_as r a \<longleftrightarrow>
     ar_desired r = a \<and> ar_assigned r = a \<and> ar_phase r = CANDetectorPhaseAllocated \<and> ar_message r = []"

lemma successResult_as: "pool_inv p \<Longrightarrow> \<exists>r. successResult p a = Some r \<and> allocated_as r a"
  by (simp add: successResult_def pool_Stats_eq allocated_as_def)

lemma pool_Allocate_fresh:
  assumes "pool_inv p" and "w \<noteq> []" and "pool_AddressOf p w = None"
    and "pool_Allocate p w = Some (p', r)"
  shows "case r of Inl e \<Rightarrow> e = ErrNoAddressAvailable \<and> (\<forall>b. \<not> pool_IsAutoAllocatable p b)
    | Inr a \<Rightarrow> pool_IsAutoAllocatable p a \<and> (\<forall>b. pool_IsAutoAllocatable p b \<longrightarrow> a \<le> b)"
  using assms free_addrs_lowest [of p] free_addrs_none [of p]
  by (auto simp: pool_Allocate_eq [OF pool_inv_end [OF assms(1)]] pool_AddressOf_def
      split: option.splits list.splits)

lemma detector_pool_lookup:
  assumes "detector_pool cfg dets = Inr p"
  shows "pool_AddressOf p w =
    map_of (map (\<lambda>det. (OwnerKey det, the (assignedAddress det))) (held dets)) w"
proof -
  have "distinct (map OwnerKey (held dets))"
    using detector_pool_facts(3) [OF assms] by (simp add: accepts_def)
  then have "pool_AddressOf p w = Some a \<longleftrightarrow>
      map_of (map (\<lambda>det. (OwnerKey det, the (assignedAddress det))) (held dets)) w = Some a" for a
    by (auto simp: detector_pool_facts(4) [OF assms] map_of_distinct_map held_Some)
  then show ?thesis by (rule option_eq_by_Some)
qed

definition adoptable :: "can_detector \<Rightarrow> u16 option" where
  "adoptable cur = (if AdoptObservedEnabled cur then det_observed (det_status cur) else None)"

lemma allocate_from_pool:
  assumes "detector_pool cfg dets = Inr p"
  shows "allocateDetectorAddress cfg dets cur =
    (case pool_AddressOf p (OwnerKey cur) of
       Some a \<Rightarrow> successResult p a
     | None \<Rightarrow>
         (if \<exists>b. adoptable cur = Some b \<and> pool_IsAvailable p b then
            (case pool_Claim p (OwnerKey cur) (the (adoptable cur)) of
               (p', Some e) \<Rightarrow> Some (failedResult e) | (p', None) \<Rightarrow> successResult p' (the (adoptable cur)))
          else (case pool_Allocate p (OwnerKey cur) of
               None \<Rightarrow> None | Some (p', Inl e) \<Rightarrow> Some (failedResult e)
             | Some (p', Inr a) \<Rightarrow> successResult p' a)))"
proof -
  obtain p0 where p0: "pool_New cfg = Inr p0"
    and r: "pool_Rebuild p0 (assignmentsFromDetectors dets) = (p, None)"
    using assms by (auto simp: detector_pool_def split: sum.splits prod.splits option.splits)
  show ?thesis
    by (cases "det_observed (det_status cur)"; cases "AdoptObservedEnabled cur";
        cases "pool_AddressOf p (OwnerKey cur)")
      (simp_all add: allocateDetectorAddress_def p0 r adoptable_def Let_def)
qed

definition held_by_owner :: "can_detector list \<Rightarrow> string \<Rightarrow> u16 option" where
  "held_by_owner dets w =
     map_of (map (\<lambda>det. (OwnerKey det, the (assignedAddress det))) (held dets)) w"

lemma allocate_cases:
  obtains (rejected) e where "\<not> accepts cfg dets" "detector_pool cfg dets = Inl e"
      "allocateDetectorAddress cfg dets cur = Some (failedResult e)"
  | (kept) r a where "accepts cfg dets" "allocateDetectorAddress cfg dets cur = Some r"
      "held_by_owner dets (OwnerKey cur) = Some a" "allocated_as r a"
  | (adopted) r a where "accepts cfg dets" "allocateDetectorAddress cfg dets cur = Some r"
      "held_by_owner dets (OwnerKey cur) = None" "adoptable cur = Some a" "free_for cfg dets a"
      "allocated_as r a"
  | (lowest) r a where "accepts cfg dets" "allocateDetectorAddress cfg dets cur = Some r"
      "held_by_owner dets (OwnerKey cur) = None" "\<forall>b. adoptable cur = Some b \<longrightarrow> \<not> free_for cfg dets b"
      "free_for cfg dets a" "a \<notin> set (cfg_reserved cfg)" "allocated_as r a"
      "\<forall>b. free_for cfg dets b \<longrightarrow> b \<notin> set (cfg_reserved cfg) \<longrightarrow> a \<le> b"
  | (exhausted) "accepts cfg dets"
      "allocateDetectorAddress cfg dets cur = Some (failedResult ErrNoAddressAvailable)"
      "held_by_owner dets (OwnerKey cur) = None" "\<forall>b. adoptable cur = Some b \<longrightarrow> \<not> free_for cfg dets b"
      "\<forall>b. free_for cfg dets b \<longrightarrow> b \<in> set (cfg_reserved cfg)"
proof (cases "detector_pool cfg dets")
  case (Inl e)
  have "\<not> accepts cfg dets" using Inl detector_pool_accepts by (metis Inl_Inr_False)
  moreover have "allocateDetectorAddress cfg dets cur = Some (failedResult e)"
    using Inl by (auto simp: allocateDetectorAddress_def detector_pool_def
        split: sum.splits prod.splits option.splits)
  ultimately show ?thesis using Inl rejected by blast
next
  case (Inr p)
  note facts = detector_pool_facts [OF Inr]
  note look = detector_pool_lookup [OF Inr, symmetric, folded held_by_owner_def]
  note avail = detector_pool_available [OF Inr] and auto = detector_pool_auto [OF Inr]
  note via = allocate_from_pool [OF Inr, of cur]
  show ?thesis
  proof (cases rule: canpool.keep_adopt_or_alloc [OF facts(1), of "OwnerKey cur" _ "adoptable cur"])
    case 1
    then show ?case by simp
  next
    case (2 a)
    then show ?thesis using successResult_as [OF facts(1), of a] facts(3) via kept look by auto
  next
    case (3 a p')
    then have "allocateDetectorAddress cfg dets cur = successResult p' a" using via by simp
    with successResult_as [OF 3(5), of a] show ?thesis
      using 3 facts(3) look avail adopted by metis
  next
    case (4 a p')
    then have "\<not> (\<exists>b. adoptable cur = Some b \<and> pool_IsAvailable p b)" by blast
    from via [unfolded if_not_P [OF this]]
    have "allocateDetectorAddress cfg dets cur = successResult p' a" using 4(1,3) by simp
    with successResult_as [OF 4(5)] obtain r
      where r: "allocateDetectorAddress cfg dets cur = Some r" "allocated_as r a" by metis
    have f: "pool_IsAutoAllocatable p a" "\<forall>b. pool_IsAutoAllocatable p b \<longrightarrow> a \<le> b"
      using pool_Allocate_fresh [OF facts(1) _ 4(1,3)] by simp_all
    show ?thesis
    proof (rule lowest [OF facts(3) r(1) _ _ _ _ r(2)])
      show "held_by_owner dets (OwnerKey cur) = None" using 4(1) look by simp
      show "\<forall>b. adoptable cur = Some b \<longrightarrow> \<not> free_for cfg dets b" using 4(2) avail by simp
    qed (use f auto in simp_all)
  next
    case (5 e)
    then have "\<not> (\<exists>b. adoptable cur = Some b \<and> pool_IsAvailable p b)" by blast
    from via [unfolded if_not_P [OF this]]
    have "allocateDetectorAddress cfg dets cur = Some (failedResult e)" using 5(1,3) by simp
    moreover have "e = ErrNoAddressAvailable" "\<forall>b. \<not> pool_IsAutoAllocatable p b"
      using pool_Allocate_fresh [OF facts(1) _ 5(1,3)] by simp_all
    ultimately show ?thesis using 5(1,2) facts(3) look avail auto by (intro exhausted) simp_all
  qed
qed

section \<open>Reconciliation against an API server\<close>

definition det_key :: "can_detector \<Rightarrow> string \<times> string" where
  "det_key d = (om_namespace (det_meta d), om_name (det_meta d))"

text \<open>
  What the API server stores, apart from the informer cache that the controller reads. Documented
  behaviour for a resource with a status subresource: an update stores everything but the status, a
  status update only the status. A write that reports an error may or may not have taken effect. No
  write of this controller changes a device or the spec of a pool.
\<close>

record 'w api_store =
  detectors_at :: "'w \<Rightarrow> string \<times> string \<Rightarrow> can_detector option"
  devices_at :: "'w \<Rightarrow> string \<times> string \<Rightarrow> z21device option"
  pools_at :: "'w \<Rightarrow> string \<times> string \<Rightarrow> can_address_pool option"

definition stores :: "'w api_store \<Rightarrow> 'w \<Rightarrow> 'w \<Rightarrow> kube_error + can_detector \<Rightarrow> can_detector \<Rightarrow> bool" where
  "stores V w w' r new \<longleftrightarrow>
     devices_at V w' = devices_at V w \<and> pools_at V w' = pools_at V w \<and>
     (case r of
        Inl e \<Rightarrow> detectors_at V w' = detectors_at V w \<or> detectors_at V w' = (detectors_at V w)(det_key new \<mapsto> new)
      | Inr d \<Rightarrow> detectors_at V w' = (detectors_at V w)(det_key new \<mapsto> new))"

definition law_keys :: "'w api_store \<Rightarrow> bool" where
  "law_keys V \<longleftrightarrow>
     (\<forall>w k d. detectors_at V w k = Some d \<longrightarrow> det_key d = k \<and> CHR ''/'' \<notin> set (fst k))"

text \<open>
  The client decodes the answer of an update into the object it has sent. All fields of the status are
  left out of JSON when they are unset, so those that are set in the stored status replace what was
  computed, and the others keep it.
\<close>

definition decoded_status :: "can_detector_status \<Rightarrow> can_detector_status \<Rightarrow> can_detector_status" where
  "decoded_status sent stored =
     \<lparr>det_observed = (case det_observed stored of None \<Rightarrow> det_observed sent | Some a \<Rightarrow> Some a),
      det_assigned = (case det_assigned stored of None \<Rightarrow> det_assigned sent | Some a \<Rightarrow> Some a),
      det_phase = (if det_phase stored = [] then det_phase sent else det_phase stored),
      det_message = (if det_message stored = [] then det_message sent else det_message stored)\<rparr>"

definition law_writes :: "'w detector_client \<Rightarrow> 'w api_store \<Rightarrow> bool" where
  "law_writes c V \<longleftrightarrow>
     (\<forall>w d old. detectors_at V w (det_key d) = Some old \<longrightarrow>
        stores V w (fst (update_detector c w d)) (snd (update_detector c w d)) (d\<lparr>det_status := det_status old\<rparr>) \<and>
        (\<forall>d'. snd (update_detector c w d) = Inr d' \<longrightarrow>
           d' = d\<lparr>det_status := decoded_status (det_status d) (det_status old)\<rparr>)) \<and>
     (\<forall>w d old. detectors_at V w (det_key d) = Some old \<longrightarrow>
        stores V w (fst (update_detector_status c w d)) (snd (update_detector_status c w d))
          (old\<lparr>det_status := det_status d\<rparr>))"

definition law_pool_writes :: "'w detector_client \<Rightarrow> 'w api_store \<Rightarrow> bool" where
  "law_pool_writes c V \<longleftrightarrow>
     (\<forall>w p. let w' = fst (update_pool_status c w p) in
        detectors_at V w' = detectors_at V w \<and> devices_at V w' = devices_at V w \<and>
        map_option cap_spec \<circ> pools_at V w' = map_option cap_spec \<circ> pools_at V w)"

definition api_laws :: "'w detector_client \<Rightarrow> 'w api_store \<Rightarrow> bool" where
  "api_laws c V \<longleftrightarrow> law_keys V \<and> law_writes c V \<and> law_pool_writes c V"

text \<open>
  The reads of the controller are answered by a cache, which may lag behind the store. It has caught up
  in a state where they give what is stored; one \<open>Reconcile\<close> makes all its reads before its first write.
\<close>

definition reads_as :: "(string \<times> string \<Rightarrow> kube_error + 'a) \<Rightarrow> (string \<times> string \<Rightarrow> 'a option) \<Rightarrow> bool" where
  "reads_as get stored \<longleftrightarrow>
     (\<forall>k x. get k = Inr x \<longrightarrow> stored k = Some x) \<and> (\<forall>k m. get k = Inl (KubeNotFound m) \<longrightarrow> stored k = None)"

definition caught_up :: "'w detector_client \<Rightarrow> 'w api_store \<Rightarrow> 'w \<Rightarrow> bool" where
  "caught_up c V w \<longleftrightarrow>
     reads_as (get_detector c w) (detectors_at V w) \<and> reads_as (get_device c w) (devices_at V w) \<and>
     reads_as (get_pool c w) (pools_at V w) \<and>
     (\<forall>ds. list_detectors c w = Inr ds \<longrightarrow>
        distinct (map det_key ds) \<and> set ds = {d. detectors_at V w (det_key d) = Some d})"

lemma api_key:
  assumes "api_laws c V" and "detectors_at V w k = Some d"
  shows "det_key d = k" and "CHR ''/'' \<notin> set (fst k)"
proof -
  from assms(1) have "law_keys V" by (simp add: api_laws_def)
  with assms(2) show "det_key d = k" and "CHR ''/'' \<notin> set (fst k)" unfolding law_keys_def by metis+
qed

lemma api_get:
  assumes "caught_up c V w"
  shows "get_detector c w k = Inr d \<Longrightarrow> detectors_at V w k = Some d"
    and "get_detector c w k = Inl (KubeNotFound m) \<Longrightarrow> detectors_at V w k = None"
    and "get_device c w k = Inr dev \<Longrightarrow> devices_at V w k = Some dev"
    and "get_device c w k = Inl (KubeNotFound m) \<Longrightarrow> devices_at V w k = None"
    and "get_pool c w k = Inr p \<Longrightarrow> pools_at V w k = Some p"
    and "get_pool c w k = Inl (KubeNotFound m) \<Longrightarrow> pools_at V w k = None"
    and "list_detectors c w = Inr ds \<Longrightarrow>
      distinct (map det_key ds) \<and> set ds = {d. detectors_at V w (det_key d) = Some d}"
  using assms unfolding caught_up_def reads_as_def by metis+

lemma api_update:
  assumes "api_laws c V" and "detectors_at V w (det_key d) = Some old"
  shows "update_detector c w d = (w', r) \<Longrightarrow> stores V w w' r (d\<lparr>det_status := det_status old\<rparr>)"
    and "update_detector c w d = (w', Inr d') \<Longrightarrow>
      d' = d\<lparr>det_status := decoded_status (det_status d) (det_status old)\<rparr>"
    and "update_detector_status c w d = (w', r) \<Longrightarrow>
      stores V w w' r (old\<lparr>det_status := det_status d\<rparr>)"
proof -
  from assms(1) have "law_writes c V" by (simp add: api_laws_def)
  with assms(2) show "update_detector c w d = (w', r) \<Longrightarrow>
      stores V w w' r (d\<lparr>det_status := det_status old\<rparr>)"
    and "update_detector c w d = (w', Inr d') \<Longrightarrow>
      d' = d\<lparr>det_status := decoded_status (det_status d) (det_status old)\<rparr>"
    and "update_detector_status c w d = (w', r) \<Longrightarrow>
      stores V w w' r (old\<lparr>det_status := det_status d\<rparr>)"
    unfolding law_writes_def by (metis fst_conv snd_conv)+
qed

lemma api_pool_status:
  assumes "api_laws c V"
  shows "detectors_at V (fst (update_pool_status c w p)) = detectors_at V w"
    and "devices_at V (fst (update_pool_status c w p)) = devices_at V w"
    and "map_option cap_spec \<circ> pools_at V (fst (update_pool_status c w p)) = map_option cap_spec \<circ> pools_at V w"
  using assms by (simp_all add: api_laws_def law_pool_writes_def Let_def)

lemma updatePoolStatus_keeps:
  assumes "api_laws c V"
  shows "detectors_at V (fst (updatePoolStatus c w p st)) = detectors_at V w"
    and "devices_at V (fst (updatePoolStatus c w p st)) = devices_at V w"
    and "map_option cap_spec \<circ> pools_at V (fst (updatePoolStatus c w p st)) = map_option cap_spec \<circ> pools_at V w"
proof -
  have "fst (updatePoolStatus c w p st) = w \<or>
      fst (updatePoolStatus c w p st) =
        fst (update_pool_status c w (p\<lparr>cap_status := poolStatusFromStats st\<rparr>))"
    by (simp add: updatePoolStatus_def Let_def split: prod.splits sum.splits)
  then show "detectors_at V (fst (updatePoolStatus c w p st)) = detectors_at V w"
    and "devices_at V (fst (updatePoolStatus c w p st)) = devices_at V w"
    and "map_option cap_spec \<circ> pools_at V (fst (updatePoolStatus c w p st)) = map_option cap_spec \<circ> pools_at V w"
    using api_pool_status [OF assms, of w "p\<lparr>cap_status := poolStatusFromStats st\<rparr>"] by auto
qed

lemma OwnerKey_inj:
  assumes "CHR ''/'' \<notin> set (om_namespace (det_meta d))" "CHR ''/'' \<notin> set (om_namespace (det_meta e))"
    and "OwnerKey d = OwnerKey e"
  shows "det_key d = det_key e"
proof -
  have i: "index_of (CHR ''/'') (OwnerKey d) = Some (length (om_namespace (det_meta d)))"
    and "index_of (CHR ''/'') (OwnerKey e) = Some (length (om_namespace (det_meta e)))"
    using assms(1,2) by (simp_all add: OwnerKey_def index_of_append)
  then have "length (om_namespace (det_meta d)) = length (om_namespace (det_meta e))"
    using assms(3) by simp
  then show ?thesis using assms(3) by (simp add: det_key_def OwnerKey_def)
qed

text \<open>
  The pool a detector belongs to, and the pairs of detectors that hold one address of one pool.
\<close>

definition device_pool :: "'w api_store \<Rightarrow> 'w \<Rightarrow> can_detector \<Rightarrow> (string \<times> string) option" where
  "device_pool V w d =
     (if det_device_ref (det_spec d) = [] then None
      else case devices_at V w (om_namespace (det_meta d), det_device_ref (det_spec d)) of
             None \<Rightarrow> None
           | Some dev \<Rightarrow> Some (CANAddressPoolNamespace dev, CANAddressPoolName dev))"

definition conflicts :: "'w api_store \<Rightarrow> 'w \<Rightarrow> ((string \<times> string) \<times> string \<times> string) set" where
  "conflicts V w =
     {(k, l). k \<noteq> l \<and> (\<exists>d e a. detectors_at V w k = Some d \<and> detectors_at V w l = Some e \<and>
        device_pool V w d \<noteq> None \<and> device_pool V w d = device_pool V w e \<and>
        assignedAddress d = Some a \<and> assignedAddress e = Some a)}"

lemma conflictsI:
  assumes "k \<noteq> l" and "detectors_at V w k = Some d" and "detectors_at V w l = Some e"
    and "device_pool V w d = Some p" and "device_pool V w e = Some p"
    and "assignedAddress d = Some a" and "assignedAddress e = Some a"
  shows "(k, l) \<in> conflicts V w"
  using assms by (simp add: conflicts_def)

lemma conflictsE:
  assumes "(k, l) \<in> conflicts V w"
  obtains d e p a where "k \<noteq> l" "detectors_at V w k = Some d" "detectors_at V w l = Some e"
    "device_pool V w d = Some p" "device_pool V w e = Some p" "assignedAddress d = Some a" "assignedAddress e = Some a"
  using assms by (fastforce simp: conflicts_def)

lemma pool_detectors_loop_filter:
  "caught_up c V w \<Longrightarrow> pool_detectors_loop c w ns n items = Inr ds \<Longrightarrow>
   ds = filter (\<lambda>d. device_pool V w d = Some (ns, n)) items"
proof (induction items arbitrary: ds)
  case Nil
  then show ?case by simp
next
  case (Cons det items)
  note get = api_get(3,4) [OF Cons.prems(1), of "(om_namespace (det_meta det), det_device_ref (det_spec det))"]
  show ?case using Cons get
    by (auto simp: device_pool_def [of V w det] split: if_splits sum.splits kube_error.splits)
qed

lemma listPoolDetectors_set:
  assumes "caught_up c V w" and "listPoolDetectors c w ns n = Inr ds"
  shows "distinct (map det_key ds)"
    and "d \<in> set ds \<longleftrightarrow> detectors_at V w (det_key d) = Some d \<and> device_pool V w d = Some (ns, n)"
proof -
  obtain items where i: "list_detectors c w = Inr items" "pool_detectors_loop c w ns n items = Inr ds"
    using assms(2) by (auto simp: listPoolDetectors_def split: sum.splits)
  have ds: "ds = filter (\<lambda>d. device_pool V w d = Some (ns, n)) items"
    by (rule pool_detectors_loop_filter [OF assms(1) i(2)])
  show "distinct (map det_key ds)"
    and "d \<in> set ds \<longleftrightarrow> detectors_at V w (det_key d) = Some d \<and> device_pool V w d = Some (ns, n)"
    using api_get(7) [OF assms(1) i(1)] by (auto simp: ds distinct_map_filter)
qed

text \<open>
  What a write may do to the detector stored under a key: keep its key and device, and either
  keep the address it holds or give it one of \<open>A\<close>.
\<close>

definition moves :: "'w api_store \<Rightarrow> string \<times> string \<Rightarrow> u16 set \<Rightarrow> 'w \<Rightarrow> 'w \<Rightarrow> bool" where
  "moves V k A w w' \<longleftrightarrow> devices_at V w' = devices_at V w \<and>
     (detectors_at V w')(k := None) = (detectors_at V w)(k := None) \<and>
     (\<exists>d d'. detectors_at V w k = Some d \<and> detectors_at V w' k = Some d' \<and> det_key d' = k \<and>
       det_device_ref (det_spec d') = det_device_ref (det_spec d) \<and>
       assignedAddress d' \<in> insert (assignedAddress d) (Some ` A))"

lemma moves_refl: "api_laws c V \<Longrightarrow> detectors_at V w k = Some d \<Longrightarrow> moves V k A w w"
  by (auto simp: moves_def api_key)

lemma moves_trans: "moves V k A w v \<Longrightarrow> moves V k A v u \<Longrightarrow> moves V k A w u"
  by (auto simp: moves_def)

lemma moves_mono: "moves V k A w v \<Longrightarrow> A \<subseteq> B \<Longrightarrow> moves V k B w v"
  by (auto simp: moves_def)

lemma stores_moves:
  assumes "api_laws c V" and "stores V w w' r new" and "detectors_at V w k = Some d"
    and "det_key new = k" and "det_device_ref (det_spec new) = det_device_ref (det_spec d)"
    and "assignedAddress new \<in> insert (assignedAddress d) (Some ` A)"
  shows "moves V k A w w'"
proof -
  consider "detectors_at V w' = detectors_at V w" | "detectors_at V w' = (detectors_at V w)(k \<mapsto> new)"
    using assms(2,4) by (auto simp: stores_def split: sum.splits)
  then show ?thesis
    using assms(2-) api_key(1) [OF assms(1,3)] by cases (auto simp: moves_def stores_def)
qed

lemma ensureDeviceLabel_keeps:
  assumes "ensureDeviceLabel d = (d', b)"
  shows "det_spec d' = det_spec d" and "det_status d' = det_status d" and "det_key d' = det_key d"
    and "om_namespace (det_meta d') = om_namespace (det_meta d)" and "\<not> b \<Longrightarrow> d' = d"
  using assms by (auto simp: ensureDeviceLabel_def set_label_def det_key_def Let_def split: if_splits)

lemma assignedAddress_cong:
  "det_assigned (det_status x) = det_assigned (det_status y) \<Longrightarrow>
   det_desired (det_spec x) = det_desired (det_spec y) \<Longrightarrow> assignedAddress x = assignedAddress y"
  by (simp add: assignedAddress_def split: option.split)

lemma patchFailed_moves:
  assumes a: "api_laws c V" "detectors_at V w k = Some d" and p: "patchFailed c w d msg = (w', e)"
  shows "moves V k {} w w'"
proof -
  have k: "det_key d = k" using a by (rule api_key)
  let ?st = "(det_status d)\<lparr>det_phase := CANDetectorPhaseFailed, det_message := msg\<rparr>"
  consider "w' = w" | r where "update_detector_status c w (d\<lparr>det_status := ?st\<rparr>) = (w', r)"
    using p by (auto simp: patchFailed_def Let_def split: if_splits prod.splits sum.splits)
  then show ?thesis
  proof cases
    case 1
    then show ?thesis using moves_refl [OF a] by simp
  next
    case (2 r)
    have "detectors_at V w (det_key (d\<lparr>det_status := ?st\<rparr>)) = Some d" using a(2) k by (simp add: det_key_def)
    from stores_moves [OF a(1) api_update(3) [OF a(1) this 2] a(2)] show ?thesis
      using k assignedAddress_cong [of "d\<lparr>det_status := ?st\<rparr>" d] by (simp add: det_key_def)
  qed
qed

definition granted :: "allocation_result \<Rightarrow> u16 set" where
  "granted r = (if ar_phase r = CANDetectorPhaseAllocated then {ar_desired r, ar_assigned r} else {})"

lemma assigned_applyAllocation:
  "assignedAddress (applyAllocation d r) \<in> insert (assignedAddress d) (Some ` granted r)"
  "assignedAddress ((applyAllocation d r)\<lparr>det_status := det_status d\<rparr>) \<in>
     insert (assignedAddress d) (Some ` granted r)"
  by (auto simp: applyAllocation_def assignedAddress_def granted_def split: option.splits)

lemma applyAllocation_keeps [simp]:
  "det_meta (applyAllocation d r) = det_meta d"
  "det_device_ref (det_spec (applyAllocation d r)) = det_device_ref (det_spec d)"
  "det_key (applyAllocation d r) = det_key d"
  by (simp_all add: applyAllocation_def det_key_def)

text \<open>
  The write of the specification and the write of the status, each done only when something changed; \<open>det\<close> is
  what is to be stored, \<open>b\<close> tells whether its label is new.
\<close>

definition spec_written ::
  "'w detector_client \<Rightarrow> 'w \<Rightarrow> can_detector \<Rightarrow> can_detector \<Rightarrow> bool \<Rightarrow> 'w \<Rightarrow> kube_error + can_detector \<Rightarrow> bool" where
  "spec_written c w orig det b w1 r1 \<longleftrightarrow>
     (if det_spec orig \<noteq> det_spec det \<or> b then update_detector c w det else (w, Inr det)) = (w1, r1)"

definition status_written ::
  "'w detector_client \<Rightarrow> 'w \<Rightarrow> can_detector \<Rightarrow> can_detector \<Rightarrow> can_detector \<Rightarrow> 'w \<Rightarrow> kube_error + can_detector \<Rightarrow> bool" where
  "status_written c w1 orig det d1 w2 r2 \<longleftrightarrow>
     (if det_status orig \<noteq> det_status det then update_detector_status c w1 d1 else (w1, Inr d1)) = (w2, r2)"

lemma writeDetector_cases:
  assumes "writeDetector c w orig poolCR r = (w', e)" and "ensureDeviceLabel orig = (lab, b)"
  obtains
    (spec) e1 where "spec_written c w orig (applyAllocation lab r) b w' (Inl e1)" "e = Some e1"
  | (status) w1 d1 e2 where "spec_written c w orig (applyAllocation lab r) b w1 (Inr d1)"
      "status_written c w1 orig (applyAllocation lab r) d1 w' (Inl e2)" "e = Some e2"
  | (written) w1 d1 w2 d2 where "spec_written c w orig (applyAllocation lab r) b w1 (Inr d1)"
      "status_written c w1 orig (applyAllocation lab r) d1 w2 (Inr d2)" "e = None"
      "w' = (if ar_phase r = CANDetectorPhaseAllocated then fst (updatePoolStatus c w2 poolCR (ar_stats r)) else w2)"
proof -
  let ?det = "applyAllocation lab r"
  obtain w1 r1 where 1: "spec_written c w orig ?det b w1 r1" unfolding spec_written_def by (rule prod.exhaust) blast
  show thesis
  proof (cases r1)
    case (Inl e1)
    then show ?thesis using assms 1 spec by (auto simp: writeDetector_def Let_def spec_written_def split: if_splits)
  next
    case (Inr d1)
    obtain w2 r2 where 2: "status_written c w1 orig ?det d1 w2 r2" unfolding status_written_def by (rule prod.exhaust) blast
    have w: "writeDetector c w orig poolCR r =
        (case r2 of Inl e2 \<Rightarrow> (w2, Some e2)
         | Inr d2 \<Rightarrow> (if ar_phase r = CANDetectorPhaseAllocated then fst (updatePoolStatus c w2 poolCR (ar_stats r)) else w2, None))"
      using 1 [unfolded spec_written_def] 2 [unfolded status_written_def]
      by (simp add: writeDetector_def Let_def assms(2) Inr)
    show ?thesis using assms(1) w 1 2 status written Inr by (cases r2) auto
  qed
qed

lemma spec_written_moves:
  assumes "api_laws c V" and "detectors_at V w k = Some orig" and "ensureDeviceLabel orig = (lab, b)"
    and "spec_written c w orig (applyAllocation lab r) b w1 r1"
  shows "moves V k (granted r) w w1"
    and "r1 = Inr d1 \<Longrightarrow> \<exists>old. detectors_at V w1 k = Some old \<and> det_key d1 = k \<and> det_key old = k \<and>
      det_device_ref (det_spec old) = det_device_ref (det_spec orig) \<and>
      assignedAddress (old\<lparr>det_status := det_status d1\<rparr>) \<in> insert (assignedAddress orig) (Some ` granted r)"
proof -
  note lk = ensureDeviceLabel_keeps [OF assms(3)]
  have k: "det_key orig = k" using assms(1,2) by (rule api_key)
  let ?det = "applyAllocation lab r"
  let ?new = "?det\<lparr>det_status := det_status orig\<rparr>"
  have aa: "assignedAddress x = assignedAddress y" if "det_spec x = det_spec y" "det_status x = det_status y"
    for x y using that by (intro assignedAddress_cong) simp_all
  have orig_det: "assignedAddress ?det \<in> insert (assignedAddress orig) (Some ` granted r)"
    "assignedAddress ?new \<in> insert (assignedAddress orig) (Some ` granted r)"
    using assigned_applyAllocation [of lab r] aa [OF lk(1,2)] lk(2) by simp_all
  have kd: "det_key ?det = k" "det_device_ref (det_spec ?det) = det_device_ref (det_spec orig)"
    using lk k by simp_all
  have "moves V k (granted r) w w1 \<and> (\<forall>d1. r1 = Inr d1 \<longrightarrow>
      (\<exists>old. detectors_at V w1 k = Some old \<and> det_key d1 = k \<and> det_key old = k \<and>
        det_device_ref (det_spec old) = det_device_ref (det_spec orig) \<and>
        assignedAddress (old\<lparr>det_status := det_status d1\<rparr>) \<in> insert (assignedAddress orig) (Some ` granted r)))"
  proof (cases "det_spec orig \<noteq> det_spec ?det \<or> b")
    case True
    have upd: "detectors_at V w (det_key ?det) = Some orig" using assms(2) kd by simp
    from api_update(1) [OF assms(1) this] assms(4) True have st: "stores V w w1 r1 ?new" by (simp add: spec_written_def)
    have m: "moves V k (granted r) w w1"
      using stores_moves [OF assms(1) st assms(2)] kd orig_det by (simp add: det_key_def)
    show ?thesis
    proof (intro conjI allI impI m)
      fix d1 assume "r1 = Inr d1"
      then have d1: "d1 = ?det\<lparr>det_status := decoded_status (det_status ?det) (det_status orig)\<rparr>"
        and v1: "detectors_at V w1 k = Some ?new"
        using api_update(2) [OF assms(1) upd, of w1 d1] assms(4) True st kd by (auto simp: spec_written_def stores_def det_key_def)
      have "assignedAddress (?new\<lparr>det_status := det_status d1\<rparr>) \<in> insert (assignedAddress orig) (Some ` granted r)"
        using orig_det lk(2) by (auto simp: d1 decoded_status_def assignedAddress_def split: option.splits)
      then show "\<exists>old. detectors_at V w1 k = Some old \<and> det_key d1 = k \<and> det_key old = k \<and>
        det_device_ref (det_spec old) = det_device_ref (det_spec orig) \<and>
        assignedAddress (old\<lparr>det_status := det_status d1\<rparr>) \<in> insert (assignedAddress orig) (Some ` granted r)"
        using v1 kd d1 by (intro exI [of _ ?new]) (simp add: det_key_def)
    qed
  next
    case False
    then have "w1 = w" "r1 = Inr ?det" "det_spec ?det = det_spec orig" using assms(4) by (auto simp: spec_written_def)
    moreover from this have "assignedAddress (orig\<lparr>det_status := det_status ?det\<rparr>) = assignedAddress ?det"
      by (intro aa) simp_all
    ultimately show ?thesis using moves_refl [OF assms(1,2)] assms(2) k orig_det kd by auto
  qed
  then show "moves V k (granted r) w w1"
    and "r1 = Inr d1 \<Longrightarrow> \<exists>old. detectors_at V w1 k = Some old \<and> det_key d1 = k \<and> det_key old = k \<and>
      det_device_ref (det_spec old) = det_device_ref (det_spec orig) \<and>
      assignedAddress (old\<lparr>det_status := det_status d1\<rparr>) \<in> insert (assignedAddress orig) (Some ` granted r)" by blast+
qed

lemma status_written_moves:
  assumes "api_laws c V" and "detectors_at V w k = Some orig" and "moves V k A w w1"
    and old: "detectors_at V w1 k = Some old" "det_key d1 = k" "det_key old = k"
      "det_device_ref (det_spec old) = det_device_ref (det_spec orig)"
      "assignedAddress (old\<lparr>det_status := det_status d1\<rparr>) \<in> insert (assignedAddress orig) (Some ` A)"
    and "status_written c w1 orig det d1 w2 r2"
  shows "moves V k A w w2"
proof (cases "det_status orig \<noteq> det_status det")
  case True
  have "detectors_at V w1 (det_key d1) = Some old" using old by simp
  from api_update(3) [OF assms(1) this] assms(9) True
  have st: "stores V w1 w2 r2 (old\<lparr>det_status := det_status d1\<rparr>)" by (simp add: status_written_def)
  have kn: "det_key (old\<lparr>det_status := det_status d1\<rparr>) = k" using old(3) by (simp add: det_key_def)
  consider "detectors_at V w2 = detectors_at V w1" | "detectors_at V w2 = (detectors_at V w1)(k \<mapsto> old\<lparr>det_status := det_status d1\<rparr>)"
    using st kn by (auto simp: stores_def split: sum.splits)
  then show ?thesis using assms(2,3) old(4,5) kn st by cases (simp_all add: moves_def stores_def)
next
  case False
  then show ?thesis using assms(3,9) by (simp add: status_written_def)
qed

lemma writeDetector_moves:
  assumes a: "api_laws c V" "detectors_at V w k = Some orig"
    and wr: "writeDetector c w orig poolCR r = (w', e)"
  shows "moves V k (granted r) w w'"
proof -
  obtain lab b where l: "ensureDeviceLabel orig = (lab, b)" by (cases "ensureDeviceLabel orig")
  note spec_moves = spec_written_moves [OF a l]
  have status_moves: "moves V k (granted r) w w2"
    if "spec_written c w orig (applyAllocation lab r) b w1 (Inr d1)" "status_written c w1 orig (applyAllocation lab r) d1 w2 r2" for w1 d1 w2 r2
  proof -
    from spec_moves(2) [OF that(1) refl] obtain old where old: "detectors_at V w1 k = Some old" "det_key d1 = k" "det_key old = k"
      "det_device_ref (det_spec old) = det_device_ref (det_spec orig)"
      "assignedAddress (old\<lparr>det_status := det_status d1\<rparr>) \<in> insert (assignedAddress orig) (Some ` granted r)" by blast
    show ?thesis by (rule status_written_moves [OF a spec_moves(1) [OF that(1)] old that(2)])
  qed
  from wr l show ?thesis
  proof (cases rule: writeDetector_cases)
    case (spec e1)
    then show ?thesis using spec_moves(1) by blast
  next
    case (status w1 d1 e2)
    then show ?thesis using status_moves by blast
  next
    case (written w1 d1 w2 d2)
    then show ?thesis using status_moves [OF written(1,2)] updatePoolStatus_keeps [OF a(1)] by (auto simp: moves_def)
  qed
qed

text \<open>An allocation never grants an address another of the listed detectors holds.\<close>

lemma held_by_owner_in:
  assumes "accepts cfg dets"
  shows "held_by_owner dets w = Some a \<longleftrightarrow>
    (\<exists>det \<in> set dets. OwnerKey det = w \<and> assignedAddress det = Some a)"
proof -
  have "distinct (map OwnerKey (held dets))" using assms by (simp add: accepts_def)
  then show ?thesis by (auto simp: held_by_owner_def map_of_distinct_map held_Some)
qed

lemma held_by_owner_none:
  assumes "accepts cfg dets" and "held_by_owner dets w = None" and "det \<in> set dets" and "OwnerKey det = w"
  shows "assignedAddress det = None"
  using assms held_by_owner_in [OF assms(1), of w] by (cases "assignedAddress det") auto

lemma held_distinct:
  assumes "accepts cfg dets" and "det \<in> set dets" and "e \<in> set dets"
    and "assignedAddress det = Some a" and "assignedAddress e = Some a"
  shows "det = e"
proof -
  have "inj_on assignedAddress (set (held dets))"
    using assms(1) by (simp add: accepts_def distinct_map)
  moreover have "det \<in> set (held dets)" "e \<in> set (held dets)" using assms by (simp_all add: held_Some)
  ultimately show ?thesis using assms(4,5) by (simp add: inj_on_def)
qed

lemma phases_differ: "CANDetectorPhaseFailed \<noteq> CANDetectorPhaseAllocated"
  by (simp add: elp_consts)

lemma granted_cases:
  assumes "allocateDetectorAddress cfg dets cur = Some r"
  obtains (none) "granted r = {}" "ar_phase r = CANDetectorPhaseFailed"
  | (some) a where "granted r = {a}" "allocated_as r a" "accepts cfg dets" "in_config cfg a"
      "\<forall>det \<in> set dets. assignedAddress det = Some a \<longrightarrow> OwnerKey det = OwnerKey cur"
      "\<forall>det \<in> set dets. \<forall>b. OwnerKey det = OwnerKey cur \<longrightarrow> assignedAddress det = Some b \<longrightarrow> b = a"
proof (cases rule: allocate_cases [of cfg dets cur])
  case (rejected e)
  then show ?thesis using assms none by (simp add: granted_def failedResult_def phases_differ)
next
  case (kept r' a)
  then have r: "r' = r" using assms by simp
  obtain det where det: "det \<in> set dets" "OwnerKey det = OwnerKey cur" "assignedAddress det = Some a"
    using kept(3) held_by_owner_in [OF kept(1)] by blast
  show ?thesis
  proof (rule some)
    show "\<forall>det \<in> set dets. assignedAddress det = Some a \<longrightarrow> OwnerKey det = OwnerKey cur"
      using held_distinct [OF kept(1) det(1) _ det(3)] det(2) by metis
    show "\<forall>det \<in> set dets. \<forall>b. OwnerKey det = OwnerKey cur \<longrightarrow> assignedAddress det = Some b \<longrightarrow> b = a"
      using kept(3) held_by_owner_in [OF kept(1)] by (metis option.inject)
    show "in_config cfg a" using kept(1) det by (auto simp: accepts_def)
  qed (use kept r in \<open>simp_all add: granted_def allocated_as_def\<close>)
next
  case (adopted r' a)
  then have "r' = r" using assms by simp
  then show ?thesis using adopted held_by_owner_none [OF adopted(1,3)]
    by (intro some [of a]) (auto simp: granted_def allocated_as_def free_for_def)
next
  case (lowest r' a)
  then have "r' = r" using assms by simp
  then show ?thesis using lowest held_by_owner_none [OF lowest(1,3)]
    by (intro some [of a]) (auto simp: granted_def allocated_as_def free_for_def)
next
  case exhausted
  then show ?thesis using assms none by (simp add: granted_def failedResult_def phases_differ)
qed

text \<open>What one \<open>Reconcile\<close> does to the store.\<close>

lemma Reconcile_effect:
  assumes a: "api_laws c V" and up: "caught_up c V w" and r: "Reconcile c w k = Some (w', e)"
  obtains (idle) "w' = w"
  | (failed) d where "detectors_at V w k = Some d" "moves V k {} w w'"
  | (allocated) d dev poolCR ds r where "detectors_at V w k = Some d"
      "get_device c w (fst k, det_device_ref (det_spec d)) = Inr dev" "det_device_ref (det_spec d) \<noteq> []"
      "get_pool c w (CANAddressPoolNamespace dev, CANAddressPoolName dev) = Inr poolCR"
      "listPoolDetectors c w (CANAddressPoolNamespace dev) (CANAddressPoolName dev) = Inr ds"
      "allocateDetectorAddress (poolConfigFromCR poolCR) ds d = Some r"
      "writeDetector c w d poolCR r = (w', e)"
proof (cases "get_detector c w k")
  case (Inl x)
  then show ?thesis using r idle by (auto simp: Reconcile_def split: kube_error.splits)
next
  case (Inr d)
  have d: "detectors_at V w k = Some d" by (rule api_get(1) [OF up Inr])
  have pf: "patchFailed c w d m = (w', e) \<Longrightarrow> thesis" for m
    using failed [OF d] patchFailed_moves [OF a d] by blast
  show ?thesis
  proof (cases "det_device_ref (det_spec d) = []")
    case True
    then show ?thesis using r Inr pf by (simp add: Reconcile_def)
  next
    case ref: False
    show ?thesis
    proof (cases "get_device c w (fst k, det_device_ref (det_spec d))")
      case (Inl x)
      then show ?thesis using r Inr ref pf idle
        by (auto simp: Reconcile_def Let_def split: kube_error.splits)
    next
      case dev: (Inr dev)
      show ?thesis
      proof (cases "get_pool c w (CANAddressPoolNamespace dev, CANAddressPoolName dev)")
        case (Inl x)
        then show ?thesis using r Inr ref dev pf idle
          by (auto simp: Reconcile_def Let_def split: kube_error.splits)
      next
        case pool: (Inr poolCR)
        then show ?thesis using r Inr ref dev idle allocated [OF d dev ref pool]
          by (auto simp: Reconcile_def Let_def split: sum.splits option.splits)
      qed
    qed
  qed
qed

lemma moves_device_pool:
  assumes "moves V k A w w'" and "det_key d = det_key e"
    and "det_device_ref (det_spec d) = det_device_ref (det_spec e)"
  shows "device_pool V w' d = device_pool V w e"
  using assms by (simp add: moves_def device_pool_def det_key_def)

lemma conflicts_sym: "(k, l) \<in> conflicts V w \<Longrightarrow> (l, k) \<in> conflicts V w"
  by (fastforce simp: conflicts_def)

lemma moves_conflicts:
  assumes a: "api_laws c V" and m: "moves V k A w w'"
    and fresh: "\<And>d e x. detectors_at V w k = Some d \<Longrightarrow> detectors_at V w (det_key e) = Some e \<Longrightarrow> det_key e \<noteq> k \<Longrightarrow>
      device_pool V w d \<noteq> None \<Longrightarrow> device_pool V w d = device_pool V w e \<Longrightarrow> x \<in> A \<Longrightarrow>
      assignedAddress e \<noteq> Some x"
  shows "conflicts V w' \<subseteq> conflicts V w"
proof -
  obtain d d' where d: "detectors_at V w k = Some d" "detectors_at V w' k = Some d'" "det_key d' = k"
    "det_device_ref (det_spec d') = det_device_ref (det_spec d)"
    "assignedAddress d' \<in> insert (assignedAddress d) (Some ` A)" and g: "devices_at V w' = devices_at V w"
    and o: "(detectors_at V w')(k := None) = (detectors_at V w)(k := None)"
    using m unfolding moves_def by blast
  have dk: "det_key d = k" by (rule api_key(1) [OF a d(1)])
  have dp: "device_pool V w' x = device_pool V w x" for x using g by (simp add: device_pool_def)
  have dd: "device_pool V w d' = device_pool V w d"
    using moves_device_pool [OF m, of d' d] d(3,4) dk dp by simp
  have other: "detectors_at V w' l = detectors_at V w l" if "l \<noteq> k" for l using fun_cong [OF o, of l] that by simp
  have one: "(k, l) \<in> conflicts V w" if h: "(k, l) \<in> conflicts V w'" for l
  proof -
    from h obtain f e p x where f: "k \<noteq> l" "detectors_at V w' k = Some f" "detectors_at V w' l = Some e"
      "device_pool V w' f = Some p" "device_pool V w' e = Some p" "assignedAddress f = Some x" "assignedAddress e = Some x"
      by (rule conflictsE)
    moreover have "f = d'" using f(2) d(2) by simp
    ultimately have e: "l \<noteq> k" "detectors_at V w l = Some e" "device_pool V w d = Some p" "device_pool V w e = Some p"
      "assignedAddress d' = Some x" "assignedAddress e = Some x"
      using other [of l] dp dd by simp_all
    have "det_key e = l" by (rule api_key(1) [OF a e(2)])
    then have "x \<notin> A" using fresh [OF d(1), of e x] e by auto
    then have "assignedAddress d = Some x" using d(5) e(5) by auto
    then show ?thesis using conflictsI [of k l V w d e p x] d(1) e by simp
  qed
  have "(p, q) \<in> conflicts V w" if h: "(p, q) \<in> conflicts V w'" for p q
  proof -
    consider "p = k" | "q = k" | "p \<noteq> k" "q \<noteq> k" by blast
    then show ?thesis
    proof cases
      case 1 then show ?thesis using one [of q] h by simp
    next
      case 2 then show ?thesis using conflicts_sym [OF one [of p]] conflicts_sym [OF h] by simp
    next
      case 3
      from h obtain f e x a where f: "p \<noteq> q" "detectors_at V w' p = Some f" "detectors_at V w' q = Some e"
        "device_pool V w' f = Some x" "device_pool V w' e = Some x" "assignedAddress f = Some a" "assignedAddress e = Some a"
        by (rule conflictsE)
      show ?thesis
        by (rule conflictsI [of p q V w f e x a]) (use f other [OF 3(1)] other [OF 3(2)] dp in simp_all)
    qed
  qed
  then show ?thesis by auto
qed

text \<open>A reconciliation that has read the present state makes no conflict.\<close>

lemma Reconcile_conflicts:
  assumes a: "api_laws c V" and up: "caught_up c V w" and r: "Reconcile c w k = Some (w', e)"
  shows "conflicts V w' \<subseteq> conflicts V w"
  using a up r
proof (cases rule: Reconcile_effect)
  case idle
  then show ?thesis by simp
next
  case (failed d)
  show ?thesis by (rule moves_conflicts [OF a failed(2)]) simp
next
  case (allocated d dev poolCR ds r)
  let ?P = "(CANAddressPoolNamespace dev, CANAddressPoolName dev)"
  have k: "det_key d = k" by (rule api_key(1) [OF a allocated(1)])
  have ns: "CHR ''/'' \<notin> set (om_namespace (det_meta d))"
    using api_key(2) [OF a allocated(1)] k by (auto simp: det_key_def)
  have P: "device_pool V w d = Some ?P"
    using api_get(3) [OF up allocated(2)] allocated(3) k by (auto simp: device_pool_def det_key_def)
  have m: "moves V k (granted r) w w'" by (rule writeDetector_moves [OF a allocated(1,7)])
  show ?thesis
  proof (rule moves_conflicts [OF a m])
    fix d0 e0 x
    assume h: "detectors_at V w k = Some d0" "detectors_at V w (det_key e0) = Some e0" "det_key e0 \<noteq> k"
      "device_pool V w d0 \<noteq> None" "device_pool V w d0 = device_pool V w e0" "x \<in> granted r"
    have "device_pool V w e0 = Some ?P" using h(1,5) allocated(1) P by simp
    then have e0: "e0 \<in> set ds" using listPoolDetectors_set(2) [OF up allocated(5)] h(2) by simp
    have "CHR ''/'' \<notin> set (om_namespace (det_meta e0))"
      using api_key(2) [OF a h(2)] by (simp add: det_key_def)
    then have "OwnerKey e0 \<noteq> OwnerKey d" using OwnerKey_inj [OF _ ns] h(3) k by metis
    then show "assignedAddress e0 \<noteq> Some x"
      using granted_cases [OF allocated(6)] h(6) e0 by (metis empty_iff singletonD)
  qed
qed

text \<open>
  What happens to the fleet: the controller reconciles a detector with a cache that has caught up, or
  somebody else (the gateways, a user, time for the cache) leads to any other state at all. The run
  records the conflicts that others have made.
\<close>

inductive fleet_run ::
  "'w detector_client \<Rightarrow> 'w api_store \<Rightarrow> 'w \<Rightarrow> ((string \<times> string) \<times> string \<times> string) set \<Rightarrow> 'w \<Rightarrow> bool"
  for c V w where
  start: "fleet_run c V w {} w"
| reconcile: "fleet_run c V w F v \<Longrightarrow> caught_up c V v \<Longrightarrow> Reconcile c v k = Some (u, e) \<Longrightarrow> fleet_run c V w F u"
| foreign: "fleet_run c V w F v \<Longrightarrow> fleet_run c V w (F \<union> (conflicts V u - conflicts V v)) u"

lemma fleet_run_conflicts:
  assumes "api_laws c V" and "fleet_run c V w F w'"
  shows "conflicts V w' \<subseteq> conflicts V w \<union> F"
  using assms(2)
proof (induction rule: fleet_run.induct)
  case (reconcile F v k u e)
  then show ?case using Reconcile_conflicts [OF assms(1) reconcile.hyps(2,3)] by blast
qed auto

section \<open>Convergence\<close>

text \<open>The status an allocation wants, and what a successful run of the writes stores.\<close>

definition allocated_status :: "can_detector \<Rightarrow> u16 \<Rightarrow> can_detector_status" where
  "allocated_status d a =
     (det_status d)\<lparr>det_assigned := Some a, det_phase := CANDetectorPhaseAllocated, det_message := []\<rparr>"

definition labelled :: "can_detector \<Rightarrow> bool" where
  "labelled d \<longleftrightarrow> gm_str (om_labels (det_meta d)) LabelDeviceName = det_device_ref (det_spec d)"

definition settled :: "can_detector \<Rightarrow> u16 \<Rightarrow> bool" where
  "settled d a \<longleftrightarrow> det_desired (det_spec d) = Some a \<and> labelled d"

lemma ensureDeviceLabel_labelled:
  "ensureDeviceLabel d = (lab, b) \<Longrightarrow> labelled lab \<and> (b \<longleftrightarrow> \<not> labelled d)"
  by (auto simp: ensureDeviceLabel_def set_label_def labelled_def gm_str_def Let_def split: if_splits)

lemma applyAllocation_as:
  assumes "allocated_as r a"
  shows "det_spec (applyAllocation d r) = (det_spec d)\<lparr>det_desired := Some a\<rparr>"
    and "det_status (applyAllocation d r) = allocated_status d a"
  using assms by (simp_all add: applyAllocation_def allocated_as_def allocated_status_def)

lemma desired_unchanged: "s = s\<lparr>det_desired := Some a\<rparr> \<longleftrightarrow> det_desired s = Some a"
  by (cases s) auto

lemma settled_write:
  assumes a: "api_laws c V" "detectors_at V w k = Some orig" and "settled orig a"
    and det: "det_key det = k" "det_spec det = det_spec orig" "det_status det = allocated_status orig a"
    and sp: "spec_written c w orig det False w1 (Inr d1)" and st: "status_written c w1 orig det d1 w2 (Inr d2)"
  shows "detectors_at V w2 = (detectors_at V w)(k \<mapsto> orig\<lparr>det_status := allocated_status orig a\<rparr>)"
    and "devices_at V w2 = devices_at V w" and "pools_at V w2 = pools_at V w"
proof -
  have k: "det_key orig = k" using a by (rule api_key)
  have e: "w1 = w" "d1 = det" using sp det(2) by (auto simp: spec_written_def split: if_splits)
  let ?new = "orig\<lparr>det_status := allocated_status orig a\<rparr>"
  have kn: "det_key ?new = k" using k by (simp add: det_key_def)
  have "detectors_at V w2 = (detectors_at V w)(k \<mapsto> ?new) \<and> devices_at V w2 = devices_at V w \<and> pools_at V w2 = pools_at V w"
  proof (cases "det_status orig = det_status det")
    case True
    then have "?new = orig" using det(3) by simp
    then show ?thesis using True st e a(2) by (auto simp: status_written_def)
  next
    case False
    have "detectors_at V w (det_key det) = Some orig" using a(2) det(1) by simp
    from api_update(3) [OF a(1) this] False st e
    have "stores V w w2 (Inr d2) (orig\<lparr>det_status := det_status det\<rparr>)" by (simp add: status_written_def)
    then show ?thesis using kn by (simp add: stores_def det(3))
  qed
  then show "detectors_at V w2 = (detectors_at V w)(k \<mapsto> ?new)" "devices_at V w2 = devices_at V w" "pools_at V w2 = pools_at V w" by blast+
qed

lemma decoded_status_same [simp]: "decoded_status s s = s"
  by (cases s) (simp add: decoded_status_def split: option.split)

text \<open>What the first write leaves when the spec or the labels change: the status that came back with it.\<close>

lemma unsettled_write:
  assumes a: "api_laws c V" "detectors_at V w k = Some orig" and det: "det_key det = k" and ch: "det_spec orig \<noteq> det_spec det \<or> b"
    and sp: "spec_written c w orig det b w1 (Inr d1)" and st: "status_written c w1 orig det d1 w2 (Inr d2)"
  shows "d1 = det\<lparr>det_status := decoded_status (det_status det) (det_status orig)\<rparr>" and "detectors_at V w2 = (detectors_at V w)(k \<mapsto> d1)"
    and "devices_at V w2 = devices_at V w" and "pools_at V w2 = pools_at V w"
proof -
  let ?old = "det\<lparr>det_status := det_status orig\<rparr>"
  have up: "detectors_at V w (det_key det) = Some orig" "update_detector c w det = (w1, Inr d1)"
    using a(2) det sp ch by (simp_all add: spec_written_def)
  show d1: "d1 = det\<lparr>det_status := decoded_status (det_status det) (det_status orig)\<rparr>"
    by (rule api_update(2) [OF a(1) up])
  have ko: "det_key ?old = k" "det_key d1 = k" using det d1 by (simp_all add: det_key_def)
  have st1: "detectors_at V w1 = (detectors_at V w)(k \<mapsto> ?old)" "devices_at V w1 = devices_at V w" "pools_at V w1 = pools_at V w"
    using api_update(1) [OF a(1) up] ko(1) by (simp_all add: stores_def)
  have "detectors_at V w2 = (detectors_at V w)(k \<mapsto> d1) \<and> devices_at V w2 = devices_at V w \<and> pools_at V w2 = pools_at V w"
  proof (cases "det_status orig = det_status det")
    case True
    then show ?thesis using st st1 d1 by (simp add: status_written_def)
  next
    case False
    have "detectors_at V w1 (det_key d1) = Some ?old" using st1(1) ko by simp
    from api_update(3) [OF a(1) this] False st
    have "stores V w1 w2 (Inr d2) (?old\<lparr>det_status := det_status d1\<rparr>)" by (simp add: status_written_def)
    moreover have "?old\<lparr>det_status := det_status d1\<rparr> = d1" by (simp add: d1)
    ultimately show ?thesis using ko st1 by (simp add: stores_def)
  qed
  then show "detectors_at V w2 = (detectors_at V w)(k \<mapsto> d1)" "devices_at V w2 = devices_at V w" "pools_at V w2 = pools_at V w" by blast+
qed

lemma writeDetector_stores:
  assumes a: "api_laws c V" "detectors_at V w k = Some orig"
    and wr: "writeDetector c w orig poolCR r = (w', e)" and e: "e = None" and al: "allocated_as r a"
  obtains d' where "detectors_at V w' = (detectors_at V w)(k \<mapsto> d')" "settled d' a" "det_key d' = k"
    "det_device_ref (det_spec d') = det_device_ref (det_spec orig)"
    "det_status d' = (if settled orig a then allocated_status orig a else decoded_status (allocated_status orig a) (det_status orig))"
    "settled orig a \<Longrightarrow> det_spec d' = det_spec orig \<and> det_meta d' = det_meta orig"
    "devices_at V w' = devices_at V w"
    "map_option cap_spec \<circ> pools_at V w' = map_option cap_spec \<circ> pools_at V w"
proof -
  obtain lab b where l: "ensureDeviceLabel orig = (lab, b)" by (cases "ensureDeviceLabel orig")
  note lk = ensureDeviceLabel_keeps [OF l] and ll = ensureDeviceLabel_labelled [OF l]
  note ap = applyAllocation_as [OF al, of lab]
  let ?det = "applyAllocation lab r"
  have k: "det_key orig = k" using a by (rule api_key)
  have kd: "det_key ?det = k" using k lk by simp
  have spec: "(det_spec orig \<noteq> det_spec ?det \<or> b) \<longleftrightarrow> \<not> settled orig a"
    using ap(1) lk(1) ll by (simp add: settled_def desired_unchanged)
  have status: "det_status ?det = allocated_status orig a" using ap(2) lk(2) by (simp add: allocated_status_def)
  obtain w1 d1 w2 d2 where s: "spec_written c w orig ?det b w1 (Inr d1)" "status_written c w1 orig ?det d1 w2 (Inr d2)"
    and w': "w' = fst (updatePoolStatus c w2 poolCR (ar_stats r))"
    using wr l by (rule writeDetector_cases) (use e al in \<open>simp_all add: allocated_as_def\<close>)
  note keeps = updatePoolStatus_keeps [OF a(1), of w2 poolCR "ar_stats r", folded w']
  show thesis
  proof (cases "settled orig a")
    case True
    then have b: "\<not> b" "det_spec ?det = det_spec orig" using spec by auto
    let ?new = "orig\<lparr>det_status := allocated_status orig a\<rparr>"
    have "det_key ?new = k" using k by (simp add: det_key_def)
    with settled_write [OF a True kd b(2) status, of w1 d1 w2 d2] s b(1)
    show thesis using that [of ?new] True keeps by (simp add: settled_def labelled_def)
  next
    case False
    then have "det_spec orig \<noteq> det_spec ?det \<or> b" using spec by simp
    note u = unsettled_write [OF a kd this s]
    have "settled d1 a" "det_status d1 = decoded_status (allocated_status orig a) (det_status orig)"
      "det_device_ref (det_spec d1) = det_device_ref (det_spec orig)" "det_key d1 = k"
      using u(1) ap(1) lk ll kd status by (simp_all add: settled_def labelled_def det_key_def)
    then show thesis using that [of d1] False keeps u(2-4) by simp
  qed
qed

lemma allocated_again:
  assumes a: "api_laws c V" and up: "caught_up c V w" "caught_up c V w1" and l: "listPoolDetectors c w ns n = Inr ds" "listPoolDetectors c w1 ns n = Inr ds1"
    and d: "d \<in> set ds" and acc: "accepts cfg ds"
    and g: "in_config cfg x" "\<forall>e \<in> set ds. assignedAddress e = Some x \<longrightarrow> OwnerKey e = OwnerKey d"
    and v: "detectors_at V w1 = (detectors_at V w)(det_key d \<mapsto> d1)" "devices_at V w1 = devices_at V w"
    and d1: "det_key d1 = det_key d" "det_device_ref (det_spec d1) = det_device_ref (det_spec d)"
      "assignedAddress d1 = Some x"
  shows "\<exists>r. allocateDetectorAddress cfg ds1 d1 = Some r \<and> allocated_as r x"
proof -
  note ls = listPoolDetectors_set [OF up(1) l(1)] and ls1 = listPoolDetectors_set [OF up(2) l(2)]
  have dp: "device_pool V w1 e = device_pool V w e" for e using v(2) by (simp add: device_pool_def)
  have d1_pool: "device_pool V w d1 = Some (ns, n)"
  proof -
    have "device_pool V w d1 = device_pool V w d" using d1(1,2) by (simp add: device_pool_def det_key_def)
    then show ?thesis using d ls(2) [of d] by simp
  qed
  have mem: "e \<in> set ds1 \<longleftrightarrow> (if det_key e = det_key d then e = d1 else e \<in> set ds)" for e
    using ls(2) [of e] ls1(2) [of e] v(1) dp [of e] d1_pool d1(1) by auto
  have slash: "CHR ''/'' \<notin> set (om_namespace (det_meta e))" if "e \<in> set ds \<or> e \<in> set ds1" for e
    using that ls(2) [of e] ls1(2) [of e] api_key(2) [OF a] by (auto simp: det_key_def)
  have owner: "OwnerKey e = OwnerKey f \<Longrightarrow> det_key e = det_key f" if "e \<in> set ds \<union> set ds1" "f \<in> set ds \<union> set ds1" for e f
    using OwnerKey_inj slash that by blast
  have inj1: "inj_on det_key (set ds1)" using ls1(1) by (simp add: distinct_map)
  have "inj_on OwnerKey (set (held ds1))"
    using owner inj1 by (auto simp: inj_on_def held_Some)
  moreover have "inj_on assignedAddress (set (held ds1))"
  proof (rule inj_onI)
    fix e f assume ef: "e \<in> set (held ds1)" "f \<in> set (held ds1)" "assignedAddress e = assignedAddress f"
    have not: "g = d1" if "g \<in> set ds1" "assignedAddress g = Some x" for g
    proof (rule ccontr)
      assume "g \<noteq> d1"
      then have m: "g \<in> set ds" "det_key g \<noteq> det_key d"
        using that(1) mem [of g] by (auto split: if_splits)
      then have "OwnerKey g = OwnerKey d" using g(2) that(2) by blast
      then show False using owner [of g d] m d by blast
    qed
    obtain y where y: "assignedAddress e = Some y" using ef(1) by (auto simp: held_Some)
    have in1: "e \<in> set ds1" "f \<in> set ds1" using ef by (simp_all add: held_Some)
    show "e = f"
    proof (cases "y = x")
      case True
      then show ?thesis using not [OF in1(1)] not [OF in1(2)] y ef(3) by simp
    next
      case False
      then have "e \<noteq> d1" "f \<noteq> d1" using y ef(3) d1(3) by auto
      then have "e \<in> set ds" "f \<in> set ds" using in1 mem [of e] mem [of f] by (simp_all split: if_splits)
      moreover have "assignedAddress f = Some y" using ef(3) y by simp
      ultimately show ?thesis using held_distinct [OF acc _ _ y] by blast
    qed
  qed
  moreover have "distinct (held ds1)" using ls1(1) by (simp add: held_def distinct_map)
  moreover have "\<forall>e \<in> set ds1. \<forall>y \<in> set_option (assignedAddress e). in_config cfg y"
    using acc mem d1(3) g(1) by (auto simp: accepts_def split: if_splits)
  ultimately have acc1: "accepts cfg ds1"
    using acc by (simp add: accepts_def distinct_map)
  have "d1 \<in> set ds1" using mem [of d1] d1(1) by simp
  then have "held_by_owner ds1 (OwnerKey d1) = Some x"
    using held_by_owner_in [OF acc1] d1(3) by blast
  then show ?thesis
    using acc1 by (cases rule: allocate_cases [of cfg ds1 d1]) auto
qed

text \<open>One successful reconciliation of a detector that can have an address.\<close>

lemma Reconcile_writes:
  assumes up: "caught_up c V w" and d: "detectors_at V w k = Some d" "det_device_ref (det_spec d) \<noteq> []"
    and dev: "devices_at V w (fst k, det_device_ref (det_spec d)) = Some dev"
    and pool: "pools_at V w (CANAddressPoolNamespace dev, CANAddressPoolName dev) = Some poolCR"
    and r: "Reconcile c w k = Some (w', None)"
  obtains ds r where
    "listPoolDetectors c w (CANAddressPoolNamespace dev) (CANAddressPoolName dev) = Inr ds"
    "allocateDetectorAddress (poolConfigFromCR poolCR) ds d = Some r"
    "writeDetector c w d poolCR r = (w', None)"
proof -
  have g: "get_detector c w k = Inr d"
    using r d(1) api_get(1,2) [OF up, of k]
    by (cases "get_detector c w k") (auto simp: Reconcile_def split: kube_error.splits)
  have g2: "get_device c w (fst k, det_device_ref (det_spec d)) = Inr dev"
    using r d dev g api_get(3,4) [OF up, of "(fst k, det_device_ref (det_spec d))"]
    by (cases "get_device c w (fst k, det_device_ref (det_spec d))") (auto simp: Reconcile_def Let_def split: kube_error.splits)
  have "get_pool c w (CANAddressPoolNamespace dev, CANAddressPoolName dev) = Inr poolCR"
    using r d g g2 pool api_get(5,6) [OF up, of "(CANAddressPoolNamespace dev, CANAddressPoolName dev)"]
    by (cases "get_pool c w (CANAddressPoolNamespace dev, CANAddressPoolName dev)") (auto simp: Reconcile_def Let_def split: kube_error.splits)
  then show thesis using r d(2) g g2 that
    by (auto simp: Reconcile_def Let_def split: sum.splits option.splits)
qed

lemma allocated_as_granted: "allocated_as r x \<Longrightarrow> granted r = {x}"
  by (simp add: allocated_as_def granted_def)

lemma Reconcile_twice:
  assumes a: "api_laws c V" and up: "caught_up c V w" "caught_up c V w1" and d: "detectors_at V w k = Some d" "det_device_ref (det_spec d) \<noteq> []"
    and dev: "get_device c w (fst k, det_device_ref (det_spec d)) = Inr dev"
    and pool: "get_pool c w (CANAddressPoolNamespace dev, CANAddressPoolName dev) = Inr poolCR"
    and ds: "listPoolDetectors c w (CANAddressPoolNamespace dev) (CANAddressPoolName dev) = Inr ds"
    and al: "allocateDetectorAddress (poolConfigFromCR poolCR) ds d = Some r" "allocated_as r x"
    and r1: "Reconcile c w k = Some (w1, None)" and r2: "Reconcile c w1 k = Some (w2, None)"
  obtains d1 d2 where "detectors_at V w1 k = Some d1" "det_desired (det_spec d1) = Some x"
    "det_assigned (det_status d1) = Some x"
    "det_phase (det_status d1) = (if settled d x \<or> det_phase (det_status d) = [] then CANDetectorPhaseAllocated else det_phase (det_status d))"
    "det_message (det_status d1) = (if settled d x then [] else det_message (det_status d))"
    "detectors_at V w2 k = Some d2" "settled d2 x" "det_status d2 = allocated_status d x"
proof -
  have k: "det_key d = k" by (rule api_key(1) [OF a d(1)])
  note dev' = api_get(3) [OF up(1) dev] and pool' = api_get(5) [OF up(1) pool]
  have w1: "writeDetector c w d poolCR r = (w1, None)"
    using Reconcile_writes [OF up(1) d dev' pool' r1] ds al by (metis option.inject sum.inject(2))
  from writeDetector_stores [OF a d(1) w1 refl al(2)] obtain d1 where
    d1: "detectors_at V w1 = (detectors_at V w)(k \<mapsto> d1)" "settled d1 x" "det_key d1 = k"
    "det_device_ref (det_spec d1) = det_device_ref (det_spec d)"
    "det_status d1 = (if settled d x then allocated_status d x else decoded_status (allocated_status d x) (det_status d))"
    and keep: "devices_at V w1 = devices_at V w"
    "map_option cap_spec \<circ> pools_at V w1 = map_option cap_spec \<circ> pools_at V w" by metis
  have v1: "detectors_at V w1 k = Some d1" using d1(1) by simp
  obtain poolCR1 where pool1: "pools_at V w1 (CANAddressPoolNamespace dev, CANAddressPoolName dev) = Some poolCR1"
    and same: "poolConfigFromCR poolCR1 = poolConfigFromCR poolCR"
    using fun_cong [OF keep(2), of "(CANAddressPoolNamespace dev, CANAddressPoolName dev)"] pool'
    by (cases "pools_at V w1 (CANAddressPoolNamespace dev, CANAddressPoolName dev)")
      (auto simp: poolConfigFromCR_def PoolConfig_def)
  obtain ds1 r' where
    ds1: "listPoolDetectors c w1 (CANAddressPoolNamespace dev) (CANAddressPoolName dev) = Inr ds1"
    and al1: "allocateDetectorAddress (poolConfigFromCR poolCR1) ds1 d1 = Some r'"
    and w2: "writeDetector c w1 d1 poolCR1 r' = (w2, None)"
    by (rule Reconcile_writes [OF up(2) v1 _ _ pool1 r2]) (use d d1 dev' keep in simp_all)
  have dsd: "d \<in> set ds"
    using listPoolDetectors_set(2) [OF up(1) ds, of d] d dev' k by (auto simp: device_pool_def det_key_def)
  have "accepts (poolConfigFromCR poolCR) ds \<and> in_config (poolConfigFromCR poolCR) x \<and>
    (\<forall>e \<in> set ds. assignedAddress e = Some x \<longrightarrow> OwnerKey e = OwnerKey d) \<and>
    (\<forall>y. assignedAddress d = Some y \<longrightarrow> y = x)"
    using al(1)
  proof (cases rule: granted_cases)
    case none
    then show ?thesis using allocated_as_granted [OF al(2)] by simp
  next
    case (some y)
    then have "y = x" using allocated_as_granted [OF al(2)] by simp
    then show ?thesis using some(3-6) dsd by blast
  qed
  then have g: "accepts (poolConfigFromCR poolCR) ds" "in_config (poolConfigFromCR poolCR) x"
    "\<forall>e \<in> set ds. assignedAddress e = Some x \<longrightarrow> OwnerKey e = OwnerKey d"
    "\<forall>y. assignedAddress d = Some y \<longrightarrow> y = x" by blast+
  have as1: "det_assigned (det_status d1) = Some x"
    using d1(5) g(4) by (auto simp: decoded_status_def allocated_status_def assignedAddress_def split: option.splits)
  then have "assignedAddress d1 = Some x" by (simp add: assignedAddress_def)
  from allocated_again [OF a up ds ds1 dsd g(1-3) _ keep(1) _ d1(4) this]
  have "allocated_as r' x" using al1 same d1(1,3) k by auto
  from writeDetector_stores [OF a v1 w2 refl this] obtain d2 where
    d2: "detectors_at V w2 = (detectors_at V w1)(k \<mapsto> d2)" "settled d2 x" "det_status d2 = allocated_status d1 x"
    using d1(2) by metis
  have "allocated_status d1 x = allocated_status d x"
    using d1(5) by (auto simp: allocated_status_def decoded_status_def split: if_splits option.splits)
  then show thesis using that [of d1 d2] v1 d1(2,5) d2 as1
    by (simp add: settled_def allocated_status_def decoded_status_def)
qed

section \<open>A store that keeps the laws\<close>

text \<open>An in-memory API server, on which the properties are applied.\<close>

record mem_cluster =
  mc_detectors :: "(string \<times> string, can_detector) gomap"
  mc_devices :: "(string \<times> string, z21device) gomap"
  mc_pools :: "(string \<times> string, can_address_pool) gomap"

definition lookup_or_missing :: "('k, 'v) gomap \<Rightarrow> 'k \<Rightarrow> kube_error + 'v" where
  "lookup_or_missing m k = (case gm_get m k of None \<Rightarrow> Inl (KubeNotFound []) | Some v \<Rightarrow> Inr v)"

definition mem_view :: "mem_cluster \<Rightarrow> string \<times> string \<Rightarrow> can_detector option" where
  "mem_view w k =
     (if CHR ''/'' \<in> set (fst k) then None
      else case gm_get (mc_detectors w) k of
             None \<Rightarrow> None | Some d \<Rightarrow> if det_key d = k then Some d else None)"

definition mem_store :: "mem_cluster \<Rightarrow> can_detector \<Rightarrow> mem_cluster" where
  "mem_store w d = w\<lparr>mc_detectors := gm_set (det_key d) d (mc_detectors w)\<rparr>"

definition mem_list :: "mem_cluster \<Rightarrow> can_detector list" where
  "mem_list w = remdups (filter (\<lambda>d. mem_view w (det_key d) = Some d) (map snd (mc_detectors w)))"

definition mem_client :: "mem_cluster detector_client" where
  "mem_client =
     \<lparr>get_detector = (\<lambda>w k. case mem_view w k of None \<Rightarrow> Inl (KubeNotFound []) | Some d \<Rightarrow> Inr d),
      get_device = (\<lambda>w. lookup_or_missing (mc_devices w)),
      get_pool = (\<lambda>w. lookup_or_missing (mc_pools w)),
      list_detectors = (\<lambda>w. Inr (mem_list w)),
      list_detectors_in = (\<lambda>w ns. Inr (filter (\<lambda>d. om_namespace (det_meta d) = ns) (mem_list w))),
      list_devices = (\<lambda>w. Inr (map snd (mc_devices w))),
      update_detector = (\<lambda>w d. case mem_view w (det_key d) of
          None \<Rightarrow> (w, Inl (KubeNotFound []))
        | Some old \<Rightarrow> (mem_store w (d\<lparr>det_status := det_status old\<rparr>),
            Inr (d\<lparr>det_status := decoded_status (det_status d) (det_status old)\<rparr>))),
      update_detector_status = (\<lambda>w d. case mem_view w (det_key d) of
          None \<Rightarrow> (w, Inl (KubeNotFound []))
        | Some old \<Rightarrow> (let new = old\<lparr>det_status := det_status d\<rparr> in (mem_store w new, Inr new))),
      update_pool_status = (\<lambda>w p. let k = (om_namespace (cap_meta p), om_name (cap_meta p)) in
        case gm_get (mc_pools w) k of
          None \<Rightarrow> (w, Inl (KubeNotFound []))
        | Some old \<Rightarrow> (let new = old\<lparr>cap_status := cap_status p\<rparr>
                      in (w\<lparr>mc_pools := gm_set k new (mc_pools w)\<rparr>, Inr new)))\<rparr>"

lemma mem_view_store:
  "CHR ''/'' \<notin> set (fst (det_key d)) \<Longrightarrow> mem_view (mem_store w d) = (mem_view w)(det_key d \<mapsto> d)"
  by (rule ext) (simp add: mem_view_def mem_store_def)

lemma mem_view_key: "mem_view w k = Some d \<Longrightarrow> det_key d = k \<and> CHR ''/'' \<notin> set (fst k)"
  by (simp add: mem_view_def split: if_splits option.splits)

lemma mem_view_in: "mem_view w k = Some d \<Longrightarrow> d \<in> set (map snd (mc_detectors w))"
  by (cases "gm_get (mc_detectors w) k")
    (auto simp: mem_view_def gm_get_def split: if_splits dest: map_of_SomeD intro!: image_eqI [where x = "(k, d)"])

lemma set_mem_list: "set (mem_list w) = {d. mem_view w (det_key d) = Some d}"
  using mem_view_in [of w "det_key d" d for d] by (auto simp: mem_list_def simp del: set_map)

lemma distinct_mem_list: "distinct (map det_key (mem_list w))"
proof -
  have "inj_on det_key (set (mem_list w))"
    unfolding set_mem_list by (rule inj_onI) simp
  then show ?thesis by (simp add: distinct_map mem_list_def)
qed

definition mem_api :: "mem_cluster api_store" where
  "mem_api = \<lparr>detectors_at = mem_view, devices_at = (\<lambda>w. gm_get (mc_devices w)), pools_at = (\<lambda>w. gm_get (mc_pools w))\<rparr>"

lemma mem_api_at [simp]:
  "detectors_at mem_api = mem_view" "devices_at mem_api w = gm_get (mc_devices w)" "pools_at mem_api w = gm_get (mc_pools w)"
  by (simp_all add: mem_api_def)

lemma mem_store_keeps [simp]: "mc_devices (mem_store w d) = mc_devices w" "mc_pools (mem_store w d) = mc_pools w"
  by (simp_all add: mem_store_def)

lemma mem_caught_up: "caught_up mem_client mem_api w"
  by (auto simp: caught_up_def reads_as_def mem_client_def lookup_or_missing_def set_mem_list distinct_mem_list split: option.splits)

lemma mem_api_laws: "api_laws mem_client mem_api"
proof -
  have k: "law_keys mem_api" unfolding law_keys_def using mem_view_key by simp
  have dk: "det_key (d\<lparr>det_status := s\<rparr>) = det_key d" for d :: can_detector and s
    by (simp add: det_key_def)
  have w: "law_writes mem_client mem_api"
    unfolding law_writes_def mem_api_at
  proof (intro conjI allI impI)
    fix w d old assume v: "mem_view w (det_key d) = Some old"
    then have ko: "det_key old = det_key d" "CHR ''/'' \<notin> set (fst (det_key d))"
      using mem_view_key by blast+
    show "stores mem_api w (fst (update_detector mem_client w d))
        (snd (update_detector mem_client w d)) (d\<lparr>det_status := det_status old\<rparr>)"
      using v ko by (simp add: mem_client_def stores_def mem_view_store dk fun_eq_iff)
    show "d' = d\<lparr>det_status := decoded_status (det_status d) (det_status old)\<rparr>"
      if "snd (update_detector mem_client w d) = Inr d'" for d' using that v by (simp add: mem_client_def)
    show "stores mem_api w (fst (update_detector_status mem_client w d))
        (snd (update_detector_status mem_client w d)) (old\<lparr>det_status := det_status d\<rparr>)"
      using v ko by (simp add: mem_client_def stores_def mem_view_store dk Let_def fun_eq_iff)
  qed
  have p: "law_pool_writes mem_client mem_api"
    unfolding law_pool_writes_def
  proof (intro allI)
    fix w p
    have "mem_view (w\<lparr>mc_pools := x\<rparr>) = mem_view w" for x by (rule ext) (simp add: mem_view_def)
    then show "let w' = fst (update_pool_status mem_client w p) in
        detectors_at mem_api w' = detectors_at mem_api w \<and> devices_at mem_api w' = devices_at mem_api w \<and>
        map_option cap_spec \<circ> pools_at mem_api w' = map_option cap_spec \<circ> pools_at mem_api w"
      by (auto simp: mem_client_def Let_def fun_eq_iff mem_api_def split: option.splits)
  qed
  show ?thesis using k w p by (simp add: api_laws_def)
qed

definition example_detector :: "string \<Rightarrow> u16 \<Rightarrow> u16 option \<Rightarrow> can_detector" where
  "example_detector n netid obs =
     \<lparr>det_meta = example_meta ''layout'' n,
      det_spec = \<lparr>det_device_ref = ''sim1'', det_net_id = netid, det_desired = None, det_adopt_observed = None\<rparr>,
      det_status = \<lparr>det_observed = obs, det_assigned = None, det_phase = [], det_message = []\<rparr>\<rparr>"

definition example_pool_cr :: can_address_pool where
  "example_pool_cr =
     \<lparr>cap_meta = example_meta ''elp'' ''default'',
      cap_spec = \<lparr>ps_start = 10, ps_end = 12, ps_reserved = [11]\<rparr>,
      cap_status = \<lparr>pst_range_size = 0, pst_reserved = 0, pst_allocated = 0, pst_auto_available = 0\<rparr>\<rparr>"

definition example_cluster :: mem_cluster where
  "example_cluster =
     \<lparr>mc_detectors = [((''layout'', ''a''), example_detector ''a'' 0xDB04 (Some 12)),
                     ((''layout'', ''b''), example_detector ''b'' 0xDB05 None)],
      mc_devices = [((''layout'', ''sim1''), example_simulator)],
      mc_pools = [((''elp'', ''default''), example_pool_cr)]\<rparr>"

lemma Reconcile_total: "\<exists>w' e. Reconcile c w k = Some (w', e)"
proof -
  have t: "allocateDetectorAddress cfg ds d = None \<longleftrightarrow> False" for cfg ds d
    by (cases rule: allocate_cases [of cfg ds d]) simp_all
  have "Reconcile c w k \<noteq> None"
    by (auto simp: t Reconcile_def Let_def split: sum.split kube_error.split option.split)
  then show ?thesis by auto
qed

text \<open>Two detectors nobody has an address for yet, and one that a failed run left behind.\<close>

definition unseen_cluster :: mem_cluster where
  "unseen_cluster = example_cluster\<lparr>mc_detectors :=
     [((''layout'', ''a''), example_detector ''a'' 0xDB04 None),
      ((''layout'', ''b''), example_detector ''b'' 0xDB05 None)]\<rparr>"

definition failed_detector :: can_detector where
  "failed_detector = (example_detector ''a'' 0xDB04 None)\<lparr>det_status :=
     \<lparr>det_observed = None, det_assigned = None, det_phase = CANDetectorPhaseFailed, det_message = ''no pool''\<rparr>\<rparr>"

definition failed_cluster :: mem_cluster where
  "failed_cluster = example_cluster\<lparr>mc_detectors := [((''layout'', ''a''), failed_detector)]\<rparr>"

lemma unseen_cluster_conflicts: "conflicts mem_api unseen_cluster = {}"
proof -
  have "assignedAddress d = None" if "mem_view unseen_cluster k = Some d" for k d
    using mem_view_in [OF that]
    by (auto simp: unseen_cluster_def example_detector_def assignedAddress_def)
  then show ?thesis by (force simp: conflicts_def)
qed

lemma new_detector_conflicts:
  assumes "assignedAddress d = None" and "CHR ''/'' \<notin> set (fst (det_key d))"
  shows "conflicts mem_api (mem_store w d) \<subseteq> conflicts mem_api w"
proof -
  have "device_pool mem_api (mem_store w d) x = device_pool mem_api w x" for x by (simp add: device_pool_def)
  then show ?thesis using assms by (auto simp: conflicts_def mem_view_store split: if_splits)
qed

section \<open>A cache that lags behind\<close>

text \<open>
  The reads of the controller go through the manager's cache. Here the cache is a cluster of its own,
  which the writes do not reach. The laws of the writes hold, but two reconciliations that run
  before the cache has caught up grant one address twice; from then on the pool is rejected and
  every allocation from it fails.
\<close>

definition lagging_client :: "(mem_cluster \<times> mem_cluster) detector_client" where
  "lagging_client =
     \<lparr>get_detector = (\<lambda>w. get_detector mem_client (fst w)),
      get_device = (\<lambda>w. get_device mem_client (fst w)),
      get_pool = (\<lambda>w. get_pool mem_client (fst w)),
      list_detectors = (\<lambda>w. list_detectors mem_client (fst w)),
      list_detectors_in = (\<lambda>w. list_detectors_in mem_client (fst w)),
      list_devices = (\<lambda>w. list_devices mem_client (fst w)),
      update_detector = (\<lambda>w d. apfst (Pair (fst w)) (update_detector mem_client (snd w) d)),
      update_detector_status = (\<lambda>w d. apfst (Pair (fst w)) (update_detector_status mem_client (snd w) d)),
      update_pool_status = (\<lambda>w p. apfst (Pair (fst w)) (update_pool_status mem_client (snd w) p))\<rparr>"

definition lagging_api :: "(mem_cluster \<times> mem_cluster) api_store" where
  "lagging_api = \<lparr>detectors_at = (\<lambda>w. detectors_at mem_api (snd w)),
     devices_at = (\<lambda>w. devices_at mem_api (snd w)), pools_at = (\<lambda>w. pools_at mem_api (snd w))\<rparr>"

lemma lagging_api_laws: "api_laws lagging_client lagging_api"
proof -
  have at: "detectors_at lagging_api = detectors_at mem_api \<circ> snd" "devices_at lagging_api = devices_at mem_api \<circ> snd"
    "pools_at lagging_api = pools_at mem_api \<circ> snd" by (simp_all add: lagging_api_def fun_eq_iff)
  then have "stores lagging_api w (a, s) r new = stores mem_api (snd w) s r new" for w a s r new
    by (simp only: stores_def comp_def snd_conv)
  then show ?thesis using mem_api_laws
    unfolding api_laws_def law_keys_def law_writes_def law_pool_writes_def Let_def at comp_def
    by (simp only: lagging_client_def detector_client.simps fst_apfst snd_apfst split_paired_All) (simp add: apfst_def map_prod_def split_beta)
qed

theorem stale_lists_share_address:
  "\<exists>w1 w2. api_laws lagging_client lagging_api \<and>
     conflicts lagging_api (unseen_cluster, unseen_cluster) = {} \<and>
     Reconcile lagging_client (unseen_cluster, unseen_cluster) (''layout'', ''a'') = Some (w1, None) \<and>
     Reconcile lagging_client w1 (''layout'', ''b'') = Some (w2, None) \<and>
     ((''layout'', ''a''), ''layout'', ''b'') \<in> conflicts lagging_api w2"
proof -
  let ?w1 = "fst (the (Reconcile lagging_client (unseen_cluster, unseen_cluster) (''layout'', ''a'')))"
  let ?w2 = "fst (the (Reconcile lagging_client ?w1 (''layout'', ''b'')))"
  let ?da = "the (detectors_at lagging_api ?w2 (''layout'', ''a''))"
  let ?db = "the (detectors_at lagging_api ?w2 (''layout'', ''b''))"
  have r: "Reconcile lagging_client (unseen_cluster, unseen_cluster) (''layout'', ''a'') = Some (?w1, None)"
    "Reconcile lagging_client ?w1 (''layout'', ''b'') = Some (?w2, None)"
    "detectors_at lagging_api ?w2 (''layout'', ''a'') = Some ?da"
    "detectors_at lagging_api ?w2 (''layout'', ''b'') = Some ?db"
    "device_pool lagging_api ?w2 ?da = Some (''elp'', ''default'')"
    "device_pool lagging_api ?w2 ?db = Some (''elp'', ''default'')"
    "assignedAddress ?da = Some 10" "assignedAddress ?db = Some 10"
    by code_simp+
  have "((''layout'', ''a''), ''layout'', ''b'') \<in> conflicts lagging_api ?w2"
    by (rule conflictsI [OF _ r(3-8)]) simp
  moreover have "conflicts lagging_api (unseen_cluster, unseen_cluster) = conflicts mem_api unseen_cluster"
    unfolding conflicts_def device_pool_def lagging_api_def by (simp only: api_store.simps snd_conv)
  ultimately show ?thesis using r(1,2) lagging_api_laws unseen_cluster_conflicts by metis
qed

theorem shared_address_blocks_pool:
  assumes "e \<in> set ds" and "f \<in> set ds" and "e \<noteq> f"
    and "assignedAddress e = Some a" and "assignedAddress f = Some a"
  shows "\<exists>err. allocateDetectorAddress cfg ds d = Some (failedResult err)"
proof -
  have "\<not> accepts cfg ds" using held_distinct [of cfg ds e f a] assms by blast
  then show ?thesis by (cases rule: allocate_cases [of cfg ds d]) auto
qed

section \<open>Properties\<close>

text \<open>
  C15: The address a detector gets. Allocation always returns. It fails with the pool's error
  when the configuration is invalid or the addresses the detectors hold are not pairwise
  different addresses of the range. Otherwise a detector that holds an address keeps it; one
  that does not and may adopt gets the address it was observed with when that is in the range
  and nobody holds it; else it gets the lowest address of the range that is neither held nor
  reserved, and the allocation fails only when there is none.
\<close>

theorem allocateDetectorAddress_outcome:
  "\<exists>r. allocateDetectorAddress cfg dets cur = Some r \<and>
    (if \<not> accepts cfg dets then \<exists>e. detector_pool cfg dets = Inl e \<and> r = failedResult e
     else case held_by_owner dets (OwnerKey cur) of
       Some a \<Rightarrow> allocated_as r a
     | None \<Rightarrow>
        (if \<exists>a. adoptable cur = Some a \<and> free_for cfg dets a
         then allocated_as r (the (adoptable cur))
         else if \<exists>a. free_for cfg dets a \<and> a \<notin> set (cfg_reserved cfg)
         then \<exists>a. allocated_as r a \<and> free_for cfg dets a \<and> a \<notin> set (cfg_reserved cfg) \<and>
           (\<forall>b. free_for cfg dets b \<longrightarrow> b \<notin> set (cfg_reserved cfg) \<longrightarrow> a \<le> b)
         else r = failedResult ErrNoAddressAvailable))"
proof (cases rule: allocate_cases [of cfg dets cur])
  case (lowest r a)
  then show ?thesis by (simp add: exI [of _ a]) blast
qed auto

theorem allocateDetectorAddress_outcome_witness:
  "allocated_as (the (allocateDetectorAddress \<lparr>cfg_start = 10, cfg_end = 12, cfg_reserved = [11]\<rparr>
     [example_detector ''a'' 1 (Some 12)] (example_detector ''b'' 2 None))) 10"
proof -
  let ?cfg = "\<lparr>cfg_start = 10, cfg_end = 12, cfg_reserved = [11]\<rparr>"
  let ?ds = "[example_detector ''a'' 1 (Some 12)]" and ?b = "example_detector ''b'' 2 None"
  have v: "config_Validate ?cfg = None" "held ?ds = []" "held_by_owner ?ds (OwnerKey ?b) = None"
    "adoptable ?b = None" by code_simp+
  have acc: "accepts ?cfg ?ds" using v(1,2) by (auto simp: accepts_def held_def)
  have free: "free_for ?cfg ?ds a \<longleftrightarrow> 10 \<le> a \<and> a \<le> 12" for a
    by (auto simp: free_for_def in_config_def assignedAddress_def example_detector_def)
  obtain r a where r: "allocateDetectorAddress ?cfg ?ds ?b = Some r" "allocated_as r a" "10 \<le> a"
    "\<forall>b. 10 \<le> b \<and> b \<le> 12 \<longrightarrow> b \<noteq> 11 \<longrightarrow> a \<le> b"
    using allocateDetectorAddress_outcome [of ?cfg ?ds ?b] acc v(3,4)
    by (auto simp: free split: if_splits)
  have "a \<le> 10" using r(4) by simp
  then have "a = 10" using r(3) by simp
  then show ?thesis using r(1,2) by simp
qed

text \<open>
  C1: The controller never gives an address to a detector while another detector of the same pool
  holds it. In any run of reconciliations, of any detectors in any order and with writes that fail
  or report an error after taking effect, interleaved with arbitrary changes by others (detectors
  and devices created, changed, deleted and created again), two detectors of one pool hold the same
  address at the end only if they did at the start or a change by others made them. Each
  reconciliation must start with a cache that has caught up with the API server, as the controller
  lists the detectors from the manager's cache. Every \<^verbatim>\<open>Reconcile\<close> returns.
\<close>

theorem fleet_addresses_unique:
  assumes "api_laws c V" and "fleet_run c V w F w'"
  shows "conflicts V w' \<subseteq> conflicts V w \<union> F \<and> (\<forall>k. Reconcile c w' k \<noteq> None)"
  using fleet_run_conflicts [OF assms] Reconcile_total by (metis option.distinct(1))

theorem fleet_addresses_unique_witness:
  "\<exists>w1 w2 w3 e1 e2 e3.
     Reconcile mem_client unseen_cluster (''layout'', ''a'') = Some (w1, e1) \<and>
     Reconcile mem_client (mem_store w1 (example_detector ''c'' 0xDB06 (Some 12))) (''layout'', ''c'') = Some (w2, e2) \<and>
     Reconcile mem_client w2 (''layout'', ''b'') = Some (w3, e3) \<and> conflicts mem_api w3 = {}"
proof -
  obtain w1 e1 where r1: "Reconcile mem_client unseen_cluster (''layout'', ''a'') = Some (w1, e1)"
    using Reconcile_total [of mem_client unseen_cluster "(''layout'', ''a'')"] by blast
  let ?v1 = "mem_store w1 (example_detector ''c'' 0xDB06 (Some 12))"
  obtain w2 e2 where r2: "Reconcile mem_client ?v1 (''layout'', ''c'') = Some (w2, e2)"
    using Reconcile_total [of mem_client ?v1 "(''layout'', ''c'')"] by blast
  obtain w3 e3 where r3: "Reconcile mem_client w2 (''layout'', ''b'') = Some (w3, e3)"
    using Reconcile_total [of mem_client w2 "(''layout'', ''b'')"] by blast
  have new: "conflicts mem_api ?v1 - conflicts mem_api w1 = {}"
    using new_detector_conflicts [of "example_detector ''c'' 0xDB06 (Some 12)" w1]
    by (simp add: example_detector_def assignedAddress_def det_key_def example_meta_def)
  from fleet_run.reconcile [OF fleet_run.start mem_caught_up r1]
  have "fleet_run mem_client mem_api unseen_cluster {} w1" .
  from fleet_run.reconcile [OF fleet_run.foreign [OF this, of ?v1] mem_caught_up r2]
  have "fleet_run mem_client mem_api unseen_cluster {} w2" by (simp add: new)
  from fleet_addresses_unique [OF mem_api_laws fleet_run.reconcile [OF this mem_caught_up r3]]
  show ?thesis using r1 r2 r3 unseen_cluster_conflicts by blast
qed

text \<open>
  C16: Two reconciliations settle a detector. When its device, its pool and an address are there,
  the cache has caught up at the start of each run and both runs report no error, then after the
  second the stored detector asks for the address, has it assigned in the phase Allocated without
  a message and carries its device's label. After the first the address is stored as desired and as
  assigned, but if that run had to change the spec or the label, a phase and a message the detector
  had before survive it: the answer to the update is decoded into the object whose status was just
  computed, and it overwrites what the stored status has set.
\<close>

theorem Reconcile_converges:
  assumes "api_laws c V" and "caught_up c V w" and "caught_up c V w1"
    and "detectors_at V w k = Some d" and "det_device_ref (det_spec d) \<noteq> []"
    and "get_device c w (fst k, det_device_ref (det_spec d)) = Inr dev"
    and "get_pool c w (CANAddressPoolNamespace dev, CANAddressPoolName dev) = Inr poolCR"
    and "listPoolDetectors c w (CANAddressPoolNamespace dev) (CANAddressPoolName dev) = Inr ds"
    and "allocateDetectorAddress (poolConfigFromCR poolCR) ds d = Some r"
    and "allocated_as r x"
    and "Reconcile c w k = Some (w1, None)" and "Reconcile c w1 k = Some (w2, None)"
  shows "\<exists>d1 d2. detectors_at V w1 k = Some d1 \<and> det_desired (det_spec d1) = Some x \<and>
      det_assigned (det_status d1) = Some x \<and>
      det_phase (det_status d1) =
        (if settled d x \<or> det_phase (det_status d) = [] then CANDetectorPhaseAllocated
         else det_phase (det_status d)) \<and>
      det_message (det_status d1) = (if settled d x then [] else det_message (det_status d)) \<and>
      detectors_at V w2 k = Some d2 \<and> settled d2 x \<and> det_status d2 = allocated_status d x"
  by (rule Reconcile_twice [OF assms]) blast

theorem Reconcile_converges_witness:
  "\<exists>w1 d1 w2 d2.
     Reconcile mem_client failed_cluster (''layout'', ''a'') = Some (w1, None) \<and>
     mem_view w1 (''layout'', ''a'') = Some d1 \<and> det_assigned (det_status d1) = Some 10 \<and>
     det_phase (det_status d1) = ''Failed'' \<and> det_message (det_status d1) = ''no pool'' \<and>
     Reconcile mem_client w1 (''layout'', ''a'') = Some (w2, None) \<and>
     mem_view w2 (''layout'', ''a'') = Some d2 \<and> det_assigned (det_status d2) = Some 10 \<and>
     det_phase (det_status d2) = ''Allocated'' \<and> det_message (det_status d2) = []"
proof -
  let ?k = "(''layout'', ''a'')" and ?d = "failed_detector"
  let ?w1 = "fst (the (Reconcile mem_client failed_cluster ?k))"
  let ?w2 = "fst (the (Reconcile mem_client ?w1 ?k))"
  let ?ds = "map snd (mc_detectors failed_cluster)"
  let ?r = "the (allocateDetectorAddress (poolConfigFromCR example_pool_cr) ?ds ?d)"
  have d: "detectors_at mem_api failed_cluster ?k = Some ?d" "det_device_ref (det_spec ?d) \<noteq> []"
    "get_device mem_client failed_cluster (fst ?k, det_device_ref (det_spec ?d)) = Inr example_simulator"
    "get_pool mem_client failed_cluster
       (CANAddressPoolNamespace example_simulator, CANAddressPoolName example_simulator) = Inr example_pool_cr"
    "listPoolDetectors mem_client failed_cluster
       (CANAddressPoolNamespace example_simulator) (CANAddressPoolName example_simulator) = Inr ?ds"
    "allocateDetectorAddress (poolConfigFromCR example_pool_cr) ?ds ?d = Some ?r"
    "allocated_as ?r 10"
    "Reconcile mem_client failed_cluster ?k = Some (?w1, None)"
    "Reconcile mem_client ?w1 ?k = Some (?w2, None)"
    and n: "\<not> settled ?d 10" "det_phase (det_status ?d) = ''Failed''" "det_message (det_status ?d) = ''no pool''"
    by code_simp+
  from Reconcile_converges [OF mem_api_laws mem_caught_up mem_caught_up d] obtain d1 d2 where
    "mem_view ?w1 ?k = Some d1" "det_assigned (det_status d1) = Some 10"
    "det_phase (det_status d1) = ''Failed''" "det_message (det_status d1) = ''no pool''"
    "mem_view ?w2 ?k = Some d2" "det_status d2 = allocated_status ?d 10"
    using n by auto
  moreover from this have "det_assigned (det_status d2) = Some 10" "det_phase (det_status d2) = ''Allocated''"
    "det_message (det_status d2) = []"
    by (simp_all add: allocated_status_def elp_consts)
  ultimately show ?thesis using d(8,9) by blast
qed

text \<open>
  C29: The bundled default pool cannot allocate. Its reserved addresses 1, 2 and 3 lie below its
  start 10, \<^verbatim>\<open>Validate\<close> rejects the configuration, and so every allocation from a pool with the
  default spec, whatever the detectors, fails with that message and assigns nothing.
\<close>

theorem default_pool_rejected:
  "allocateDetectorAddress
     (poolConfigFromCR \<lparr>cap_meta = m, cap_spec = DefaultCANAddressPoolSpec, cap_status = s\<rparr>) dets cur =
   Some \<lparr>ar_desired = 0, ar_assigned = 0, ar_phase = ''Failed'',
         ar_message = ''canpool: reserved address 1 outside range 10-200'',
         ar_stats = \<lparr>RangeSize = 0, Reserved = 0, Allocated = 0, AutoAvailable = 0\<rparr>\<rparr>"
proof -
  let ?cfg = "\<lparr>cfg_start = 10, cfg_end = 200, cfg_reserved = [1, 2, 3]\<rparr>"
  have c: "poolConfigFromCR \<lparr>cap_meta = m, cap_spec = DefaultCANAddressPoolSpec, cap_status = s\<rparr> = ?cfg"
    by (simp add: poolConfigFromCR_def PoolConfig_def DefaultCANAddressPoolSpec_def elp_consts)
  have "config_Validate ?cfg = Some (CfgReservedOutside 1 10 200)" by code_simp
  then have "pool_New ?cfg = Inl (CfgReservedOutside 1 10 200)" by (simp add: pool_New_def)
  moreover have "failedResult (CfgReservedOutside 1 10 200) =
     \<lparr>ar_desired = 0, ar_assigned = 0, ar_phase = ''Failed'',
      ar_message = ''canpool: reserved address 1 outside range 10-200'',
      ar_stats = \<lparr>RangeSize = 0, Reserved = 0, Allocated = 0, AutoAvailable = 0\<rparr>\<rparr>" by code_simp
  ultimately show ?thesis by (simp add: allocateDetectorAddress_def c)
qed

end
