(* ===== verification/Wire_Bytes.thy ===== *)
theory Wire_Bytes
  imports Go_Text
begin

text \<open>
  Byte slices: Go's \<^verbatim>\<open>encoding/binary\<close> little-endian integers, strings as bytes, and
  \<^verbatim>\<open>copy\<close> into a slice, with the round trips the protocol code relies on.
\<close>

type_synonym bytes = "u8 list"

text \<open>A dataset of the Z21 LAN protocol, as the package \<^verbatim>\<open>z21.go/protocol\<close> hands it over.\<close>

record message =
  msg_header :: u16
  msg_data :: bytes

definition le16 :: "u16 \<Rightarrow> bytes" where
  "le16 w = [ucast w, ucast (drop_bit 8 w)]"

definition le32 :: "u32 \<Rightarrow> bytes" where
  "le32 w = [ucast w, ucast (drop_bit 8 w), ucast (drop_bit 16 w), ucast (drop_bit 24 w)]"

text \<open>\<^verbatim>\<open>Uint16\<close> and \<^verbatim>\<open>Uint32\<close> read the first bytes; the code checks the length before.\<close>

definition get_le16 :: "bytes \<Rightarrow> u16" where
  "get_le16 bs = ucast (bs ! 0) OR push_bit 8 (ucast (bs ! 1))"

definition get_le32 :: "bytes \<Rightarrow> u32" where
  "get_le32 bs =
     ucast (bs ! 0) OR push_bit 8 (ucast (bs ! 1)) OR push_bit 16 (ucast (bs ! 2))
       OR push_bit 24 (ucast (bs ! 3))"

definition char_byte :: "char \<Rightarrow> u8" where
  "char_byte c = word_of_nat (of_char c)"

definition byte_char :: "u8 \<Rightarrow> char" where
  "byte_char b = char_of (unat b)"

definition str_bytes :: "string \<Rightarrow> bytes" where
  "str_bytes s = map char_byte s"

definition bytes_str :: "bytes \<Rightarrow> string" where
  "bytes_str bs = map byte_char bs"

text \<open>\<^verbatim>\<open>make([]byte, n)\<close> with the source copied in: what does not fit is dropped.\<close>

definition copy_padded :: "nat \<Rightarrow> bytes \<Rightarrow> bytes" where
  "copy_padded n src = take n src @ replicate (n - length src) 0"

lemma length_le [simp]: "length (le16 w) = 2" "length (le32 v) = 4"
  by (simp_all add: le16_def le32_def)

lemma length_copy_padded [simp]: "length (copy_padded n src) = n"
  by (simp add: copy_padded_def)

lemma get_le16_le16 [simp]: "get_le16 (le16 w @ rest) = w"
  by (rule bit_word_eqI) (auto simp: get_le16_def le16_def bit_simps)

lemma get_le32_le32 [simp]: "get_le32 (le32 w @ rest) = w"
proof (rule bit_word_eqI)
  fix n assume n: "n < LENGTH(32)"
  consider "n < 8" | "8 \<le> n" "n < 16" | "16 \<le> n" "n < 24" | "24 \<le> n" "n < 32" using n by fastforce
  then show "bit (get_le32 (le32 w @ rest)) n = bit w n"
    by cases (auto simp: get_le32_def le32_def bit_simps)
qed

lemma byte_char_byte [simp]: "byte_char (char_byte c) = c"
proof -
  have "of_char c < (256::nat)" by simp
  then show ?thesis by (simp add: byte_char_def char_byte_def unat_of_nat)
qed

lemma char_byte_zero: "char_byte c = 0 \<longleftrightarrow> c = CHR 0x00"
proof
  assume "char_byte c = 0"
  then have "c = byte_char 0" by (metis byte_char_byte)
  moreover have "byte_char 0 = CHR 0x00" by code_simp
  ultimately show "c = CHR 0x00" by simp
qed (simp add: char_byte_def)

lemma bytes_str_str_bytes [simp]: "bytes_str (str_bytes s) = s"
  by (induction s) (simp_all add: bytes_str_def str_bytes_def)

lemma length_str_bytes [simp]: "length (str_bytes s) = length s"
  by (simp add: str_bytes_def)

lemma zero_str_bytes: "0 \<in> set (str_bytes s) \<longleftrightarrow> CHR 0x00 \<in> set s"
  using char_byte_zero by (force simp: str_bytes_def)

end
