(* ===== verification/Sim_Server.thy ===== *)
theory Sim_Server
  imports Wire_Bytes
begin

text \<open>
  The Z21 simulator (\<^verbatim>\<open>apps/z21-sim/internal/server\<close>) and its gRPC control plane
  (\<^verbatim>\<open>internal/control/grpc.go\<close>). The wire protocol package \<^verbatim>\<open>z21.go/protocol\<close> is not in the
  repository: its constants, \<^verbatim>\<open>ParseAll\<close>, \<^verbatim>\<open>MarshalAll\<close> and
  \<^verbatim>\<open>ParseCANMaintenanceSetAddress\<close> are the parameter \<open>z21_protocol\<close>. What the run-time
  decides (the order of ranging over the two maps, whether \<^verbatim>\<open>WriteToUDP\<close> succeeds) is the
  parameter \<open>sim_env\<close>; the datagrams given to the socket are a log in the state.

  The client map holds pointers to sessions, and a handler keeps the pointer it got at the
  start, so the sessions are a store of their own, addressed by number. A UDP address is its
  text. Each operation is one step: the mutex makes the parts that touch shared state atomic.
  Tracing is in \<open>Sim_Trace\<close>, the socket loop in \<open>Processes\<close>; logging is left out.

  Lemmas: what is sent to whom, the checksums, the reports and descriptions on the wire, and
  the invariant of the server over all its operations.
\<close>

section \<open>The protocol package and the run-time\<close>

record z21_protocol =
  HeaderLANGetHWInfo :: u16
  HeaderLANGetSerialNumber :: u16
  HeaderLANGetCode :: u16
  HeaderLANLogoff :: u16
  HeaderLANSetBroadcastFlags :: u16
  HeaderLANGetBroadcastFlags :: u16
  HeaderLANSystemStateGetData :: u16
  HeaderLANSystemStateDataChanged :: u16
  HeaderLANX :: u16
  HeaderLANCANDeviceGetDescription :: u16
  HeaderLANCANDeviceSetDescription :: u16
  HeaderLANCANDetector :: u16
  HeaderLANCANMaintenance :: u16
  HeaderLANCANBoosterSetTrackPower :: u16
  HeaderLANCANBoosterSystemState :: u16
  HwTypeZ21New :: u32
  CodeNoLock :: u8
  BroadcastFlagXpressNet :: u32
  BroadcastFlagSystemState :: u32
  BroadcastFlagCANDetector :: u32
  BroadcastFlagCANBooster :: u32
  CANBoosterNameLen :: nat
  CANDetectorPollAll :: u16
  CANDetectorTypeOccupancy :: u8
  CANBoosterActivate :: "u8 list"
  CANBoosterDeactivate :: "u8 list"
  CANBoosterStateTrackVoltageOff :: u16
  ParseAll :: "bytes \<Rightarrow> string + message list"
  MarshalAll :: "message list \<Rightarrow> string + bytes"
  ParseCANMaintenanceSetAddress :: "bytes \<Rightarrow> string + u16 \<times> u16"

text \<open>
  \<open>CANBoosterActivate\<close> and \<open>CANBoosterDeactivate\<close> list the three activating and the three
  deactivating constants of the type \<^verbatim>\<open>CANBoosterTrackPower\<close>. The headers the server switches
  over are different, or the switch would not compile.
\<close>

definition request_headers :: "z21_protocol \<Rightarrow> u16 list" where
  "request_headers P =
     [HeaderLANGetHWInfo P, HeaderLANGetSerialNumber P, HeaderLANGetCode P, HeaderLANLogoff P,
      HeaderLANSetBroadcastFlags P, HeaderLANGetBroadcastFlags P, HeaderLANSystemStateGetData P,
      HeaderLANX P, HeaderLANCANDeviceGetDescription P, HeaderLANCANDeviceSetDescription P,
      HeaderLANCANDetector P, HeaderLANCANMaintenance P, HeaderLANCANBoosterSetTrackPower P]"

record client_session =
  ses_addr :: string
  ses_flags :: u32

record can_device =
  cd_kind :: int
  cd_net_id :: u16
  cd_name :: string
  cd_module_addr :: u16
  cd_ports :: "u16 list"
  cd_output_port :: u16
  cd_state :: u16
  cd_vcc :: u16
  cd_current :: u16

record sim_env =
  ClientOrder :: "(string \<times> nat) list \<Rightarrow> (string \<times> nat) list"
  DeviceOrder :: "(u16 \<times> can_device) list \<Rightarrow> (u16 \<times> can_device) list"
  SendOk :: "string \<Rightarrow> bytes \<Rightarrow> bool"

definition env_laws :: "sim_env \<Rightarrow> bool" where
  "env_laws E \<longleftrightarrow>
     (\<forall>m. mset (ClientOrder E m) = mset m) \<and> (\<forall>m. mset (DeviceOrder E m) = mset m)"

section \<open>The server\<close>

record sim_server =
  sv_serial :: u32
  sv_track_power :: bool
  sv_clients :: "(string, nat) gomap"
  sv_sessions :: "nat \<Rightarrow> client_session"
  sv_next :: nat
  sv_devices :: "(u16, can_device) gomap"
  sv_sent :: "(string \<times> bytes) list"

definition defaultFirmwareVersion :: u32 where "defaultFirmwareVersion = 0x00000120"
definition simSerialPrefix :: u32 where "simSerialPrefix = 999"

definition makeSimulatorSerialNumber :: "int \<Rightarrow> u32" where
  "makeSimulatorSerialNumber unix_seconds =
     (let epochSeconds = word_of_int unix_seconds :: u32
      in simSerialPrefix * 1000000 + epochSeconds mod 1000000)"

definition new_server :: "int \<Rightarrow> sim_server" where
  "new_server now =
     \<lparr>sv_serial = makeSimulatorSerialNumber now, sv_track_power = True, sv_clients = [],
      sv_sessions = (\<lambda>_. \<lparr>ses_addr = [], ses_flags = 0\<rparr>), sv_next = 0, sv_devices = [], sv_sent = []\<rparr>"

definition sendUDP :: "sim_env \<Rightarrow> sim_server \<Rightarrow> string \<Rightarrow> bytes \<Rightarrow> sim_server \<times> bool" where
  "sendUDP E s remote out = (s\<lparr>sv_sent := sv_sent s @ [(remote, out)]\<rparr>, SendOk E remote out)"

definition sessionFor :: "sim_server \<Rightarrow> string \<Rightarrow> sim_server \<times> nat" where
  "sessionFor s remote =
     (case gm_get (sv_clients s) remote of
        Some c \<Rightarrow>
          (s\<lparr>sv_sessions := (sv_sessions s)(c := (sv_sessions s c)\<lparr>ses_addr := remote\<rparr>)\<rparr>, c)
      | None \<Rightarrow>
          (let c = sv_next s in
           (s\<lparr>sv_sessions := (sv_sessions s)(c := \<lparr>ses_addr = remote, ses_flags = 0\<rparr>),
              sv_clients := gm_set remote c (sv_clients s), sv_next := c + 1\<rparr>, c)))"

definition clientCount :: "sim_server \<Rightarrow> nat" where
  "clientCount s = length (sv_clients s)"

definition removeClient :: "sim_server \<Rightarrow> string \<Rightarrow> sim_server" where
  "removeClient s remote = s\<lparr>sv_clients := gm_del remote (sv_clients s)\<rparr>"

definition hwInfoReply :: "z21_protocol \<Rightarrow> message" where
  "hwInfoReply P =
     \<lparr>msg_header = HeaderLANGetHWInfo P, msg_data = le32 (HwTypeZ21New P) @ le32 defaultFirmwareVersion\<rparr>"

definition serialReply :: "z21_protocol \<Rightarrow> sim_server \<Rightarrow> message" where
  "serialReply P s = \<lparr>msg_header = HeaderLANGetSerialNumber P, msg_data = le32 (sv_serial s)\<rparr>"

definition codeReply :: "z21_protocol \<Rightarrow> message" where
  "codeReply P = \<lparr>msg_header = HeaderLANGetCode P, msg_data = [CodeNoLock P]\<rparr>"

definition broadcastFlagsReply :: "z21_protocol \<Rightarrow> u32 \<Rightarrow> message" where
  "broadcastFlagsReply P flags = \<lparr>msg_header = HeaderLANGetBroadcastFlags P, msg_data = le32 flags\<rparr>"

section \<open>Track power and system state\<close>

definition centralStateTrackVoltageOff :: u8 where "centralStateTrackVoltageOff = 0x02"
definition defaultSupplyVoltageMV :: u16 where "defaultSupplyVoltageMV = 10000"
definition defaultVCCVoltageMV :: u16 where "defaultVCCVoltageMV = 1000"
definition defaultMainCurrentMA :: u16 where "defaultMainCurrentMA = 100"
definition defaultTemperatureC :: u16 where "defaultTemperatureC = 42"
definition defaultCapabilities :: u8 where "defaultCapabilities = 0x31"

definition setTrackPower :: "sim_server \<Rightarrow> bool \<Rightarrow> sim_server \<times> bool" where
  "setTrackPower s on =
     (if sv_track_power s = on then (s, False) else (s\<lparr>sv_track_power := on\<rparr>, True))"

definition centralState :: "sim_server \<Rightarrow> u8" where
  "centralState s = (if sv_track_power s then 0 else centralStateTrackVoltageOff)"

definition encodeSystemState :: "sim_server \<Rightarrow> bytes" where
  "encodeSystemState s =
     le16 defaultMainCurrentMA @ [0, 0] @ le16 (defaultMainCurrentMA - 20) @ le16 defaultTemperatureC @
     le16 defaultSupplyVoltageMV @ le16 defaultVCCVoltageMV @ [centralState s, 0, 0, defaultCapabilities]"

definition systemStateReply :: "z21_protocol \<Rightarrow> sim_server \<Rightarrow> message" where
  "systemStateReply P s =
     \<lparr>msg_header = HeaderLANSystemStateDataChanged P, msg_data = encodeSystemState s\<rparr>"

definition xHeaderGetVersion :: u8 where "xHeaderGetVersion = 0x21"
definition xCommandGetStatus :: u8 where "xCommandGetStatus = 0x24"
definition xHeaderStatusReply :: u8 where "xHeaderStatusReply = 0x62"
definition xStatusDB0 :: u8 where "xStatusDB0 = 0x22"
definition xCommandSetTrackPowerOff :: u8 where "xCommandSetTrackPowerOff = 0x80"
definition xCommandSetTrackPowerOn :: u8 where "xCommandSetTrackPowerOn = 0x81"
definition xCommandGetFirmware :: u8 where "xCommandGetFirmware = 0xF1"
definition xFirmwareDB0 :: u8 where "xFirmwareDB0 = 0x0A"
definition xHeaderFirmwareReply :: u8 where "xHeaderFirmwareReply = 0xF3"
definition xHeaderXBusBC :: u8 where "xHeaderXBusBC = 0x61"
definition xBCDB0TrackPowerOff :: u8 where "xBCDB0TrackPowerOff = 0x00"
definition xBCDB0TrackPowerOn :: u8 where "xBCDB0TrackPowerOn = 0x01"
definition defaultXFirmwareMSB :: u8 where "defaultXFirmwareMSB = 0x01"
definition defaultXFirmwareLSB :: u8 where "defaultXFirmwareLSB = 0x20"

definition appendLANXXOR :: "bytes \<Rightarrow> bytes" where
  "appendLANXXOR data = data @ [fold (\<lambda>b x. x XOR b) data 0]"

definition xFirmwareReply :: "z21_protocol \<Rightarrow> message" where
  "xFirmwareReply P =
     \<lparr>msg_header = HeaderLANX P,
      msg_data = appendLANXXOR
        [xHeaderFirmwareReply, xFirmwareDB0, defaultXFirmwareMSB, defaultXFirmwareLSB]\<rparr>"

definition xStatusReply :: "z21_protocol \<Rightarrow> sim_server \<Rightarrow> message" where
  "xStatusReply P s =
     \<lparr>msg_header = HeaderLANX P,
      msg_data = appendLANXXOR [xHeaderStatusReply, xStatusDB0, centralState s]\<rparr>"

definition trackPowerBCReply :: "z21_protocol \<Rightarrow> bool \<Rightarrow> message" where
  "trackPowerBCReply P on =
     \<lparr>msg_header = HeaderLANX P,
      msg_data = appendLANXXOR
        [xHeaderXBusBC, if on then xBCDB0TrackPowerOn else xBCDB0TrackPowerOff]\<rparr>"

section \<open>Broadcasts\<close>

definition subscriberAddrs :: "sim_env \<Rightarrow> sim_server \<Rightarrow> u32 \<Rightarrow> string list" where
  "subscriberAddrs E s flag =
     map (\<lambda>(k, c). ses_addr (sv_sessions s c))
       (filter (\<lambda>(k, c). ses_flags (sv_sessions s c) AND flag \<noteq> 0) (ClientOrder E (sv_clients s)))"

fun send_each :: "sim_env \<Rightarrow> sim_server \<Rightarrow> bytes \<Rightarrow> string list \<Rightarrow> sim_server \<times> int" where
  "send_each E s out [] = (s, 0)"
| "send_each E s out (addr # addrs) =
     (let (s1, ok) = sendUDP E s addr out; (s2, sent) = send_each E s1 out addrs
      in (s2, if ok then sent + 1 else sent))"

definition broadcastMany ::
  "z21_protocol \<Rightarrow> sim_env \<Rightarrow> sim_server \<Rightarrow> message list \<Rightarrow> u32 \<Rightarrow> string option \<Rightarrow> sim_server \<times> int" where
  "broadcastMany P E s msgs flag except =
     (if msgs = [] then (s, 0)
      else case MarshalAll P msgs of
             Inl e \<Rightarrow> (s, 0)
           | Inr out \<Rightarrow>
               send_each E s out (filter (\<lambda>addr. \<not> (except \<noteq> None \<and> addr = the except))
                 (subscriberAddrs E s flag)))"

definition broadcast ::
  "z21_protocol \<Rightarrow> sim_env \<Rightarrow> sim_server \<Rightarrow> message \<Rightarrow> u32 \<Rightarrow> string option \<Rightarrow> sim_server \<times> int" where
  "broadcast P E s msg flag except = broadcastMany P E s [msg] flag except"

definition BroadcastSystemState :: "z21_protocol \<Rightarrow> sim_env \<Rightarrow> sim_server \<Rightarrow> sim_server \<times> int" where
  "BroadcastSystemState P E s = broadcast P E s (systemStateReply P s) (BroadcastFlagSystemState P) None"

definition notifyTrackPowerChange ::
  "z21_protocol \<Rightarrow> sim_env \<Rightarrow> sim_server \<Rightarrow> bool \<Rightarrow> string option \<Rightarrow> sim_server" where
  "notifyTrackPowerChange P E s on except =
     (let s1 = fst (broadcastMany P E s [trackPowerBCReply P on, xStatusReply P s]
                      (BroadcastFlagXpressNet P) except)
      in fst (broadcast P E s1 (systemStateReply P s1) (BroadcastFlagSystemState P) None))"

definition SetTrackPowerAndNotify ::
  "z21_protocol \<Rightarrow> sim_env \<Rightarrow> sim_server \<Rightarrow> bool \<Rightarrow> sim_server \<times> bool" where
  "SetTrackPowerAndNotify P E s on =
     (case setTrackPower s on of
        (s1, changed) \<Rightarrow> if \<not> changed then (s1, False) else (notifyTrackPowerChange P E s1 on None, True))"

definition handleLANX ::
  "z21_protocol \<Rightarrow> sim_env \<Rightarrow> sim_server \<Rightarrow> string \<Rightarrow> bytes \<Rightarrow> sim_server \<times> message option" where
  "handleLANX P E s remote data =
     (let power = (\<lambda>on. case setTrackPower s on of (s1, changed) \<Rightarrow>
            (if changed then notifyTrackPowerChange P E s1 on (Some remote) else s1,
             Some (trackPowerBCReply P on)))
      in if length data < 2 then (s, None)
         else if data ! 0 = xCommandGetFirmware then
           (if data ! 1 = xFirmwareDB0 then (s, Some (xFirmwareReply P)) else (s, None))
         else if data ! 0 = xHeaderGetVersion then
           (if data ! 1 = xCommandGetStatus then (s, Some (xStatusReply P s))
            else if data ! 1 = xCommandSetTrackPowerOff then power False
            else if data ! 1 = xCommandSetTrackPowerOn then power True
            else (s, None))
         else (s, None))"

section \<open>CAN devices\<close>

definition defaultDetectorOccupancy :: u16 where "defaultDetectorOccupancy = 0x0100"
definition defaultBoosterVCCmV :: u16 where "defaultBoosterVCCmV = 10000"
definition defaultBoosterCurrentmA :: u16 where "defaultBoosterCurrentmA = 100"
definition CANDeviceDetector :: int where "CANDeviceDetector = 1"
definition CANDeviceBooster :: int where "CANDeviceBooster = 2"

definition newDetectorDevice :: "u16 \<Rightarrow> string \<Rightarrow> u16 \<Rightarrow> u16 \<Rightarrow> can_device" where
  "newDetectorDevice netID name moduleAddr0 portCount0 =
     (let moduleAddr = (if moduleAddr0 = 0 then 1 else moduleAddr0);
          portCount = (if portCount0 = 0 then 1 else portCount0)
      in \<lparr>cd_kind = CANDeviceDetector, cd_net_id = netID, cd_name = name, cd_module_addr = moduleAddr,
          cd_ports = replicate (unat portCount) defaultDetectorOccupancy, cd_output_port = 0,
          cd_state = 0, cd_vcc = 0, cd_current = 0\<rparr>)"

definition newBoosterDevice :: "u16 \<Rightarrow> string \<Rightarrow> u16 \<Rightarrow> can_device" where
  "newBoosterDevice netID name outputPort0 =
     (let outputPort = (if outputPort0 = 0 then 1 else outputPort0)
      in \<lparr>cd_kind = CANDeviceBooster, cd_net_id = netID, cd_name = name, cd_module_addr = 0,
          cd_ports = [], cd_output_port = outputPort, cd_state = 0, cd_vcc = defaultBoosterVCCmV,
          cd_current = defaultBoosterCurrentmA\<rparr>)"

definition put_device :: "sim_server \<Rightarrow> u16 \<Rightarrow> can_device \<Rightarrow> sim_server" where
  "put_device s netID d = s\<lparr>sv_devices := gm_set netID d (sv_devices s)\<rparr>"

definition RegisterCANDevice :: "sim_server \<Rightarrow> can_device \<Rightarrow> sim_server" where
  "RegisterCANDevice s device = put_device s (cd_net_id device) device"

definition canDevice :: "sim_server \<Rightarrow> u16 \<Rightarrow> can_device option" where
  "canDevice s netID = gm_get (sv_devices s) netID"

definition encodeCANDeviceDescription :: "z21_protocol \<Rightarrow> u16 \<Rightarrow> string \<Rightarrow> bytes" where
  "encodeCANDeviceDescription P netID name =
     le16 netID @ copy_padded (CANBoosterNameLen P) (str_bytes name)"

definition parseCANDeviceName :: "bytes \<Rightarrow> string" where
  "parseCANDeviceName raw = bytes_str (takeWhile (\<lambda>b. b \<noteq> 0) raw)"

definition encodeCANDetectorReport :: "u16 \<Rightarrow> u16 \<Rightarrow> u8 \<Rightarrow> u8 \<Rightarrow> u16 \<Rightarrow> u16 \<Rightarrow> bytes" where
  "encodeCANDetectorReport netID addr port typ value1 value2 =
     le16 netID @ le16 addr @ [port, typ] @ le16 value1 @ le16 value2"

definition detectorReports :: "z21_protocol \<Rightarrow> can_device \<Rightarrow> message list" where
  "detectorReports P device =
     map (\<lambda>(port, value).
            \<lparr>msg_header = HeaderLANCANDetector P,
             msg_data = encodeCANDetectorReport (cd_net_id device) (cd_module_addr device)
               (word_of_nat port) (CANDetectorTypeOccupancy P) value 0\<rparr>)
       (enumerate 0 (cd_ports device))"

definition boosterSystemStateMessage :: "z21_protocol \<Rightarrow> can_device \<Rightarrow> message" where
  "boosterSystemStateMessage P device =
     \<lparr>msg_header = HeaderLANCANBoosterSystemState P,
      msg_data = le16 (cd_net_id device) @ le16 (cd_output_port device) @ le16 (cd_state device) @
        le16 (cd_vcc device) @ le16 (cd_current device)\<rparr>"

definition broadcastCANDeviceDetected ::
  "z21_protocol \<Rightarrow> sim_env \<Rightarrow> sim_server \<Rightarrow> can_device \<Rightarrow> sim_server \<times> int" where
  "broadcastCANDeviceDetected P E s device =
     (if cd_kind device = CANDeviceDetector then
        broadcastMany P E s (detectorReports P device) (BroadcastFlagCANDetector P) None
      else if cd_kind device = CANDeviceBooster then
        broadcast P E s (boosterSystemStateMessage P device) (BroadcastFlagCANBooster P) None
      else (s, 0))"

definition NotifyCANDeviceDetected ::
  "z21_protocol \<Rightarrow> sim_env \<Rightarrow> sim_server \<Rightarrow> can_device \<Rightarrow> sim_server \<times> int" where
  "NotifyCANDeviceDetected P E s device =
     broadcastCANDeviceDetected P E (RegisterCANDevice s device) device"

datatype build_error = NetIdOutOfRange | UnsupportedKind

definition BuildCANDevice ::
  "u32 \<Rightarrow> int \<Rightarrow> string \<Rightarrow> u32 \<Rightarrow> u32 \<Rightarrow> u32 \<Rightarrow> build_error + can_device" where
  "BuildCANDevice netID kind name moduleAddr portCount outputPort =
     (if netID = 0 \<or> 0xFFFF < netID then Inl NetIdOutOfRange
      else if kind = CANDeviceDetector then
        Inr (newDetectorDevice (ucast netID) name (ucast moduleAddr) (ucast portCount))
      else if kind = CANDeviceBooster then Inr (newBoosterDevice (ucast netID) name (ucast outputPort))
      else Inl UnsupportedKind)"

text \<open>The CAN requests of the LAN protocol. \<open>None\<close> is the result \<^verbatim>\<open>nil, false\<close>.\<close>

definition handleCANDeviceGetDescription ::
  "z21_protocol \<Rightarrow> sim_server \<Rightarrow> bytes \<Rightarrow> message list option" where
  "handleCANDeviceGetDescription P s data =
     (if length data < 2 then None
      else let netID = get_le16 data;
               name = (case canDevice s netID of Some d \<Rightarrow> cd_name d | None \<Rightarrow> [])
           in Some [\<lparr>msg_header = HeaderLANCANDeviceGetDescription P,
                     msg_data = encodeCANDeviceDescription P netID name\<rparr>])"

definition handleCANDeviceSetDescription ::
  "z21_protocol \<Rightarrow> sim_server \<Rightarrow> bytes \<Rightarrow> sim_server \<times> message list option" where
  "handleCANDeviceSetDescription P s data =
     (if length data < 2 + CANBoosterNameLen P then (s, None)
      else let netID = get_le16 data;
               name = parseCANDeviceName (take (CANBoosterNameLen P) (drop 2 data));
               device = (case gm_get (sv_devices s) netID of
                   None \<Rightarrow> \<lparr>cd_kind = 0, cd_net_id = netID, cd_name = name, cd_module_addr = 0,
                            cd_ports = [], cd_output_port = 0, cd_state = 0, cd_vcc = 0, cd_current = 0\<rparr>
                 | Some d \<Rightarrow> d\<lparr>cd_name := name\<rparr>)
           in (put_device s netID device, Some []))"

definition detectorDevices :: "sim_env \<Rightarrow> sim_server \<Rightarrow> can_device list" where
  "detectorDevices E s =
     filter (\<lambda>d. cd_kind d = CANDeviceDetector) (map snd (DeviceOrder E (sv_devices s)))"

definition handleCANDetectorPoll ::
  "z21_protocol \<Rightarrow> sim_env \<Rightarrow> sim_server \<Rightarrow> bytes \<Rightarrow> message list option" where
  "handleCANDetectorPoll P E s data =
     (if length data < 3 \<or> data ! 0 \<noteq> 0x00 then None
      else let netID = get_le16 (drop 1 data);
               devices = (if netID = CANDetectorPollAll P then detectorDevices E s
                 else (case canDevice s netID of
                         Some d \<Rightarrow> if cd_kind d = CANDeviceDetector then [d] else []
                       | None \<Rightarrow> []))
           in if devices = [] then Some [] else Some (concat (map (detectorReports P) devices)))"

definition handleCANMaintenance :: "z21_protocol \<Rightarrow> sim_server \<Rightarrow> bytes \<Rightarrow> sim_server" where
  "handleCANMaintenance P s data =
     (case ParseCANMaintenanceSetAddress P data of
        Inl e \<Rightarrow> s
      | Inr (netID, moduleAddr) \<Rightarrow>
          (case gm_get (sv_devices s) netID of
             None \<Rightarrow> s
           | Some d \<Rightarrow>
               if cd_kind d \<noteq> CANDeviceDetector then s
               else put_device s netID (d\<lparr>cd_module_addr := moduleAddr\<rparr>)))"

definition handleCANBoosterSetTrackPower ::
  "z21_protocol \<Rightarrow> sim_server \<Rightarrow> bytes \<Rightarrow> sim_server \<times> message list option" where
  "handleCANBoosterSetTrackPower P s data =
     (if length data < 3 then (s, None)
      else let netID = get_le16 data; power = data ! 2 in
        case gm_get (sv_devices s) netID of
          None \<Rightarrow> (s, Some [])
        | Some d \<Rightarrow>
            if cd_kind d \<noteq> CANDeviceBooster then (s, Some [])
            else let d' = (if power \<in> set (CANBoosterActivate P)
                           then d\<lparr>cd_state := cd_state d AND NOT (CANBoosterStateTrackVoltageOff P)\<rparr>
                           else if power \<in> set (CANBoosterDeactivate P)
                           then d\<lparr>cd_state := cd_state d OR CANBoosterStateTrackVoltageOff P\<rparr> else d)
                 in (put_device s netID d', Some [boosterSystemStateMessage P d']))"

definition handleCAN ::
  "z21_protocol \<Rightarrow> sim_env \<Rightarrow> sim_server \<Rightarrow> message \<Rightarrow> sim_server \<times> message list option" where
  "handleCAN P E s msg =
     (if msg_header msg = HeaderLANCANDeviceGetDescription P then
        (s, handleCANDeviceGetDescription P s (msg_data msg))
      else if msg_header msg = HeaderLANCANDeviceSetDescription P then
        handleCANDeviceSetDescription P s (msg_data msg)
      else if msg_header msg = HeaderLANCANDetector P then (s, handleCANDetectorPoll P E s (msg_data msg))
      else if msg_header msg = HeaderLANCANMaintenance P then
        (handleCANMaintenance P s (msg_data msg), Some [])
      else if msg_header msg = HeaderLANCANBoosterSetTrackPower P then
        handleCANBoosterSetTrackPower P s (msg_data msg)
      else (s, None))"

section \<open>Datagrams\<close>

definition set_flags :: "sim_server \<Rightarrow> nat \<Rightarrow> u32 \<Rightarrow> sim_server" where
  "set_flags s c flags =
     s\<lparr>sv_sessions := (sv_sessions s)(c := (sv_sessions s c)\<lparr>ses_flags := flags\<rparr>)\<rparr>"

text \<open>One message of a datagram: the body of the loop of \<^verbatim>\<open>handlePacket\<close>.\<close>

definition handle_message ::
  "z21_protocol \<Rightarrow> sim_env \<Rightarrow> string \<Rightarrow> nat \<Rightarrow> sim_server \<times> message list \<Rightarrow> message
     \<Rightarrow> sim_server \<times> message list" where
  "handle_message P E remote session st msg =
     (case st of (s, replies) \<Rightarrow>
      let h = msg_header msg in
      if h = HeaderLANGetHWInfo P then (s, replies @ [hwInfoReply P])
      else if h = HeaderLANGetSerialNumber P then (s, replies @ [serialReply P s])
      else if h = HeaderLANGetCode P then (s, replies @ [codeReply P])
      else if h = HeaderLANLogoff P then (removeClient s remote, replies)
      else if h = HeaderLANSetBroadcastFlags P then
        (if 4 \<le> length (msg_data msg) then (set_flags s session (get_le32 (msg_data msg)), replies)
         else (s, replies))
      else if h = HeaderLANGetBroadcastFlags P then
        (s, replies @ [broadcastFlagsReply P (ses_flags (sv_sessions s session))])
      else if h = HeaderLANSystemStateGetData P then (s, replies @ [systemStateReply P s])
      else if h = HeaderLANX P then
        (case handleLANX P E s remote (msg_data msg) of
           (s1, Some reply) \<Rightarrow> (s1, replies @ [reply]) | (s1, None) \<Rightarrow> (s1, replies))
      else if h \<in> {HeaderLANCANDeviceGetDescription P, HeaderLANCANDeviceSetDescription P,
                   HeaderLANCANDetector P, HeaderLANCANMaintenance P, HeaderLANCANBoosterSetTrackPower P} then
        (case handleCAN P E s msg of
           (s1, Some rs) \<Rightarrow> (s1, replies @ rs) | (s1, None) \<Rightarrow> (s1, replies))
      else (s, replies))"

definition writeMessages ::
  "z21_protocol \<Rightarrow> sim_env \<Rightarrow> sim_server \<Rightarrow> string \<Rightarrow> message list \<Rightarrow> sim_server" where
  "writeMessages P E s remote msgs =
     (case MarshalAll P msgs of Inl e \<Rightarrow> s | Inr out \<Rightarrow> fst (sendUDP E s remote out))"

definition handlePacket :: "z21_protocol \<Rightarrow> sim_env \<Rightarrow> sim_server \<Rightarrow> string \<Rightarrow> bytes \<Rightarrow> sim_server" where
  "handlePacket P E s remote payload =
     (case ParseAll P payload of
        Inl e \<Rightarrow> s
      | Inr msgs \<Rightarrow>
          (case sessionFor s remote of (s1, session) \<Rightarrow>
           case fold (\<lambda>msg st. handle_message P E remote session st msg) msgs (s1, []) of (s2, replies) \<Rightarrow>
             if length replies = 0 then s2 else writeMessages P E s2 remote replies))"

section \<open>The gRPC control plane\<close>

record notify_request =
  nr_net_id :: u32
  nr_kind :: i32
  nr_name :: string
  nr_module_addr :: u32
  nr_port_count :: u32
  nr_output_port :: u32

datatype control_error = NilRequest | KindRequired | BuildFailed build_error

definition canDeviceKindFromProto :: "i32 \<Rightarrow> control_error + int" where
  "canDeviceKindFromProto kind =
     (if kind = 1 then Inr CANDeviceDetector else if kind = 2 then Inr CANDeviceBooster
      else Inl KindRequired)"

definition grpc_BroadcastSystemState ::
  "z21_protocol \<Rightarrow> sim_env \<Rightarrow> sim_server \<Rightarrow> sim_server \<times> i32" where
  "grpc_BroadcastSystemState P E s =
     (case BroadcastSystemState P E s of (s1, n) \<Rightarrow> (s1, word_of_int n))"

text \<open>\<open>None\<close> is a nil request; the response is the pair of \<^verbatim>\<open>On\<close> and \<^verbatim>\<open>Changed\<close>.\<close>

definition grpc_SetTrackPower ::
  "z21_protocol \<Rightarrow> sim_env \<Rightarrow> sim_server \<Rightarrow> bool option \<Rightarrow> sim_server \<times> (control_error + bool \<times> bool)" where
  "grpc_SetTrackPower P E s req =
     (case req of
        None \<Rightarrow> (s, Inl NilRequest)
      | Some on \<Rightarrow>
          (case SetTrackPowerAndNotify P E s on of (s1, changed) \<Rightarrow> (s1, Inr (on, changed))))"

definition grpc_NotifyCANDeviceDetected ::
  "z21_protocol \<Rightarrow> sim_env \<Rightarrow> sim_server \<Rightarrow> notify_request option \<Rightarrow> sim_server \<times> (control_error + i32)" where
  "grpc_NotifyCANDeviceDetected P E s req =
     (case req of
        None \<Rightarrow> (s, Inl NilRequest)
      | Some r \<Rightarrow>
          (case canDeviceKindFromProto (nr_kind r) of
             Inl e \<Rightarrow> (s, Inl e)
           | Inr kind \<Rightarrow>
               (case BuildCANDevice (nr_net_id r) kind (nr_name r) (nr_module_addr r) (nr_port_count r)
                       (nr_output_port r) of
                  Inl e \<Rightarrow> (s, Inl (BuildFailed e))
                | Inr device \<Rightarrow>
                    (case NotifyCANDeviceDetected P E s device of
                       (s1, n) \<Rightarrow> (s1, Inr (word_of_int n))))))"

section \<open>What is sent\<close>

lemma send_each_eq:
  "send_each E s out addrs =
     (s\<lparr>sv_sent := sv_sent s @ map (\<lambda>a. (a, out)) addrs\<rparr>,
      int (length (filter (\<lambda>a. SendOk E a out) addrs)))"
  by (induction addrs arbitrary: s) (simp_all add: sendUDP_def Let_def)

definition recipients :: "sim_env \<Rightarrow> sim_server \<Rightarrow> u32 \<Rightarrow> string option \<Rightarrow> string list" where
  "recipients E s flag except =
     filter (\<lambda>addr. \<not> (except \<noteq> None \<and> addr = the except)) (subscriberAddrs E s flag)"

lemma broadcastMany_eq:
  "broadcastMany P E s msgs flag except =
     (if msgs = [] then (s, 0)
      else case MarshalAll P msgs of
             Inl e \<Rightarrow> (s, 0)
           | Inr out \<Rightarrow>
               (s\<lparr>sv_sent := sv_sent s @ map (\<lambda>a. (a, out)) (recipients E s flag except)\<rparr>,
                int (length (filter (\<lambda>a. SendOk E a out) (recipients E s flag except)))))"
  by (simp add: broadcastMany_def send_each_eq recipients_def split: sum.splits)

text \<open>Sending changes nothing but the log of datagrams.\<close>

definition only_sent :: "sim_server \<Rightarrow> sim_server \<Rightarrow> bool" where
  "only_sent s s' \<longleftrightarrow> (\<exists>out. s' = s\<lparr>sv_sent := sv_sent s @ out\<rparr>)"

lemma only_sent_refl [simp]: "only_sent s s"
  unfolding only_sent_def by (rule exI [of _ "[]"]) simp

lemma only_sent_trans: "only_sent s s' \<Longrightarrow> only_sent s' s'' \<Longrightarrow> only_sent s s''"
  by (auto simp: only_sent_def)

lemma only_sent_same:
  assumes "only_sent s s'"
  shows "sv_serial s' = sv_serial s" "sv_track_power s' = sv_track_power s"
    "sv_clients s' = sv_clients s" "sv_sessions s' = sv_sessions s" "sv_next s' = sv_next s"
    "sv_devices s' = sv_devices s"
  using assms by (auto simp: only_sent_def)

lemma broadcastMany_only_sent: "only_sent s (fst (broadcastMany P E s msgs flag except))"
  by (simp add: broadcastMany_eq split: sum.splits) (auto simp: only_sent_def)

lemma notify_only_sent: "only_sent s (notifyTrackPowerChange P E s on except)"
  unfolding notifyTrackPowerChange_def Let_def broadcast_def
  by (rule only_sent_trans [OF broadcastMany_only_sent broadcastMany_only_sent])

lemma handleLANX_state:
  "fst (handleLANX P E s remote data) = s \<or>
   (\<exists>on. only_sent (s\<lparr>sv_track_power := on\<rparr>) (fst (handleLANX P E s remote data)))"
  unfolding handleLANX_def setTrackPower_def Let_def
  using notify_only_sent [of "s\<lparr>sv_track_power := True\<rparr>" P E True "Some remote"]
    notify_only_sent [of "s\<lparr>sv_track_power := False\<rparr>" P E False "Some remote"]
  by (simp; blast)

lemma handleLANX_same:
  "sv_clients (fst (handleLANX P E s remote data)) = sv_clients s"
  "sv_sessions (fst (handleLANX P E s remote data)) = sv_sessions s"
  "sv_next (fst (handleLANX P E s remote data)) = sv_next s"
  "sv_devices (fst (handleLANX P E s remote data)) = sv_devices s"
  using handleLANX_state [of P E s remote data] by (auto dest: only_sent_same)

section \<open>Devices\<close>

text \<open>What is true of every registered device: the CAN requests only change devices this way.\<close>

definition device_ok :: "u16 \<Rightarrow> can_device \<Rightarrow> bool" where
  "device_ok n d \<longleftrightarrow> cd_net_id d = n \<and> cd_kind d \<in> {0, CANDeviceDetector, CANDeviceBooster} \<and>
     (cd_kind d = CANDeviceDetector \<longrightarrow> cd_ports d \<noteq> [])"

lemma BuildCANDevice_ok: "BuildCANDevice n k name a p out = Inr d \<Longrightarrow> device_ok (cd_net_id d) d"
  by (auto simp: BuildCANDevice_def newDetectorDevice_def newBoosterDevice_def device_ok_def
      CANDeviceDetector_def CANDeviceBooster_def Let_def unat_eq_0 split: if_splits)

definition devices_ok :: "sim_server \<Rightarrow> bool" where
  "devices_ok s \<longleftrightarrow> gm_wf (sv_devices s) \<and> (\<forall>n d. gm_get (sv_devices s) n = Some d \<longrightarrow> device_ok n d)"

lemma devices_ok_put: "devices_ok s \<Longrightarrow> device_ok n d \<Longrightarrow> devices_ok (put_device s n d)"
  by (simp add: devices_ok_def put_device_def)

lemma handleCAN_devices:
  assumes "devices_ok s"
  shows "devices_ok (fst (handleCAN P E s msg))"
proof -
  have d: "gm_get (sv_devices s) n = Some d \<Longrightarrow> device_ok n d" for n d
    using assms by (simp add: devices_ok_def)
  have "devices_ok (fst (handleCANDeviceSetDescription P s data))" for data
    using d by (auto simp: handleCANDeviceSetDescription_def Let_def device_ok_def
        intro!: devices_ok_put [OF assms] split: option.splits)
      (use assms in \<open>auto simp: CANDeviceDetector_def\<close>)
  moreover have "devices_ok (handleCANMaintenance P s data)" for data
    using assms d by (auto simp: handleCANMaintenance_def device_ok_def
        intro!: devices_ok_put [OF assms] split: sum.splits option.splits)
  moreover have "devices_ok (fst (handleCANBoosterSetTrackPower P s data))" for data
    using assms d by (auto simp: handleCANBoosterSetTrackPower_def Let_def device_ok_def
        intro!: devices_ok_put [OF assms] split: option.splits)
  ultimately show ?thesis using assms by (simp add: handleCAN_def)
qed

lemma put_device_same [simp]:
  "sv_clients (put_device s n d) = sv_clients s" "sv_sessions (put_device s n d) = sv_sessions s"
  "sv_next (put_device s n d) = sv_next s" "sv_sent (put_device s n d) = sv_sent s"
  "sv_track_power (put_device s n d) = sv_track_power s"
  by (simp_all add: put_device_def)

lemma handleCAN_same:
  "sv_clients (fst (handleCAN P E s msg)) = sv_clients s"
  "sv_sessions (fst (handleCAN P E s msg)) = sv_sessions s"
  "sv_next (fst (handleCAN P E s msg)) = sv_next s"
  by (simp_all add: handleCAN_def handleCANDeviceSetDescription_def handleCANMaintenance_def
      handleCANBoosterSetTrackPower_def Let_def split: sum.split option.split prod.split)

section \<open>The invariant of the server\<close>

text \<open>
  Every client key leads to a session of its own, which was allocated and carries that key as
  its address; every device is registered under its own network id.
\<close>

definition clients_ok :: "sim_server \<Rightarrow> bool" where
  "clients_ok s \<longleftrightarrow> gm_wf (sv_clients s) \<and>
     (\<forall>k c. gm_get (sv_clients s) k = Some c \<longrightarrow> c < sv_next s \<and> ses_addr (sv_sessions s c) = k)"

definition sim_inv :: "sim_server \<Rightarrow> bool" where
  "sim_inv s \<longleftrightarrow> clients_ok s \<and> devices_ok s"

lemma clients_ok_same:
  "clients_ok s \<Longrightarrow> sv_clients s' = sv_clients s \<Longrightarrow> sv_sessions s' = sv_sessions s \<Longrightarrow>
   sv_next s' = sv_next s \<Longrightarrow> clients_ok s'"
  by (simp add: clients_ok_def)

lemma sim_inv_only_sent: "only_sent s s' \<Longrightarrow> sim_inv s \<Longrightarrow> sim_inv s'"
  by (simp add: sim_inv_def clients_ok_def devices_ok_def only_sent_same)

lemma sim_inv_power [simp]: "sim_inv (s\<lparr>sv_track_power := on\<rparr>) = sim_inv s"
  by (simp add: sim_inv_def clients_ok_def devices_ok_def)

lemma sessionFor_inv:
  assumes "sim_inv s"
  shows "sim_inv (fst (sessionFor s remote))"
proof (cases "gm_get (sv_clients s) remote")
  case None
  then show ?thesis using assms
    by (auto simp: sim_inv_def clients_ok_def devices_ok_def sessionFor_def Let_def less_SucI)
next
  case (Some c)
  have "(sv_sessions s c)\<lparr>ses_addr := remote\<rparr> = sv_sessions s c"
    using assms Some by (auto simp: sim_inv_def clients_ok_def)
  then show ?thesis using assms Some by (simp add: sessionFor_def)
qed

lemma removeClient_inv: "sim_inv s \<Longrightarrow> sim_inv (removeClient s remote)"
  by (auto simp: sim_inv_def clients_ok_def devices_ok_def removeClient_def split: if_splits)

lemma set_flags_inv: "sim_inv s \<Longrightarrow> sim_inv (set_flags s c f)"
  by (auto simp: sim_inv_def clients_ok_def devices_ok_def set_flags_def)

lemma fst_if_in: "fst x \<in> S \<Longrightarrow> fst y \<in> S \<Longrightarrow> fst (if b then x else y) \<in> S"
  by simp

lemma handle_message_state:
  "fst (handle_message P E remote c (s, rs) msg) \<in>
     insert s (insert (removeClient s remote) (insert (fst (handleLANX P E s remote (msg_data msg)))
       (insert (fst (handleCAN P E s msg)) (range (set_flags s c)))))"
  unfolding handle_message_def Let_def prod.case
  by (intro fst_if_in) (simp_all split: prod.split option.split)

lemma handle_message_inv:
  assumes "sim_inv (fst st)"
  shows "sim_inv (fst (handle_message P E remote c st msg))"
proof -
  obtain s rs where st: "st = (s, rs)" by (cases st)
  have i: "sim_inv s" using assms st by simp
  have "sim_inv (fst (handleLANX P E s remote data))" for data
    using handleLANX_state [of P E s remote data] i sim_inv_only_sent by fastforce
  moreover have "sim_inv (fst (handleCAN P E s msg))"
    using i handleCAN_devices [of s P E msg] clients_ok_same [OF _ handleCAN_same]
    by (simp add: sim_inv_def)
  ultimately show ?thesis
    using handle_message_state [of P E remote c s rs msg] removeClient_inv [OF i] set_flags_inv [OF i] i
    by (auto simp: st)
qed

lemma handlePacket_inv:
  assumes "sim_inv s"
  shows "sim_inv (handlePacket P E s remote payload)"
proof (cases "ParseAll P payload")
  case (Inr msgs)
  obtain s1 c where s1: "sessionFor s remote = (s1, c)" by (cases "sessionFor s remote")
  let ?run = "\<lambda>ms st. fold (\<lambda>msg st. handle_message P E remote c st msg) ms st"
  have fold: "sim_inv (fst (?run ms st))"
    if "sim_inv (fst st)" for ms st
    using that by (induction ms arbitrary: st) (simp_all add: handle_message_inv)
  have "sim_inv s1" using sessionFor_inv [OF assms, of remote] s1 by simp
  then have "sim_inv (fst (?run msgs (s1, [])))" by (intro fold) simp
  moreover have "sim_inv (writeMessages P E t remote rs)" if "sim_inv t" for t rs
  proof (rule sim_inv_only_sent [OF _ that])
    show "only_sent t (writeMessages P E t remote rs)"
      by (auto simp: writeMessages_def sendUDP_def only_sent_def split: sum.split
          intro: exI [of _ "[]"])
  qed
  ultimately show ?thesis
    by (cases "?run msgs (s1, [])") (simp add: handlePacket_def Inr s1)
qed (simp add: handlePacket_def assms)

lemma RegisterCANDevice_inv:
  "sim_inv s \<Longrightarrow> device_ok (cd_net_id d) d \<Longrightarrow> sim_inv (RegisterCANDevice s d)"
  using clients_ok_same [of s "put_device s (cd_net_id d) d"]
  by (simp add: RegisterCANDevice_def sim_inv_def devices_ok_put)

lemma SetTrackPower_inv: "sim_inv s \<Longrightarrow> sim_inv (fst (SetTrackPowerAndNotify P E s on))"
  using sim_inv_only_sent [OF notify_only_sent, of "s\<lparr>sv_track_power := on\<rparr>"]
  by (simp add: SetTrackPowerAndNotify_def setTrackPower_def)

lemma NotifyCANDevice_inv:
  assumes "sim_inv s" and "device_ok (cd_net_id d) d"
  shows "sim_inv (fst (NotifyCANDeviceDetected P E s d))"
  unfolding NotifyCANDeviceDetected_def
  by (rule sim_inv_only_sent [OF _ RegisterCANDevice_inv [OF assms]])
    (simp add: broadcastCANDeviceDetected_def broadcast_def broadcastMany_only_sent)

text \<open>What can happen to a simulator: a datagram from a client, or a call of the control plane.\<close>

datatype sim_event =
  Packet string bytes | CallBroadcast | CallTrackPower "bool option" | CallNotify "notify_request option"

fun sim_step :: "z21_protocol \<Rightarrow> sim_env \<Rightarrow> sim_server \<Rightarrow> sim_event \<Rightarrow> sim_server" where
  "sim_step P E s (Packet remote payload) = handlePacket P E s remote payload"
| "sim_step P E s CallBroadcast = fst (grpc_BroadcastSystemState P E s)"
| "sim_step P E s (CallTrackPower req) = fst (grpc_SetTrackPower P E s req)"
| "sim_step P E s (CallNotify req) = fst (grpc_NotifyCANDeviceDetected P E s req)"

lemma sim_step_inv:
  assumes "sim_inv s"
  shows "sim_inv (sim_step P E s e)"
proof (cases e)
  case CallBroadcast
  have "only_sent s (fst (BroadcastSystemState P E s))"
    by (simp add: BroadcastSystemState_def broadcast_def broadcastMany_only_sent)
  then show ?thesis
    using assms sim_inv_only_sent
    by (simp add: CallBroadcast grpc_BroadcastSystemState_def split: prod.split) (metis fst_conv)
next
  case (CallTrackPower req)
  then show ?thesis using SetTrackPower_inv [OF assms] assms
    by (simp add: grpc_SetTrackPower_def split: option.split prod.split) (metis fst_conv)
next
  case (CallNotify req)
  then show ?thesis using NotifyCANDevice_inv [OF assms BuildCANDevice_ok] assms
    by (simp add: grpc_NotifyCANDeviceDetected_def split: option.split prod.split sum.split)
      (metis fst_conv)
qed (simp add: handlePacket_inv assms)

lemma sim_inv_new: "sim_inv (new_server now)"
  by (simp add: new_server_def sim_inv_def clients_ok_def devices_ok_def)

interpretation sim_machine: invariant_machine "sim_step P E" sim_inv for P E
  by unfold_locales (rule sim_step_inv)

definition sim_reachable :: "z21_protocol \<Rightarrow> sim_env \<Rightarrow> sim_server \<Rightarrow> bool" where
  "sim_reachable P E s \<longleftrightarrow> (\<exists>now es. s = run_events (sim_step P E) (new_server now) es)"

lemma sim_reachable_inv: "sim_reachable P E s \<Longrightarrow> sim_inv s"
  unfolding sim_reachable_def using sim_machine.run_inv [OF sim_inv_new] by blast

section \<open>Who receives a broadcast\<close>

definition client_flags :: "sim_server \<Rightarrow> string \<Rightarrow> u32 option" where
  "client_flags s k = map_option (\<lambda>c. ses_flags (sv_sessions s c)) (gm_get (sv_clients s) k)"

definition subscribed :: "sim_server \<Rightarrow> u32 \<Rightarrow> string \<Rightarrow> bool" where
  "subscribed s flag k \<longleftrightarrow> (case client_flags s k of None \<Rightarrow> False | Some f \<Rightarrow> f AND flag \<noteq> 0)"

lemma mset_map_filter_mono: "mset xs = mset ys \<Longrightarrow> mset (map f (filter P xs)) = mset (map f (filter P ys))"
  by (metis mset_filter mset_map)

lemma subscriberAddrs_exact:
  assumes "sim_inv s" and "env_laws E"
  shows "distinct (subscriberAddrs E s flag)" and "set (subscriberAddrs E s flag) = {k. subscribed s flag k}"
proof -
  let ?sub = "\<lambda>(k, c). ses_flags (sv_sessions s c) AND flag \<noteq> 0"
  let ?addr = "\<lambda>(k, c). ses_addr (sv_sessions s c)"
  have m: "mset (subscriberAddrs E s flag) = mset (map ?addr (filter ?sub (sv_clients s)))"
    unfolding subscriberAddrs_def
    by (rule mset_map_filter_mono) (use assms(2) in \<open>simp add: env_laws_def\<close>)
  have wf: "gm_wf (sv_clients s)" using assms(1) by (simp add: sim_inv_def clients_ok_def)
  have ka: "?addr e = fst e" if "e \<in> set (sv_clients s)" for e
  proof -
    obtain k c where e: "e = (k, c)" by (cases e)
    then have "gm_get (sv_clients s) k = Some c" using that wf by (simp add: gm_get_in)
    then show ?thesis using assms(1) e by (simp add: sim_inv_def clients_ok_def)
  qed
  then have eq: "map ?addr (filter ?sub (sv_clients s)) = map fst (filter ?sub (sv_clients s))"
    by (intro map_cong) auto
  have "distinct (map fst (filter ?sub (sv_clients s)))"
    using wf by (simp add: gm_wf_def distinct_map_filter)
  then show "distinct (subscriberAddrs E s flag)"
    using mset_eq_imp_distinct_iff [OF m] by (simp add: eq)
  have "set (subscriberAddrs E s flag) = fst ` set (filter ?sub (sv_clients s))"
    using mset_eq_setD [OF m] by (simp add: eq)
  also have "\<dots> = {k. subscribed s flag k}"
  proof -
    have "subscribed s flag k \<longleftrightarrow> (\<exists>c. (k, c) \<in> set (sv_clients s) \<and> ses_flags (sv_sessions s c) AND flag \<noteq> 0)" for k
      by (cases "gm_get (sv_clients s) k")
        (auto simp: subscribed_def client_flags_def gm_get_in [OF wf, symmetric])
    then show ?thesis by (auto simp: image_iff)
  qed
  finally show "set (subscriberAddrs E s flag) = {k. subscribed s flag k}" .
qed

lemma recipients_exact:
  assumes "sim_inv s" and "env_laws E"
  shows "distinct (recipients E s flag except)"
    and "set (recipients E s flag except) = {k. subscribed s flag k \<and> except \<noteq> Some k}"
  using subscriberAddrs_exact [OF assms] by (auto simp: recipients_def)

section \<open>Sessions of one client\<close>

lemma client_flags_only_sent: "only_sent s s' \<Longrightarrow> client_flags s' k = client_flags s k"
  by (simp add: client_flags_def only_sent_same)

lemma client_flags_same:
  "sv_clients s' = sv_clients s \<Longrightarrow> sv_sessions s' = sv_sessions s \<Longrightarrow> client_flags s' k = client_flags s k"
  by (simp add: client_flags_def)

text \<open>
  The session a handler works on: the client's own as long as the client is registered with it,
  and nobody else's.
\<close>

definition owns :: "sim_server \<Rightarrow> string \<Rightarrow> nat \<Rightarrow> bool" where
  "owns s remote c \<longleftrightarrow> (\<forall>k. gm_get (sv_clients s) k = Some c \<longrightarrow> k = remote)"

lemma sessionFor_owns:
  assumes "sim_inv s" and "sessionFor s remote = (s1, c)"
  shows "owns s1 remote c" and "gm_get (sv_clients s1) remote = Some c"
    and "k \<noteq> remote \<Longrightarrow> client_flags s1 k = client_flags s k"
    and "sv_devices s1 = sv_devices s" and "sv_track_power s1 = sv_track_power s"
    and "client_flags s1 remote = Some (case client_flags s remote of Some f \<Rightarrow> f | None \<Rightarrow> 0)"
proof -
  have ok: "gm_get (sv_clients s) k = Some c \<Longrightarrow> c < sv_next s \<and> ses_addr (sv_sessions s c) = k" for k c
    using assms(1) by (simp add: sim_inv_def clients_ok_def)
  then have inj: "gm_get (sv_clients s) k = Some c \<Longrightarrow> gm_get (sv_clients s) l = Some c \<Longrightarrow> k = l" for k l c
    by metis
  have new: "gm_get (sv_clients s) k \<noteq> Some (sv_next s)" for k using ok by fastforce
  show "owns s1 remote c" "gm_get (sv_clients s1) remote = Some c"
    "k \<noteq> remote \<Longrightarrow> client_flags s1 k = client_flags s k"
    "sv_devices s1 = sv_devices s" "sv_track_power s1 = sv_track_power s"
    "client_flags s1 remote = Some (case client_flags s remote of Some f \<Rightarrow> f | None \<Rightarrow> 0)"
    using assms(2) new
    by (auto simp: sessionFor_def owns_def client_flags_def Let_def map_option_case
        split: option.splits if_splits dest: inj)
qed

lemma handle_message_session:
  assumes "owns s remote c"
  shows "owns (fst (handle_message P E remote c (s, rs) msg)) remote c"
    and "k \<noteq> remote \<Longrightarrow> client_flags (fst (handle_message P E remote c (s, rs) msg)) k = client_flags s k"
    and "gm_get (sv_clients s) remote = None \<Longrightarrow>
      gm_get (sv_clients (fst (handle_message P E remote c (s, rs) msg))) remote = None"
proof -
  let ?t = "fst (handle_message P E remote c (s, rs) msg)"
  have same: "sv_clients (set_flags s c f) = sv_clients s" for f by (simp add: set_flags_def)
  have fl: "k \<noteq> remote \<Longrightarrow> client_flags (set_flags s c f) k = client_flags s k" for f
    using assms by (cases "gm_get (sv_clients s) k") (auto simp: client_flags_def set_flags_def owns_def)
  consider "?t = s" | "?t = removeClient s remote" | "sv_clients ?t = sv_clients s" "sv_sessions ?t = sv_sessions s"
    | f where "?t = set_flags s c f"
    using handle_message_state [of P E remote c s rs msg] handleLANX_same handleCAN_same by auto
  then show "owns ?t remote c" "k \<noteq> remote \<Longrightarrow> client_flags ?t k = client_flags s k"
    "gm_get (sv_clients s) remote = None \<Longrightarrow> gm_get (sv_clients ?t) remote = None"
    using assms fl by (cases; simp add: owns_def removeClient_def client_flags_def same)+
qed

abbreviation handle_all ::
  "z21_protocol \<Rightarrow> sim_env \<Rightarrow> string \<Rightarrow> nat \<Rightarrow> message list \<Rightarrow> sim_server \<times> message list
     \<Rightarrow> sim_server \<times> message list" where
  "handle_all P E remote c msgs st \<equiv> fold (\<lambda>msg st. handle_message P E remote c st msg) msgs st"

lemma handle_all_session:
  assumes "owns (fst st) remote c"
  shows "owns (fst (handle_all P E remote c msgs st)) remote c"
    and "k \<noteq> remote \<Longrightarrow> client_flags (fst (handle_all P E remote c msgs st)) k = client_flags (fst st) k"
    and "gm_get (sv_clients (fst st)) remote = None \<Longrightarrow>
      gm_get (sv_clients (fst (handle_all P E remote c msgs st))) remote = None"
  using assms
proof (induction msgs arbitrary: st)
  case (Cons msg msgs)
  have h: "owns (fst st) remote c \<Longrightarrow> owns (fst (handle_message P E remote c st msg)) remote c"
    "owns (fst st) remote c \<Longrightarrow> k \<noteq> remote \<Longrightarrow>
       client_flags (fst (handle_message P E remote c st msg)) k = client_flags (fst st) k"
    "owns (fst st) remote c \<Longrightarrow> gm_get (sv_clients (fst st)) remote = None \<Longrightarrow>
       gm_get (sv_clients (fst (handle_message P E remote c st msg))) remote = None" for st
    using handle_message_session [where s = "fst st" and rs = "snd st"] by simp_all
  { case 1 then show ?case using Cons.IH(1) h(1) by simp }
  { case 2 then show ?case using Cons.IH(2) h(1,2) by simp }
  { case 3 then show ?case using Cons.IH(3) h(1,3) by simp }
qed simp_all

lemma handlePacket_eq:
  assumes "ParseAll P payload = Inr msgs" and "sessionFor s remote = (s1, c)"
    and "handle_all P E remote c msgs (s1, []) = (s2, replies)"
  shows "handlePacket P E s remote payload = (if replies = [] then s2 else writeMessages P E s2 remote replies)"
  using assms by (simp add: handlePacket_def)

lemma writeMessages_only_sent: "only_sent s (writeMessages P E s remote msgs)"
  by (auto simp: writeMessages_def sendUDP_def only_sent_def split: sum.split intro: exI [of _ "[]"])

text \<open>A datagram of one client leaves the subscriptions of the others alone.\<close>

lemma handlePacket_others:
  assumes "sim_inv s" and "k \<noteq> remote"
  shows "client_flags (handlePacket P E s remote payload) k = client_flags s k"
proof (cases "ParseAll P payload")
  case (Inr msgs)
  obtain s1 c where s1: "sessionFor s remote = (s1, c)" by (cases "sessionFor s remote")
  obtain s2 rs where s2: "handle_all P E remote c msgs (s1, []) = (s2, rs)"
    by (cases "handle_all P E remote c msgs (s1, [])")
  have "client_flags s2 k = client_flags s k"
    using handle_all_session(2) [where st = "(s1, [])" and P = P and E = E and msgs = msgs
      and remote = remote and c = c and k = k] sessionFor_owns(1,3) [OF assms(1) s1] assms(2) s2
    by simp
  then show ?thesis
    using client_flags_only_sent [OF writeMessages_only_sent] by (simp add: handlePacket_eq [OF Inr s1 s2])
qed (simp add: handlePacket_def)

lemma power_flags [simp]: "client_flags (s\<lparr>sv_track_power := on\<rparr>) k = client_flags s k"
  by (simp add: client_flags_def)

lemma sim_step_others:
  assumes "sim_inv s" and "\<And>payload. e \<noteq> Packet k payload"
  shows "client_flags (sim_step P E s e) k = client_flags s k"
proof (cases e)
  case (Packet remote payload)
  then have "k \<noteq> remote" using assms(2) by blast
  then show ?thesis using Packet handlePacket_others [OF assms(1)] by simp
next
  case CallBroadcast
  have "only_sent s (fst (BroadcastSystemState P E s))"
    by (simp add: BroadcastSystemState_def broadcast_def broadcastMany_only_sent)
  then show ?thesis
    by (simp add: CallBroadcast grpc_BroadcastSystemState_def client_flags_only_sent split_beta)
next
  case (CallTrackPower req)
  then show ?thesis
    by (simp add: grpc_SetTrackPower_def SetTrackPowerAndNotify_def setTrackPower_def
        client_flags_only_sent [OF notify_only_sent] split: option.split)
next
  case (CallNotify req)
  have "client_flags (fst (NotifyCANDeviceDetected P E s d)) k = client_flags s k" for d
    by (simp add: NotifyCANDeviceDetected_def broadcastCANDeviceDetected_def broadcast_def
        client_flags_only_sent [OF broadcastMany_only_sent])
      (simp add: client_flags_def RegisterCANDevice_def)
  then show ?thesis
    by (simp add: CallNotify grpc_NotifyCANDeviceDetected_def split_beta split: option.split sum.split)
qed

text \<open>
  A datagram that leaves the subscription of its own sender alone: none of its messages logs off or
  sets broadcast flags.
\<close>

definition changes_subscription :: "z21_protocol \<Rightarrow> message \<Rightarrow> bool" where
  "changes_subscription P msg \<longleftrightarrow>
     msg_header msg = HeaderLANLogoff P \<or> msg_header msg = HeaderLANSetBroadcastFlags P \<and> 4 \<le> length (msg_data msg)"

definition keeps_subscription :: "z21_protocol \<Rightarrow> bytes \<Rightarrow> bool" where
  "keeps_subscription P payload \<longleftrightarrow>
     (case ParseAll P payload of Inl e \<Rightarrow> True | Inr msgs \<Rightarrow> list_all (\<lambda>msg. \<not> changes_subscription P msg) msgs)"

lemma handle_message_neutral:
  assumes "\<not> changes_subscription P msg"
  shows "fst (handle_message P E remote c (s, rs) msg) \<in>
     {s, fst (handleLANX P E s remote (msg_data msg)), fst (handleCAN P E s msg)}"
proof -
  have if_in: "(b \<Longrightarrow> fst x \<in> A) \<Longrightarrow> (\<not> b \<Longrightarrow> fst y \<in> A) \<Longrightarrow> fst (if b then x else y) \<in> A"
    for b and x y :: "sim_server \<times> message list" and A by simp
  have reply: "fst (case p of (s1, None) \<Rightarrow> (s1, rs) | (s1, Some r) \<Rightarrow> (s1, g r)) = fst p" for p :: "sim_server \<times> 'b option" and g
    by (cases p; cases "snd p") simp_all
  note h = assms [unfolded changes_subscription_def de_Morgan_disj de_Morgan_conj]
  show ?thesis
    unfolding handle_message_def Let_def prod.case
    by (intro if_in) (use h in \<open>simp_all only: reply fst_conv insert_iff simp_thms\<close>)
qed

lemma handle_message_keeps:
  assumes "\<not> changes_subscription P msg"
  shows "client_flags (fst (handle_message P E remote c st msg)) k = client_flags (fst st) k"
proof -
  obtain s rs where st: "st = (s, rs)" by (cases st)
  have lanx: "client_flags (fst (handleLANX P E s remote (msg_data msg))) k = client_flags s k"
    by (rule client_flags_same; rule handleLANX_same)
  have can: "client_flags (fst (handleCAN P E s msg)) k = client_flags s k"
    by (rule client_flags_same; rule handleCAN_same)
  consider "fst (handle_message P E remote c (s, rs) msg) = s"
    | "fst (handle_message P E remote c (s, rs) msg) = fst (handleLANX P E s remote (msg_data msg))"
    | "fst (handle_message P E remote c (s, rs) msg) = fst (handleCAN P E s msg)"
    using handle_message_neutral [OF assms, of E remote c s rs] by blast
  then show ?thesis by cases (simp_all only: st fst_conv lanx can)
qed

lemma handle_all_keeps:
  "list_all (\<lambda>msg. \<not> changes_subscription P msg) msgs \<Longrightarrow>
   client_flags (fst (handle_all P E remote c msgs st)) k = client_flags (fst st) k"
  by (induction msgs arbitrary: st) (simp_all add: handle_message_keeps)

lemma handlePacket_keeps:
  assumes "sim_inv s" and "client_flags s remote = Some f" and "keeps_subscription P payload"
  shows "client_flags (handlePacket P E s remote payload) remote = Some f"
proof (cases "ParseAll P payload")
  case (Inr msgs)
  obtain s1 c where s1: "sessionFor s remote = (s1, c)" by (cases "sessionFor s remote")
  obtain s2 rs where s2: "handle_all P E remote c msgs (s1, []) = (s2, rs)"
    by (cases "handle_all P E remote c msgs (s1, [])")
  have "client_flags s2 remote = Some f"
    using handle_all_keeps [of P msgs E remote c "(s1, [])" remote] assms(2,3) Inr s2
      sessionFor_owns(6) [OF assms(1) s1] by (simp add: keeps_subscription_def)
  then show ?thesis
    using client_flags_only_sent [OF writeMessages_only_sent] by (simp add: handlePacket_eq [OF Inr s1 s2])
qed (use assms(2) in \<open>simp add: handlePacket_def\<close>)

lemma run_subscribed:
  assumes "sim_inv s" and "client_flags s k = Some f"
    and "\<forall>e \<in> set es. \<forall>payload. e = Packet k payload \<longrightarrow> keeps_subscription P payload"
  shows "client_flags (run_events (sim_step P E) s es) k = Some f"
  using assms
proof (induction es arbitrary: s)
  case (Cons e es)
  have "client_flags (sim_step P E s e) k = Some f"
  proof (cases "\<exists>payload. e = Packet k payload")
    case True
    then show ?thesis using handlePacket_keeps [OF Cons.prems(1,2)] Cons.prems(3) by auto
  next
    case False
    then show ?thesis using sim_step_others [OF Cons.prems(1)] Cons.prems(2) by metis
  qed
  then show ?case using Cons.IH [OF sim_step_inv [OF Cons.prems(1)]] Cons.prems(3) by simp
qed simp

lemma headers_differ:
  assumes "distinct (request_headers P)"
  shows "HeaderLANSetBroadcastFlags P \<notin> {HeaderLANGetHWInfo P, HeaderLANGetSerialNumber P, HeaderLANGetCode P, HeaderLANLogoff P}"
    and "HeaderLANGetBroadcastFlags P \<notin> {HeaderLANGetHWInfo P, HeaderLANGetSerialNumber P, HeaderLANGetCode P,
       HeaderLANLogoff P, HeaderLANSetBroadcastFlags P}"
    and "HeaderLANLogoff P \<notin> {HeaderLANGetHWInfo P, HeaderLANGetSerialNumber P, HeaderLANGetCode P}"
  using assms by (auto simp: request_headers_def)

text \<open>A message at the end of a datagram is handled in the state the ones before left.\<close>

lemma set_flags_message:
  assumes "distinct (request_headers P)" and "msg_header m = HeaderLANSetBroadcastFlags P"
    and "msg_data m = le32 f"
  shows "handle_message P E remote c (s, rs) m = (set_flags s c f, rs)"
  using headers_differ(1) [OF assms(1)] assms(2,3) get_le32_le32 [of f "[]"]
  by (simp add: handle_message_def Let_def)

lemma get_flags_message:
  assumes "distinct (request_headers P)" and "msg_header m = HeaderLANGetBroadcastFlags P"
  shows "handle_message P E remote c (s, rs) m =
    (s, rs @ [broadcastFlagsReply P (ses_flags (sv_sessions s c))])"
  using headers_differ(2) [OF assms(1)] assms(2) by (simp add: handle_message_def Let_def)

lemma logoff_message:
  assumes "distinct (request_headers P)" and "msg_header m = HeaderLANLogoff P"
  shows "handle_message P E remote c (s, rs) m = (removeClient s remote, rs)"
  using headers_differ(3) [OF assms(1)] assms(2) by (simp add: handle_message_def Let_def)

lemma client_flags_session:
  "gm_get (sv_clients s) k = Some c \<Longrightarrow> client_flags s k = Some (ses_flags (sv_sessions s c))"
  by (simp add: client_flags_def)

lemma set_flags_packet:
  assumes "sim_inv s" and "distinct (request_headers P)" and "ParseAll P payload = Inr [m]"
    and "msg_header m = HeaderLANSetBroadcastFlags P" and "msg_data m = le32 f"
  shows "client_flags (handlePacket P E s remote payload) remote = Some f"
proof -
  obtain s1 c where s1: "sessionFor s remote = (s1, c)" by (cases "sessionFor s remote")
  have "handle_all P E remote c [m] (s1, []) = (set_flags s1 c f, [])"
    using set_flags_message [OF assms(2,4,5)] by simp
  from handlePacket_eq [OF assms(3) s1 this] sessionFor_owns(2) [OF assms(1) s1]
  show ?thesis by (simp add: client_flags_def set_flags_def)
qed

lemma get_flags_packet:
  assumes "sim_inv s" and "distinct (request_headers P)" and "ParseAll P payload = Inr [m]"
    and "msg_header m = HeaderLANGetBroadcastFlags P" and "client_flags s remote = Some f"
    and "MarshalAll P [broadcastFlagsReply P f] = Inr out"
  shows "sv_sent (handlePacket P E s remote payload) = sv_sent s @ [(remote, out)]"
proof -
  obtain s1 c where s1: "sessionFor s remote = (s1, c)" by (cases "sessionFor s remote")
  note own = sessionFor_owns [OF assms(1) s1]
  have "ses_flags (sv_sessions s1 c) = f"
    using own(2,6) assms(5) client_flags_session by fastforce
  then have "handle_all P E remote c [m] (s1, []) = (s1, [broadcastFlagsReply P f])"
    using get_flags_message [OF assms(2,4)] by simp
  moreover have "sv_sent s1 = sv_sent s"
    using s1 by (auto simp: sessionFor_def Let_def split: option.splits)
  ultimately show ?thesis
    using assms(6) by (simp add: handlePacket_eq [OF assms(3) s1] writeMessages_def sendUDP_def)
qed

lemma logoff_packet:
  assumes "sim_inv s" and "distinct (request_headers P)" and "ParseAll P payload = Inr msgs"
    and "m \<in> set msgs" and "msg_header m = HeaderLANLogoff P"
  shows "client_flags (handlePacket P E s remote payload) remote = None"
proof -
  obtain s1 c where s1: "sessionFor s remote = (s1, c)" by (cases "sessionFor s remote")
  obtain xs ys where msgs: "msgs = xs @ m # ys" using split_list [OF assms(4)] by blast
  obtain s2 r2 where s2: "handle_all P E remote c xs (s1, []) = (s2, r2)"
    by (cases "handle_all P E remote c xs (s1, [])")
  obtain s3 r3 where s3: "handle_all P E remote c ys (removeClient s2 remote, r2) = (s3, r3)"
    by (cases "handle_all P E remote c ys (removeClient s2 remote, r2)")
  have "owns s2 remote c"
    using handle_all_session(1) [where st = "(s1, [])" and P = P and E = E and msgs = xs]
      sessionFor_owns(1) [OF assms(1) s1] s2 by (metis fst_conv)
  then have "owns (removeClient s2 remote) remote c" by (auto simp: owns_def removeClient_def split: if_splits)
  moreover have "gm_get (sv_clients (removeClient s2 remote)) remote = None" by (simp add: removeClient_def)
  ultimately have "gm_get (sv_clients s3) remote = None"
    using handle_all_session(3) [where st = "(removeClient s2 remote, r2)" and P = P and E = E and msgs = ys]
      s3 by (metis fst_conv)
  then have "client_flags s3 remote = None" by (simp add: client_flags_def)
  moreover have "handle_all P E remote c msgs (s1, []) = (s3, r3)"
    using s2 s3 logoff_message [OF assms(2,5)] by (simp add: msgs)
  ultimately show ?thesis
    using client_flags_only_sent [OF writeMessages_only_sent]
    by (simp add: handlePacket_eq [OF assms(3) s1])
qed

section \<open>Reports and descriptions\<close>

lemma detectorReports_nth:
  assumes "i < length (cd_ports d)"
  shows "detectorReports P d ! i =
    \<lparr>msg_header = HeaderLANCANDetector P,
     msg_data = le16 (cd_net_id d) @ le16 (cd_module_addr d) @
       [word_of_nat i, CANDetectorTypeOccupancy P] @ le16 (cd_ports d ! i) @ le16 0\<rparr>"
  using assms by (simp add: detectorReports_def nth_enumerate_eq encodeCANDetectorReport_def)

lemma length_detectorReports [simp]: "length (detectorReports P d) = length (cd_ports d)"
  by (simp add: detectorReports_def)

lemma takeWhile_padded:
  "0 \<notin> set xs \<Longrightarrow> takeWhile (\<lambda>b. b \<noteq> (0::u8)) (xs @ replicate n 0) = xs"
  by (cases n) (auto simp: takeWhile_tail)

lemma parse_padded_name:
  assumes "CHR 0x00 \<notin> set name" and "length name \<le> n"
  shows "parseCANDeviceName (copy_padded n (str_bytes name)) = name"
  using assms takeWhile_padded [of "str_bytes name"]
  by (simp add: parseCANDeviceName_def copy_padded_def zero_str_bytes)

lemma xor_fold: "fold (\<lambda>b x. x XOR b) xs (a :: u8) = a XOR fold (\<lambda>b x. x XOR b) xs 0"
proof (induction xs arbitrary: a)
  case (Cons b xs)
  show ?case using Cons.IH [of "a XOR b"] Cons.IH [of b] by (simp add: xor.assoc)
qed simp

lemma appendLANXXOR_zero: "fold (\<lambda>b x. x XOR b) (appendLANXXOR data) 0 = 0"
  by (simp add: appendLANXXOR_def)

section \<open>An instance of the protocol package\<close>

definition frame :: "message \<Rightarrow> bytes" where
  "frame m = le16 (word_of_nat (length (msg_data m) + 4)) @ le16 (msg_header m) @ msg_data m"

fun parse_frames :: "nat \<Rightarrow> bytes \<Rightarrow> string + message list" where
  "parse_frames 0 bs = (if bs = [] then Inr [] else Inl ''too many frames'')"
| "parse_frames (Suc n) bs =
     (if bs = [] then Inr []
      else if length bs < 4 then Inl ''short frame''
      else let k = unat (get_le16 bs) in
           if k < 4 \<or> length bs < k then Inl ''bad length''
           else case parse_frames n (drop k bs) of
                  Inl e \<Rightarrow> Inl e
                | Inr ms \<Rightarrow> Inr (\<lparr>msg_header = get_le16 (drop 2 bs), msg_data = drop 4 (take k bs)\<rparr> # ms))"

definition example_protocol :: z21_protocol where
  "example_protocol =
     \<lparr>HeaderLANGetHWInfo = 0x1A, HeaderLANGetSerialNumber = 0x10, HeaderLANGetCode = 0x18,
      HeaderLANLogoff = 0x30, HeaderLANSetBroadcastFlags = 0x50, HeaderLANGetBroadcastFlags = 0x51,
      HeaderLANSystemStateGetData = 0x85, HeaderLANSystemStateDataChanged = 0x84, HeaderLANX = 0x40,
      HeaderLANCANDeviceGetDescription = 0xC8, HeaderLANCANDeviceSetDescription = 0xC9,
      HeaderLANCANDetector = 0xC4, HeaderLANCANMaintenance = 0xCC,
      HeaderLANCANBoosterSetTrackPower = 0xCB, HeaderLANCANBoosterSystemState = 0xCA,
      HwTypeZ21New = 0x201, CodeNoLock = 0, BroadcastFlagXpressNet = 1, BroadcastFlagSystemState = 0x100,
      BroadcastFlagCANDetector = 0x80000, BroadcastFlagCANBooster = 0x20000, CANBoosterNameLen = 16,
      CANDetectorPollAll = 0xD000, CANDetectorTypeOccupancy = 1, CANBoosterActivate = [0xFF, 0x11, 0x22],
      CANBoosterDeactivate = [0, 0x10, 0x20], CANBoosterStateTrackVoltageOff = 0x80,
      ParseAll = (\<lambda>bs. parse_frames (length bs) bs), MarshalAll = (\<lambda>ms. Inr (concat (map frame ms))),
      ParseCANMaintenanceSetAddress = (\<lambda>bs. if length bs < 4 then Inl ''short''
        else Inr (get_le16 bs, get_le16 (drop 2 bs)))\<rparr>"

definition example_env :: sim_env where
  "example_env = \<lparr>ClientOrder = (\<lambda>m. m), DeviceOrder = (\<lambda>m. m), SendOk = (\<lambda>_ _. True)\<rparr>"

lemma example_env_laws: "env_laws example_env"
  by (simp add: env_laws_def example_env_def)

lemma example_headers: "distinct (request_headers example_protocol)"
  by code_simp

lemma new_server_reachable: "sim_reachable P E (new_server now)"
  unfolding sim_reachable_def by (rule exI [of _ now], rule exI [of _ "[]"]) simp

lemma sim_reachable_step: "sim_reachable P E s \<Longrightarrow> sim_reachable P E (sim_step P E s e)"
  unfolding sim_reachable_def by (metis run_events_snoc)

section \<open>Properties\<close>

text \<open>
  C24: A broadcast reaches exactly the subscribers. On a simulator that came about by any
  datagrams and control calls, a broadcast that can be encoded is sent once to every client
  whose flags contain the flag, except the excluded one, in the order the run-time ranges over
  the client map, and to nobody else; the result is the number of successful sends, and
  nothing but the log of datagrams changes.
\<close>

theorem broadcast_reaches_subscribers:
  assumes "sim_reachable P E s" and "env_laws E" and "msgs \<noteq> []" and "MarshalAll P msgs = Inr out"
  shows "\<exists>addrs. distinct addrs \<and> set addrs = {k. subscribed s flag k \<and> except \<noteq> Some k} \<and>
    broadcastMany P E s msgs flag except =
      (s\<lparr>sv_sent := sv_sent s @ map (\<lambda>a. (a, out)) addrs\<rparr>,
       int (card {a \<in> set addrs. SendOk E a out}))"
proof (intro exI conjI)
  let ?r = "recipients E s flag except"
  note r = recipients_exact [OF sim_reachable_inv [OF assms(1)] assms(2), of flag except]
  show "distinct ?r" "set ?r = {k. subscribed s flag k \<and> except \<noteq> Some k}" by (fact r)+
  have "length (filter (\<lambda>a. SendOk E a out) ?r) = card {a \<in> set ?r. SendOk E a out}"
    using r(1) distinct_card [of "filter (\<lambda>a. SendOk E a out) ?r"] by simp
  then show "broadcastMany P E s msgs flag except =
      (s\<lparr>sv_sent := sv_sent s @ map (\<lambda>a. (a, out)) ?r\<rparr>, int (card {a \<in> set ?r. SendOk E a out}))"
    by (simp add: broadcastMany_eq assms(3,4))
qed

definition example_server :: sim_server where
  "example_server = sim_step example_protocol example_env (new_server 0)
     (Packet ''1.2.3.4:5'' [8, 0, 0x50, 0, 1, 0, 0, 0])"

lemma example_server_reachable: "sim_reachable example_protocol example_env example_server"
  unfolding example_server_def by (rule sim_reachable_step [OF new_server_reachable])

theorem broadcast_reaches_subscribers_witness:
  "\<exists>addrs. ''1.2.3.4:5'' \<in> set addrs \<and>
     sv_sent (fst (broadcastMany example_protocol example_env example_server [codeReply example_protocol] 1 None)) =
       sv_sent example_server @ map (\<lambda>a. (a, frame (codeReply example_protocol))) addrs"
proof -
  have m: "MarshalAll example_protocol [codeReply example_protocol] = Inr (frame (codeReply example_protocol))"
    by (simp add: example_protocol_def)
  have "subscribed example_server 1 ''1.2.3.4:5''" by code_simp
  then show ?thesis
    using broadcast_reaches_subscribers [OF example_server_reachable example_env_laws _ m, of 1 None] by auto
qed

text \<open>
  A subscription lasts until the client changes it. After a datagram that sets the
  broadcast flags to \<open>f\<close>, and any control calls and datagrams, of which its own neither log off
  nor set flags, the client is subscribed with exactly \<open>f\<close>, and a datagram asking for the flags is answered with
  the four bytes of \<open>f\<close> to that client alone.
\<close>

theorem subscription_kept:
  assumes "sim_reachable P E s" and "distinct (request_headers P)"
    and "ParseAll P p1 = Inr [\<lparr>msg_header = HeaderLANSetBroadcastFlags P, msg_data = le32 f\<rparr>]"
    and "\<forall>e \<in> set es. \<forall>payload. e = Packet remote payload \<longrightarrow> keeps_subscription P payload"
    and "s2 = run_events (sim_step P E) (handlePacket P E s remote p1) es"
    and "ParseAll P p2 = Inr [\<lparr>msg_header = HeaderLANGetBroadcastFlags P, msg_data = d\<rparr>]"
    and "MarshalAll P [\<lparr>msg_header = HeaderLANGetBroadcastFlags P, msg_data = le32 f\<rparr>] = Inr out"
  shows "client_flags s2 remote = Some f \<and>
    sv_sent (handlePacket P E s2 remote p2) = sv_sent s2 @ [(remote, out)]"
proof -
  have i: "sim_inv s" by (rule sim_reachable_inv [OF assms(1)])
  have "client_flags (handlePacket P E s remote p1) remote = Some f"
    by (rule set_flags_packet [OF i assms(2,3)]) simp_all
  then have f: "client_flags s2 remote = Some f"
    unfolding assms(5) by (rule run_subscribed [OF handlePacket_inv [OF i] _ assms(4)])
  have "sim_inv s2" unfolding assms(5) by (rule sim_machine.run_inv [OF handlePacket_inv [OF i]])
  from get_flags_packet [OF this assms(2,6) _ f, of out] f assms(7)
  show ?thesis by (simp add: broadcastFlagsReply_def)
qed

theorem subscription_kept_witness:
  "client_flags (handlePacket example_protocol example_env (new_server 0) ''1.2.3.4:5''
     [8, 0, 0x50, 0, 1, 1, 8, 0]) ''1.2.3.4:5'' = Some 0x80101"
proof -
  let ?P = example_protocol and ?E = example_env
  have p: "ParseAll ?P [8, 0, 0x50, 0, 1, 1, 8, 0] =
      Inr [\<lparr>msg_header = HeaderLANSetBroadcastFlags ?P, msg_data = le32 0x80101\<rparr>]"
    "ParseAll ?P [4, 0, 0x51, 0] = Inr [\<lparr>msg_header = HeaderLANGetBroadcastFlags ?P, msg_data = []\<rparr>]"
    by code_simp+
  have m: "MarshalAll ?P [\<lparr>msg_header = HeaderLANGetBroadcastFlags ?P, msg_data = le32 0x80101\<rparr>] =
      Inr (concat (map frame [\<lparr>msg_header = HeaderLANGetBroadcastFlags ?P, msg_data = le32 0x80101\<rparr>]))"
    by (simp add: example_protocol_def)
  show ?thesis
    using subscription_kept [OF new_server_reachable example_headers p(1) _ _ p(2) m, of "[]" "''1.2.3.4:5''"]
    by simp
qed

text \<open>
  C25: Logging off ends the subscription, whatever else the datagram holds: after a datagram
  with a logoff message the client is registered no more and is in no broadcast. A later
  message of the same datagram that sets the flags again has no effect, because the handler
  goes on with the session it has taken out of the map.
\<close>

theorem logoff_unsubscribes:
  assumes "sim_reachable P E s" and "distinct (request_headers P)" and "ParseAll P payload = Inr msgs"
    and "m \<in> set msgs" and "msg_header m = HeaderLANLogoff P"
  shows "client_flags (handlePacket P E s remote payload) remote = None \<and>
    (\<forall>flag. \<not> subscribed (handlePacket P E s remote payload) flag remote)"
  using logoff_packet [OF sim_reachable_inv [OF assms(1)] assms(2-5)] by (simp add: subscribed_def)

theorem logoff_unsubscribes_witness:
  "client_flags (handlePacket example_protocol example_env (new_server 0) ''1.2.3.4:5''
     [4, 0, 0x30, 0, 8, 0, 0x50, 0, 1, 0, 0, 0]) ''1.2.3.4:5'' = None"
proof -
  let ?P = example_protocol and ?m = "\<lparr>msg_header = HeaderLANLogoff example_protocol, msg_data = []\<rparr>"
  have p: "ParseAll ?P [4, 0, 0x30, 0, 8, 0, 0x50, 0, 1, 0, 0, 0] =
      Inr [?m, \<lparr>msg_header = HeaderLANSetBroadcastFlags ?P, msg_data = le32 1\<rparr>]" by code_simp
  show ?thesis
    using logoff_unsubscribes [OF new_server_reachable example_headers p, of ?m] by simp
qed

text \<open>
  Switching track power through the control plane or with a LAN_X request. The request
  reports a change exactly when the state differs, leaves the power as asked, and only then
  sends: the power message with the new status to the XpressNet subscribers, without the client
  that made the request, and the new system state to all its subscribers. A LAN_X request is
  answered either way with the power message.
\<close>

theorem track_power_notifies:
  assumes "sim_reachable P E s" and "env_laws E"
    and "MarshalAll P [trackPowerBCReply P on, xStatusReply P (s\<lparr>sv_track_power := on\<rparr>)] = Inr o1"
    and "MarshalAll P [systemStateReply P (s\<lparr>sv_track_power := on\<rparr>)] = Inr o2"
  shows "\<exists>a1 a2.
    distinct a1 \<and> set a1 = {k. subscribed s (BroadcastFlagXpressNet P) k} \<and>
    distinct a2 \<and> set a2 = {k. subscribed s (BroadcastFlagSystemState P) k} \<and>
    (let after = (\<lambda>a. if sv_track_power s = on then s
        else s\<lparr>sv_track_power := on,
               sv_sent := sv_sent s @ map (\<lambda>k. (k, o1)) a @ map (\<lambda>k. (k, o2)) a2\<rparr>)
     in SetTrackPowerAndNotify P E s on = (after a1, sv_track_power s \<noteq> on) \<and>
        handleLANX P E s remote [0x21, if on then 0x81 else 0x80] =
          (after (filter (\<lambda>k. k \<noteq> remote) a1), Some (trackPowerBCReply P on)))"
proof -
  let ?s = "s\<lparr>sv_track_power := on\<rparr>"
  let ?a1 = "subscriberAddrs E s (BroadcastFlagXpressNet P)"
  let ?a2 = "subscriberAddrs E s (BroadcastFlagSystemState P)"
  note r = subscriberAddrs_exact [OF sim_reachable_inv [OF assms(1)] assms(2)]
  have n: "notifyTrackPowerChange P E ?s on req =
      s\<lparr>sv_track_power := on, sv_sent := sv_sent s @
        map (\<lambda>k. (k, o1)) (filter (\<lambda>k. req \<noteq> Some k) ?a1) @ map (\<lambda>k. (k, o2)) ?a2\<rparr>" for req
  proof -
    have "systemStateReply P (?s\<lparr>sv_sent := x\<rparr>) = systemStateReply P ?s" for x
      by (simp add: systemStateReply_def encodeSystemState_def centralState_def)
    moreover have "recipients E ?s f q = filter (\<lambda>k. q \<noteq> Some k) (subscriberAddrs E s f)"
      "recipients E (?s\<lparr>sv_sent := x\<rparr>) f q = filter (\<lambda>k. q \<noteq> Some k) (subscriberAddrs E s f)" for x f q
      by (auto simp: recipients_def subscriberAddrs_def intro!: filter_cong)
    ultimately show ?thesis
      using assms(3,4) by (simp add: notifyTrackPowerChange_def broadcast_def broadcastMany_eq Let_def)
  qed
  have "filter (\<lambda>k. Some remote \<noteq> Some k) ?a1 = filter (\<lambda>k. k \<noteq> remote) ?a1"
    by (rule filter_cong) auto
  then have "handleLANX P E s remote [0x21, if on then 0x81 else 0x80] =
      (if sv_track_power s = on then s else s\<lparr>sv_track_power := on, sv_sent := sv_sent s @
         map (\<lambda>k. (k, o1)) (filter (\<lambda>k. k \<noteq> remote) ?a1) @ map (\<lambda>k. (k, o2)) ?a2\<rparr>,
       Some (trackPowerBCReply P on))"
    using n [of "Some remote"]
    by (cases on) (simp_all add: handleLANX_def Let_def setTrackPower_def xHeaderGetVersion_def
        xCommandGetFirmware_def xCommandGetStatus_def xCommandSetTrackPowerOff_def xCommandSetTrackPowerOn_def)
  moreover have "SetTrackPowerAndNotify P E s on =
      (if sv_track_power s = on then s else s\<lparr>sv_track_power := on, sv_sent := sv_sent s @
         map (\<lambda>k. (k, o1)) ?a1 @ map (\<lambda>k. (k, o2)) ?a2\<rparr>, sv_track_power s \<noteq> on)"
    using n [of None] by (simp add: SetTrackPowerAndNotify_def setTrackPower_def)
  ultimately show ?thesis
    using r by (intro exI [of _ ?a1] exI [of _ ?a2]) (simp add: Let_def)
qed

theorem track_power_notifies_witness:
  "sv_track_power (fst (SetTrackPowerAndNotify example_protocol example_env example_server False)) = False \<and>
   snd (SetTrackPowerAndNotify example_protocol example_env example_server False)"
proof -
  have t: "sv_track_power example_server" by code_simp
  let ?m = "\<lambda>ms. concat (map frame ms)"
  have m: "MarshalAll example_protocol ms = Inr (?m ms)" for ms by (simp add: example_protocol_def)
  show ?thesis
    using track_power_notifies [OF example_server_reachable example_env_laws m m, of False "''c''"] t
    by (auto simp: Let_def)
qed

text \<open>
  Every LAN_X message the simulator builds carries a valid checksum: the bytes of its data,
  the last one included, combine to zero under exclusive or, and the payload before it is
  unchanged.
\<close>

theorem lanx_checksum:
  "(\<forall>data. appendLANXXOR data \<noteq> [] \<and> butlast (appendLANXXOR data) = data \<and>
      fold (\<lambda>b x. x XOR b) (appendLANXXOR data) 0 = 0) \<and>
   (\<forall>s' m. handleLANX P E s remote d = (s', Some m) \<longrightarrow>
      msg_header m = HeaderLANX P \<and> fold (\<lambda>b x. x XOR b) (msg_data m) 0 = 0)"
proof (intro conjI allI impI)
  fix data :: bytes
  show "appendLANXXOR data \<noteq> []" "butlast (appendLANXXOR data) = data" by (simp_all add: appendLANXXOR_def)
  show "fold (\<lambda>b x. x XOR b) (appendLANXXOR data) 0 = 0" by (rule appendLANXXOR_zero)
next
  fix s' m assume h: "handleLANX P E s remote d = (s', Some m)"
  have "m \<in> {xFirmwareReply P, xStatusReply P s, trackPowerBCReply P True, trackPowerBCReply P False}"
    using h by (auto simp: handleLANX_def Let_def split: if_splits prod.splits)
  then show "msg_header m = HeaderLANX P" "fold (\<lambda>b x. x XOR b) (msg_data m) 0 = 0"
    by (auto simp: xFirmwareReply_def xStatusReply_def trackPowerBCReply_def appendLANXXOR_zero)
qed

theorem lanx_checksum_witness:
  "fold (\<lambda>b x. x XOR b) [0x62, 0x22, 0, 0x40] (0 :: u8) = 0 \<and>
   snd (handleLANX example_protocol example_env (new_server 0) ''c'' [0x21, 0x24]) =
     Some \<lparr>msg_header = 0x40, msg_data = [0x62, 0x22, 0, 0x40]\<rparr>"
proof -
  have h: "handleLANX example_protocol example_env (new_server 0) ''c'' [0x21, 0x24] =
      (new_server 0, Some \<lparr>msg_header = 0x40, msg_data = [0x62, 0x22, 0, 0x40]\<rparr>)"
    by (simp add: handleLANX_def xStatusReply_def appendLANXXOR_def centralState_def new_server_def
        example_protocol_def xHeaderGetVersion_def xCommandGetFirmware_def xCommandGetStatus_def
        xHeaderStatusReply_def xStatusDB0_def Let_def)
  show ?thesis
    using lanx_checksum [of example_protocol example_env "new_server 0" "''c''" "[0x21, 0x24]"] h
    by (metis snd_conv message.select_convs(2))
qed

text \<open>
  Polling the detectors reports the registry. Asked for one network id, the simulator
  reports every port of that detector; asked for all, exactly the ports of all detectors.
  Report \<open>i\<close> of a detector has ten bytes with its network id, its module address, the port
  number \<open>i\<close> reduced to one byte, and the port's occupancy.
\<close>

theorem detector_poll_reports:
  assumes "sim_reachable P E s" and "env_laws E"
  shows "(\<forall>n d. n \<noteq> CANDetectorPollAll P \<longrightarrow> canDevice s n = Some d \<longrightarrow> cd_kind d = CANDeviceDetector \<longrightarrow>
      handleCANDetectorPoll P E s (0 # le16 n) = Some (detectorReports P d)) \<and>
    (\<exists>rs. handleCANDetectorPoll P E s (0 # le16 (CANDetectorPollAll P)) = Some rs \<and>
      (\<forall>m. m \<in> set rs \<longleftrightarrow> (\<exists>n d. canDevice s n = Some d \<and> cd_kind d = CANDeviceDetector \<and>
         m \<in> set (detectorReports P d)))) \<and>
    (\<forall>n d i. canDevice s n = Some d \<longrightarrow> i < length (cd_ports d) \<longrightarrow>
      (let data = msg_data (detectorReports P d ! i) in
         length data = 10 \<and> get_le16 data = n \<and> get_le16 (drop 2 data) = cd_module_addr d \<and>
         data ! 4 = word_of_nat i \<and> get_le16 (drop 6 data) = cd_ports d ! i))"
proof -
  have ok: "devices_ok s" using sim_reachable_inv [OF assms(1)] by (simp add: sim_inv_def)
  then have wf: "gm_wf (sv_devices s)" by (simp add: devices_ok_def)
  have id: "get_le16 (drop (Suc 0) (0 # le16 n)) = n" for n using get_le16_le16 [of n "[]"] by simp
  have one: "handleCANDetectorPoll P E s (0 # le16 n) = Some (detectorReports P d)"
    if "n \<noteq> CANDetectorPollAll P" "canDevice s n = Some d" "cd_kind d = CANDeviceDetector" for n d
    using that get_le16_le16 [of n "[]"] by (simp add: handleCANDetectorPoll_def Let_def)
  have dev: "set (detectorDevices E s) = {d. cd_kind d = CANDeviceDetector \<and> (\<exists>n. canDevice s n = Some d)}"
  proof -
    have "set (DeviceOrder E (sv_devices s)) = set (sv_devices s)"
      using assms(2) by (metis env_laws_def mset_eq_setD)
    then show ?thesis
      by (force simp: detectorDevices_def canDevice_def gm_get_in [OF wf] image_iff)
  qed
  have all: "\<exists>rs. handleCANDetectorPoll P E s (0 # le16 (CANDetectorPollAll P)) = Some rs \<and>
      (\<forall>m. m \<in> set rs \<longleftrightarrow> (\<exists>n d. canDevice s n = Some d \<and> cd_kind d = CANDeviceDetector \<and>
         m \<in> set (detectorReports P d)))"
  proof (intro exI conjI)
    show "handleCANDetectorPoll P E s (0 # le16 (CANDetectorPollAll P)) =
        Some (concat (map (detectorReports P) (detectorDevices E s)))"
      using get_le16_le16 [of "CANDetectorPollAll P" "[]"] by (simp add: handleCANDetectorPoll_def Let_def)
  qed (auto simp: dev)
  have report: "let data = msg_data (detectorReports P d ! i) in
      length data = 10 \<and> get_le16 data = n \<and> get_le16 (drop 2 data) = cd_module_addr d \<and>
      data ! 4 = word_of_nat i \<and> get_le16 (drop 6 data) = cd_ports d ! i"
    if "canDevice s n = Some d" "i < length (cd_ports d)" for n d i
  proof -
    have "cd_net_id d = n" using ok that(1) by (simp add: devices_ok_def device_ok_def canDevice_def)
    then show ?thesis using that(2) by (simp add: detectorReports_nth Let_def nth_append)
  qed
  show ?thesis using one all report by blast
qed

theorem detector_poll_reports_witness:
  "handleCANDetectorPoll example_protocol example_env
     (sim_step example_protocol example_env (new_server 0)
        (CallNotify (Some \<lparr>nr_net_id = 0xDB04, nr_kind = 1, nr_name = ''d'', nr_module_addr = 7,
                          nr_port_count = 2, nr_output_port = 0\<rparr>)))
     [0, 0x04, 0xDB] =
   Some [\<lparr>msg_header = 0xC4, msg_data = [0x04, 0xDB, 7, 0, 0, 1, 0, 1, 0, 0]\<rparr>,
         \<lparr>msg_header = 0xC4, msg_data = [0x04, 0xDB, 7, 0, 1, 1, 0, 1, 0, 0]\<rparr>]"
proof -
  let ?s = "sim_step example_protocol example_env (new_server 0)
        (CallNotify (Some \<lparr>nr_net_id = 0xDB04, nr_kind = 1, nr_name = ''d'', nr_module_addr = 7,
                          nr_port_count = 2, nr_output_port = 0\<rparr>))"
  let ?d = "newDetectorDevice 0xDB04 ''d'' 7 2"
  have r: "sim_reachable example_protocol example_env ?s"
    by (rule sim_reachable_step [OF new_server_reachable])
  have d: "canDevice ?s 0xDB04 = Some ?d" "cd_kind ?d = CANDeviceDetector"
    "(0xDB04 :: u16) \<noteq> CANDetectorPollAll example_protocol"
    "0 # le16 0xDB04 = [0, 0x04, 0xDB]" by code_simp+
  have "handleCANDetectorPoll example_protocol example_env ?s (0 # le16 0xDB04) =
      Some (detectorReports example_protocol ?d)"
    using detector_poll_reports [OF r example_env_laws] d(1-3) by blast
  moreover have "detectorReports example_protocol ?d =
     [\<lparr>msg_header = 0xC4, msg_data = [0x04, 0xDB, 7, 0, 0, 1, 0, 1, 0, 0]\<rparr>,
      \<lparr>msg_header = 0xC4, msg_data = [0x04, 0xDB, 7, 0, 1, 1, 0, 1, 0, 0]\<rparr>]" by code_simp
  ultimately show ?thesis by (simp only: d(4))
qed

text \<open>
  A description that is set is read back. Setting a name without zero bytes that fits,
  then asking for it, gives the message with that network id and that name; the device keeps
  everything but its name, and the other devices are untouched.
\<close>

theorem description_roundtrip:
  assumes "CHR 0x00 \<notin> set name" and "length name \<le> CANBoosterNameLen P"
    and "handleCANDeviceSetDescription P s (encodeCANDeviceDescription P n name) = (s1, r)"
  shows "r = Some [] \<and>
    (\<exists>data. handleCANDeviceGetDescription P s1 (le16 n) =
        Some [\<lparr>msg_header = HeaderLANCANDeviceGetDescription P, msg_data = data\<rparr>] \<and>
      get_le16 data = n \<and> parseCANDeviceName (drop 2 data) = name) \<and>
    (\<forall>k. k \<noteq> n \<longrightarrow> canDevice s1 k = canDevice s k) \<and>
    (\<forall>d. canDevice s n = Some d \<longrightarrow> canDevice s1 n = Some (d\<lparr>cd_name := name\<rparr>))"
proof -
  have p: "parseCANDeviceName (copy_padded (CANBoosterNameLen P) (str_bytes name)) = name"
    by (rule parse_padded_name [OF assms(1,2)])
  obtain d' where s1: "s1 = put_device s n d'" "r = Some []" "cd_name d' = name"
    "\<forall>d. gm_get (sv_devices s) n = Some d \<longrightarrow> d' = d\<lparr>cd_name := name\<rparr>"
    using assms(3) p by (auto simp: handleCANDeviceSetDescription_def encodeCANDeviceDescription_def
        Let_def split: option.splits)
  have "handleCANDeviceGetDescription P s1 (le16 n) =
      Some [\<lparr>msg_header = HeaderLANCANDeviceGetDescription P, msg_data = encodeCANDeviceDescription P n name\<rparr>]"
    using get_le16_le16 [of n "[]"] s1
    by (simp add: handleCANDeviceGetDescription_def canDevice_def put_device_def Let_def)
  then show ?thesis using s1 p
    by (auto simp: encodeCANDeviceDescription_def canDevice_def put_device_def)
qed

theorem description_roundtrip_witness:
  "canDevice (fst (handleCANDeviceSetDescription example_protocol (new_server 0)
     (encodeCANDeviceDescription example_protocol 0xC101 ''yard''))) 5 = None"
proof -
  obtain s1 r where s1: "handleCANDeviceSetDescription example_protocol (new_server 0)
     (encodeCANDeviceDescription example_protocol 0xC101 ''yard'') = (s1, r)" by fastforce
  have n: "length ''yard'' \<le> CANBoosterNameLen example_protocol" by (simp add: example_protocol_def)
  have "canDevice (new_server 0) 5 = None" by code_simp
  then show ?thesis using description_roundtrip [OF _ n s1] s1 by simp
qed

text \<open>
  C40: What \<^verbatim>\<open>BuildCANDevice\<close> accepts and what it truncates. It fails exactly for a network id
  outside 1 to 65535 or a kind that is neither detector nor booster. The network id is kept,
  but the other numbers are reduced to 16 bits before the default replaces a zero: a detector
  asked for 65536 ports gets one.
\<close>

theorem BuildCANDevice_truncates:
  "case BuildCANDevice netID kind name moduleAddr portCount outputPort of
     Inl e \<Rightarrow> netID = 0 \<or> 0xFFFF < netID \<or> kind \<noteq> CANDeviceDetector \<and> kind \<noteq> CANDeviceBooster
   | Inr d \<Rightarrow>
       let low = (\<lambda>w :: u32. if unat w mod 65536 = 0 then 1 else unat w mod 65536) in
       netID \<noteq> 0 \<and> netID \<le> 0xFFFF \<and> unat (cd_net_id d) = unat netID \<and> cd_kind d = kind \<and> cd_name d = name \<and>
       (if kind = CANDeviceDetector
        then length (cd_ports d) = low portCount \<and> unat (cd_module_addr d) = low moduleAddr
        else kind = CANDeviceBooster \<and> cd_ports d = [] \<and> unat (cd_output_port d) = low outputPort)"
proof -
  have u: "unat (ucast w :: u16) = unat w mod 65536" for w :: u32 by (simp add: unsigned_ucast_eq take_bit_eq_mod)
  have z: "(ucast w :: u16) = 0 \<longleftrightarrow> unat w mod 65536 = 0" for w :: u32
    using u [of w] unat_eq_0 [of "ucast w :: u16"] by simp
  have l: "unat netID mod 65536 = unat netID" if "netID \<le> 0xFFFF"
    using that by (simp add: word_le_nat_alt)
  have k: "CANDeviceDetector \<noteq> CANDeviceBooster" by (simp add: CANDeviceDetector_def CANDeviceBooster_def)
  show ?thesis
  proof (cases "netID = 0 \<or> 0xFFFF < netID \<or> kind \<noteq> CANDeviceDetector \<and> kind \<noteq> CANDeviceBooster")
    case True
    then show ?thesis by (auto simp: BuildCANDevice_def)
  next
    case False
    then have n: "netID \<noteq> 0" "netID \<le> 0xFFFF" "\<not> 0xFFFF < netID" by auto
    show ?thesis
      using False n l k
      by (cases "kind = CANDeviceDetector")
        (simp_all add: BuildCANDevice_def newDetectorDevice_def newBoosterDevice_def Let_def u z)
  qed
qed

text \<open>
  The serial number of a simulator always starts with 999: it lies between 999000000 and
  999999999 whatever the clock says, its last six digits are those of the seconds reduced
  to 32 bits, and the arithmetic does not wrap.
\<close>

theorem serial_prefix_999:
  "unat (makeSimulatorSerialNumber t) = 999000000 + nat (t mod 2 ^ 32) mod 1000000 \<and>
   unat (makeSimulatorSerialNumber t) div 1000000 = 999"
proof -
  have m: "unat ((word_of_int t :: u32) mod 1000000) = nat (t mod 2 ^ 32) mod 1000000"
  proof -
    have "unat (word_of_int t :: u32) = nat (t mod 2 ^ LENGTH(32))"
      by (simp only: unat_eq_nat_uint uint_word_of_int)
    then show ?thesis by (simp add: unat_mod_distrib)
  qed
  have "nat (t mod 2 ^ 32) mod 1000000 < 1000000" by simp
  then have "unat (makeSimulatorSerialNumber t) = 999000000 + nat (t mod 2 ^ 32) mod 1000000"
    unfolding makeSimulatorSerialNumber_def simSerialPrefix_def Let_def
    by (subst unat_word_ariths(1)) (simp add: m)
  then show ?thesis by simp
qed

end
