(* ===== verification/Device_Controller.thy ===== *)
theory Device_Controller
  imports Device_Api
begin

text \<open>
  The controller of Z21Device (\<^verbatim>\<open>operators/z21-device/internal/controller/z21device_controller.go\<close>):
  the objects it wants, one definition per function of the reconciler, and \<open>device_Reconcile\<close>.
  The Kubernetes client with its generic calls, \<^verbatim>\<open>controllerutil\<close>, the condition helper, the semantic
  comparison of specifications and \<^verbatim>\<open>net/url\<close> are the parameter \<open>operator_client\<close>; each function
  passes the world \<open>'w\<close> behind the client on. Objects carry the fields the code sets or reads.
  Every call returns the empty \<^verbatim>\<open>ctrl.Result\<close>, so a reconciliation returns its error or none. Logging and the
  registration of watches are left out.

  Lemmas: the objects of one device (labels against selectors, environment, host aliases), the
  phase, and, under the documented behaviour \<open>operator_laws\<close> of the API server, what a
  reconciliation leaves in the cluster.
\<close>

section \<open>Objects\<close>

type_synonym key = "string \<times> string"
type_synonym labels = "(string, string) gomap"

record owner_ref =
  or_kind :: string
  or_name :: string
  or_controller :: bool

record policy_rule =
  pr_groups :: "string list"
  pr_resources :: "string list"
  pr_verbs :: "string list"

record service_account =
  sa_meta :: object_meta

record rbac_role =
  role_meta :: object_meta
  role_owners :: "owner_ref list"
  role_rules :: "policy_rule list"

record rbac_subject =
  sub_kind :: string
  sub_name :: string
  sub_namespace :: string

record role_binding =
  rb_meta :: object_meta
  rb_owners :: "owner_ref list"
  rb_ref_group :: string
  rb_ref_kind :: string
  rb_ref_name :: string
  rb_subjects :: "rbac_subject list"

record service_port =
  sp_name :: string
  sp_port :: i32
  sp_target :: i32
  sp_protocol :: string

record service =
  svc_meta :: object_meta
  svc_type :: string
  svc_selector :: labels
  svc_ports :: "service_port list"

record container_port =
  cp_name :: string
  cp_port :: i32
  cp_protocol :: string

record http_probe =
  hp_path :: string
  hp_port :: string
  hp_initial_delay :: i32
  hp_period :: i32

record container =
  ct_name :: string
  ct_image :: string
  ct_pull_policy :: string
  ct_args :: "string list"
  ct_env :: "(string \<times> string) list"
  ct_ports :: "container_port list"
  ct_liveness :: "http_probe option"
  ct_readiness :: "http_probe option"

record pod_spec =
  pod_account :: string
  pod_host_network :: bool
  pod_node_selector :: labels
  pod_dns_policy :: string
  pod_host_aliases :: "host_alias list"
  pod_containers :: "container list"

record deployment_spec =
  dp_replicas :: "i32 option"
  dp_selector :: labels
  dp_template_labels :: labels
  dp_pod :: pod_spec

record deployment_condition =
  dc_type :: string
  dc_status :: string
  dc_reason :: string

record deployment =
  dep_meta :: object_meta
  dep_spec :: deployment_spec
  dep_ready :: i32
  dep_conditions :: "deployment_condition list"

definition empty_meta :: object_meta where
  "empty_meta =
     \<lparr>om_name = [], om_namespace = [], om_labels = [], om_annotations = [], om_generation = 0,
      om_deleting = False, om_finalizers = []\<rparr>"

definition named_meta :: "string \<Rightarrow> string \<Rightarrow> object_meta" where
  "named_meta ns name = empty_meta\<lparr>om_name := name, om_namespace := ns\<rparr>"

section \<open>The client\<close>

text \<open>
  The calls for one kind of object: \<^verbatim>\<open>Get\<close>, \<^verbatim>\<open>Create\<close>, \<^verbatim>\<open>controllerutil.CreateOrUpdate\<close> with its mutate function,
  and \<^verbatim>\<open>Delete\<close>. The calls that fill in the object they are given return it.
\<close>

record ('w, 'o) resource_client =
  res_get :: "'w \<Rightarrow> key \<Rightarrow> kube_error + 'o"
  res_create :: "'w \<Rightarrow> 'o \<Rightarrow> 'w \<times> (kube_error + 'o)"
  res_apply :: "'w \<Rightarrow> 'o \<Rightarrow> ('o \<Rightarrow> kube_error + 'o) \<Rightarrow> 'w \<times> (kube_error + 'o)"
  res_delete :: "'w \<Rightarrow> key \<Rightarrow> 'w \<times> kube_error option"

record 'w operator_client =
  oc_get_device :: "'w \<Rightarrow> key \<Rightarrow> kube_error + z21device"
  oc_update_device :: "'w \<Rightarrow> z21device \<Rightarrow> 'w \<times> (kube_error + z21device)"
  oc_patch_status :: "'w \<Rightarrow> z21device \<Rightarrow> z21device \<Rightarrow> 'w \<times> kube_error option"
  oc_list_devices :: "'w \<Rightarrow> kube_error + z21device list"
  oc_get_configmap :: "'w \<Rightarrow> key \<Rightarrow> kube_error + (string, string) gomap"
  oc_deployments :: "('w, deployment) resource_client"
  oc_services :: "('w, service) resource_client"
  oc_accounts :: "('w, service_account) resource_client"
  oc_roles :: "('w, rbac_role) resource_client"
  oc_bindings :: "('w, role_binding) resource_client"
  oc_set_owner :: "z21device \<Rightarrow> owner_ref list \<Rightarrow> kube_error + owner_ref list"
  oc_has_finalizer :: "z21device \<Rightarrow> string \<Rightarrow> bool"
  oc_add_finalizer :: "z21device \<Rightarrow> string \<Rightarrow> z21device"
  oc_remove_finalizer :: "z21device \<Rightarrow> string \<Rightarrow> z21device"
  oc_set_condition :: "condition \<Rightarrow> condition list \<Rightarrow> condition list"
  oc_spec_equal :: "deployment_spec \<Rightarrow> deployment_spec \<Rightarrow> bool"
  oc_url :: url_lib

record operator_config =
  GatewayImage :: string
  WorkloadNamespace :: string

text \<open>An error as it comes from the client, wrapped with a text, or of the address.\<close>

datatype op_error = OpKube kube_error | OpWrapped string kube_error | OpAddress address_error

definition is_not_found :: "kube_error \<Rightarrow> bool" where
  "is_not_found e = (case e of KubeNotFound _ \<Rightarrow> True | _ \<Rightarrow> False)"

lemma is_not_found_simps [simp]:
  "is_not_found (KubeNotFound m)" "\<not> is_not_found (KubeAlreadyExists m)" "\<not> is_not_found (KubeError m)"
  by (simp_all add: is_not_found_def)

section \<open>Names and labels\<close>

definition defaultGatewayImage :: string where
  "defaultGatewayImage = ''ghcr.io/trains-io/z21-gateway:latest''"
definition gatewayComponent :: string where "gatewayComponent = ''z21-gateway''"
definition simulatorComponent :: string where "simulatorComponent = ''z21-sim''"

definition workloadNamespace :: "operator_config \<Rightarrow> string" where
  "workloadNamespace r = (if WorkloadNamespace r \<noteq> [] then WorkloadNamespace r else DefaultWorkloadNamespace)"

definition gatewayImage :: "operator_config \<Rightarrow> string" where
  "gatewayImage r = (if GatewayImage r \<noteq> [] then GatewayImage r else defaultGatewayImage)"

definition gatewayDeploymentName :: "z21device \<Rightarrow> string" where
  "gatewayDeploymentName d = ''z21-gateway-'' @ om_name (dev_meta d)"
definition simulatorDeploymentName :: "z21device \<Rightarrow> string" where
  "simulatorDeploymentName d = ''z21-sim-'' @ om_name (dev_meta d)"
definition gatewayServiceAccountName :: "z21device \<Rightarrow> string" where
  "gatewayServiceAccountName d = ''z21-gateway-'' @ om_name (dev_meta d)"
definition gatewayRoleName :: "z21device \<Rightarrow> string" where
  "gatewayRoleName d = ''z21-gateway-'' @ om_name (dev_meta d)"
definition gatewayRoleBindingName :: "z21device \<Rightarrow> string" where
  "gatewayRoleBindingName d = ''z21-gateway-'' @ om_name (dev_meta d)"

definition gatewayLabels :: "z21device \<Rightarrow> labels" where
  "gatewayLabels d =
     [(''app.kubernetes.io/name'', gatewayComponent), (''app.kubernetes.io/instance'', om_name (dev_meta d)),
      (''app.kubernetes.io/managed-by'', ''z21-device-controller''), (''z21.trains.io/device'', om_name (dev_meta d))]"

definition simulatorLabels :: "z21device \<Rightarrow> labels" where
  "simulatorLabels d =
     [(''app.kubernetes.io/name'', simulatorComponent), (''app.kubernetes.io/instance'', om_name (dev_meta d)),
      (''app.kubernetes.io/managed-by'', ''z21-device-controller''), (''z21.trains.io/device'', om_name (dev_meta d))]"

definition simulatorSelector :: "z21device \<Rightarrow> labels" where
  "simulatorSelector d =
     [(''app.kubernetes.io/name'', simulatorComponent), (''app.kubernetes.io/instance'', om_name (dev_meta d))]"

section \<open>The deployments a device wants\<close>

definition desiredSimulatorDeployment :: "z21device \<Rightarrow> runtime_config \<Rightarrow> deployment" where
  "desiredSimulatorDeployment d cfg =
     \<lparr>dep_meta = empty_meta,
      dep_spec =
        \<lparr>dp_replicas = Some 1, dp_selector = simulatorSelector d, dp_template_labels = simulatorLabels d,
         dp_pod =
           \<lparr>pod_account = [], pod_host_network = False, pod_node_selector = [], pod_dns_policy = [],
            pod_host_aliases = [],
            pod_containers =
              [\<lparr>ct_name = simulatorComponent, ct_image = SimulatorImage d, ct_pull_policy = ''IfNotPresent'',
                ct_args = [''-addr'', ''0.0.0.0:'' @ i32_dec DefaultZ21Port,
                           ''-grpc-addr'', ''0.0.0.0:'' @ nat_dec DefaultSimulatorGRPCPort],
                ct_env = (if rc_simulator_trace cfg then [(''Z21_SIM_TRACE'', ''true'')] else []),
                ct_ports = [\<lparr>cp_name = ''z21-udp'', cp_port = DefaultZ21Port, cp_protocol = ''UDP''\<rparr>,
                            \<lparr>cp_name = ''grpc'', cp_port = of_nat DefaultSimulatorGRPCPort, cp_protocol = ''TCP''\<rparr>],
                ct_liveness = None, ct_readiness = None\<rparr>]\<rparr>\<rparr>,
      dep_ready = 0, dep_conditions = []\<rparr>"

fun hasHostAlias :: "host_alias list \<Rightarrow> string \<Rightarrow> bool" where
  "hasHostAlias [] host = False"
| "hasHostAlias (alias # aliases) host =
     (if list_ex (\<lambda>name. equal_fold_ascii name host) (ha_hostnames alias) then True
      else hasHostAlias aliases host)"

definition docker_host :: string where "docker_host = ''host.docker.internal''"

definition gateway_host_aliases :: "z21device \<Rightarrow> host_alias list" where
  "gateway_host_aliases d =
     (let aliases = gw_host_aliases (ds_gateway (dev_spec d)) in
      if be_type (ds_backend (dev_spec d)) = BackendHardware \<and>
         (case be_hardware (ds_backend (dev_spec d)) of
            None \<Rightarrow> False | Some hw \<Rightarrow> equal_fold_ascii (hw_host hw) docker_host) \<and>
         \<not> hasHostAlias aliases docker_host
      then aliases @ [\<lparr>ha_ip = ''172.18.0.1'', ha_hostnames = [docker_host]\<rparr>]
      else aliases)"

definition gateway_env :: "url_lib \<Rightarrow> z21device \<Rightarrow> string \<Rightarrow> runtime_config \<Rightarrow> (string \<times> string) list" where
  "gateway_env U d z21Address cfg =
     [(''Z21_ADDRESS'', z21Address),
      (''NATS_URL'', EnsureNATSURLClusterDNS U (nats_url (ds_nats (dev_spec d)))),
      (''NATS_SUBJECT_PREFIX'', SubjectPrefix d),
      (''Z21_DEVICE_NAME'', om_name (dev_meta d)),
      (''Z21_DEVICE_NAMESPACE'', om_namespace (dev_meta d))] @
     (if rc_gateway_trace cfg then [(''Z21_LOG_MESSAGES'', ''true'')] else [])"

definition desiredGatewayDeployment ::
  "url_lib \<Rightarrow> z21device \<Rightarrow> string \<Rightarrow> string \<Rightarrow> string \<Rightarrow> runtime_config \<Rightarrow> deployment" where
  "desiredGatewayDeployment U d image0 saName z21Address cfg =
     (let gw = ds_gateway (dev_spec d); image = (if gw_image gw \<noteq> [] then gw_image gw else image0) in
      \<lparr>dep_meta = empty_meta,
       dep_spec =
         \<lparr>dp_replicas = Some 1,
          dp_selector = [(''app.kubernetes.io/name'', gatewayComponent),
                         (''app.kubernetes.io/instance'', om_name (dev_meta d))],
          dp_template_labels = gatewayLabels d,
          dp_pod =
            \<lparr>pod_account = saName, pod_host_network = gw_host_network gw,
             pod_node_selector = gw_node_selector gw,
             pod_dns_policy = (if gw_host_network gw then ''ClusterFirstWithHostNet'' else []),
             pod_host_aliases = gateway_host_aliases d,
             pod_containers =
               [\<lparr>ct_name = gatewayComponent, ct_image = image, ct_pull_policy = ''IfNotPresent'',
                 ct_args = [], ct_env = gateway_env U d z21Address cfg,
                 ct_ports = [\<lparr>cp_name = ''health'', cp_port = 8080, cp_protocol = ''TCP''\<rparr>],
                 ct_liveness = Some \<lparr>hp_path = ''/healthz'', hp_port = ''health'', hp_initial_delay = 5, hp_period = 10\<rparr>,
                 ct_readiness = Some \<lparr>hp_path = ''/readyz'', hp_port = ''health'', hp_initial_delay = 2, hp_period = 5\<rparr>\<rparr>]\<rparr>\<rparr>,
       dep_ready = 0, dep_conditions = []\<rparr>)"

section \<open>Phase and conditions\<close>

fun deploymentFailed :: "deployment option \<Rightarrow> bool" where
  "deploymentFailed None = False"
| "deploymentFailed (Some dep) =
     list_ex (\<lambda>c. dc_type c = ''Progressing'' \<and> dc_status c = ''False'' \<and> dc_reason c = ''ProgressDeadlineExceeded'')
       (dep_conditions dep)"

definition deployment_up :: "deployment \<Rightarrow> bool" where
  "deployment_up dep \<longleftrightarrow> 1 \<le>s dep_ready dep"

definition computePhase :: "deployment option \<Rightarrow> deployment option \<Rightarrow> bool \<Rightarrow> string" where
  "computePhase gatewayDeploy simDeploy stopping =
     (if stopping then PhaseStopping
      else if deploymentFailed gatewayDeploy \<or> deploymentFailed simDeploy then PhaseFailed
      else
        (let gatewayReady = (case gatewayDeploy of None \<Rightarrow> False | Some dep \<Rightarrow> deployment_up dep);
             simReady = (case simDeploy of None \<Rightarrow> True | Some dep \<Rightarrow> deployment_up dep)
         in if gatewayReady \<and> simReady then PhaseRunning
            else if gatewayDeploy \<noteq> None \<or> simDeploy \<noteq> None then PhaseStarting
            else PhasePending))"

definition gatewayReadyStatus :: "deployment option \<Rightarrow> string" where
  "gatewayReadyStatus dep =
     (case dep of None \<Rightarrow> ''False'' | Some dep \<Rightarrow> if deployment_up dep then ''True'' else ''False'')"

fun conditionStatus :: "condition list \<Rightarrow> string \<Rightarrow> string" where
  "conditionStatus [] condType = []"
| "conditionStatus (cond # conds) condType =
     (if cond_type cond = condType then cond_status cond else conditionStatus conds condType)"

definition setGatewayReadyCondition :: "'w operator_client \<Rightarrow> z21device \<Rightarrow> string \<Rightarrow> z21device" where
  "setGatewayReadyCondition c d status =
     (let (reason, msg) =
        (if status = ''True''
         then (''GatewayReady'', ''gateway deployment has at least one ready replica'')
         else (''GatewayNotReady'', ''gateway deployment has no ready replicas''))
      in d\<lparr>dev_status := (dev_status d)\<lparr>st_conditions :=
           oc_set_condition c
             \<lparr>cond_type = ConditionGatewayReady, cond_status = status,
              cond_observed_generation = om_generation (dev_meta d), cond_last_transition = 0,
              cond_reason = reason, cond_message = msg\<rparr>
             (st_conditions (dev_status d))\<rparr>\<rparr>)"

record status_input =
  si_gateway :: "deployment option"
  si_simulator :: "deployment option"
  si_service :: string
  si_phase :: string

definition deviceStatusIsCurrent ::
  "z21device \<Rightarrow> status_input \<Rightarrow> string \<Rightarrow> string \<Rightarrow> string \<Rightarrow> bool" where
  "deviceStatusIsCurrent d inp gatewayName simulatorName gatewayReady \<longleftrightarrow>
     st_phase (dev_status d) = si_phase inp \<and>
     st_gateway_deployment (dev_status d) = gatewayName \<and>
     st_simulator_deployment (dev_status d) = simulatorName \<and>
     st_simulator_service (dev_status d) = si_service inp \<and>
     st_observed_generation (dev_status d) = om_generation (dev_meta d) \<and>
     conditionStatus (st_conditions (dev_status d)) ConditionGatewayReady = gatewayReady"

definition deploy_name :: "deployment option \<Rightarrow> string" where
  "deploy_name dep = (case dep of None \<Rightarrow> [] | Some dep \<Rightarrow> om_name (dep_meta dep))"

definition device_key :: "z21device \<Rightarrow> key" where
  "device_key d = (om_namespace (dev_meta d), om_name (dev_meta d))"

definition with_device_status :: "'w operator_client \<Rightarrow> status_input \<Rightarrow> z21device \<Rightarrow> z21device" where
  "with_device_status c inp latest =
     (let d = setGatewayReadyCondition c latest (gatewayReadyStatus (si_gateway inp))
      in d\<lparr>dev_status := (dev_status d)
           \<lparr>st_phase := si_phase inp, st_gateway_deployment := deploy_name (si_gateway inp),
            st_simulator_deployment := deploy_name (si_simulator inp), st_simulator_service := si_service inp,
            st_observed_generation := om_generation (dev_meta d)\<rparr>\<rparr>)"

definition updateStatus ::
  "'w operator_client \<Rightarrow> 'w \<Rightarrow> z21device \<Rightarrow> status_input \<Rightarrow> 'w \<times> op_error option" where
  "updateStatus c w device inp =
     (case oc_get_device c w (device_key device) of
        Inl e \<Rightarrow> (w, Some (OpKube e))
      | Inr latest \<Rightarrow>
          if deviceStatusIsCurrent latest inp (deploy_name (si_gateway inp)) (deploy_name (si_simulator inp))
               (gatewayReadyStatus (si_gateway inp))
          then (w, None)
          else (case oc_patch_status c w latest (with_device_status c inp latest) of
                  (w', None) \<Rightarrow> (w', None)
                | (w', Some e) \<Rightarrow> (w', Some (OpKube e))))"

section \<open>Reconciling the objects\<close>

definition reconcileSimulatorService ::
  "'w operator_client \<Rightarrow> operator_config \<Rightarrow> 'w \<Rightarrow> z21device \<Rightarrow> 'w \<times> (op_error + string)" where
  "reconcileSimulatorService c r w d =
     (let name = SimulatorServiceName (om_name (dev_meta d));
          svc = \<lparr>svc_meta = named_meta (workloadNamespace r) name, svc_type = [], svc_selector = [], svc_ports = []\<rparr>;
          fill = (\<lambda>svc. Inr
            \<lparr>svc_meta = (svc_meta svc)\<lparr>om_labels := simulatorLabels d\<rparr>,
             svc_type = ''ClusterIP'', svc_selector = simulatorSelector d,
             svc_ports =
               [\<lparr>sp_name = ''z21-udp'', sp_port = DefaultZ21Port, sp_target = DefaultZ21Port, sp_protocol = ''UDP''\<rparr>,
                \<lparr>sp_name = ''grpc'', sp_port = of_nat DefaultSimulatorGRPCPort,
                 sp_target = of_nat DefaultSimulatorGRPCPort, sp_protocol = ''TCP''\<rparr>]\<rparr>)
      in case res_apply (oc_services c) w svc fill of
           (w', Inl e) \<Rightarrow> (w', Inl (OpWrapped ''create or update simulator service'' e))
         | (w', Inr _) \<Rightarrow> (w', Inr name))"

text \<open>
  Both deployments are made the same way: created when there is none, left alone when the
  specification is as wanted, and otherwise overwritten. The source has the code twice.
\<close>

definition reconcile_deployment ::
  "'w operator_client \<Rightarrow> 'w \<Rightarrow> deployment \<Rightarrow> string \<Rightarrow> 'w \<times> (op_error + deployment)" where
  "reconcile_deployment c w desired what =
     (let name = om_name (dep_meta desired); ns = om_namespace (dep_meta desired);
          labels = om_labels (dep_meta desired) in
      case res_get (oc_deployments c) w (ns, name) of
        Inl e \<Rightarrow>
          if \<not> is_not_found e then (w, Inl (OpWrapped (''get '' @ what) e))
          else (case res_create (oc_deployments c) w desired of
                  (w', Inl e) \<Rightarrow> (w', Inl (OpWrapped (''create '' @ what) e))
                | (w', Inr dep) \<Rightarrow> (w', Inr dep))
      | Inr dep \<Rightarrow>
          if oc_spec_equal c (dep_spec dep) (dep_spec desired) then (w, Inr dep)
          else (case res_apply (oc_deployments c) w dep
                       (\<lambda>dep. Inr (dep\<lparr>dep_meta := (dep_meta dep)\<lparr>om_labels := labels\<rparr>, dep_spec := dep_spec desired\<rparr>)) of
                  (w', Inl e) \<Rightarrow> (w', Inl (OpWrapped (''create or update '' @ what) e))
                | (w', Inr dep) \<Rightarrow> (w', Inr dep)))"

definition reconcileSimulatorDeployment ::
  "'w operator_client \<Rightarrow> operator_config \<Rightarrow> 'w \<Rightarrow> z21device \<Rightarrow> runtime_config \<Rightarrow> 'w \<times> (op_error + deployment)" where
  "reconcileSimulatorDeployment c r w d cfg =
     (let meta = (named_meta (workloadNamespace r) (simulatorDeploymentName d))\<lparr>om_labels := simulatorLabels d\<rparr>
      in reconcile_deployment c w ((desiredSimulatorDeployment d cfg)\<lparr>dep_meta := meta\<rparr>) ''simulator deployment'')"

text \<open>A deletion, with an object that is already gone taken for success.\<close>

definition delete_resource ::
  "('w, 'o) resource_client \<Rightarrow> 'w \<Rightarrow> key \<Rightarrow> string \<Rightarrow> 'w \<times> op_error option" where
  "delete_resource rc w k what =
     (case res_delete rc w k of
        (w', None) \<Rightarrow> (w', None)
      | (w', Some e) \<Rightarrow> (w', if is_not_found e then None else Some (OpWrapped (''delete '' @ what) e)))"

definition deleteSimulator ::
  "'w operator_client \<Rightarrow> operator_config \<Rightarrow> 'w \<Rightarrow> z21device \<Rightarrow> 'w \<times> op_error option" where
  "deleteSimulator c r w d =
     (case delete_resource (oc_deployments c) w (workloadNamespace r, simulatorDeploymentName d) ''simulator deployment'' of
        (w1, Some e) \<Rightarrow> (w1, Some e)
      | (w1, None) \<Rightarrow>
          delete_resource (oc_services c) w1 (workloadNamespace r, SimulatorServiceName (om_name (dev_meta d)))
            ''simulator service'')"

text \<open>The deployment and the service name, both kept also when there is an error.\<close>

definition reconcileSimulator ::
  "'w operator_client \<Rightarrow> operator_config \<Rightarrow> 'w \<Rightarrow> z21device \<Rightarrow> runtime_config
     \<Rightarrow> 'w \<times> deployment option \<times> string \<times> op_error option" where
  "reconcileSimulator c r w d cfg =
     (if be_type (ds_backend (dev_spec d)) \<noteq> BackendSimulator then
        (case deleteSimulator c r w d of
           (w1, Some e) \<Rightarrow> (w1, None, [], Some e)
         | (w1, None) \<Rightarrow> (w1, None, [], None))
      else
        (case reconcileSimulatorService c r w d of
           (w1, Inl e) \<Rightarrow> (w1, None, [], Some e)
         | (w1, Inr svcName) \<Rightarrow>
             (case reconcileSimulatorDeployment c r w1 d cfg of
                (w2, Inl e) \<Rightarrow> (w2, None, svcName, Some e)
              | (w2, Inr dep) \<Rightarrow> (w2, Some dep, svcName, None))))"

definition reconcileGatewayServiceAccount ::
  "'w operator_client \<Rightarrow> operator_config \<Rightarrow> 'w \<Rightarrow> z21device \<Rightarrow> 'w \<times> (op_error + string)" where
  "reconcileGatewayServiceAccount c r w d =
     (let name = gatewayServiceAccountName d in
      case res_apply (oc_accounts c) w \<lparr>sa_meta = named_meta (workloadNamespace r) name\<rparr>
             (\<lambda>sa. Inr (sa\<lparr>sa_meta := (sa_meta sa)\<lparr>om_labels := gatewayLabels d\<rparr>\<rparr>)) of
        (w', Inl e) \<Rightarrow> (w', Inl (OpWrapped ''create or update service account'' e))
      | (w', Inr _) \<Rightarrow> (w', Inr name))"

definition gateway_rules :: "policy_rule list" where
  "gateway_rules =
     [\<lparr>pr_groups = [''z21.trains.io''], pr_resources = [''candetectors''],
       pr_verbs = [''get'', ''list'', ''watch'', ''create'', ''patch'', ''update'']\<rparr>,
      \<lparr>pr_groups = [''z21.trains.io''], pr_resources = [''candetectors/status''],
       pr_verbs = [''get'', ''patch'', ''update'']\<rparr>,
      \<lparr>pr_groups = [''z21.trains.io''], pr_resources = [''z21devices''], pr_verbs = [''get'']\<rparr>,
      \<lparr>pr_groups = [''z21.trains.io''], pr_resources = [''z21devices/status''],
       pr_verbs = [''get'', ''patch'', ''update'']\<rparr>]"

definition fill_role :: "'w operator_client \<Rightarrow> z21device \<Rightarrow> rbac_role \<Rightarrow> kube_error + rbac_role" where
  "fill_role c d role =
     (case oc_set_owner c d (role_owners role) of
        Inl e \<Rightarrow> Inl e
      | Inr owners \<Rightarrow>
          Inr \<lparr>role_meta = (role_meta role)\<lparr>om_labels := gatewayLabels d\<rparr>, role_owners = owners,
               role_rules = gateway_rules\<rparr>)"

definition fill_binding ::
  "'w operator_client \<Rightarrow> operator_config \<Rightarrow> z21device \<Rightarrow> string \<Rightarrow> role_binding \<Rightarrow> kube_error + role_binding" where
  "fill_binding c r d saName binding =
     (case oc_set_owner c d (rb_owners binding) of
        Inl e \<Rightarrow> Inl e
      | Inr owners \<Rightarrow>
          Inr \<lparr>rb_meta = (rb_meta binding)\<lparr>om_labels := gatewayLabels d\<rparr>, rb_owners = owners,
               rb_ref_group = ''rbac.authorization.k8s.io'', rb_ref_kind = ''Role'', rb_ref_name = gatewayRoleName d,
               rb_subjects = [\<lparr>sub_kind = ''ServiceAccount'', sub_name = saName, sub_namespace = workloadNamespace r\<rparr>]\<rparr>)"

definition reconcileGatewayRBAC ::
  "'w operator_client \<Rightarrow> operator_config \<Rightarrow> 'w \<Rightarrow> z21device \<Rightarrow> string \<Rightarrow> 'w \<times> op_error option" where
  "reconcileGatewayRBAC c r w d saName =
     (let ns = om_namespace (dev_meta d);
          role = \<lparr>role_meta = named_meta ns (gatewayRoleName d), role_owners = [], role_rules = []\<rparr>;
          binding = \<lparr>rb_meta = named_meta ns (gatewayRoleBindingName d), rb_owners = [], rb_ref_group = [],
                     rb_ref_kind = [], rb_ref_name = [], rb_subjects = []\<rparr>
      in case res_apply (oc_roles c) w role (fill_role c d) of
           (w1, Inl e) \<Rightarrow> (w1, Some (OpWrapped ''create or update role'' e))
         | (w1, Inr _) \<Rightarrow>
             (case res_apply (oc_bindings c) w1 binding (fill_binding c r d saName) of
                (w2, Inl e) \<Rightarrow> (w2, Some (OpWrapped ''create or update role binding'' e))
              | (w2, Inr _) \<Rightarrow> (w2, None)))"

definition reconcileGatewayDeployment ::
  "'w operator_client \<Rightarrow> operator_config \<Rightarrow> 'w \<Rightarrow> z21device \<Rightarrow> string \<Rightarrow> runtime_config
     \<Rightarrow> 'w \<times> (op_error + deployment)" where
  "reconcileGatewayDeployment c r w d saName cfg =
     (case Z21Address d of
        Inl e \<Rightarrow> (w, Inl (OpAddress e))
      | Inr z21Address \<Rightarrow>
          (let meta = (named_meta (workloadNamespace r) (gatewayDeploymentName d))\<lparr>om_labels := gatewayLabels d\<rparr>;
               desired = desiredGatewayDeployment (oc_url c) d (gatewayImage r) saName z21Address cfg
           in reconcile_deployment c w (desired\<lparr>dep_meta := meta\<rparr>) ''deployment''))"

definition deleteGateway ::
  "'w operator_client \<Rightarrow> operator_config \<Rightarrow> 'w \<Rightarrow> z21device \<Rightarrow> 'w \<times> op_error option" where
  "deleteGateway c r w d =
     (case delete_resource (oc_deployments c) w (workloadNamespace r, gatewayDeploymentName d) ''gateway deployment'' of
        (w1, Some e) \<Rightarrow> (w1, Some e)
      | (w1, None) \<Rightarrow>
          delete_resource (oc_accounts c) w1 (workloadNamespace r, gatewayServiceAccountName d) ''gateway service account'')"

definition loadRuntimeConfig :: "'w operator_client \<Rightarrow> operator_config \<Rightarrow> 'w \<Rightarrow> runtime_config" where
  "loadRuntimeConfig c r w =
     (case oc_get_configmap c w (workloadNamespace r, ELPConfigMapName) of
        Inl e \<Rightarrow> \<lparr>rc_gateway_trace = False, rc_simulator_trace = False\<rparr>
      | Inr data \<Rightarrow> FromConfigMap data)"

definition mapELPConfigToDevices :: "'w operator_client \<Rightarrow> 'w \<Rightarrow> key list" where
  "mapELPConfigToDevices c w =
     (case oc_list_devices c w of Inl e \<Rightarrow> [] | Inr devices \<Rightarrow> map device_key devices)"

text \<open>The only ConfigMap whose changes the watch passes on to \<open>mapELPConfigToDevices\<close>.\<close>

definition elp_config_watched :: "operator_config \<Rightarrow> string \<Rightarrow> string \<Rightarrow> bool" where
  "elp_config_watched r ns name \<longleftrightarrow> ns = workloadNamespace r \<and> name = ELPConfigMapName"

section \<open>Reconcile\<close>

definition reconcileDelete ::
  "'w operator_client \<Rightarrow> operator_config \<Rightarrow> 'w \<Rightarrow> z21device \<Rightarrow> 'w \<times> op_error option" where
  "reconcileDelete c r w d =
     (case updateStatus c w d \<lparr>si_gateway = None, si_simulator = None, si_service = [], si_phase = PhaseStopping\<rparr> of
        (w1, Some e) \<Rightarrow> (w1, Some e)
      | (w1, None) \<Rightarrow>
      (case deleteGateway c r w1 d of
        (w2, Some e) \<Rightarrow> (w2, Some e)
      | (w2, None) \<Rightarrow>
      (case deleteSimulator c r w2 d of
        (w3, Some e) \<Rightarrow> (w3, Some e)
      | (w3, None) \<Rightarrow>
      (case oc_get_device c w3 (device_key d) of
        Inl e \<Rightarrow> (w3, Some (OpKube e))
      | Inr latest \<Rightarrow>
      (case oc_update_device c w3 (oc_remove_finalizer c latest DeviceFinalizerName) of
        (w4, Inl e) \<Rightarrow> (w4, Some (OpKube e))
      | (w4, Inr _) \<Rightarrow> (w4, None))))))"

definition reconcile_workloads ::
  "'w operator_client \<Rightarrow> operator_config \<Rightarrow> 'w \<Rightarrow> z21device \<Rightarrow> 'w \<times> status_input" where
  "reconcile_workloads c r w d =
     (let cfg = loadRuntimeConfig c r w;
          failed = \<lparr>si_gateway = None, si_simulator = None, si_service = [], si_phase = PhaseFailed\<rparr> in
      case reconcileGatewayServiceAccount c r w d of
        (w1, Inl e) \<Rightarrow> (w1, failed)
      | (w1, Inr saName) \<Rightarrow>
      (case reconcileGatewayRBAC c r w1 d saName of
        (w2, Some e) \<Rightarrow> (w2, failed)
      | (w2, None) \<Rightarrow>
      (case reconcileSimulator c r w2 d cfg of
        (w3, simDeploy, simService, Some e) \<Rightarrow>
          (w3, failed\<lparr>si_simulator := simDeploy, si_service := simService\<rparr>)
      | (w3, simDeploy, simService, None) \<Rightarrow>
      (case reconcileGatewayDeployment c r w3 d saName cfg of
        (w4, Inl e) \<Rightarrow> (w4, failed\<lparr>si_simulator := simDeploy, si_service := simService\<rparr>)
      | (w4, Inr dep) \<Rightarrow>
          (w4, \<lparr>si_gateway = Some dep, si_simulator = simDeploy, si_service = simService,
                si_phase = computePhase (Some dep) simDeploy False\<rparr>)))))"

definition device_Reconcile ::
  "'w operator_client \<Rightarrow> operator_config \<Rightarrow> 'w \<Rightarrow> key \<Rightarrow> 'w \<times> op_error option" where
  "device_Reconcile c r w req =
     (case oc_get_device c w req of
        Inl e \<Rightarrow> (w, if is_not_found e then None else Some (OpKube e))
      | Inr d \<Rightarrow>
          if \<not> oc_has_finalizer c d DeviceFinalizerName then
            (case oc_update_device c w (oc_add_finalizer c d DeviceFinalizerName) of
               (w1, Inl e) \<Rightarrow> (w1, Some (OpKube e))
             | (w1, Inr _) \<Rightarrow> (w1, None))
          else if om_deleting (dev_meta d) then reconcileDelete c r w d
          else (case reconcile_workloads c r w d of (w1, inp) \<Rightarrow> updateStatus c w1 d inp))"

section \<open>The objects of a device\<close>

text \<open>A selector takes the pods whose labels contain all its entries.\<close>

definition selects :: "labels \<Rightarrow> labels \<Rightarrow> bool" where
  "selects sel ls \<longleftrightarrow> (\<forall>(k, v) \<in> set sel. gm_get ls k = Some v)"

lemma selects_Nil [simp]: "selects [] ls" by (simp add: selects_def)
lemma selects_Cons [simp]: "selects ((k, v) # sel) ls \<longleftrightarrow> gm_get ls k = Some v \<and> selects sel ls"
  by (simp add: selects_def)

lemma label_get:
  "gm_get (gatewayLabels d) ''app.kubernetes.io/name'' = Some gatewayComponent"
  "gm_get (gatewayLabels d) ''app.kubernetes.io/instance'' = Some (om_name (dev_meta d))"
  "gm_get (simulatorLabels d) ''app.kubernetes.io/name'' = Some simulatorComponent"
  "gm_get (simulatorLabels d) ''app.kubernetes.io/instance'' = Some (om_name (dev_meta d))"
  by (simp_all add: gatewayLabels_def simulatorLabels_def gm_get_def)

lemma components_differ [simp]: "gatewayComponent \<noteq> simulatorComponent" "simulatorComponent \<noteq> gatewayComponent"
  by (simp_all add: gatewayComponent_def simulatorComponent_def)

text \<open>
  The label selectors of the workloads are right: the gateway deployment, the simulator
  deployment and the simulator Service each select the pods of the deployment of the same
  component of every device of the same name, and no other pods; no selector takes pods of
  the other component.
\<close>

theorem selectors_select_own_pods:
  "let gw = \<lambda>x. dep_spec (desiredGatewayDeployment U x img sa addr cfg);
       sim = \<lambda>x. dep_spec (desiredSimulatorDeployment x cfg);
       same = (om_name (dev_meta d) = om_name (dev_meta e)) in
   selects (dp_selector (gw d)) (dp_template_labels (gw e)) = same \<and>
   selects (dp_selector (sim d)) (dp_template_labels (sim e)) = same \<and>
   selects (simulatorSelector d) (dp_template_labels (sim e)) = same \<and>
   \<not> selects (dp_selector (gw d)) (dp_template_labels (sim e)) \<and>
   \<not> selects (dp_selector (sim d)) (dp_template_labels (gw e)) \<and>
   \<not> selects (simulatorSelector d) (dp_template_labels (gw e))"
  by (auto simp: Let_def desiredGatewayDeployment_def desiredSimulatorDeployment_def simulatorSelector_def label_get)

text \<open>
  The phase of a device: \<open>Failed\<close> as soon as a rollout of one of its deployments has run
  out of time; otherwise \<open>Running\<close> iff the gateway and, when there is a simulator, the
  simulator have a ready replica; otherwise \<open>Starting\<close> as long as there is any deployment, and
  \<open>Pending\<close> only without one.
\<close>

theorem computePhase_cases:
  "let failed = (\<lambda>dep. \<exists>x c. dep = Some x \<and> c \<in> set (dep_conditions x) \<and> dc_type c = ''Progressing'' \<and>
         dc_status c = ''False'' \<and> dc_reason c = ''ProgressDeadlineExceeded'');
       up = (\<lambda>dep. \<exists>x. dep = Some x \<and> 1 \<le> sint (dep_ready x)); phase = computePhase gw sim False in
   (phase = PhaseFailed \<longleftrightarrow> failed gw \<or> failed sim) \<and>
   (phase = PhaseRunning \<longleftrightarrow> \<not> failed gw \<and> \<not> failed sim \<and> up gw \<and> (sim = None \<or> up sim)) \<and>
   (phase = PhasePending \<longleftrightarrow> gw = None \<and> sim = None) \<and>
   phase \<in> {PhaseFailed, PhaseRunning, PhaseStarting, PhasePending}"
proof -
  have f: "deploymentFailed dep \<longleftrightarrow> (\<exists>x c. dep = Some x \<and> c \<in> set (dep_conditions x) \<and> dc_type c = ''Progressing'' \<and>
         dc_status c = ''False'' \<and> dc_reason c = ''ProgressDeadlineExceeded'')" for dep
    by (cases dep) (auto simp: list_ex_iff)
  show ?thesis
    unfolding Let_def f [symmetric]
    by (cases gw; cases sim) (auto simp: computePhase_def deployment_up_def word_sle_eq elp_consts
      PhaseFailed_def PhaseRunning_def PhaseStarting_def PhasePending_def)
qed

lemma hasHostAlias_iff:
  "hasHostAlias aliases host \<longleftrightarrow> (\<exists>a \<in> set aliases. \<exists>n \<in> set (ha_hostnames a). equal_fold_ascii n host)"
  by (induction aliases) (auto simp: list_ex_iff)

text \<open>
  The host aliases of the gateway pod are those of the device, with an alias for
  \<open>host.docker.internal\<close> after them exactly when the hardware backend dials that name (in any
  case of letters) and no given alias has it; so a gateway that dials the name always
  resolves it, and a given alias always wins.
\<close>

theorem gateway_aliases:
  "let be = ds_backend (dev_spec d); given = gw_host_aliases (ds_gateway (dev_spec d));
       result = pod_host_aliases (dp_pod (dep_spec (desiredGatewayDeployment U d img sa addr cfg)));
       dials = (\<exists>hw. be_type be = BackendHardware \<and> be_hardware be = Some hw \<and> equal_fold_ascii (hw_host hw) docker_host) in
   take (length given) result = given \<and>
   (dials \<longrightarrow> hasHostAlias result docker_host) \<and>
   (\<not> dials \<or> hasHostAlias given docker_host \<longrightarrow> result = given) \<and>
   (result \<noteq> given \<longrightarrow> drop (length given) result = [\<lparr>ha_ip = ''172.18.0.1'', ha_hostnames = [docker_host]\<rparr>])"
proof -
  have self: "equal_fold_ascii docker_host docker_host" by code_simp
  have r: "pod_host_aliases (dp_pod (dep_spec (desiredGatewayDeployment U d img sa addr cfg))) = gateway_host_aliases d"
    by (simp add: desiredGatewayDeployment_def Let_def)
  show ?thesis
    unfolding r using self
    by (auto simp: gateway_host_aliases_def Let_def hasHostAlias_iff split: option.splits)
qed

definition example_docker :: z21device where
  "example_docker = example_hardware\<lparr>dev_spec := (dev_spec example_hardware)
     \<lparr>ds_backend := \<lparr>be_type = ''hardware'', be_hardware = Some \<lparr>hw_host = ''Host.Docker.Internal'', hw_port = 0\<rparr>,
        be_simulator = None\<rparr>\<rparr>\<rparr>"

definition example_url :: url_lib where
  "example_url = \<lparr>url_parse = (\<lambda>raw. None), url_set_host = (\<lambda>raw host. raw)\<rparr>"

definition quiet_config :: runtime_config where
  "quiet_config = \<lparr>rc_gateway_trace = False, rc_simulator_trace = False\<rparr>"

theorem gateway_aliases_witness:
  "hasHostAlias (pod_host_aliases (dp_pod (dep_spec (desiredGatewayDeployment example_url example_docker [] [] [] quiet_config)))) docker_host"
proof -
  have "equal_fold_ascii ''Host.Docker.Internal'' docker_host" by code_simp
  then show ?thesis
    using gateway_aliases [of example_docker example_url "[]" "[]" "[]" quiet_config]
    by (simp add: Let_def example_docker_def example_device_defs BackendHardware_def)
qed

section \<open>The API server\<close>

text \<open>
  What the controller sees of the cluster, and the documented behaviour of the client over it.
  For one kind of object with its store \<open>sel\<close>, changed by \<open>upd\<close>: a read gives what is stored;
  a deletion removes the object, also when it says it was not there; \<open>Create\<close> and
  \<open>CreateOrUpdate\<close> store an object under the same key whose content \<open>obs\<close> is the one sent,
  where the content leaves out what the server fills in; a call that fails may have
  changed the object it was about, and nothing else.
\<close>

record cluster =
  cl_devices :: "key \<Rightarrow> z21device option"
  cl_deployments :: "key \<Rightarrow> deployment option"
  cl_services :: "key \<Rightarrow> service option"
  cl_accounts :: "key \<Rightarrow> service_account option"
  cl_roles :: "key \<Rightarrow> rbac_role option"
  cl_bindings :: "key \<Rightarrow> role_binding option"

definition meta_key :: "object_meta \<Rightarrow> key" where
  "meta_key m = (om_namespace m, om_name m)"

lemma meta_key_named [simp]: "meta_key (named_meta ns n) = (ns, n)" "meta_key (m\<lparr>om_labels := l\<rparr>) = meta_key m"
  by (simp_all add: meta_key_def named_meta_def)

definition res_reads ::
  "('w, 'o) resource_client \<Rightarrow> ('w \<Rightarrow> key \<Rightarrow> 'o option) \<Rightarrow> ('o \<Rightarrow> object_meta) \<Rightarrow> bool" where
  "res_reads rc sel meta \<longleftrightarrow>
     (\<forall>w k. case res_get rc w k of Inr x \<Rightarrow> sel w k = Some x \<and> meta_key (meta x) = k | Inl e \<Rightarrow> is_not_found e \<longrightarrow> sel w k = None)"

definition res_deletes ::
  "('w, 'o) resource_client \<Rightarrow> ('w \<Rightarrow> cluster) \<Rightarrow> (((key \<Rightarrow> 'o option) \<Rightarrow> key \<Rightarrow> 'o option) \<Rightarrow> cluster \<Rightarrow> cluster) \<Rightarrow> bool" where
  "res_deletes rc view upd \<longleftrightarrow>
     (\<forall>w k. let (w', r) = res_delete rc w k; gone = upd (\<lambda>m. m(k := None)) (view w) in
        (case r of None \<Rightarrow> view w' = gone
         | Some e \<Rightarrow> if is_not_found e then view w' = gone else view w' \<in> {view w, gone}))"

definition res_stores ::
  "('w \<Rightarrow> cluster) \<Rightarrow> (((key \<Rightarrow> 'o option) \<Rightarrow> key \<Rightarrow> 'o option) \<Rightarrow> cluster \<Rightarrow> cluster) \<Rightarrow> ('o \<Rightarrow> object_meta) \<Rightarrow> ('o \<Rightarrow> 'c)
     \<Rightarrow> 'w \<Rightarrow> key \<Rightarrow> ('o \<Rightarrow> bool) \<Rightarrow> 'w \<times> (kube_error + 'o) \<Rightarrow> bool" where
  "res_stores view upd meta obs w k good res =
     (case res of
        (w', Inl e) \<Rightarrow> \<exists>x. view w' = upd (\<lambda>m. m(k := x)) (view w)
      | (w', Inr x) \<Rightarrow> good x \<and> meta_key (meta x) = k \<and> view w' = upd (\<lambda>m. m(k \<mapsto> x)) (view w))"

definition res_writes ::
  "('w, 'o) resource_client \<Rightarrow> ('w \<Rightarrow> cluster) \<Rightarrow> (cluster \<Rightarrow> key \<Rightarrow> 'o option) \<Rightarrow>
   (((key \<Rightarrow> 'o option) \<Rightarrow> key \<Rightarrow> 'o option) \<Rightarrow> cluster \<Rightarrow> cluster) \<Rightarrow> ('o \<Rightarrow> object_meta) \<Rightarrow> ('o \<Rightarrow> 'c) \<Rightarrow> bool" where
  "res_writes rc view sel upd meta obs \<longleftrightarrow>
     (\<forall>w x. res_stores view upd meta obs w (meta_key (meta x)) (\<lambda>y. obs y = obs x) (res_create rc w x)) \<and>
     (\<forall>w x f. res_stores view upd meta obs w (meta_key (meta x))
        (\<lambda>y. \<exists>z. f (case sel (view w) (meta_key (meta x)) of None \<Rightarrow> x | Some old \<Rightarrow> old) = Inr z \<and> obs y = obs z)
        (res_apply rc w x f))"

text \<open>
  The content of each kind: of a deployment its labels and everything the code sets in the
  specification but the DNS policy and the service account, which the server fills in when they are empty.
\<close>

type_synonym spec_content =
  "i32 option \<times> labels \<times> labels \<times> bool \<times> labels \<times> host_alias list
     \<times> (string \<times> string \<times> string \<times> string list \<times> (string \<times> string) list
          \<times> container_port list \<times> http_probe option \<times> http_probe option) list"

definition spec_obs :: "deployment_spec \<Rightarrow> spec_content" where
  "spec_obs s =
     (dp_replicas s, dp_selector s, dp_template_labels s, pod_host_network (dp_pod s), pod_node_selector (dp_pod s),
      pod_host_aliases (dp_pod s),
      map (\<lambda>c. (ct_name c, ct_image c, ct_pull_policy c, ct_args c, ct_env c, ct_ports c, ct_liveness c, ct_readiness c))
        (pod_containers (dp_pod s)))"

definition service_obs :: "service \<Rightarrow> labels \<times> string \<times> labels \<times> service_port list" where
  "service_obs s = (om_labels (svc_meta s), svc_type s, svc_selector s, svc_ports s)"

definition role_obs :: "rbac_role \<Rightarrow> labels \<times> owner_ref list \<times> policy_rule list" where
  "role_obs x = (om_labels (role_meta x), role_owners x, role_rules x)"

definition binding_obs :: "role_binding \<Rightarrow> labels \<times> owner_ref list \<times> string \<times> rbac_subject list" where
  "binding_obs x = (om_labels (rb_meta x), rb_owners x, rb_ref_name x, rb_subjects x)"

text \<open>
  Devices: \<open>Update\<close> stores all but the status, drops an object that is being deleted with its last
  finalizer, and refuses a new finalizer on an object that is being deleted; a status
  patch changes the status only.
\<close>

definition stored_device :: "cluster \<Rightarrow> z21device \<Rightarrow> cluster" where
  "stored_device cl d = cl\<lparr>cl_devices := (cl_devices cl)(device_key d :=
     if om_deleting (dev_meta d) \<and> om_finalizers (dev_meta d) = [] then None else Some d)\<rparr>"

definition device_writes :: "'w operator_client \<Rightarrow> ('w \<Rightarrow> cluster) \<Rightarrow> bool" where
  "device_writes c view \<longleftrightarrow>
     (\<forall>w k. case oc_get_device c w k of
        Inr d \<Rightarrow> cl_devices (view w) k = Some d | Inl e \<Rightarrow> is_not_found e \<longrightarrow> cl_devices (view w) k = None) \<and>
     (\<forall>w k d. cl_devices (view w) k = Some d \<longrightarrow> device_key d = k) \<and>
     (\<forall>w d old. cl_devices (view w) (device_key d) = Some old \<longrightarrow>
        (let (w', r) = oc_update_device c w d; new = d\<lparr>dev_status := dev_status old\<rparr>;
             refused = (om_deleting (dev_meta old) \<and> \<not> set (om_finalizers (dev_meta d)) \<subseteq> set (om_finalizers (dev_meta old))) in
         (case r of
            Inl e \<Rightarrow> view w' = view w \<or> \<not> refused \<and> view w' = stored_device (view w) new
          | Inr x \<Rightarrow> \<not> refused \<and> x = new \<and> view w' = stored_device (view w) new))) \<and>
     (\<forall>w d new. cl_devices (view w) (device_key d) = Some d \<and> dev_meta new = dev_meta d \<and> dev_spec new = dev_spec d \<longrightarrow>
        (let (w', r) = oc_patch_status c w d new; stored = (view w)\<lparr>cl_devices := (cl_devices (view w))(device_key d \<mapsto> new)\<rparr> in
         view w' = stored \<or> r \<noteq> None \<and> view w' = view w))"

definition finalizer_laws :: "'w operator_client \<Rightarrow> bool" where
  "finalizer_laws c \<longleftrightarrow>
     (\<forall>d f. oc_has_finalizer c d f = (f \<in> set (om_finalizers (dev_meta d)))) \<and>
     (\<forall>d f. oc_add_finalizer c d f = d\<lparr>dev_meta := (dev_meta d)\<lparr>om_finalizers :=
        (if f \<in> set (om_finalizers (dev_meta d)) then om_finalizers (dev_meta d) else om_finalizers (dev_meta d) @ [f])\<rparr>\<rparr>) \<and>
     (\<forall>d f. oc_remove_finalizer c d f = d\<lparr>dev_meta := (dev_meta d)\<lparr>om_finalizers := removeAll f (om_finalizers (dev_meta d))\<rparr>\<rparr>)"

definition spec_equal_law :: "'w operator_client \<Rightarrow> bool" where
  "spec_equal_law c \<longleftrightarrow> (\<forall>s t. oc_spec_equal c s t \<longrightarrow> spec_obs s = spec_obs t)"

definition operator_laws :: "'w operator_client \<Rightarrow> ('w \<Rightarrow> cluster) \<Rightarrow> bool" where
  "operator_laws c view \<longleftrightarrow>
     finalizer_laws c \<and> condition_laws (oc_set_condition c) \<and> device_writes c view \<and>
     spec_equal_law c \<and> res_reads (oc_deployments c) (cl_deployments \<circ> view) dep_meta \<and>
     res_deletes (oc_deployments c) view cl_deployments_update \<and>
     res_deletes (oc_services c) view cl_services_update \<and>
     res_deletes (oc_accounts c) view cl_accounts_update \<and>
     res_writes (oc_deployments c) view cl_deployments cl_deployments_update dep_meta (\<lambda>x. (om_labels (dep_meta x), spec_obs (dep_spec x))) \<and>
     res_writes (oc_services c) view cl_services cl_services_update svc_meta service_obs \<and>
     res_writes (oc_accounts c) view cl_accounts cl_accounts_update sa_meta (om_labels \<circ> sa_meta) \<and>
     res_writes (oc_roles c) view cl_roles cl_roles_update role_meta role_obs \<and>
     res_writes (oc_bindings c) view cl_bindings cl_bindings_update rb_meta binding_obs"

lemma operator_lawsD:
  assumes "operator_laws c view"
  shows "finalizer_laws c" "condition_laws (oc_set_condition c)" "device_writes c view"
    "res_reads (oc_deployments c) (cl_deployments \<circ> view) dep_meta"
    "res_deletes (oc_deployments c) view cl_deployments_update"
    "res_deletes (oc_services c) view cl_services_update" "res_deletes (oc_accounts c) view cl_accounts_update"
    "res_writes (oc_deployments c) view cl_deployments cl_deployments_update dep_meta (\<lambda>x. (om_labels (dep_meta x), spec_obs (dep_spec x)))"
    "res_writes (oc_services c) view cl_services cl_services_update svc_meta service_obs"
    "res_writes (oc_accounts c) view cl_accounts cl_accounts_update sa_meta (om_labels \<circ> sa_meta)"
    "res_writes (oc_roles c) view cl_roles cl_roles_update role_meta role_obs"
    "res_writes (oc_bindings c) view cl_bindings cl_bindings_update rb_meta binding_obs"
    "spec_equal_law c"
  using assms unfolding operator_laws_def by blast+

lemma operator_spec_equal:
  assumes "operator_laws c view" and "oc_spec_equal c s t"
  shows "spec_obs s = spec_obs t"
  using operator_lawsD(13) [OF assms(1), unfolded spec_equal_law_def] assms(2) by blast

lemma res_getD:
  assumes "res_reads rc sel meta"
  shows "res_get rc w k = Inr x \<Longrightarrow> sel w k = Some x \<and> meta_key (meta x) = k"
    and "res_get rc w k = Inl e \<Longrightarrow> is_not_found e \<Longrightarrow> sel w k = None"
proof -
  have "case res_get rc w k of Inr x \<Rightarrow> sel w k = Some x \<and> meta_key (meta x) = k
      | Inl e \<Rightarrow> is_not_found e \<longrightarrow> sel w k = None"
    using assms unfolding res_reads_def by blast
  then show "res_get rc w k = Inr x \<Longrightarrow> sel w k = Some x \<and> meta_key (meta x) = k"
    and "res_get rc w k = Inl e \<Longrightarrow> is_not_found e \<Longrightarrow> sel w k = None" by simp_all
qed

lemma res_createD:
  assumes "res_writes rc view sel upd meta obs"
  shows "res_stores view upd meta obs w (meta_key (meta x)) (\<lambda>y. obs y = obs x) (res_create rc w x)"
  using assms unfolding res_writes_def by blast

lemma res_applyD:
  assumes "res_writes rc view sel upd meta obs"
  shows "res_stores view upd meta obs w (meta_key (meta x))
        (\<lambda>y. \<exists>z. f (case sel (view w) (meta_key (meta x)) of None \<Rightarrow> x | Some old \<Rightarrow> old) = Inr z \<and> obs y = obs z)
        (res_apply rc w x f)"
  using assms unfolding res_writes_def by blast

lemma delete_resource_view:
  assumes "res_deletes rc view upd" and "delete_resource rc w k what = (w', r)"
  shows "view w' = upd (\<lambda>m. m(k := None)) (view w) \<or> r \<noteq> None \<and> view w' = view w"
proof -
  obtain w1 r1 where d: "res_delete rc w k = (w1, r1)" by fastforce
  have "case r1 of None \<Rightarrow> view w1 = upd (\<lambda>m. m(k := None)) (view w)
         | Some e \<Rightarrow> if is_not_found e then view w1 = upd (\<lambda>m. m(k := None)) (view w)
                     else view w1 \<in> {view w, upd (\<lambda>m. m(k := None)) (view w)}"
    using assms(1) [unfolded res_deletes_def, THEN spec, THEN spec, of w k] d by (simp add: Let_def)
  then show ?thesis
    using assms(2) d by (auto simp: delete_resource_def split: option.splits if_splits)
qed


lemma get_deviceD:
  assumes "operator_laws c view"
  shows "oc_get_device c w k = Inr d \<Longrightarrow> cl_devices (view w) k = Some d"
    and "oc_get_device c w k = Inl e \<Longrightarrow> is_not_found e \<Longrightarrow> cl_devices (view w) k = None"
    and "cl_devices (view w) k = Some d \<Longrightarrow> device_key d = k"
proof -
  have l: "case oc_get_device c w k of
      Inr d \<Rightarrow> cl_devices (view w) k = Some d | Inl e \<Rightarrow> is_not_found e \<longrightarrow> cl_devices (view w) k = None"
    and "\<forall>d. cl_devices (view w) k = Some d \<longrightarrow> device_key d = k"
    using operator_lawsD(3) [OF assms, unfolded device_writes_def] by blast+
  then show "oc_get_device c w k = Inr d \<Longrightarrow> cl_devices (view w) k = Some d"
    and "oc_get_device c w k = Inl e \<Longrightarrow> is_not_found e \<Longrightarrow> cl_devices (view w) k = None"
    and "cl_devices (view w) k = Some d \<Longrightarrow> device_key d = k" by simp_all
qed

lemma update_deviceD:
  assumes "operator_laws c view" and "cl_devices (view w) (device_key d) = Some old"
    and "oc_update_device c w d = (w', r)"
  shows "view w' = view w \<and> (\<exists>e. r = Inl e) \<or>
    \<not> (om_deleting (dev_meta old) \<and> \<not> set (om_finalizers (dev_meta d)) \<subseteq> set (om_finalizers (dev_meta old))) \<and>
    view w' = stored_device (view w) (d\<lparr>dev_status := dev_status old\<rparr>)"
proof -
  have "let (w', r) = oc_update_device c w d; new = d\<lparr>dev_status := dev_status old\<rparr>;
             refused = (om_deleting (dev_meta old) \<and> \<not> set (om_finalizers (dev_meta d)) \<subseteq> set (om_finalizers (dev_meta old))) in
         (case r of
            Inl e \<Rightarrow> view w' = view w \<or> \<not> refused \<and> view w' = stored_device (view w) new
          | Inr x \<Rightarrow> \<not> refused \<and> x = new \<and> view w' = stored_device (view w) new)"
    using operator_lawsD(3) [OF assms(1), unfolded device_writes_def] assms(2) by blast
  then show ?thesis using assms(3) by (simp add: Let_def split: sum.splits)
qed

lemma patch_statusD:
  assumes "operator_laws c view" and "cl_devices (view w) (device_key d) = Some d"
    and "dev_meta new = dev_meta d" and "dev_spec new = dev_spec d" and "oc_patch_status c w d new = (w', r)"
  shows "view w' = (view w)\<lparr>cl_devices := (cl_devices (view w))(device_key d \<mapsto> new)\<rparr> \<or> r \<noteq> None \<and> view w' = view w"
proof -
  have "let (w', r) = oc_patch_status c w d new; stored = (view w)\<lparr>cl_devices := (cl_devices (view w))(device_key d \<mapsto> new)\<rparr> in
         view w' = stored \<or> r \<noteq> None \<and> view w' = view w"
    using operator_lawsD(3) [OF assms(1), unfolded device_writes_def] assms(2-4) by blast
  then show ?thesis using assms(5) by (simp add: Let_def)
qed

lemma with_device_status_keeps [simp]:
  "dev_meta (with_device_status c inp d) = dev_meta d" "dev_spec (with_device_status c inp d) = dev_spec d"
  by (simp_all add: with_device_status_def setGatewayReadyCondition_def Let_def split_def)

text \<open>A status update changes nothing but the status of the device.\<close>

lemma updateStatus_view:
  assumes "operator_laws c view" and "updateStatus c w device inp = (w', r)"
  shows "\<exists>m. view w' = (view w)\<lparr>cl_devices := m\<rparr> \<and> (\<forall>k. k \<noteq> device_key device \<longrightarrow> m k = cl_devices (view w) k) \<and>
    (\<forall>k. map_option dev_meta (m k) = map_option dev_meta (cl_devices (view w) k) \<and>
         map_option dev_spec (m k) = map_option dev_spec (cl_devices (view w) k))"
proof (cases "oc_get_device c w (device_key device)")
  case (Inl e)
  then show ?thesis using assms(2) by (intro exI [of _ "cl_devices (view w)"]) (simp add: updateStatus_def)
next
  case (Inr latest)
  have l: "cl_devices (view w) (device_key device) = Some latest" "device_key latest = device_key device"
    using get_deviceD [OF assms(1)] Inr by blast+
  consider "w' = w" | w1 r1 where "oc_patch_status c w latest (with_device_status c inp latest) = (w1, r1)" "w' = w1"
    using assms(2) Inr by (auto simp: updateStatus_def split: if_splits prod.splits option.splits)
  then consider "view w' = view w" |
    "view w' = (view w)\<lparr>cl_devices := (cl_devices (view w))(device_key latest \<mapsto> with_device_status c inp latest)\<rparr>"
    using patch_statusD [OF assms(1), of w latest "with_device_status c inp latest"] l by (cases; fastforce)
  then show ?thesis
  proof cases
    case 1
    then show ?thesis by (intro exI [of _ "cl_devices (view w)"]) simp
  next
    case 2
    then show ?thesis using l
      by (intro exI [of _ "(cl_devices (view w))(device_key latest \<mapsto> with_device_status c inp latest)"]) simp
  qed
qed

section \<open>What each step leaves in the cluster\<close>

lemma cell_simps [simp]:
  "cl_deployments_update (\<lambda>m. m(k := x)) v = v\<lparr>cl_deployments := (cl_deployments v)(k := x)\<rparr>"
  "cl_services_update (\<lambda>m. m(k := y)) v = v\<lparr>cl_services := (cl_services v)(k := y)\<rparr>"
  "cl_accounts_update (\<lambda>m. m(k := z)) v = v\<lparr>cl_accounts := (cl_accounts v)(k := z)\<rparr>"
  "cl_roles_update (\<lambda>m. m(k := a)) v = v\<lparr>cl_roles := (cl_roles v)(k := a)\<rparr>"
  "cl_bindings_update (\<lambda>m. m(k := b)) v = v\<lparr>cl_bindings := (cl_bindings v)(k := b)\<rparr>"
  by simp_all

lemma delete_resource_cell:
  assumes "res_deletes rc view upd" and "delete_resource rc w k what = (w', r)"
    and "\<And>cl. upd (\<lambda>m. m(k := sel cl k)) cl = cl"
  shows "\<exists>x. view w' = upd (\<lambda>m. m(k := x)) (view w) \<and> (r = None \<longrightarrow> x = None)"
  using delete_resource_view [OF assms(1,2)] assms(3) [of "view w"] by metis

lemma deleteSimulator_view:
  assumes "operator_laws c view" and "deleteSimulator c r w d = (w', res)"
  shows "\<exists>x y. view w' = (view w)
      \<lparr>cl_deployments := (cl_deployments (view w))((workloadNamespace r, simulatorDeploymentName d) := x),
       cl_services := (cl_services (view w))((workloadNamespace r, SimulatorServiceName (om_name (dev_meta d))) := y)\<rparr> \<and>
    (res = None \<longrightarrow> x = None \<and> y = None)"
proof -
  note D = delete_resource_cell [OF operator_lawsD(5) [OF assms(1)], where sel = cl_deployments]
  note S = delete_resource_cell [OF operator_lawsD(6) [OF assms(1)], where sel = cl_services]
  obtain w1 r1 where 1: "delete_resource (oc_deployments c) w (workloadNamespace r, simulatorDeploymentName d)
      ''simulator deployment'' = (w1, r1)" by fastforce
  obtain x where x: "view w1 = (view w)\<lparr>cl_deployments := (cl_deployments (view w))
      ((workloadNamespace r, simulatorDeploymentName d) := x)\<rparr>" "r1 = None \<longrightarrow> x = None"
    using D [OF 1] by auto
  show ?thesis
  proof (cases r1)
    case (Some e)
    then show ?thesis using assms(2) 1 x
      by (intro exI [of _ x] exI [of _ "cl_services (view w) (workloadNamespace r, SimulatorServiceName (om_name (dev_meta d)))"])
        (auto simp: deleteSimulator_def)
  next
    case None
    then have 2: "delete_resource (oc_services c) w1 (workloadNamespace r, SimulatorServiceName (om_name (dev_meta d)))
            ''simulator service'' = (w', res)"
      using assms(2) 1 by (simp add: deleteSimulator_def)
    obtain y where "view w' = (view w1)\<lparr>cl_services := (cl_services (view w1))
      ((workloadNamespace r, SimulatorServiceName (om_name (dev_meta d))) := y)\<rparr>" "res = None \<longrightarrow> y = None"
      using S [OF 2] by auto
    then show ?thesis using x None by (intro exI [of _ x] exI [of _ y]) simp
  qed
qed

lemma deleteGateway_view:
  assumes "operator_laws c view" and "deleteGateway c r w d = (w', res)"
  shows "\<exists>x y. view w' = (view w)
      \<lparr>cl_deployments := (cl_deployments (view w))((workloadNamespace r, gatewayDeploymentName d) := x),
       cl_accounts := (cl_accounts (view w))((workloadNamespace r, gatewayServiceAccountName d) := y)\<rparr> \<and>
    (res = None \<longrightarrow> x = None \<and> y = None)"
proof -
  note D = delete_resource_cell [OF operator_lawsD(5) [OF assms(1)], where sel = cl_deployments]
  note S = delete_resource_cell [OF operator_lawsD(7) [OF assms(1)], where sel = cl_accounts]
  obtain w1 r1 where 1: "delete_resource (oc_deployments c) w (workloadNamespace r, gatewayDeploymentName d)
      ''gateway deployment'' = (w1, r1)" by fastforce
  obtain x where x: "view w1 = (view w)\<lparr>cl_deployments := (cl_deployments (view w))
      ((workloadNamespace r, gatewayDeploymentName d) := x)\<rparr>" "r1 = None \<longrightarrow> x = None"
    using D [OF 1] by auto
  show ?thesis
  proof (cases r1)
    case (Some e)
    then show ?thesis using assms(2) 1 x
      by (intro exI [of _ x] exI [of _ "cl_accounts (view w) (workloadNamespace r, gatewayServiceAccountName d)"])
        (auto simp: deleteGateway_def)
  next
    case None
    then have 2: "delete_resource (oc_accounts c) w1 (workloadNamespace r, gatewayServiceAccountName d)
            ''gateway service account'' = (w', res)"
      using assms(2) 1 by (simp add: deleteGateway_def)
    obtain y where "view w' = (view w1)\<lparr>cl_accounts := (cl_accounts (view w1))
      ((workloadNamespace r, gatewayServiceAccountName d) := y)\<rparr>" "res = None \<longrightarrow> y = None"
      using S [OF 2] by auto
    then show ?thesis using x None by (intro exI [of _ x] exI [of _ y]) simp
  qed
qed

lemma res_stores_cell:
  assumes "res_stores view upd meta obs w k good (w', r)"
  shows "\<exists>x. view w' = upd (\<lambda>m. m(k := x)) (view w) \<and> (\<forall>y. r = Inr y \<longrightarrow> x = Some y \<and> good y \<and> meta_key (meta y) = k)"
  using assms by (cases r) (auto simp: res_stores_def)

lemma reconcile_deployment_view:
  assumes "operator_laws c view" and "reconcile_deployment c w desired what = (w', res)"
    and "k = meta_key (dep_meta desired)"
  shows "\<exists>x. view w' = (view w)\<lparr>cl_deployments := (cl_deployments (view w))(k := x)\<rparr> \<and>
    (\<forall>y. res = Inr y \<longrightarrow> x = Some y \<and> spec_obs (dep_spec y) = spec_obs (dep_spec desired) \<and> meta_key (dep_meta y) = k)"
proof -
  let ?obs = "\<lambda>x. (om_labels (dep_meta x), spec_obs (dep_spec x))"
  have k: "k = (om_namespace (dep_meta desired), om_name (dep_meta desired))" using assms(3) by (simp add: meta_key_def)
  have same: ?thesis if "w' = w" "\<forall>y. res = Inr y \<longrightarrow> cl_deployments (view w) k = Some y \<and>
      spec_obs (dep_spec y) = spec_obs (dep_spec desired) \<and> meta_key (dep_meta y) = k"
    using that by (intro exI [of _ "cl_deployments (view w) k"]) simp
  show ?thesis
  proof (cases "res_get (oc_deployments c) w k")
    case (Inl e)
    show ?thesis
    proof (cases "is_not_found e")
      case False
      then show ?thesis using Inl assms(2) k by (intro same) (auto simp: reconcile_deployment_def)
    next
      case True
      obtain w1 r1 where cr: "res_create (oc_deployments c) w desired = (w1, r1)" by fastforce
      obtain x where "view w1 = (view w)\<lparr>cl_deployments := (cl_deployments (view w))(k := x)\<rparr>"
        "\<forall>y. r1 = Inr y \<longrightarrow> x = Some y \<and> ?obs y = ?obs desired \<and> meta_key (dep_meta y) = k"
        using res_stores_cell [OF res_createD [OF operator_lawsD(8) [OF assms(1)], of w desired, unfolded cr]] assms(3)
        by auto
      then show ?thesis using Inl True cr assms(2) k
        by (intro exI [of _ x]) (auto simp: reconcile_deployment_def split: sum.splits)
    qed
  next
    case (Inr dep)
    have dep: "cl_deployments (view w) k = Some dep" "meta_key (dep_meta dep) = k"
      using res_getD(1) [OF operator_lawsD(4) [OF assms(1)] Inr] by simp_all
    show ?thesis
    proof (cases "oc_spec_equal c (dep_spec dep) (dep_spec desired)")
      case True
      then show ?thesis using Inr assms(2) k dep operator_spec_equal [OF assms(1) True]
        by (intro same) (auto simp: reconcile_deployment_def)
    next
      case False
      define f :: "deployment \<Rightarrow> kube_error + deployment" where "f = (\<lambda>dep. Inr (dep\<lparr>dep_meta := (dep_meta dep)\<lparr>om_labels := om_labels (dep_meta desired)\<rparr>,
          dep_spec := dep_spec desired\<rparr>))"
      obtain w1 r1 where ap: "res_apply (oc_deployments c) w dep f = (w1, r1)" by fastforce
      obtain x where "view w1 = (view w)\<lparr>cl_deployments := (cl_deployments (view w))(k := x)\<rparr>"
        "\<forall>y. r1 = Inr y \<longrightarrow> x = Some y \<and> (\<exists>z. f dep = Inr z \<and> ?obs y = ?obs z) \<and> meta_key (dep_meta y) = k"
        using res_stores_cell [OF res_applyD [OF operator_lawsD(8) [OF assms(1)], of w dep f, unfolded ap]] dep
        by auto
      then show ?thesis using Inr False ap assms(2) k
        by (intro exI [of _ x]) (auto simp: reconcile_deployment_def f_def split: sum.splits)
    qed
  qed
qed

definition simulator_ports :: "service_port list" where
  "simulator_ports =
     [\<lparr>sp_name = ''z21-udp'', sp_port = DefaultZ21Port, sp_target = DefaultZ21Port, sp_protocol = ''UDP''\<rparr>,
      \<lparr>sp_name = ''grpc'', sp_port = of_nat DefaultSimulatorGRPCPort,
       sp_target = of_nat DefaultSimulatorGRPCPort, sp_protocol = ''TCP''\<rparr>]"

lemma reconcileSimulatorService_view:
  assumes "operator_laws c view" and "reconcileSimulatorService c r w d = (w', res)"
  shows "\<exists>y. view w' = (view w)\<lparr>cl_services := (cl_services (view w))((workloadNamespace r, SimulatorServiceName (om_name (dev_meta d))) := y)\<rparr> \<and>
    (\<forall>n. res = Inr n \<longrightarrow> n = SimulatorServiceName (om_name (dev_meta d)) \<and>
       (\<exists>s. y = Some s \<and> service_obs s = (simulatorLabels d, ''ClusterIP'', simulatorSelector d, simulator_ports)))"
proof -
  let ?name = "SimulatorServiceName (om_name (dev_meta d))"
  define x where "x = \<lparr>svc_meta = named_meta (workloadNamespace r) ?name, svc_type = [], svc_selector = [], svc_ports = []\<rparr>"
  define f :: "service \<Rightarrow> kube_error + service" where "f = (\<lambda>svc. Inr
            \<lparr>svc_meta = (svc_meta svc)\<lparr>om_labels := simulatorLabels d\<rparr>,
             svc_type = ''ClusterIP'', svc_selector = simulatorSelector d, svc_ports = simulator_ports\<rparr>)"
  obtain w1 r1 where ap: "res_apply (oc_services c) w x f = (w1, r1)" by fastforce
  have k: "meta_key (svc_meta x) = (workloadNamespace r, ?name)" by (simp add: x_def)
  have f: "f z = Inr s' \<Longrightarrow> service_obs s' = (simulatorLabels d, ''ClusterIP'', simulatorSelector d, simulator_ports)" for z s'
    by (auto simp: f_def service_obs_def)
  obtain y where "view w1 = (view w)\<lparr>cl_services := (cl_services (view w))((workloadNamespace r, ?name) := y)\<rparr>"
    "\<forall>s. r1 = Inr s \<longrightarrow> y = Some s \<and> service_obs s = (simulatorLabels d, ''ClusterIP'', simulatorSelector d, simulator_ports)"
    using res_stores_cell [OF res_applyD [OF operator_lawsD(9) [OF assms(1)], of w x f, unfolded ap k]] f
    by fastforce
  moreover have "(w', res) = (w1, case r1 of Inl e \<Rightarrow> Inl (OpWrapped ''create or update simulator service'' e) | Inr _ \<Rightarrow> Inr ?name)"
    using assms(2) ap unfolding reconcileSimulatorService_def Let_def x_def f_def simulator_ports_def
    by (simp split: sum.splits)
  ultimately show ?thesis by (intro exI [of _ y]) (auto split: sum.splits)
qed

lemma sim_meta_key:
  "meta_key (dep_meta ((desiredSimulatorDeployment d cfg)\<lparr>dep_meta := (named_meta ns n)\<lparr>om_labels := l\<rparr>\<rparr>)) = (ns, n)"
  "meta_key (dep_meta ((desiredGatewayDeployment U d img sa addr cfg)\<lparr>dep_meta := (named_meta ns n)\<lparr>om_labels := l\<rparr>\<rparr>)) = (ns, n)"
  by simp_all

lemma reconcileSimulatorDeployment_view:
  assumes "operator_laws c view" and "reconcileSimulatorDeployment c r w d cfg = (w', res)"
  shows "\<exists>x. view w' = (view w)\<lparr>cl_deployments := (cl_deployments (view w))((workloadNamespace r, simulatorDeploymentName d) := x)\<rparr> \<and>
    (\<forall>y. res = Inr y \<longrightarrow> x = Some y \<and> spec_obs (dep_spec y) = spec_obs (dep_spec (desiredSimulatorDeployment d cfg)) \<and>
       meta_key (dep_meta y) = (workloadNamespace r, simulatorDeploymentName d))"
  using reconcile_deployment_view [OF assms(1) assms(2) [unfolded reconcileSimulatorDeployment_def Let_def]]
  by (simp add: sim_meta_key)

lemma reconcileGatewayDeployment_view:
  assumes "operator_laws c view" and "reconcileGatewayDeployment c r w d sa cfg = (w', res)"
  shows "\<exists>x. view w' = (view w)\<lparr>cl_deployments := (cl_deployments (view w))((workloadNamespace r, gatewayDeploymentName d) := x)\<rparr> \<and>
    (\<forall>y. res = Inr y \<longrightarrow> x = Some y \<and> (\<exists>addr. Z21Address d = Inr addr \<and>
       spec_obs (dep_spec y) = spec_obs (dep_spec (desiredGatewayDeployment (oc_url c) d (gatewayImage r) sa addr cfg))) \<and>
       meta_key (dep_meta y) = (workloadNamespace r, gatewayDeploymentName d))"
proof (cases "Z21Address d")
  case (Inl e)
  then show ?thesis using assms(2)
    by (intro exI [of _ "cl_deployments (view w) (workloadNamespace r, gatewayDeploymentName d)"])
      (auto simp: reconcileGatewayDeployment_def)
next
  case (Inr addr)
  have rd: "reconcile_deployment c w ((desiredGatewayDeployment (oc_url c) d (gatewayImage r) sa addr cfg)
      \<lparr>dep_meta := (named_meta (workloadNamespace r) (gatewayDeploymentName d))\<lparr>om_labels := gatewayLabels d\<rparr>\<rparr>)
      ''deployment'' = (w', res)"
    using assms(2) Inr by (simp add: reconcileGatewayDeployment_def Let_def)
  show ?thesis
    using reconcile_deployment_view [OF assms(1) rd refl] Inr by (simp add: sim_meta_key)
qed

lemma reconcileSimulator_view:
  assumes "operator_laws c view" and "reconcileSimulator c r w d cfg = (w', dep, svc, e)"
  shows "\<exists>x y. view w' = (view w)
      \<lparr>cl_deployments := (cl_deployments (view w))((workloadNamespace r, simulatorDeploymentName d) := x),
       cl_services := (cl_services (view w))((workloadNamespace r, SimulatorServiceName (om_name (dev_meta d))) := y)\<rparr> \<and>
    (e = None \<longrightarrow> x = dep \<and>
      (if be_type (ds_backend (dev_spec d)) = BackendSimulator
       then svc = SimulatorServiceName (om_name (dev_meta d)) \<and>
         (\<exists>s. y = Some s \<and> service_obs s = (simulatorLabels d, ''ClusterIP'', simulatorSelector d, simulator_ports)) \<and>
         (\<exists>q. dep = Some q \<and> spec_obs (dep_spec q) = spec_obs (dep_spec (desiredSimulatorDeployment d cfg)) \<and>
            meta_key (dep_meta q) = (workloadNamespace r, simulatorDeploymentName d))
       else svc = [] \<and> x = None \<and> y = None))"
proof (cases "be_type (ds_backend (dev_spec d)) = BackendSimulator")
  case False
  obtain w1 r1 where 1: "deleteSimulator c r w d = (w1, r1)" by fastforce
  have "w1 = w'" "r1 = e" "dep = None" "svc = []"
    using assms(2) False 1 by (simp_all add: reconcileSimulator_def split: option.splits)
  then show ?thesis using deleteSimulator_view [OF assms(1) 1] False by auto
next
  case True
  obtain w1 r1 where 1: "reconcileSimulatorService c r w d = (w1, r1)" by fastforce
  note v1 = reconcileSimulatorService_view [OF assms(1) 1]
  show ?thesis
  proof (cases r1)
    case (Inl e1)
    then show ?thesis using assms(2) True 1 v1
      by (auto simp: reconcileSimulator_def intro!: exI [of _ "cl_deployments (view w) (workloadNamespace r, simulatorDeploymentName d)"])
  next
    case (Inr n)
    obtain w2 r2 where 2: "reconcileSimulatorDeployment c r w1 d cfg = (w2, r2)" by fastforce
    have w2: "w' = w2" "e = None \<longrightarrow> (\<exists>q. r2 = Inr q \<and> dep = Some q) \<and> svc = n"
      using assms(2) True 1 2 Inr by (auto simp: reconcileSimulator_def split: sum.splits)
    obtain y where y: "view w1 = (view w)\<lparr>cl_services := (cl_services (view w))((workloadNamespace r, SimulatorServiceName (om_name (dev_meta d))) := y)\<rparr>"
      "n = SimulatorServiceName (om_name (dev_meta d))"
      "\<exists>s. y = Some s \<and> service_obs s = (simulatorLabels d, ''ClusterIP'', simulatorSelector d, simulator_ports)"
      using v1 Inr by auto
    obtain x where "view w2 = (view w1)\<lparr>cl_deployments := (cl_deployments (view w1))((workloadNamespace r, simulatorDeploymentName d) := x)\<rparr>"
      "\<forall>q. r2 = Inr q \<longrightarrow> x = Some q \<and> spec_obs (dep_spec q) = spec_obs (dep_spec (desiredSimulatorDeployment d cfg)) \<and>
       meta_key (dep_meta q) = (workloadNamespace r, simulatorDeploymentName d)"
      using reconcileSimulatorDeployment_view [OF assms(1) 2] by blast
    then show ?thesis using True y w2 by (intro exI [of _ x] exI [of _ y]) auto
  qed
qed

lemma reconcileGatewayServiceAccount_view:
  assumes "operator_laws c view" and "reconcileGatewayServiceAccount c r w d = (w', res)"
  shows "\<exists>x. view w' = (view w)\<lparr>cl_accounts := (cl_accounts (view w))((workloadNamespace r, gatewayServiceAccountName d) := x)\<rparr> \<and>
    (\<forall>n. res = Inr n \<longrightarrow> n = gatewayServiceAccountName d \<and> (\<exists>s. x = Some s \<and> om_labels (sa_meta s) = gatewayLabels d))"
proof -
  define f :: "service_account \<Rightarrow> kube_error + service_account" where "f = (\<lambda>sa. Inr (sa\<lparr>sa_meta := (sa_meta sa)\<lparr>om_labels := gatewayLabels d\<rparr>\<rparr>))"
  define x0 where "x0 = \<lparr>sa_meta = named_meta (workloadNamespace r) (gatewayServiceAccountName d)\<rparr>"
  obtain w1 r1 where ap: "res_apply (oc_accounts c) w x0 f = (w1, r1)" by fastforce
  have k: "meta_key (sa_meta x0) = (workloadNamespace r, gatewayServiceAccountName d)" by (simp add: x0_def)
  have f: "f z = Inr s' \<Longrightarrow> om_labels (sa_meta s') = gatewayLabels d" for z s' by (auto simp: f_def)
  obtain x where "view w1 = (view w)\<lparr>cl_accounts := (cl_accounts (view w))((workloadNamespace r, gatewayServiceAccountName d) := x)\<rparr>"
    "\<forall>s. r1 = Inr s \<longrightarrow> x = Some s \<and> om_labels (sa_meta s) = gatewayLabels d"
    using res_stores_cell [OF res_applyD [OF operator_lawsD(10) [OF assms(1)], of w x0 f, unfolded ap k]] f
    by fastforce
  moreover have "(w', res) = (w1, case r1 of Inl e \<Rightarrow> Inl (OpWrapped ''create or update service account'' e) | Inr _ \<Rightarrow> Inr (gatewayServiceAccountName d))"
    using assms(2) ap unfolding reconcileGatewayServiceAccount_def Let_def x0_def f_def by (simp split: sum.splits)
  ultimately show ?thesis by (intro exI [of _ x]) (auto split: sum.splits)
qed


lemma reconcileGatewayRBAC_view:
  assumes "operator_laws c view" and "reconcileGatewayRBAC c r w d sa = (w', res)"
  shows "\<exists>x y. view w' = (view w)
      \<lparr>cl_roles := (cl_roles (view w))((om_namespace (dev_meta d), gatewayRoleName d) := x),
       cl_bindings := (cl_bindings (view w))((om_namespace (dev_meta d), gatewayRoleBindingName d) := y)\<rparr> \<and>
    (res = None \<longrightarrow> (\<exists>role b. x = Some role \<and> role_rules role = gateway_rules \<and> y = Some b \<and> rb_ref_name b = gatewayRoleName d \<and>
       rb_subjects b = [\<lparr>sub_kind = ''ServiceAccount'', sub_name = sa, sub_namespace = workloadNamespace r\<rparr>]))"
proof -
  let ?ns = "om_namespace (dev_meta d)"
  define x0 where "x0 = \<lparr>role_meta = named_meta ?ns (gatewayRoleName d), role_owners = [], role_rules = []\<rparr>"
  define y0 where "y0 = \<lparr>rb_meta = named_meta ?ns (gatewayRoleBindingName d), rb_owners = [], rb_ref_group = [],
                     rb_ref_kind = [], rb_ref_name = [], rb_subjects = []\<rparr>"
  obtain w1 r1 where 1: "res_apply (oc_roles c) w x0 (fill_role c d) = (w1, r1)" by fastforce
  have k: "meta_key (role_meta x0) = (?ns, gatewayRoleName d)" "meta_key (rb_meta y0) = (?ns, gatewayRoleBindingName d)"
    by (simp_all add: x0_def y0_def)
  have f: "fill_role c d z = Inr z' \<Longrightarrow> role_obs s = role_obs z' \<Longrightarrow> role_rules s = gateway_rules" for z z' s
    by (auto simp: fill_role_def role_obs_def split: sum.splits)
  have g: "fill_binding c r d sa z = Inr z' \<Longrightarrow> binding_obs s = binding_obs z' \<Longrightarrow> rb_ref_name s = gatewayRoleName d \<and>
       rb_subjects s = [\<lparr>sub_kind = ''ServiceAccount'', sub_name = sa, sub_namespace = workloadNamespace r\<rparr>]" for z z' s
    by (auto simp: fill_binding_def binding_obs_def split: sum.splits)
  obtain x where x: "view w1 = (view w)\<lparr>cl_roles := (cl_roles (view w))((?ns, gatewayRoleName d) := x)\<rparr>"
    "\<forall>s. r1 = Inr s \<longrightarrow> x = Some s \<and> role_rules s = gateway_rules"
    using res_stores_cell [OF res_applyD [OF operator_lawsD(11) [OF assms(1)], of w x0 "fill_role c d", unfolded 1 k]] f
    by fastforce
  have def: "reconcileGatewayRBAC c r w d sa = (case res_apply (oc_roles c) w x0 (fill_role c d) of
           (w1, Inl e) \<Rightarrow> (w1, Some (OpWrapped ''create or update role'' e))
         | (w1, Inr _) \<Rightarrow>
             (case res_apply (oc_bindings c) w1 y0 (fill_binding c r d sa) of
                (w2, Inl e) \<Rightarrow> (w2, Some (OpWrapped ''create or update role binding'' e))
              | (w2, Inr _) \<Rightarrow> (w2, None)))"
    by (simp only: reconcileGatewayRBAC_def Let_def x0_def y0_def)
  show ?thesis
  proof (cases r1)
    case (Inl e)
    then show ?thesis using assms(2) x unfolding def 1
      by (auto intro!: exI [of _ x] exI [of _ "cl_bindings (view w) (?ns, gatewayRoleBindingName d)"])
  next
    case (Inr role)
    obtain w2 r2 where 2: "res_apply (oc_bindings c) w1 y0 (fill_binding c r d sa) = (w2, r2)" by fastforce
    obtain y where "view w2 = (view w1)\<lparr>cl_bindings := (cl_bindings (view w1))((?ns, gatewayRoleBindingName d) := y)\<rparr>"
      "\<forall>s. r2 = Inr s \<longrightarrow> y = Some s \<and> rb_ref_name s = gatewayRoleName d \<and>
       rb_subjects s = [\<lparr>sub_kind = ''ServiceAccount'', sub_name = sa, sub_namespace = workloadNamespace r\<rparr>]"
      using res_stores_cell [OF res_applyD [OF operator_lawsD(12) [OF assms(1)], of w1 y0 "fill_binding c r d sa", unfolded 2 k]] g
      by fastforce
    moreover have "w' = w2" "res = None \<longrightarrow> (\<exists>s. r2 = Inr s)"
      using assms(2) Inr 2 unfolding def 1 by (auto split: sum.splits)
    ultimately show ?thesis using x Inr by (intro exI [of _ x] exI [of _ y]) auto
  qed
qed

lemma names_differ [simp]:
  "gatewayDeploymentName d \<noteq> simulatorDeploymentName d" "simulatorDeploymentName d \<noteq> gatewayDeploymentName d"
  by (simp_all add: gatewayDeploymentName_def simulatorDeploymentName_def)

text \<open>
  What a device should have in the cluster: the account, role and binding of its gateway, the
  gateway deployment with the wanted specification, and for a simulated device the simulator's
  deployment and Service; a hardware device has neither.
\<close>

definition workloads_ok :: "url_lib \<Rightarrow> operator_config \<Rightarrow> z21device \<Rightarrow> runtime_config \<Rightarrow> cluster \<Rightarrow> bool" where
  "workloads_ok U r d cfg cl \<longleftrightarrow>
     (let ns = workloadNamespace r; sa = gatewayServiceAccountName d in
      (\<exists>s. cl_accounts cl (ns, sa) = Some s \<and> om_labels (sa_meta s) = gatewayLabels d) \<and>
      (\<exists>role. cl_roles cl (om_namespace (dev_meta d), gatewayRoleName d) = Some role \<and> role_rules role = gateway_rules) \<and>
      (\<exists>b. cl_bindings cl (om_namespace (dev_meta d), gatewayRoleBindingName d) = Some b \<and> rb_ref_name b = gatewayRoleName d \<and>
         rb_subjects b = [\<lparr>sub_kind = ''ServiceAccount'', sub_name = sa, sub_namespace = ns\<rparr>]) \<and>
      (\<exists>dep addr. cl_deployments cl (ns, gatewayDeploymentName d) = Some dep \<and> Z21Address d = Inr addr \<and>
         spec_obs (dep_spec dep) = spec_obs (dep_spec (desiredGatewayDeployment U d (gatewayImage r) sa addr cfg))) \<and>
      (if be_type (ds_backend (dev_spec d)) = BackendSimulator
       then (\<exists>s. cl_services cl (ns, SimulatorServiceName (om_name (dev_meta d))) = Some s \<and>
               service_obs s = (simulatorLabels d, ''ClusterIP'', simulatorSelector d, simulator_ports)) \<and>
            (\<exists>q. cl_deployments cl (ns, simulatorDeploymentName d) = Some q \<and>
               spec_obs (dep_spec q) = spec_obs (dep_spec (desiredSimulatorDeployment d cfg)))
       else cl_services cl (ns, SimulatorServiceName (om_name (dev_meta d))) = None \<and>
            cl_deployments cl (ns, simulatorDeploymentName d) = None))"

lemma reconcile_workloads_cases:
  assumes "reconcile_workloads c r w d = (w', inp)"
  obtains
    (account) e where "reconcileGatewayServiceAccount c r w d = (w', Inl e)" "si_gateway inp = None" "si_phase inp = PhaseFailed"
  | (rbac) w1 sa e where "reconcileGatewayServiceAccount c r w d = (w1, Inr sa)" "reconcileGatewayRBAC c r w1 d sa = (w', Some e)"
      "si_gateway inp = None" "si_phase inp = PhaseFailed"
  | (simulator) w1 sa w2 dep svc e where "reconcileGatewayServiceAccount c r w d = (w1, Inr sa)"
      "reconcileGatewayRBAC c r w1 d sa = (w2, None)"
      "reconcileSimulator c r w2 d (loadRuntimeConfig c r w) = (w', dep, svc, Some e)" "si_gateway inp = None" "si_phase inp = PhaseFailed"
  | (gateway) w1 sa w2 w3 dep svc e where "reconcileGatewayServiceAccount c r w d = (w1, Inr sa)"
      "reconcileGatewayRBAC c r w1 d sa = (w2, None)"
      "reconcileSimulator c r w2 d (loadRuntimeConfig c r w) = (w3, dep, svc, None)"
      "reconcileGatewayDeployment c r w3 d sa (loadRuntimeConfig c r w) = (w', Inl e)" "si_gateway inp = None" "si_phase inp = PhaseFailed"
  | (all) w1 sa w2 w3 dep svc gw where "reconcileGatewayServiceAccount c r w d = (w1, Inr sa)"
      "reconcileGatewayRBAC c r w1 d sa = (w2, None)"
      "reconcileSimulator c r w2 d (loadRuntimeConfig c r w) = (w3, dep, svc, None)"
      "reconcileGatewayDeployment c r w3 d sa (loadRuntimeConfig c r w) = (w', Inr gw)"
      "inp = \<lparr>si_gateway = Some gw, si_simulator = dep, si_service = svc, si_phase = computePhase (Some gw) dep False\<rparr>"
  using assms unfolding reconcile_workloads_def Let_def
  by (auto split: prod.splits sum.splits option.splits)

text \<open>What each step leaves in the cluster, by the laws of the client.\<close>

lemma reconcile_workloads_devices:
  assumes "operator_laws c view" and "reconcile_workloads c r w d = (w', inp)"
  shows "cl_devices (view w') = cl_devices (view w)"
  using assms(2)
proof (cases rule: reconcile_workloads_cases)
  case account
  then show ?thesis using reconcileGatewayServiceAccount_view [OF assms(1)] by fastforce
next
  case rbac
  then show ?thesis using reconcileGatewayServiceAccount_view [OF assms(1) rbac(1)] reconcileGatewayRBAC_view [OF assms(1) rbac(2)] by fastforce
next
  case simulator
  then show ?thesis
    using reconcileGatewayServiceAccount_view [OF assms(1) simulator(1)] reconcileGatewayRBAC_view [OF assms(1) simulator(2)]
      reconcileSimulator_view [OF assms(1) simulator(3)] by fastforce
next
  case gateway
  then show ?thesis
    using reconcileGatewayServiceAccount_view [OF assms(1) gateway(1)] reconcileGatewayRBAC_view [OF assms(1) gateway(2)]
      reconcileSimulator_view [OF assms(1) gateway(3)] reconcileGatewayDeployment_view [OF assms(1) gateway(4)] by fastforce
next
  case all
  then show ?thesis
    using reconcileGatewayServiceAccount_view [OF assms(1) all(1)] reconcileGatewayRBAC_view [OF assms(1) all(2)]
      reconcileSimulator_view [OF assms(1) all(3)] reconcileGatewayDeployment_view [OF assms(1) all(4)] by fastforce
qed

lemma reconcile_workloads_all:
  assumes "operator_laws c view" and "cfg = loadRuntimeConfig c r w"
    and 1: "reconcileGatewayServiceAccount c r w d = (w1, Inr sa)" and 2: "reconcileGatewayRBAC c r w1 d sa = (w2, None)"
    and 3: "reconcileSimulator c r w2 d cfg = (w3, dep, svc, None)" and 4: "reconcileGatewayDeployment c r w3 d sa cfg = (w', Inr gw)"
  shows "workloads_ok (oc_url c) r d cfg (view w')" (is ?ok)
    and "cl_deployments (view w') (workloadNamespace r, gatewayDeploymentName d) = Some gw" (is ?gw)
    and "cl_deployments (view w') (workloadNamespace r, simulatorDeploymentName d) = dep" (is ?sim)
    and "om_name (dep_meta gw) = gatewayDeploymentName d" (is ?name)
    and "deploy_name dep = (if be_type (ds_backend (dev_spec d)) = BackendSimulator then simulatorDeploymentName d else [])" (is ?dep)
    and "svc = (if be_type (ds_backend (dev_spec d)) = BackendSimulator then SimulatorServiceName (om_name (dev_meta d)) else [])" (is ?svc)
proof -
  obtain s where v1: "view w1 = (view w)\<lparr>cl_accounts := (cl_accounts (view w))((workloadNamespace r, gatewayServiceAccountName d) \<mapsto> s)\<rparr>"
    "sa = gatewayServiceAccountName d" "om_labels (sa_meta s) = gatewayLabels d"
    using reconcileGatewayServiceAccount_view [OF assms(1) 1] by auto
  obtain role b where v2: "view w2 = (view w1)
      \<lparr>cl_roles := (cl_roles (view w1))((om_namespace (dev_meta d), gatewayRoleName d) \<mapsto> role),
       cl_bindings := (cl_bindings (view w1))((om_namespace (dev_meta d), gatewayRoleBindingName d) \<mapsto> b)\<rparr>"
    "role_rules role = gateway_rules" "rb_ref_name b = gatewayRoleName d"
    "rb_subjects b = [\<lparr>sub_kind = ''ServiceAccount'', sub_name = sa, sub_namespace = workloadNamespace r\<rparr>]"
    using reconcileGatewayRBAC_view [OF assms(1) 2] by auto
  obtain q where v3: "view w3 = (view w2)
      \<lparr>cl_deployments := (cl_deployments (view w2))((workloadNamespace r, simulatorDeploymentName d) := dep),
       cl_services := (cl_services (view w2))((workloadNamespace r, SimulatorServiceName (om_name (dev_meta d))) := q)\<rparr>"
    and p: "if be_type (ds_backend (dev_spec d)) = BackendSimulator
       then svc = SimulatorServiceName (om_name (dev_meta d)) \<and>
         (\<exists>s. q = Some s \<and> service_obs s = (simulatorLabels d, ''ClusterIP'', simulatorSelector d, simulator_ports)) \<and>
         (\<exists>q. dep = Some q \<and> spec_obs (dep_spec q) = spec_obs (dep_spec (desiredSimulatorDeployment d cfg)) \<and>
            meta_key (dep_meta q) = (workloadNamespace r, simulatorDeploymentName d))
       else svc = [] \<and> dep = None \<and> q = None"
    using reconcileSimulator_view [OF assms(1) 3] by auto
  obtain addr where v4: "view w' = (view w3)\<lparr>cl_deployments := (cl_deployments (view w3))((workloadNamespace r, gatewayDeploymentName d) \<mapsto> gw)\<rparr>"
    "Z21Address d = Inr addr" "meta_key (dep_meta gw) = (workloadNamespace r, gatewayDeploymentName d)"
    "spec_obs (dep_spec gw) = spec_obs (dep_spec (desiredGatewayDeployment (oc_url c) d (gatewayImage r) sa addr cfg))"
    using reconcileGatewayDeployment_view [OF assms(1) 4] by auto
  have cl: "cl_accounts (view w') (workloadNamespace r, gatewayServiceAccountName d) = Some s"
    "cl_roles (view w') (om_namespace (dev_meta d), gatewayRoleName d) = Some role"
    "cl_bindings (view w') (om_namespace (dev_meta d), gatewayRoleBindingName d) = Some b"
    "cl_services (view w') (workloadNamespace r, SimulatorServiceName (om_name (dev_meta d))) = q"
    unfolding v4(1) v3 v2(1) v1(1) by simp_all
  show gw: ?gw and sim: ?sim unfolding v4(1) v3 v2(1) v1(1) by simp_all
  show ?ok unfolding workloads_ok_def Let_def cl gw sim using v1(2,3) v2(2-) v4(2-) p by (auto split: if_splits)
  show ?name ?dep ?svc using p v4(3) by (auto simp: deploy_name_def meta_key_def split: if_splits)
qed

lemma reconcile_workloads_view:
  assumes "operator_laws c view" and "reconcile_workloads c r w d = (w', inp)"
  shows "cl_devices (view w') = cl_devices (view w) \<and>
    (case si_gateway inp of
       None \<Rightarrow> si_phase inp = PhaseFailed
     | Some dep \<Rightarrow>
         workloads_ok (oc_url c) r d (loadRuntimeConfig c r w) (view w') \<and>
         cl_deployments (view w') (workloadNamespace r, gatewayDeploymentName d) = Some dep \<and>
         cl_deployments (view w') (workloadNamespace r, simulatorDeploymentName d) = si_simulator inp \<and>
         om_name (dep_meta dep) = gatewayDeploymentName d \<and>
         deploy_name (si_simulator inp) =
           (if be_type (ds_backend (dev_spec d)) = BackendSimulator then simulatorDeploymentName d else []) \<and>
         si_service inp =
           (if be_type (ds_backend (dev_spec d)) = BackendSimulator then SimulatorServiceName (om_name (dev_meta d)) else []) \<and>
         si_phase inp = computePhase (Some dep) (si_simulator inp) False)"
  using assms(2)
proof (cases rule: reconcile_workloads_cases)
  case (all w1 sa w2 w3 dep svc gw)
  note facts = reconcile_workloads_all [OF assms(1) refl all(1-4)]
  show ?thesis using reconcile_workloads_devices [OF assms] facts by (simp add: all(5))
qed (simp_all add: reconcile_workloads_devices [OF assms])

lemma conditionStatus_view:
  "conditionStatus cs ty = (case condition_view cs ty of None \<Rightarrow> [] | Some x \<Rightarrow> fst x)"
  by (induction cs) (simp_all add: condition_view_def)

definition status_shows :: "status_input \<Rightarrow> z21device \<Rightarrow> bool" where
  "status_shows inp d \<longleftrightarrow>
     st_phase (dev_status d) = si_phase inp \<and> st_gateway_deployment (dev_status d) = deploy_name (si_gateway inp) \<and>
     st_simulator_deployment (dev_status d) = deploy_name (si_simulator inp) \<and>
     st_simulator_service (dev_status d) = si_service inp \<and>
     st_observed_generation (dev_status d) = om_generation (dev_meta d) \<and>
     conditionStatus (st_conditions (dev_status d)) ConditionGatewayReady = gatewayReadyStatus (si_gateway inp)"

lemma with_device_status_shows:
  assumes "condition_laws (oc_set_condition c)"
  shows "status_shows inp (with_device_status c inp d)"
  using condition_view_set [OF assms]
  by (simp add: status_shows_def with_device_status_def setGatewayReadyCondition_def Let_def split_def conditionStatus_view)

lemma updateStatus_shows:
  assumes "operator_laws c view" and "updateStatus c w d inp = (w', None)" and "cl_devices (view w) (device_key d) = Some d0"
  shows "\<exists>d'. view w' = (view w)\<lparr>cl_devices := (cl_devices (view w))(device_key d \<mapsto> d')\<rparr> \<and>
    dev_meta d' = dev_meta d0 \<and> dev_spec d' = dev_spec d0 \<and> status_shows inp d'"
proof (cases "oc_get_device c w (device_key d)")
  case (Inl e)
  then show ?thesis using assms(2) by (simp add: updateStatus_def)
next
  case (Inr latest)
  have l: "latest = d0" "device_key latest = device_key d"
    using get_deviceD [OF assms(1)] Inr assms(3) by (simp, metis)+
  show ?thesis
  proof (cases "deviceStatusIsCurrent latest inp (deploy_name (si_gateway inp)) (deploy_name (si_simulator inp))
               (gatewayReadyStatus (si_gateway inp))")
    case True
    then have "w' = w" using assms(2) Inr by (simp add: updateStatus_def)
    moreover have "status_shows inp latest" using True by (simp add: deviceStatusIsCurrent_def status_shows_def)
    ultimately show ?thesis using l assms(3) by (intro exI [of _ d0]) (simp add: fun_upd_idem)
  next
    case False
    then have "oc_patch_status c w latest (with_device_status c inp latest) = (w', None)"
      using assms(2) Inr by (auto simp: updateStatus_def split: prod.splits option.splits)
    then show ?thesis
      using patch_statusD [OF assms(1), of w latest "with_device_status c inp latest"] l assms(3)
        with_device_status_shows [OF operator_lawsD(2) [OF assms(1)], of inp latest]
      by (intro exI [of _ "with_device_status c inp latest"]) simp
  qed
qed

lemma finalizer_simps:
  assumes "operator_laws c view"
  shows "oc_has_finalizer c d f = (f \<in> set (om_finalizers (dev_meta d)))"
    and "oc_add_finalizer c d f = d\<lparr>dev_meta := (dev_meta d)\<lparr>om_finalizers :=
        (if f \<in> set (om_finalizers (dev_meta d)) then om_finalizers (dev_meta d) else om_finalizers (dev_meta d) @ [f])\<rparr>\<rparr>"
    and "oc_remove_finalizer c d f = d\<lparr>dev_meta := (dev_meta d)\<lparr>om_finalizers := removeAll f (om_finalizers (dev_meta d))\<rparr>\<rparr>"
  using operator_lawsD(1) [OF assms] unfolding finalizer_laws_def by blast+

lemma device_key_simps [simp]:
  "device_key (d\<lparr>dev_meta := (dev_meta d)\<lparr>om_finalizers := fs\<rparr>\<rparr>) = device_key d"
  "device_key (d\<lparr>dev_status := st\<rparr>) = device_key d"
  "device_key (d\<lparr>dev_meta := (dev_meta d)\<lparr>om_finalizers := fs\<rparr>, dev_status := st\<rparr>) = device_key d"
  by (simp_all add: device_key_def)

definition workloads_gone :: "operator_config \<Rightarrow> z21device \<Rightarrow> cluster \<Rightarrow> bool" where
  "workloads_gone r d cl \<longleftrightarrow>
     cl_deployments cl (workloadNamespace r, gatewayDeploymentName d) = None \<and>
     cl_accounts cl (workloadNamespace r, gatewayServiceAccountName d) = None \<and>
     cl_deployments cl (workloadNamespace r, simulatorDeploymentName d) = None \<and>
     cl_services cl (workloadNamespace r, SimulatorServiceName (om_name (dev_meta d))) = None"

section \<open>Properties of Reconcile\<close>

text \<open>A reconciliation of a live device, and of one that is being deleted.\<close>

lemma Reconcile_live:
  assumes "operator_laws c view" and "cl_devices (view w) key = Some d"
    and "DeviceFinalizerName \<in> set (om_finalizers (dev_meta d))" and "\<not> om_deleting (dev_meta d)"
    and "device_Reconcile c r w key = (w', None)"
  shows "\<exists>d'. cl_devices (view w') = (cl_devices (view w))(key \<mapsto> d') \<and> dev_meta d' = dev_meta d \<and> dev_spec d' = dev_spec d \<and>
    st_observed_generation (dev_status d') = om_generation (dev_meta d) \<and>
    (st_phase (dev_status d') = PhaseFailed \<and> st_gateway_deployment (dev_status d') = [] \<or>
     workloads_ok (oc_url c) r d (loadRuntimeConfig c r w) (view w') \<and>
     (let gw = cl_deployments (view w') (workloadNamespace r, gatewayDeploymentName d);
          sim = cl_deployments (view w') (workloadNamespace r, simulatorDeploymentName d) in
      st_phase (dev_status d') = computePhase gw sim False \<and>
      conditionStatus (st_conditions (dev_status d')) ConditionGatewayReady = gatewayReadyStatus gw \<and>
      st_gateway_deployment (dev_status d') = gatewayDeploymentName d \<and>
      st_simulator_deployment (dev_status d') = (if sim = None then [] else simulatorDeploymentName d) \<and>
      st_simulator_service (dev_status d') = (if sim = None then [] else SimulatorServiceName (om_name (dev_meta d)))))"
proof -
  have key: "device_key d = key" using get_deviceD(3) [OF assms(1,2)] .
  have get: "oc_get_device c w key = Inr d"
    using get_deviceD(1,2) [OF assms(1), of w key] assms(2,5)
    by (cases "oc_get_device c w key") (auto simp: device_Reconcile_def split: if_splits)
  obtain w1 inp where wl: "reconcile_workloads c r w d = (w1, inp)" by fastforce
  have up: "updateStatus c w1 d inp = (w', None)"
    using assms(3-5) get wl finalizer_simps(1) [OF assms(1)] by (simp add: device_Reconcile_def)
  note v = reconcile_workloads_view [OF assms(1) wl]
  obtain d' where d': "view w' = (view w1)\<lparr>cl_devices := (cl_devices (view w1))(key \<mapsto> d')\<rparr>"
    "dev_meta d' = dev_meta d" "dev_spec d' = dev_spec d" "status_shows inp d'"
    using updateStatus_shows [OF assms(1) up, unfolded key] v assms(2) by auto
  have dv: "cl_devices (view w') = (cl_devices (view w))(key \<mapsto> d')" using d'(1) v by simp
  note st = d'(4) [unfolded status_shows_def]
  show ?thesis
  proof (cases "si_gateway inp")
    case None
    then show ?thesis using dv d' st v by (intro exI [of _ d']) (simp add: deploy_name_def)
  next
    case (Some dep)
    have ok: "workloads_ok (oc_url c) r d cfg (view w') = workloads_ok (oc_url c) r d cfg (view w1)" for cfg
      by (simp add: d'(1) workloads_ok_def)
    have sim: "si_simulator inp = None \<longleftrightarrow> be_type (ds_backend (dev_spec d)) \<noteq> BackendSimulator"
      using v Some by (auto simp: workloads_ok_def Let_def split: if_splits)
    have cells: "cl_deployments (view w') = cl_deployments (view w1)" by (simp add: d'(1))
    show ?thesis
      using dv d'(2,3) st v Some unfolding ok cells
      by (intro exI [of _ d']) (simp add: Let_def sim deploy_name_def)
  qed
qed

text \<open>
  C2: A reconciliation of a live device with its finalizer that reports no error leaves the
  stored device with its spec and metadata, with the generation it has seen, and in one of
  two states. Either some step failed: then the phase is \<open>Failed\<close> and no gateway deployment
  is named. Or the cluster has everything the device should have and, for a hardware
  device, no simulator, and the status agrees with the stored deployments: their names, the
  readiness of the gateway, and the computed phase.
\<close>

theorem Reconcile_establishes_workloads:
  assumes "operator_laws c view" and "cl_devices (view w) key = Some d"
    and "DeviceFinalizerName \<in> set (om_finalizers (dev_meta d))" and "\<not> om_deleting (dev_meta d)"
    and "device_Reconcile c r w key = (w', None)"
  shows "\<exists>d'. cl_devices (view w') = (cl_devices (view w))(key \<mapsto> d') \<and> dev_meta d' = dev_meta d \<and> dev_spec d' = dev_spec d \<and>
    st_observed_generation (dev_status d') = om_generation (dev_meta d) \<and>
    (st_phase (dev_status d') = PhaseFailed \<and> st_gateway_deployment (dev_status d') = [] \<or>
     workloads_ok (oc_url c) r d (loadRuntimeConfig c r w) (view w') \<and>
     (let gw = cl_deployments (view w') (workloadNamespace r, gatewayDeploymentName d);
          sim = cl_deployments (view w') (workloadNamespace r, simulatorDeploymentName d) in
      st_phase (dev_status d') = computePhase gw sim False \<and>
      conditionStatus (st_conditions (dev_status d')) ConditionGatewayReady = gatewayReadyStatus gw \<and>
      st_gateway_deployment (dev_status d') = gatewayDeploymentName d \<and>
      st_simulator_deployment (dev_status d') = (if sim = None then [] else simulatorDeploymentName d) \<and>
      st_simulator_service (dev_status d') = (if sim = None then [] else SimulatorServiceName (om_name (dev_meta d)))))"
  by (rule Reconcile_live [OF assms])

text \<open>
  C35: Nothing is created for a device before its finalizer is stored. A reconciliation of a
  device without the finalizer changes at most the finalizers of that device, and without
  error it stores the finalizer. When the device is already being deleted, which is where a
  device is left whose other finalizers are still pending, it can only fail.
\<close>

theorem Reconcile_finalizer_first:
  assumes "operator_laws c view" and "cl_devices (view w) key = Some d"
    and "DeviceFinalizerName \<notin> set (om_finalizers (dev_meta d))"
    and "device_Reconcile c r w key = (w', res)"
  shows "let stored = (view w)\<lparr>cl_devices := (cl_devices (view w))(key \<mapsto>
        d\<lparr>dev_meta := (dev_meta d)\<lparr>om_finalizers := om_finalizers (dev_meta d) @ [DeviceFinalizerName]\<rparr>\<rparr>)\<rparr> in
    (view w' = view w \<and> res \<noteq> None) \<or> (view w' = stored \<and> \<not> om_deleting (dev_meta d))"
proof -
  have key: "device_key d = key" using get_deviceD(3) [OF assms(1,2)] .
  show ?thesis
  proof (cases "oc_get_device c w key")
    case (Inl e)
    then show ?thesis using get_deviceD(2) [OF assms(1) Inl] assms(2,4)
      by (auto simp: device_Reconcile_def split: if_splits)
  next
    case (Inr x)
    have x: "x = d" using get_deviceD(1) [OF assms(1) Inr] assms(2) by simp
    define d1 where "d1 = oc_add_finalizer c d DeviceFinalizerName"
    have d1: "d1 = d\<lparr>dev_meta := (dev_meta d)\<lparr>om_finalizers := om_finalizers (dev_meta d) @ [DeviceFinalizerName]\<rparr>\<rparr>"
      using assms(3) finalizer_simps(2) [OF assms(1)] by (simp add: d1_def)
    obtain w1 r1 where u: "oc_update_device c w d1 = (w1, r1)" by fastforce
    have w1: "w' = w1" "res = None \<longrightarrow> (\<exists>y. r1 = Inr y)"
      using assms(3,4) Inr x u finalizer_simps(1) [OF assms(1)]
      by (auto simp: device_Reconcile_def d1_def [symmetric] split: sum.splits)
    have "device_key d1 = key" by (simp add: d1 key)
    then have "view w1 = view w \<and> (\<exists>e. r1 = Inl e) \<or>
      \<not> (om_deleting (dev_meta d) \<and> \<not> set (om_finalizers (dev_meta d1)) \<subseteq> set (om_finalizers (dev_meta d))) \<and>
      view w1 = stored_device (view w) (d1\<lparr>dev_status := dev_status d\<rparr>)"
      using update_deviceD [OF assms(1) _ u] assms(2) by simp
    then show ?thesis
      using w1 assms(3) key by (auto simp: Let_def d1 stored_device_def)
  qed
qed


text \<open>A deletion either stops early with an error and the device as it was, or reaches the release with nothing left.\<close>

lemma reconcileDelete_cases:
  assumes laws: "operator_laws c view" and d: "cl_devices (view w) key = Some d" "device_key d = key"
    and rd: "reconcileDelete c r w d = (w', res)"
  obtains d' where "res \<noteq> None" "cl_devices (view w') key = Some d'" "dev_meta d' = dev_meta d"
  | w3 latest r4 where "workloads_gone r d (view w3)" "cl_devices (view w3) key = Some latest"
      "dev_meta latest = dev_meta d" "oc_update_device c w3 (oc_remove_finalizer c latest DeviceFinalizerName) = (w', r4)"
      "res = (case r4 of Inl e \<Rightarrow> Some (OpKube e) | Inr _ \<Rightarrow> None)"
proof -
  define stop where "stop = \<lparr>si_gateway = None, si_simulator = None, si_service = [], si_phase = PhaseStopping\<rparr>"
  obtain w1 r1 where 1: "updateStatus c w d stop = (w1, r1)" by fastforce
  obtain w2 r2 where 2: "deleteGateway c r w1 d = (w2, r2)" by fastforce
  obtain w3 r3 where 3: "deleteSimulator c r w2 d = (w3, r3)" by fastforce
  note v2 = deleteGateway_view [OF laws 2] and v3 = deleteSimulator_view [OF laws 3]
  obtain m where m: "view w1 = (view w)\<lparr>cl_devices := m\<rparr>" "map_option dev_meta (m key) = Some (dev_meta d)"
    using updateStatus_view [OF laws 1] d(1) by (metis option.map(2))
  have m1: "\<exists>d'. cl_devices (view w1) key = Some d' \<and> dev_meta d' = dev_meta d"
    using m by (auto simp: map_option_eq_Some)
  have m2: "\<exists>d'. cl_devices (view w2) key = Some d' \<and> dev_meta d' = dev_meta d" using v2 m1 by auto
  have m3: "\<exists>d'. cl_devices (view w3) key = Some d' \<and> dev_meta d' = dev_meta d" using v3 m2 by auto
  note rd' = rd [unfolded reconcileDelete_def, folded stop_def, unfolded 1 2 3 d(2)]
  consider (e1) e where "r1 = Some e" | (e2) e where "r1 = None" "r2 = Some e"
    | (e3) e where "r1 = None" "r2 = None" "r3 = Some e" | (ok) "r1 = None" "r2 = None" "r3 = None"
    by (cases r1; cases r2; cases r3) auto
  then show thesis
  proof cases
    case e1
    then show thesis using rd' m1 that(1) by auto
  next
    case e2
    then show thesis using rd' 2 m2 that(1) by auto
  next
    case e3
    then show thesis using rd' 2 3 m3 that(1) by auto
  next
    case ok
    have gone: "workloads_gone r d (view w3)" using v2 v3 ok by (auto simp: workloads_gone_def)
    show thesis
    proof (cases "oc_get_device c w3 key")
      case (Inl e)
      then show thesis using rd' 2 3 ok m3 that(1) by auto
    next
      case (Inr latest)
      have l: "cl_devices (view w3) key = Some latest" "dev_meta latest = dev_meta d"
        using get_deviceD(1) [OF laws Inr] m3 by auto
      obtain w4 r4 where 4: "oc_update_device c w3 (oc_remove_finalizer c latest DeviceFinalizerName) = (w4, r4)" by fastforce
      have "w' = w4 \<and> res = (case r4 of Inl e \<Rightarrow> Some (OpKube e) | Inr _ \<Rightarrow> None)"
        using rd' 2 3 ok Inr 4 by (cases r4) auto
      then show thesis using that(2) [OF gone l] 4 by simp
    qed
  qed
qed

lemma released_device:
  assumes laws: "operator_laws c view" and gone: "workloads_gone r d (view w3)"
    and l: "cl_devices (view w3) key = Some latest" "dev_meta latest = dev_meta d"
    and d: "om_deleting (dev_meta d)" "device_key d = key" "DeviceFinalizerName \<in> set (om_finalizers (dev_meta d))"
    and up: "oc_update_device c w3 (oc_remove_finalizer c latest DeviceFinalizerName) = (w', r4)"
    and res: "res = (case r4 of Inl e \<Rightarrow> Some (OpKube e) | Inr _ \<Rightarrow> None)"
  shows "let rest = removeAll DeviceFinalizerName (om_finalizers (dev_meta d)); now = cl_devices (view w') key;
      released = (now = None \<or> (\<exists>d'. now = Some d' \<and> DeviceFinalizerName \<notin> set (om_finalizers (dev_meta d')))) in
    (released \<longrightarrow> workloads_gone r d (view w')) \<and>
    (res = None \<longrightarrow> released \<and> (if rest = [] then now = None else (\<exists>d'. now = Some d' \<and> om_finalizers (dev_meta d') = rest)))"
proof -
  define d1 where "d1 = oc_remove_finalizer c latest DeviceFinalizerName"
  have d1: "d1 = latest\<lparr>dev_meta := (dev_meta latest)\<lparr>om_finalizers :=
      removeAll DeviceFinalizerName (om_finalizers (dev_meta d))\<rparr>\<rparr>"
    using finalizer_simps(3) [OF laws] l by (simp add: d1_def)
  have k1: "device_key d1 = key" using d(2) l by (simp add: d1 device_key_def)
  have "view w' = view w3 \<and> (\<exists>e. r4 = Inl e) \<or> view w' = stored_device (view w3) (d1\<lparr>dev_status := dev_status latest\<rparr>)"
    using update_deviceD [OF laws _ up [folded d1_def]] l k1 by blast
  then show ?thesis
  proof
    assume "view w' = view w3 \<and> (\<exists>e. r4 = Inl e)"
    then show ?thesis using l d(3) res by (auto simp: Let_def)
  next
    assume s: "view w' = stored_device (view w3) (d1\<lparr>dev_status := dev_status latest\<rparr>)"
    have "workloads_gone r d (view w')" using gone s by (simp add: workloads_gone_def stored_device_def)
    moreover have "cl_devices (view w') key =
        (if removeAll DeviceFinalizerName (om_finalizers (dev_meta d)) = [] then None else Some (d1\<lparr>dev_status := dev_status latest\<rparr>))"
      using s k1 d(1) l by (simp add: stored_device_def d1)
    ultimately show ?thesis by (simp add: Let_def d1)
  qed
qed

lemma Reconcile_deleted:
  assumes "operator_laws c view" and "cl_devices (view w) key = Some d"
    and "DeviceFinalizerName \<in> set (om_finalizers (dev_meta d))" and "om_deleting (dev_meta d)"
    and "device_Reconcile c r w key = (w', res)"
  shows "let rest = removeAll DeviceFinalizerName (om_finalizers (dev_meta d)); now = cl_devices (view w') key;
      released = (now = None \<or> (\<exists>d'. now = Some d' \<and> DeviceFinalizerName \<notin> set (om_finalizers (dev_meta d')))) in
    (released \<longrightarrow> workloads_gone r d (view w')) \<and>
    (res = None \<longrightarrow> released \<and> (if rest = [] then now = None else (\<exists>d'. now = Some d' \<and> om_finalizers (dev_meta d') = rest)))"
proof -
  have key: "device_key d = key" using get_deviceD(3) [OF assms(1,2)] .
  have stopped: ?thesis if "res \<noteq> None" "cl_devices (view w') key = Some d'" "dev_meta d' = dev_meta d" for d'
    using that assms(3) by (auto simp: Let_def)
  show ?thesis
  proof (cases "oc_get_device c w key")
    case (Inl e)
    then show ?thesis using get_deviceD(2) [OF assms(1) Inl] assms(2,5)
      by (intro stopped) (auto simp: device_Reconcile_def split: if_splits)
  next
    case (Inr x)
    have "x = d" using get_deviceD(1) [OF assms(1) Inr] assms(2) by simp
    then have rd: "reconcileDelete c r w d = (w', res)"
      using assms(3-5) Inr finalizer_simps(1) [OF assms(1)] by (simp add: device_Reconcile_def)
    from assms(1,2) key rd show ?thesis
    proof (cases rule: reconcileDelete_cases)
      case 1
      then show ?thesis by (rule stopped)
    next
      case 2
      then show ?thesis using released_device [OF assms(1) 2(1-3) assms(4) key assms(3) 2(4,5)] by blast
    qed
  qed
qed

text \<open>
  C3: A device is let go only after its workloads. When a device is deleted, its gateway
  deployment, service account, simulator deployment and simulator Service are all gone before
  the finalizer is taken off: whatever calls fail, a device that has lost the finalizer has no
  workloads, and a reconciliation without error has taken off the finalizer, which removes the
  device unless it has others.
\<close>

theorem Reconcile_deletes_before_release:
  assumes "operator_laws c view" and "cl_devices (view w) key = Some d"
    and "DeviceFinalizerName \<in> set (om_finalizers (dev_meta d))" and "om_deleting (dev_meta d)"
    and "device_Reconcile c r w key = (w', res)"
  shows "let rest = removeAll DeviceFinalizerName (om_finalizers (dev_meta d)); now = cl_devices (view w') key;
      released = (now = None \<or> (\<exists>d'. now = Some d' \<and> DeviceFinalizerName \<notin> set (om_finalizers (dev_meta d')))) in
    (released \<longrightarrow> workloads_gone r d (view w')) \<and>
    (res = None \<longrightarrow> released \<and> (if rest = [] then now = None else (\<exists>d'. now = Some d' \<and> om_finalizers (dev_meta d') = rest)))"
  by (rule Reconcile_deleted [OF assms])

text \<open>
  The gateway of a device runs: the deployment of its name has a container that is told the device's
  namespace and name.
\<close>

definition gateway_serves :: "operator_config \<Rightarrow> z21device \<Rightarrow> cluster \<Rightarrow> bool" where
  "gateway_serves r d cl \<longleftrightarrow>
     (case cl_deployments cl (workloadNamespace r, gatewayDeploymentName d) of
        None \<Rightarrow> False
      | Some dep \<Rightarrow> list_ex (\<lambda>ct. gm_get (ct_env ct) ''Z21_DEVICE_NAMESPACE'' = Some (om_namespace (dev_meta d)) \<and>
          gm_get (ct_env ct) ''Z21_DEVICE_NAME'' = Some (om_name (dev_meta d))) (pod_containers (dp_pod (dep_spec dep))))"

lemma gateway_env_names:
  "gm_get (gateway_env U d addr cfg) ''Z21_DEVICE_NAMESPACE'' = Some (om_namespace (dev_meta d))"
  "gm_get (gateway_env U d addr cfg) ''Z21_DEVICE_NAME'' = Some (om_name (dev_meta d))"
  by (simp_all add: gateway_env_def gm_get_def)

lemma spec_obs_containers:
  assumes "spec_obs s = spec_obs t"
  shows "map ct_env (pod_containers (dp_pod s)) = map ct_env (pod_containers (dp_pod t))"
proof -
  have "map (\<lambda>c. (ct_name c, ct_image c, ct_pull_policy c, ct_args c, ct_env c, ct_ports c, ct_liveness c, ct_readiness c)) (pod_containers (dp_pod s)) =
    map (\<lambda>c. (ct_name c, ct_image c, ct_pull_policy c, ct_args c, ct_env c, ct_ports c, ct_liveness c, ct_readiness c)) (pod_containers (dp_pod t))"
    using assms by (simp add: spec_obs_def)
  from arg_cong [OF this, of "map (\<lambda>(n, i, p, as, env, _). env)"] show ?thesis by (simp add: comp_def)
qed

lemma workloads_ok_serves:
  assumes "workloads_ok U r e cfg cl" and "om_name (dev_meta d) = om_name (dev_meta e)"
  shows "gateway_serves r d cl \<longleftrightarrow> om_namespace (dev_meta d) = om_namespace (dev_meta e)"
proof -
  obtain dep addr where dep: "cl_deployments cl (workloadNamespace r, gatewayDeploymentName e) = Some dep"
    "spec_obs (dep_spec dep) = spec_obs (dep_spec (desiredGatewayDeployment U e (gatewayImage r) (gatewayServiceAccountName e) addr cfg))"
    using assms(1) unfolding workloads_ok_def Let_def by blast
  have env: "map ct_env (pod_containers (dp_pod (dep_spec dep))) = [gateway_env U e addr cfg]"
    unfolding spec_obs_containers [OF dep(2)] by (simp add: desiredGatewayDeployment_def Let_def)
  have "gatewayDeploymentName d = gatewayDeploymentName e" using assms(2) by (simp add: gatewayDeploymentName_def)
  moreover from env obtain ct where "pod_containers (dp_pod (dep_spec dep)) = [ct]" "ct_env ct = gateway_env U e addr cfg"
    by (auto simp: map_eq_Cons_conv)
  ultimately show ?thesis
    using dep(1) assms(2) by (auto simp: gateway_serves_def gateway_env_names)
qed

text \<open>
  C36: Two devices of the same name in different namespaces take each other's gateway. Their gateways
  share the name of their deployment, so a successful reconciliation of one device leaves its own
  gateway there and none of the other device, whose stored object is not touched; and a successful
  deletion of one device deletes the gateway that the other needs.
\<close>

theorem same_name_devices_collide:
  assumes "operator_laws c view" and "cl_devices (view w) (device_key e) = Some e"
    and "DeviceFinalizerName \<in> set (om_finalizers (dev_meta e))"
    and "om_name (dev_meta d) = om_name (dev_meta e)" and "om_namespace (dev_meta d) \<noteq> om_namespace (dev_meta e)"
    and "device_Reconcile c r w (device_key e) = (w', None)"
  shows "if om_deleting (dev_meta e) then cl_deployments (view w') (workloadNamespace r, gatewayDeploymentName d) = None
    else cl_devices (view w') (device_key d) = cl_devices (view w) (device_key d) \<and>
      (\<exists>e'. cl_devices (view w') (device_key e) = Some e' \<and>
        (st_phase (dev_status e') \<noteq> PhaseFailed \<longrightarrow> gateway_serves r e (view w') \<and> \<not> gateway_serves r d (view w')))"
proof (cases "om_deleting (dev_meta e)")
  case True
  have "gatewayDeploymentName d = gatewayDeploymentName e" using assms(4) by (simp add: gatewayDeploymentName_def)
  moreover have "workloads_gone r e (view w')"
    using Reconcile_deleted [OF assms(1-3) True assms(6)] by (auto simp: Let_def)
  ultimately show ?thesis using True by (simp add: workloads_gone_def)
next
  case False
  have "device_key d \<noteq> device_key e" using assms(5) by (simp add: device_key_def)
  then show ?thesis
    using Reconcile_live [OF assms(1-3) False assms(6)] False workloads_ok_serves [OF _ assms(4)] workloads_ok_serves [OF _ refl] assms(5)
    by auto
qed

section \<open>A cluster in memory\<close>

text \<open>A client over a cluster record that never fails; objects under a key that is not theirs are not there.\<close>

definition keyed :: "('o \<Rightarrow> key) \<Rightarrow> (key \<Rightarrow> 'o option) \<Rightarrow> key \<Rightarrow> 'o option" where
  "keyed kf m k = (case m k of None \<Rightarrow> None | Some x \<Rightarrow> if kf x = k then Some x else None)"

lemma keyed_upd:
  "keyed kf (m(k := None)) = (keyed kf m)(k := None)"
  "kf x = k \<Longrightarrow> keyed kf (m(k \<mapsto> x)) = (keyed kf m)(k \<mapsto> x)"
  by (auto simp: keyed_def fun_eq_iff)

lemma keyed_Some: "keyed kf m k = Some x \<longleftrightarrow> m k = Some x \<and> kf x = k"
  by (auto simp: keyed_def split: option.splits)

definition mem_objects_view :: "cluster \<Rightarrow> cluster" where
  "mem_objects_view cl = cl\<lparr>cl_devices := keyed device_key (cl_devices cl)\<rparr>"

definition mem_resource ::
  "(cluster \<Rightarrow> key \<Rightarrow> 'o option) \<Rightarrow> (((key \<Rightarrow> 'o option) \<Rightarrow> key \<Rightarrow> 'o option) \<Rightarrow> cluster \<Rightarrow> cluster) \<Rightarrow> ('o \<Rightarrow> object_meta)
     \<Rightarrow> (object_meta \<Rightarrow> 'o \<Rightarrow> 'o) \<Rightarrow> (cluster, 'o) resource_client" where
  "mem_resource sel upd meta set_meta =
     \<lparr>res_get = (\<lambda>w k. case sel w k of
         Some x \<Rightarrow> if meta_key (meta x) = k then Inr x else Inl (KubeError ''corrupt'')
       | None \<Rightarrow> Inl (KubeNotFound (snd k))),
      res_create = (\<lambda>w x. (upd (\<lambda>m. m(meta_key (meta x) \<mapsto> x)) w, Inr x)),
      res_apply = (\<lambda>w x f.
         (case f (case sel w (meta_key (meta x)) of None \<Rightarrow> x | Some old \<Rightarrow> old) of
            Inl e \<Rightarrow> (w, Inl e)
          | Inr y \<Rightarrow> (let z = (if meta_key (meta y) = meta_key (meta x) then y
                              else set_meta (named_meta (fst (meta_key (meta x))) (snd (meta_key (meta x)))\<lparr>om_labels := om_labels (meta y)\<rparr>) y)
                     in (upd (\<lambda>m. m(meta_key (meta x) \<mapsto> z)) w, Inr z)))),
      res_delete = (\<lambda>w k. (upd (\<lambda>m. m(k := None)) w, None))\<rparr>"

definition mem_operator :: "cluster operator_client" where
  "mem_operator =
     \<lparr>oc_get_device = (\<lambda>w k. case keyed device_key (cl_devices w) k of Some d \<Rightarrow> Inr d | None \<Rightarrow> Inl (KubeNotFound (snd k))),
      oc_update_device = (\<lambda>w d. case keyed device_key (cl_devices w) (device_key d) of
          None \<Rightarrow> (w, Inl (KubeNotFound []))
        | Some old \<Rightarrow>
            if om_deleting (dev_meta old) \<and> \<not> list_all (\<lambda>f. f \<in> set (om_finalizers (dev_meta old))) (om_finalizers (dev_meta d))
            then (w, Inl (KubeError ''no new finalizers''))
            else (stored_device w (d\<lparr>dev_status := dev_status old\<rparr>), Inr (d\<lparr>dev_status := dev_status old\<rparr>))),
      oc_patch_status = (\<lambda>w base d. (w\<lparr>cl_devices := (cl_devices w)(device_key d \<mapsto> d)\<rparr>, None)),
      oc_list_devices = (\<lambda>w. Inl (KubeError [])),
      oc_get_configmap = (\<lambda>w k. Inl (KubeNotFound [])),
      oc_deployments = mem_resource cl_deployments cl_deployments_update dep_meta (\<lambda>m x. x\<lparr>dep_meta := m\<rparr>),
      oc_services = mem_resource cl_services cl_services_update svc_meta (\<lambda>m x. x\<lparr>svc_meta := m\<rparr>),
      oc_accounts = mem_resource cl_accounts cl_accounts_update sa_meta (\<lambda>m x. x\<lparr>sa_meta := m\<rparr>),
      oc_roles = mem_resource cl_roles cl_roles_update role_meta (\<lambda>m x. x\<lparr>role_meta := m\<rparr>),
      oc_bindings = mem_resource cl_bindings cl_bindings_update rb_meta (\<lambda>m x. x\<lparr>rb_meta := m\<rparr>),
      oc_set_owner = (\<lambda>d owners. Inr [\<lparr>or_kind = ''Z21Device'', or_name = om_name (dev_meta d), or_controller = True\<rparr>]),
      oc_has_finalizer = (\<lambda>d f. f \<in> set (om_finalizers (dev_meta d))),
      oc_add_finalizer = (\<lambda>d f. d\<lparr>dev_meta := (dev_meta d)\<lparr>om_finalizers :=
        (if f \<in> set (om_finalizers (dev_meta d)) then om_finalizers (dev_meta d) else om_finalizers (dev_meta d) @ [f])\<rparr>\<rparr>),
      oc_remove_finalizer = (\<lambda>d f. d\<lparr>dev_meta := (dev_meta d)\<lparr>om_finalizers := removeAll f (om_finalizers (dev_meta d))\<rparr>\<rparr>),
      oc_set_condition = list_set_condition, oc_spec_equal = (\<lambda>s t. s = t), oc_url = example_url\<rparr>"

text \<open>A resource in memory meets the laws, for any field of the cluster that is a lens.\<close>

lemma mem_resource_laws:
  assumes "\<And>cl f. sel (upd f cl) = f (sel cl)" and "\<And>f cl. mem_objects_view (upd f cl) = upd f (mem_objects_view cl)"
    and "\<And>cl. sel (mem_objects_view cl) = sel cl"
    and "\<And>m x. meta (set_meta m x) = m" and "\<And>cl k. upd (\<lambda>m. m(k := sel cl k)) cl = cl"
    and "\<And>m x. om_labels m = om_labels (meta x) \<Longrightarrow> obs (set_meta m x) = obs x"
  shows "res_reads (mem_resource sel upd meta set_meta) (sel \<circ> mem_objects_view) meta"
    and "res_deletes (mem_resource sel upd meta set_meta) mem_objects_view upd"
    and "res_writes (mem_resource sel upd meta set_meta) mem_objects_view sel upd meta obs"
proof -
  show "res_reads (mem_resource sel upd meta set_meta) (sel \<circ> mem_objects_view) meta"
    by (simp add: res_reads_def mem_resource_def assms(3) split: option.split)
  show "res_deletes (mem_resource sel upd meta set_meta) mem_objects_view upd"
    by (simp add: res_deletes_def mem_resource_def assms(2) Let_def)
  have "res_stores mem_objects_view upd meta obs w (meta_key (meta x))
        (\<lambda>y. \<exists>z. f (case sel (mem_objects_view w) (meta_key (meta x)) of None \<Rightarrow> x | Some old \<Rightarrow> old) = Inr z \<and> obs y = obs z)
        (res_apply (mem_resource sel upd meta set_meta) w x f)" for w x and f :: "'a \<Rightarrow> kube_error + 'a"
  proof (cases "f (case sel w (meta_key (meta x)) of None \<Rightarrow> x | Some old \<Rightarrow> old)")
    case (Inl e)
    have "mem_objects_view w = upd (\<lambda>m. m(meta_key (meta x) := sel w (meta_key (meta x)))) (mem_objects_view w)"
      using assms(5) [of "meta_key (meta x)" "mem_objects_view w"] by (simp add: assms(3))
    then show ?thesis using Inl by (auto simp: res_stores_def mem_resource_def)
  next
    case (Inr y)
    have "meta_key (named_meta ns n\<lparr>om_labels := l\<rparr>) = (ns, n)" for ns n l by simp
    then show ?thesis using Inr by (simp add: res_stores_def mem_resource_def assms(2,3,4,6) Let_def)
  qed
  moreover have "res_stores mem_objects_view upd meta obs w (meta_key (meta x)) (\<lambda>y. obs y = obs x)
      (res_create (mem_resource sel upd meta set_meta) w x)" for w x
    by (simp add: res_stores_def mem_resource_def assms(2))
  ultimately show "res_writes (mem_resource sel upd meta set_meta) mem_objects_view sel upd meta obs"
    unfolding res_writes_def by blast
qed

lemma mem_view_upd:
  "mem_objects_view (cl_deployments_update f1 cl) = cl_deployments_update f1 (mem_objects_view cl)"
  "mem_objects_view (cl_services_update f2 cl) = cl_services_update f2 (mem_objects_view cl)"
  "mem_objects_view (cl_accounts_update f3 cl) = cl_accounts_update f3 (mem_objects_view cl)"
  "mem_objects_view (cl_roles_update f4 cl) = cl_roles_update f4 (mem_objects_view cl)"
  "mem_objects_view (cl_bindings_update f5 cl) = cl_bindings_update f5 (mem_objects_view cl)"
  by (simp_all add: mem_objects_view_def)

lemma mem_view_sel [simp]:
  "cl_deployments (mem_objects_view cl) = cl_deployments cl" "cl_services (mem_objects_view cl) = cl_services cl"
  "cl_accounts (mem_objects_view cl) = cl_accounts cl" "cl_roles (mem_objects_view cl) = cl_roles cl"
  "cl_bindings (mem_objects_view cl) = cl_bindings cl" "cl_devices (mem_objects_view cl) = keyed device_key (cl_devices cl)"
  by (simp_all add: mem_objects_view_def)

lemma mem_stored_device:
  "mem_objects_view (stored_device w d) = stored_device (mem_objects_view w) d"
  by (simp add: mem_objects_view_def stored_device_def keyed_upd)

lemma mem_device_calls:
  "oc_get_device mem_operator w k =
     (case keyed device_key (cl_devices w) k of Some d \<Rightarrow> Inr d | None \<Rightarrow> Inl (KubeNotFound (snd k)))"
  "keyed device_key (cl_devices w) (device_key d) = Some old \<Longrightarrow> oc_update_device mem_operator w d =
     (if om_deleting (dev_meta old) \<and> \<not> set (om_finalizers (dev_meta d)) \<subseteq> set (om_finalizers (dev_meta old))
      then (w, Inl (KubeError ''no new finalizers''))
      else (stored_device w (d\<lparr>dev_status := dev_status old\<rparr>), Inr (d\<lparr>dev_status := dev_status old\<rparr>)))"
  "oc_patch_status mem_operator w base d = (w\<lparr>cl_devices := (cl_devices w)(device_key d \<mapsto> d)\<rparr>, None)"
  by (simp_all add: mem_operator_def subset_eq Ball_set)

lemma mem_patched:
  assumes "dev_meta new = dev_meta d"
  shows "mem_objects_view (w\<lparr>cl_devices := (cl_devices w)(device_key new \<mapsto> new)\<rparr>) =
    (mem_objects_view w)\<lparr>cl_devices := (cl_devices (mem_objects_view w))(device_key d \<mapsto> new)\<rparr>"
proof -
  have "device_key d = device_key new" using assms by (simp add: device_key_def)
  then show ?thesis by (simp add: mem_objects_view_def keyed_upd)
qed

lemma mem_device_writes: "device_writes mem_operator mem_objects_view"
  unfolding device_writes_def
proof (intro conjI allI impI)
  show "case oc_get_device mem_operator w k of Inl e \<Rightarrow> is_not_found e \<longrightarrow> cl_devices (mem_objects_view w) k = None
      | Inr d \<Rightarrow> cl_devices (mem_objects_view w) k = Some d" for w k
    by (simp add: mem_device_calls split: option.split)
  show "cl_devices (mem_objects_view w) k = Some d \<Longrightarrow> device_key d = k" for w k d
    by (simp add: keyed_Some)
next
  fix w and d old :: z21device
  assume "cl_devices (mem_objects_view w) (device_key d) = Some old"
  then have "keyed device_key (cl_devices w) (device_key d) = Some old" by simp
  then show "let (w', r) = oc_update_device mem_operator w d; new = d\<lparr>dev_status := dev_status old\<rparr>;
        refused = (om_deleting (dev_meta old) \<and> \<not> set (om_finalizers (dev_meta d)) \<subseteq> set (om_finalizers (dev_meta old)))
     in case r of Inl e \<Rightarrow> mem_objects_view w' = mem_objects_view w \<or> \<not> refused \<and> mem_objects_view w' = stored_device (mem_objects_view w) new
        | Inr x \<Rightarrow> \<not> refused \<and> x = new \<and> mem_objects_view w' = stored_device (mem_objects_view w) new"
    unfolding mem_device_calls(2) [OF \<open>keyed _ _ _ = Some old\<close>] by (simp add: Let_def mem_stored_device)
next
  fix w and d new :: z21device
  assume "cl_devices (mem_objects_view w) (device_key d) = Some d \<and> dev_meta new = dev_meta d \<and> dev_spec new = dev_spec d"
  then show "let (w', r) = oc_patch_status mem_operator w d new;
         stored = (mem_objects_view w)\<lparr>cl_devices := (cl_devices (mem_objects_view w))(device_key d \<mapsto> new)\<rparr>
     in mem_objects_view w' = stored \<or> r \<noteq> None \<and> mem_objects_view w' = mem_objects_view w"
    unfolding mem_device_calls Let_def split_conv using mem_patched [of new d w] by blast
qed

lemma mem_operator_laws: "operator_laws mem_operator mem_objects_view"
  unfolding operator_laws_def
proof (intro conjI)
  show "finalizer_laws mem_operator" by (simp add: finalizer_laws_def mem_operator_def)
  show "condition_laws (oc_set_condition mem_operator)" by (simp add: mem_operator_def list_set_condition_laws)
  show "device_writes mem_operator mem_objects_view" by (rule mem_device_writes)
  show "spec_equal_law mem_operator" by (simp add: spec_equal_law_def mem_operator_def)
  show "res_reads (oc_deployments mem_operator) (cl_deployments \<circ> mem_objects_view) dep_meta"
    "res_deletes (oc_deployments mem_operator) mem_objects_view cl_deployments_update"
    "res_writes (oc_deployments mem_operator) mem_objects_view cl_deployments cl_deployments_update dep_meta
      (\<lambda>x. (om_labels (dep_meta x), spec_obs (dep_spec x)))"
    unfolding mem_operator_def operator_client.simps
    by (rule mem_resource_laws; simp add: mem_view_upd)+
  show "res_deletes (oc_services mem_operator) mem_objects_view cl_services_update"
    "res_writes (oc_services mem_operator) mem_objects_view cl_services cl_services_update svc_meta service_obs"
    unfolding mem_operator_def operator_client.simps
    by (rule mem_resource_laws [where sel = cl_services]; simp add: mem_view_upd service_obs_def)+
  show "res_deletes (oc_accounts mem_operator) mem_objects_view cl_accounts_update"
    "res_writes (oc_accounts mem_operator) mem_objects_view cl_accounts cl_accounts_update sa_meta (om_labels \<circ> sa_meta)"
    unfolding mem_operator_def operator_client.simps
    by (rule mem_resource_laws [where sel = cl_accounts]; simp add: mem_view_upd)+
  show "res_writes (oc_roles mem_operator) mem_objects_view cl_roles cl_roles_update role_meta role_obs"
    unfolding mem_operator_def operator_client.simps
    by (rule mem_resource_laws; simp add: mem_view_upd role_obs_def)
  show "res_writes (oc_bindings mem_operator) mem_objects_view cl_bindings cl_bindings_update rb_meta binding_obs"
    unfolding mem_operator_def operator_client.simps
    by (rule mem_resource_laws; simp add: mem_view_upd binding_obs_def)
qed

definition finalized :: "bool \<Rightarrow> string list \<Rightarrow> z21device \<Rightarrow> z21device" where
  "finalized deleting fs d = d\<lparr>dev_meta := (dev_meta d)\<lparr>om_deleting := deleting, om_finalizers := fs\<rparr>\<rparr>"

definition cluster_with :: "z21device list \<Rightarrow> cluster" where
  "cluster_with ds =
     \<lparr>cl_devices = map_of (map (\<lambda>d. (device_key d, d)) ds), cl_deployments = Map.empty, cl_services = Map.empty,
      cl_accounts = Map.empty, cl_roles = Map.empty, cl_bindings = Map.empty\<rparr>"

definition plain_operator :: operator_config where
  "plain_operator = \<lparr>GatewayImage = [], WorkloadNamespace = []\<rparr>"

lemma cluster_with_single: "cl_devices (mem_objects_view (cluster_with [d])) (device_key d) = Some d"
  by (simp add: cluster_with_def keyed_Some)

theorem Reconcile_finalizer_first_witness:
  "let d = finalized True [''other''] example_hardware in
   snd (device_Reconcile mem_operator plain_operator (cluster_with [d]) (device_key d)) \<noteq> None"
proof -
  define d where "d = finalized True [''other''] example_hardware"
  obtain w' res where r: "device_Reconcile mem_operator plain_operator (cluster_with [d]) (device_key d) = (w', res)" by fastforce
  have "DeviceFinalizerName \<notin> set (om_finalizers (dev_meta d))" "om_deleting (dev_meta d)"
    by (simp_all add: d_def finalized_def DeviceFinalizerName_def)
  then show ?thesis
    using Reconcile_finalizer_first [OF mem_operator_laws cluster_with_single _ r] r
    unfolding d_def [symmetric] Let_def by simp
qed

lemma mem_delete:
  "delete_resource (oc_deployments mem_operator) w k what = (w\<lparr>cl_deployments := (cl_deployments w)(k := None)\<rparr>, None)"
  "delete_resource (oc_services mem_operator) w k what = (w\<lparr>cl_services := (cl_services w)(k := None)\<rparr>, None)"
  "delete_resource (oc_accounts mem_operator) w k what = (w\<lparr>cl_accounts := (cl_accounts w)(k := None)\<rparr>, None)"
  by (simp_all add: delete_resource_def mem_operator_def mem_resource_def)

lemma mem_updateStatus:
  assumes "keyed device_key (cl_devices w) (device_key d) = Some d0"
  shows "\<exists>d1. updateStatus mem_operator w d inp = (w\<lparr>cl_devices := (cl_devices w)(device_key d \<mapsto> d1)\<rparr>, None) \<and>
    dev_meta d1 = dev_meta d0 \<and> dev_spec d1 = dev_spec d0"
proof -
  have d0: "cl_devices w (device_key d) = Some d0" "device_key d0 = device_key d" using assms by (simp_all add: keyed_Some)
  have "device_key (with_device_status mem_operator inp d0) = device_key d" using d0(2) by (simp add: device_key_def)
  then show ?thesis
    using d0 assms
    by (cases "deviceStatusIsCurrent d0 inp (deploy_name (si_gateway inp)) (deploy_name (si_simulator inp)) (gatewayReadyStatus (si_gateway inp))")
      (auto simp: updateStatus_def mem_device_calls fun_upd_idem intro: exI [of _ d0] exI [of _ "with_device_status mem_operator inp d0"])
qed

lemma mem_reconcileDelete:
  assumes "keyed device_key (cl_devices w) (device_key d) = Some d" and "om_deleting (dev_meta d)"
  shows "snd (reconcileDelete mem_operator r w d) = None"
proof -
  obtain d1 where d1: "updateStatus mem_operator w d \<lparr>si_gateway = None, si_simulator = None, si_service = [], si_phase = PhaseStopping\<rparr> =
      (w\<lparr>cl_devices := (cl_devices w)(device_key d \<mapsto> d1)\<rparr>, None)" "dev_meta d1 = dev_meta d"
    using mem_updateStatus [OF assms(1)] by blast
  have k: "device_key d1 = device_key d" using d1(2) by (simp add: device_key_def)
  have rm: "oc_remove_finalizer mem_operator x f = x\<lparr>dev_meta := (dev_meta x)\<lparr>om_finalizers := removeAll f (om_finalizers (dev_meta x))\<rparr>\<rparr>" for x f
    by (simp add: mem_operator_def)
  have up: "oc_update_device mem_operator v (d1\<lparr>dev_meta := (dev_meta d1)\<lparr>om_finalizers := removeAll f (om_finalizers (dev_meta d1))\<rparr>\<rparr>) =
      (stored_device v (d1\<lparr>dev_meta := (dev_meta d1)\<lparr>om_finalizers := removeAll f (om_finalizers (dev_meta d1))\<rparr>, dev_status := dev_status d1\<rparr>),
       Inr (d1\<lparr>dev_meta := (dev_meta d1)\<lparr>om_finalizers := removeAll f (om_finalizers (dev_meta d1))\<rparr>, dev_status := dev_status d1\<rparr>))"
    if "keyed device_key (cl_devices v) (device_key d) = Some d1" for v f
    using mem_device_calls(2) [of v "d1\<lparr>dev_meta := (dev_meta d1)\<lparr>om_finalizers := removeAll f (om_finalizers (dev_meta d1))\<rparr>\<rparr>" d1] that k
    by (auto simp del: z21device.surjective)
  show ?thesis
    using k by (simp add: reconcileDelete_def d1(1) deleteGateway_def deleteSimulator_def mem_delete mem_device_calls(1) keyed_upd rm up)
qed

theorem Reconcile_deletes_before_release_witness:
  "let d = finalized True [DeviceFinalizerName] example_simulator;
       w' = fst (device_Reconcile mem_operator plain_operator (cluster_with [d]) (device_key d)) in
   cl_devices (mem_objects_view w') (device_key d) = None \<and> workloads_gone plain_operator d (mem_objects_view w')"
proof -
  define d where "d = finalized True [DeviceFinalizerName] example_simulator"
  obtain w' res where r: "device_Reconcile mem_operator plain_operator (cluster_with [d]) (device_key d) = (w', res)" by fastforce
  have d: "DeviceFinalizerName \<in> set (om_finalizers (dev_meta d))" "om_deleting (dev_meta d)"
    "removeAll DeviceFinalizerName (om_finalizers (dev_meta d)) = []"
    by (simp_all add: d_def finalized_def)
  have kd: "keyed device_key (cl_devices (cluster_with [d])) (device_key d) = Some d" using cluster_with_single [of d] by simp
  have "res = None"
    using r mem_reconcileDelete [OF kd d(2), of plain_operator] d finalizer_simps(1) [OF mem_operator_laws]
    by (simp add: device_Reconcile_def mem_device_calls(1) kd)
  then show ?thesis
    using Reconcile_deletes_before_release [OF mem_operator_laws cluster_with_single d(1,2) r] r d
    unfolding d_def [symmetric] Let_def by simp
qed

lemma mem_apply_ok:
  assumes "\<And>v. \<exists>y. f v = Inr y"
  shows "\<exists>w' z. res_apply (mem_resource sel upd meta set_meta) w x f = (w', Inr z)"
proof -
  obtain y where "f (case sel w (meta_key (meta x)) of None \<Rightarrow> x | Some old \<Rightarrow> old) = Inr y" using assms by blast
  then show ?thesis by (simp add: mem_resource_def Let_def)
qed

lemma mem_gateway_steps:
  "\<exists>w'. reconcileGatewayServiceAccount mem_operator r w d = (w', Inr (gatewayServiceAccountName d))"
  "\<exists>w'. reconcileGatewayRBAC mem_operator r w d sa = (w', None)"
proof -
  have sel: "oc_accounts mem_operator = mem_resource cl_accounts cl_accounts_update sa_meta (\<lambda>m x. x\<lparr>sa_meta := m\<rparr>)"
    "oc_roles mem_operator = mem_resource cl_roles cl_roles_update role_meta (\<lambda>m x. x\<lparr>role_meta := m\<rparr>)"
    "oc_bindings mem_operator = mem_resource cl_bindings cl_bindings_update rb_meta (\<lambda>m x. x\<lparr>rb_meta := m\<rparr>)"
    by (simp_all add: mem_operator_def)
  have a: "\<exists>w' z. res_apply (oc_accounts mem_operator) w x (\<lambda>sa. Inr (sa\<lparr>sa_meta := (sa_meta sa)\<lparr>om_labels := gatewayLabels d\<rparr>\<rparr>)) = (w', Inr z)" for x
    unfolding sel by (rule mem_apply_ok) simp
  show "\<exists>w'. reconcileGatewayServiceAccount mem_operator r w d = (w', Inr (gatewayServiceAccountName d))"
    using a [of "\<lparr>sa_meta = named_meta (workloadNamespace r) (gatewayServiceAccountName d)\<rparr>"]
    by (auto simp: reconcileGatewayServiceAccount_def Let_def)
  have 1: "\<exists>w' z. res_apply (oc_roles mem_operator) w x (fill_role mem_operator d) = (w', Inr z)" for w x
    unfolding sel by (rule mem_apply_ok) (simp add: fill_role_def mem_operator_def)
  have 2: "\<exists>w' z. res_apply (oc_bindings mem_operator) w x (fill_binding mem_operator r d sa) = (w', Inr z)" for w x
    unfolding sel by (rule mem_apply_ok) (simp add: fill_binding_def mem_operator_def)
  obtain w1 z1 where 1: "res_apply (oc_roles mem_operator) w \<lparr>role_meta = named_meta (om_namespace (dev_meta d)) (gatewayRoleName d),
      role_owners = [], role_rules = []\<rparr> (fill_role mem_operator d) = (w1, Inr z1)"
    using 1 by blast
  show "\<exists>w'. reconcileGatewayRBAC mem_operator r w d sa = (w', None)"
    unfolding reconcileGatewayRBAC_def Let_def 1
    using 2 [of w1 "\<lparr>rb_meta = named_meta (om_namespace (dev_meta d)) (gatewayRoleBindingName d), rb_owners = [], rb_ref_group = [],
                     rb_ref_kind = [], rb_ref_name = [], rb_subjects = []\<rparr>"] by auto
qed

lemma mem_reconcile_deployment:
  assumes "\<And>old. cl_deployments w (meta_key (dep_meta desired)) = Some old \<Longrightarrow>
      meta_key (dep_meta old) = meta_key (dep_meta desired) \<and> dep_ready old = 0 \<and> dep_conditions old = []"
    and "dep_ready desired = 0" and "dep_conditions desired = []"
  shows "\<exists>w' q. reconcile_deployment mem_operator w desired what = (w', Inr q) \<and> dep_ready q = 0 \<and> dep_conditions q = []"
proof (cases "cl_deployments w (meta_key (dep_meta desired))")
  case None
  then show ?thesis using assms(2,3) by (simp add: reconcile_deployment_def Let_def mem_operator_def mem_resource_def meta_key_def)
next
  case (Some old)
  note old = assms(1) [OF Some]
  then show ?thesis using Some
    by (cases "dep_spec old = dep_spec desired")
      (simp_all add: reconcile_deployment_def Let_def mem_operator_def mem_resource_def meta_key_def)
qed

definition idle_deployment :: "deployment option \<Rightarrow> bool" where
  "idle_deployment x \<longleftrightarrow> (case x of None \<Rightarrow> True | Some q \<Rightarrow> dep_ready q = 0 \<and> dep_conditions q = [])"

text \<open>The deployments of a device before a run: none, or idle ones under their key.\<close>

definition fresh_deployments :: "operator_config \<Rightarrow> z21device \<Rightarrow> (key \<Rightarrow> deployment option) \<Rightarrow> bool" where
  "fresh_deployments r d m \<longleftrightarrow>
     (\<forall>n \<in> {gatewayDeploymentName d, simulatorDeploymentName d}. idle_deployment (m (workloadNamespace r, n)) \<and>
        (case m (workloadNamespace r, n) of None \<Rightarrow> True | Some q \<Rightarrow> meta_key (dep_meta q) = (workloadNamespace r, n)))"

lemma fresh_deploymentsD:
  assumes "fresh_deployments r d m" and "n \<in> {gatewayDeploymentName d, simulatorDeploymentName d}"
    and "m (workloadNamespace r, n) = Some old"
  shows "meta_key (dep_meta old) = (workloadNamespace r, n)" and "dep_ready old = 0" and "dep_conditions old = []"
proof -
  have "idle_deployment (m (workloadNamespace r, n)) \<and>
    (case m (workloadNamespace r, n) of None \<Rightarrow> True | Some q \<Rightarrow> meta_key (dep_meta q) = (workloadNamespace r, n))"
    using assms(1,2) unfolding fresh_deployments_def by blast
  then show "meta_key (dep_meta old) = (workloadNamespace r, n)" and "dep_ready old = 0" and "dep_conditions old = []"
    by (simp_all add: assms(3) idle_deployment_def)
qed

lemma mem_reconcileSimulator:
  assumes "fresh_deployments r d (cl_deployments w)"
  shows "\<exists>w' dep svc. reconcileSimulator mem_operator r w d cfg = (w', dep, svc, None) \<and> idle_deployment dep \<and>
    cl_deployments w' (workloadNamespace r, gatewayDeploymentName d) = cl_deployments w (workloadNamespace r, gatewayDeploymentName d)"
proof -
  have "\<exists>w' dep svc. reconcileSimulator mem_operator r w d cfg = (w', dep, svc, None) \<and> idle_deployment dep"
  proof (cases "be_type (ds_backend (dev_spec d)) = BackendSimulator")
    case False
    then show ?thesis by (simp add: reconcileSimulator_def deleteSimulator_def mem_delete idle_deployment_def)
  next
    case True
    have sel: "oc_services mem_operator = mem_resource cl_services cl_services_update svc_meta (\<lambda>m x. x\<lparr>svc_meta := m\<rparr>)"
      by (simp add: mem_operator_def)
    obtain w1 where 1: "reconcileSimulatorService mem_operator r w d = (w1, Inr (SimulatorServiceName (om_name (dev_meta d))))"
      unfolding reconcileSimulatorService_def Let_def sel mem_resource_def by simp
    have d1: "cl_deployments w1 = cl_deployments w"
      using reconcileSimulatorService_view [OF mem_operator_laws 1]
      by (metis (no_types, lifting) cluster.select_convs(2) cluster.surjective cluster.update_convs(3) mem_view_sel(1))
    define desired where "desired = (desiredSimulatorDeployment d cfg)
      \<lparr>dep_meta := (named_meta (workloadNamespace r) (simulatorDeploymentName d))\<lparr>om_labels := simulatorLabels d\<rparr>\<rparr>"
    have ds: "meta_key (dep_meta desired) = (workloadNamespace r, simulatorDeploymentName d)" "dep_ready desired = 0" "dep_conditions desired = []"
      by (simp_all add: desired_def desiredSimulatorDeployment_def)
    have "\<exists>w2 q. reconcile_deployment mem_operator w1 desired ''simulator deployment'' = (w2, Inr q) \<and> dep_ready q = 0 \<and> dep_conditions q = []"
      by (rule mem_reconcile_deployment)
        (use fresh_deploymentsD [OF assms, of "simulatorDeploymentName d"] in \<open>simp_all add: ds d1\<close>)
    then show ?thesis using True
      by (auto simp: reconcileSimulator_def 1 reconcileSimulatorDeployment_def desired_def [symmetric] Let_def idle_deployment_def)
  qed
  then obtain w' dep svc where r: "reconcileSimulator mem_operator r w d cfg = (w', dep, svc, None)" "idle_deployment dep" by blast
  obtain x y where v: "mem_objects_view w' = (mem_objects_view w)
      \<lparr>cl_deployments := (cl_deployments (mem_objects_view w))((workloadNamespace r, simulatorDeploymentName d) := x),
       cl_services := (cl_services (mem_objects_view w))((workloadNamespace r, SimulatorServiceName (om_name (dev_meta d))) := y)\<rparr>"
    using reconcileSimulator_view [OF mem_operator_laws r(1)] by blast
  have "cl_deployments (mem_objects_view w') = (cl_deployments (mem_objects_view w))((workloadNamespace r, simulatorDeploymentName d) := x)"
    unfolding v by simp
  then show ?thesis using r by simp
qed

lemma mem_reconcile_workloads:
  assumes "Z21Address d = Inr addr" and "fresh_deployments r d (cl_deployments w)"
  shows "si_phase (snd (reconcile_workloads mem_operator r w d)) = PhaseStarting"
proof -
  note laws = mem_operator_laws
  obtain w1 where 1: "reconcileGatewayServiceAccount mem_operator r w d = (w1, Inr (gatewayServiceAccountName d))"
    using mem_gateway_steps by blast
  obtain w2 where 2: "reconcileGatewayRBAC mem_operator r w1 d (gatewayServiceAccountName d) = (w2, None)"
    using mem_gateway_steps by blast
  have d2: "cl_deployments w2 = cl_deployments w"
    using reconcileGatewayServiceAccount_view [OF laws 1] reconcileGatewayRBAC_view [OF laws 2]
    by (metis (no_types, lifting) cluster.select_convs(2) cluster.surjective cluster.update_convs(4,5,6) mem_view_sel(1))
  define cfg where "cfg = loadRuntimeConfig mem_operator r w"
  obtain w3 sim svc where 3: "reconcileSimulator mem_operator r w2 d cfg = (w3, sim, svc, None)" "idle_deployment sim"
    "cl_deployments w3 (workloadNamespace r, gatewayDeploymentName d) = cl_deployments w (workloadNamespace r, gatewayDeploymentName d)"
    using mem_reconcileSimulator [of r d w2 cfg] assms(2) d2 by auto
  define dep where "dep = (desiredGatewayDeployment example_url d (gatewayImage r) (gatewayServiceAccountName d) addr cfg)
      \<lparr>dep_meta := (named_meta (workloadNamespace r) (gatewayDeploymentName d))\<lparr>om_labels := gatewayLabels d\<rparr>\<rparr>"
  have key: "meta_key (dep_meta dep) = (workloadNamespace r, gatewayDeploymentName d)" "dep_ready dep = 0" "dep_conditions dep = []"
    by (simp_all add: dep_def desiredGatewayDeployment_def Let_def)
  have url: "oc_url mem_operator = example_url" by (simp add: mem_operator_def)
  have "\<exists>w4 q. reconcile_deployment mem_operator w3 dep ''deployment'' = (w4, Inr q) \<and> dep_ready q = 0 \<and> dep_conditions q = []"
    by (rule mem_reconcile_deployment)
      (use fresh_deploymentsD [OF assms(2), of "gatewayDeploymentName d"] 3(3) in \<open>simp_all add: key\<close>)
  then have 4: "\<exists>w4 q. reconcileGatewayDeployment mem_operator r w3 d (gatewayServiceAccountName d) cfg = (w4, Inr q) \<and> dep_ready q = 0 \<and> dep_conditions q = []"
    unfolding reconcileGatewayDeployment_def assms(1) sum.case Let_def url dep_def [symmetric] .
  have "computePhase (Some q) sim False = PhaseStarting" if "dep_ready q = 0" "dep_conditions q = []" for q
    using that 3(2) by (auto simp: computePhase_def deployment_up_def word_sle_eq idle_deployment_def split: option.splits)
  then show ?thesis
    using 4 by (auto simp: reconcile_workloads_def Let_def 1 2 3(1) cfg_def [symmetric])
qed

lemma mem_Reconcile:
  assumes k: "keyed device_key (cl_devices w) (device_key d) = Some d"
    and d: "DeviceFinalizerName \<in> set (om_finalizers (dev_meta d))" "\<not> om_deleting (dev_meta d)" "Z21Address d = Inr addr"
    and old: "fresh_deployments r d (cl_deployments w)"
  obtains w' where "device_Reconcile mem_operator r w (device_key d) = (w', None)"
    "\<And>d'. cl_devices (mem_objects_view w') (device_key d) = Some d' \<Longrightarrow> st_phase (dev_status d') \<noteq> PhaseFailed"
proof -
  obtain w' res where r: "device_Reconcile mem_operator r w (device_key d) = (w', res)" by fastforce
  obtain w1 inp where w1: "reconcile_workloads mem_operator r w d = (w1, inp)" by fastforce
  have st: "si_phase inp = PhaseStarting"
    using mem_reconcile_workloads [OF d(3) old] w1 by simp
  have "keyed device_key (cl_devices w1) = keyed device_key (cl_devices w)"
    using reconcile_workloads_view [OF mem_operator_laws w1] by simp
  then have k1: "keyed device_key (cl_devices w1) (device_key d) = Some d" using k by simp
  obtain d1 where "updateStatus mem_operator w1 d inp = (w1\<lparr>cl_devices := (cl_devices w1)(device_key d \<mapsto> d1)\<rparr>, None)"
    using mem_updateStatus [OF k1] by blast
  then have ok: "res = None" "updateStatus mem_operator w1 d inp = (w', None)"
    using r w1 d(1,2) k finalizer_simps(1) [OF mem_operator_laws] by (simp_all add: device_Reconcile_def mem_device_calls(1))
  obtain d' where d': "mem_objects_view w' = (mem_objects_view w1)\<lparr>cl_devices := (cl_devices (mem_objects_view w1))(device_key d \<mapsto> d')\<rparr>" "status_shows inp d'"
    using updateStatus_shows [OF mem_operator_laws ok(2), of d] k1 by auto
  have "cl_devices (mem_objects_view w') (device_key d) = Some d'" unfolding d'(1) by simp
  moreover have "st_phase (dev_status d') \<noteq> PhaseFailed"
    using d'(2) st by (simp add: status_shows_def PhaseStarting_def PhaseFailed_def)
  ultimately show thesis using that [of w'] r ok(1) by auto
qed

lemma no_deployments_fresh: "fresh_deployments r d (cl_deployments (cluster_with ds))"
  by (simp add: fresh_deployments_def idle_deployment_def cluster_with_def)

theorem Reconcile_establishes_workloads_witness:
  "let d = finalized False [DeviceFinalizerName] example_hardware;
       w' = fst (device_Reconcile mem_operator plain_operator (cluster_with [d]) (device_key d)) in
   workloads_ok example_url plain_operator d quiet_config (mem_objects_view w')"
proof -
  define d where "d = finalized False [DeviceFinalizerName] example_hardware"
  have d: "DeviceFinalizerName \<in> set (om_finalizers (dev_meta d))" "\<not> om_deleting (dev_meta d)"
    "\<exists>addr. Z21Address d = Inr addr"
    by (simp_all add: d_def finalized_def example_device_defs BackendHardware_def Z21Address_def)
  have kd: "keyed device_key (cl_devices (cluster_with [d])) (device_key d) = Some d" using cluster_with_single [of d] by simp
  obtain w' where r: "device_Reconcile mem_operator plain_operator (cluster_with [d]) (device_key d) = (w', None)"
    and run: "\<And>d'. cl_devices (mem_objects_view w') (device_key d) = Some d' \<Longrightarrow> st_phase (dev_status d') \<noteq> PhaseFailed"
    using mem_Reconcile [OF kd d(1,2) _ no_deployments_fresh] d(3) by blast
  have cfg: "oc_url mem_operator = example_url" "loadRuntimeConfig mem_operator plain_operator w = quiet_config" for w
    by (simp_all add: mem_operator_def loadRuntimeConfig_def quiet_config_def)
  show ?thesis
    using Reconcile_establishes_workloads [OF mem_operator_laws cluster_with_single d(1,2) r] run
    unfolding d_def [symmetric] Let_def r fst_conv cfg by (metis fun_upd_same)
qed

text \<open>A gateway runs for the device in one namespace, until the device in the other is reconciled.\<close>

definition shared_name :: "string \<Rightarrow> z21device" where
  "shared_name ns = finalized False [DeviceFinalizerName]
     (example_hardware\<lparr>dev_meta := (dev_meta example_hardware)\<lparr>om_namespace := ns\<rparr>\<rparr>)"

definition shared_cluster :: cluster where
  "shared_cluster =
     (let d = shared_name ''layout''; dep = desiredGatewayDeployment example_url d [] [] ''192.168.0.111:21105'' quiet_config in
      (cluster_with [d, shared_name ''other''])\<lparr>cl_deployments :=
        [(''elp'', gatewayDeploymentName d) \<mapsto> dep\<lparr>dep_meta := named_meta ''elp'' (gatewayDeploymentName d)\<rparr>]\<rparr>)"

theorem same_name_devices_collide_witness:
  "let d = shared_name ''layout''; e = shared_name ''other'';
       w' = fst (device_Reconcile mem_operator plain_operator shared_cluster (device_key e)) in
   gateway_serves plain_operator d (mem_objects_view shared_cluster) \<and>
   gateway_serves plain_operator e (mem_objects_view w') \<and> \<not> gateway_serves plain_operator d (mem_objects_view w')"
proof -
  let ?d = "shared_name ''layout''" and ?e = "shared_name ''other''"
  have e: "DeviceFinalizerName \<in> set (om_finalizers (dev_meta ?e))" "\<not> om_deleting (dev_meta ?e)"
    "\<exists>addr. Z21Address ?e = Inr addr"
    "om_name (dev_meta ?d) = om_name (dev_meta ?e)" "om_namespace (dev_meta ?d) \<noteq> om_namespace (dev_meta ?e)"
    by (simp_all add: shared_name_def finalized_def example_device_defs BackendHardware_def Z21Address_def)
  have k: "keyed device_key (cl_devices shared_cluster) (device_key ?e) = Some ?e"
    by (simp add: shared_cluster_def cluster_with_def keyed_Some Let_def shared_name_def finalized_def device_key_def)
  have ns: "workloadNamespace plain_operator = ''elp''"
    by (simp add: workloadNamespace_def plain_operator_def DefaultWorkloadNamespace_def)
  have n: "gatewayDeploymentName ?e = gatewayDeploymentName ?d" using e(4) by (simp add: gatewayDeploymentName_def)
  have old: "fresh_deployments plain_operator ?e (cl_deployments shared_cluster)"
    by (simp add: fresh_deployments_def idle_deployment_def shared_cluster_def Let_def n ns desiredGatewayDeployment_def
        names_differ [of ?d, folded n] cluster_with_def)
  obtain w' where r: "device_Reconcile mem_operator plain_operator shared_cluster (device_key ?e) = (w', None)"
    and run: "\<And>d'. cl_devices (mem_objects_view w') (device_key ?e) = Some d' \<Longrightarrow> st_phase (dev_status d') \<noteq> PhaseFailed"
    using mem_Reconcile [OF k e(1,2) _ old] e(3) by blast
  have ke: "cl_devices (mem_objects_view shared_cluster) (device_key ?e) = Some ?e" using k by simp
  have "gateway_serves plain_operator ?d (mem_objects_view shared_cluster)"
    using gateway_env_names [of example_url ?d "''192.168.0.111:21105''" quiet_config]
    by (simp add: gateway_serves_def shared_cluster_def Let_def ns desiredGatewayDeployment_def)
  moreover have "gateway_serves plain_operator ?e (mem_objects_view w') \<and> \<not> gateway_serves plain_operator ?d (mem_objects_view w')"
    using same_name_devices_collide [OF mem_operator_laws ke e(1,4,5) r] e(2) run by auto
  ultimately show ?thesis unfolding Let_def r fst_conv by blast
qed

end
