(* ===== verification/Gateway_Health.thy ===== *)
theory Gateway_Health
  imports Device_Api
begin

text \<open>
  What the gateway writes to the status of its Z21Device
  (\<^verbatim>\<open>apps/z21-gateway/internal/status\<close>): the health loop with its tracker
  (\<^verbatim>\<open>healthloop.go\<close>) and the reporter (\<^verbatim>\<open>reporter.go\<close>). The Kubernetes client, the condition
  helper \<^verbatim>\<open>meta.SetStatusCondition\<close> and the probe are the parameter \<open>gateway_client\<close>. The
  counters are \<^verbatim>\<open>int32\<close> words and are compared signed. A patch is given the object before and
  after; times are seconds.

  Lemmas: the tracker refines a counter automaton with three phases as long as the counters
  do not reach \<open>2 ^ 31\<close>; from this, the thresholds; and the conditions a health update leaves.
\<close>

section \<open>The tracker\<close>

record health_update =
  hu_reachable :: bool
  hu_degraded :: bool
  hu_failures :: i32
  hu_last_success :: "int option"

record health_tracker =
  consecutiveFailures :: i32
  consecutiveSuccesses :: i32
  ht_reachable :: bool
  ht_degraded :: bool

definition newHealthTracker :: health_tracker where
  "newHealthTracker =
     \<lparr>consecutiveFailures = 0, consecutiveSuccesses = 0, ht_reachable = False, ht_degraded = False\<rparr>"

definition failure_threshold :: "health_check_spec \<Rightarrow> i32" where
  "failure_threshold spec =
     (if hc_failure_threshold spec \<le>s 0 then DefaultHealthCheckFailureThreshold
      else hc_failure_threshold spec)"

definition success_threshold :: "health_check_spec \<Rightarrow> i32" where
  "success_threshold spec =
     (if hc_success_threshold spec \<le>s 0 then DefaultHealthCheckSuccessThreshold
      else hc_success_threshold spec)"

text \<open>The counters and flags after a probe, and the whole of \<^verbatim>\<open>record\<close>.\<close>

definition track :: "health_tracker \<Rightarrow> bool \<Rightarrow> health_check_spec \<Rightarrow> health_tracker" where
  "track t success spec =
     (if success then
        (let t1 = t\<lparr>consecutiveFailures := 0, consecutiveSuccesses := consecutiveSuccesses t + 1\<rparr> in
         if \<not> ht_reachable t1 \<and> success_threshold spec \<le>s consecutiveSuccesses t1
         then t1\<lparr>ht_reachable := True, ht_degraded := False\<rparr> else t1)
      else
        (let t1 = t\<lparr>consecutiveSuccesses := 0, consecutiveFailures := consecutiveFailures t + 1\<rparr> in
         if failure_threshold spec \<le>s consecutiveFailures t1
         then (let t2 = (if ht_reachable t1 then t1\<lparr>ht_reachable := False\<rparr> else t1)
               in t2\<lparr>ht_degraded := True\<rparr>)
         else t1))"

definition snapshot :: "health_tracker \<Rightarrow> bool \<Rightarrow> int \<Rightarrow> health_update" where
  "snapshot t success at =
     \<lparr>hu_reachable = ht_reachable t, hu_degraded = ht_degraded t, hu_failures = consecutiveFailures t,
      hu_last_success = (if success then Some at else None)\<rparr>"

definition health_record ::
  "health_tracker \<Rightarrow> bool \<Rightarrow> int \<Rightarrow> health_check_spec \<Rightarrow> health_tracker \<times> health_update \<times> bool" where
  "health_record t success at spec =
     (let prev = snapshot t success at; t' = track t success spec; next_upd = snapshot t' success at;
          changed = (hu_reachable next_upd \<noteq> hu_reachable prev \<or> hu_degraded next_upd \<noteq> hu_degraded prev \<or>
                     hu_failures next_upd \<noteq> hu_failures prev \<or>
                     (success \<and> hu_last_success next_upd \<noteq> None))
      in (t', next_upd, changed))"

section \<open>The reporter\<close>

record session_update =
  su_last_seen :: int
  su_serial_number :: string
  su_firmware_version :: string
  su_hardware_type :: string
  su_xbus_version :: string
  su_xbus_firmware_version :: string
  su_lock_code :: "u8 option"

record 'w gateway_client =
  gc_get :: "'w \<Rightarrow> string \<times> string \<Rightarrow> kube_error + z21device"
  gc_patch_status :: "'w \<Rightarrow> z21device \<Rightarrow> z21device \<Rightarrow> 'w \<times> kube_error option"
  SetStatusCondition :: "condition \<Rightarrow> condition list \<Rightarrow> condition list"
  gc_probe :: "'w \<Rightarrow> string \<Rightarrow> int \<Rightarrow> bool"

definition with_session :: "session_update \<Rightarrow> device_status \<Rightarrow> device_status" where
  "with_session u st =
     (let s0 = st\<lparr>st_last_seen := Some (su_last_seen u)\<rparr>;
          s1 = (if su_serial_number u \<noteq> [] then s0\<lparr>st_serial_number := su_serial_number u\<rparr> else s0);
          s2 = (if su_firmware_version u \<noteq> [] then s1\<lparr>st_firmware_version := su_firmware_version u\<rparr> else s1);
          s3 = (if su_hardware_type u \<noteq> [] then s2\<lparr>st_hardware_type := su_hardware_type u\<rparr> else s2);
          s4 = (if su_xbus_version u \<noteq> [] then s3\<lparr>st_xbus_version := su_xbus_version u\<rparr> else s3);
          s5 = (if su_xbus_firmware_version u \<noteq> []
                then s4\<lparr>st_xbus_firmware_version := su_xbus_firmware_version u\<rparr> else s4)
      in if su_lock_code u \<noteq> None then s5\<lparr>st_lock_code := su_lock_code u\<rparr> else s5)"

definition UpdateSession ::
  "'w gateway_client \<Rightarrow> 'w \<Rightarrow> string \<times> string \<Rightarrow> session_update \<Rightarrow> 'w \<times> kube_error option" where
  "UpdateSession c w key update =
     (case gc_get c w key of
        Inl e \<Rightarrow> (w, Some e)
      | Inr device \<Rightarrow>
          gc_patch_status c w device (device\<lparr>dev_status := with_session update (dev_status device)\<rparr>))"

definition reporter_HealthCheckSpec ::
  "'w gateway_client \<Rightarrow> 'w \<Rightarrow> string \<times> string \<Rightarrow> kube_error + health_check_spec" where
  "reporter_HealthCheckSpec c w key =
     (case gc_get c w key of Inl e \<Rightarrow> Inl e | Inr device \<Rightarrow> Inr (HealthCheckSpecOrDefaults device))"

definition reporter_BroadcastFlags :: "'w gateway_client \<Rightarrow> 'w \<Rightarrow> string \<times> string \<Rightarrow> kube_error + u32" where
  "reporter_BroadcastFlags c w key =
     (case gc_get c w key of Inl e \<Rightarrow> Inl e | Inr device \<Rightarrow> Inr (BroadcastFlagsValue device))"

definition set_condition ::
  "'w gateway_client \<Rightarrow> z21device \<Rightarrow> string \<Rightarrow> string \<Rightarrow> string \<Rightarrow> string \<Rightarrow> z21device" where
  "set_condition c device typ status reason msg =
     device\<lparr>dev_status := (dev_status device)\<lparr>st_conditions :=
       SetStatusCondition c
         \<lparr>cond_type = typ, cond_status = status, cond_observed_generation = om_generation (dev_meta device),
          cond_last_transition = 0, cond_reason = reason, cond_message = msg\<rparr>
         (st_conditions (dev_status device))\<rparr>\<rparr>"

definition setReachabilityCondition :: "'w gateway_client \<Rightarrow> z21device \<Rightarrow> bool \<Rightarrow> i32 \<Rightarrow> z21device" where
  "setReachabilityCondition c device reachable failures =
     (if reachable then
        set_condition c device ConditionDeviceReachable ''True'' ''ProbeSucceeded''
          ''Z21 endpoint responded to health probe''
      else
        set_condition c device ConditionDeviceReachable ''False'' ''ProbeFailing''
          (''Z21 endpoint failed '' @ i32_dec failures @ '' consecutive health probe(s)''))"

definition setDegradedCondition :: "'w gateway_client \<Rightarrow> z21device \<Rightarrow> bool \<Rightarrow> z21device" where
  "setDegradedCondition c device degraded =
     (if degraded then
        set_condition c device ConditionDegraded ''True'' ''DeviceUnreachable'' ''Z21 endpoint is unreachable''
      else
        set_condition c device ConditionDegraded ''False'' ''Healthy'' ''Z21 endpoint is reachable'')"

definition with_health :: "health_update \<Rightarrow> device_status \<Rightarrow> device_status" where
  "with_health u st =
     (let s0 = st\<lparr>st_health_failures := hu_failures u\<rparr>
      in case hu_last_success u of None \<Rightarrow> s0 | Some t \<Rightarrow> s0\<lparr>st_last_health_check := Some t\<rparr>)"

definition health_device :: "'w gateway_client \<Rightarrow> z21device \<Rightarrow> health_update \<Rightarrow> z21device" where
  "health_device c device u =
     setDegradedCondition c
       (setReachabilityCondition c (device\<lparr>dev_status := with_health u (dev_status device)\<rparr>)
          (hu_reachable u) (hu_failures u))
       (hu_degraded u)"

definition UpdateHealth ::
  "'w gateway_client \<Rightarrow> 'w \<Rightarrow> string \<times> string \<Rightarrow> health_update \<Rightarrow> 'w \<times> kube_error option" where
  "UpdateHealth c w key update =
     (case gc_get c w key of
        Inl e \<Rightarrow> (w, Some e)
      | Inr device \<Rightarrow> gc_patch_status c w device (health_device c device update))"

section \<open>The loop\<close>

text \<open>
  One tick: the probe runs with the timeout, the tracker records its result, and the status is
  patched; a failing patch is only logged. The last result is whether the loop goes on, which
  is whether the context is still alive.
\<close>

definition tick ::
  "'w gateway_client \<Rightarrow> string \<times> string \<Rightarrow> string \<Rightarrow> int \<Rightarrow> bool \<Rightarrow> 'w \<Rightarrow> health_check_spec
     \<Rightarrow> health_tracker \<Rightarrow> 'w \<times> health_tracker \<times> bool" where
  "tick c key address now alive w spec t =
     (let timeout = (if hc_timeout spec \<le> 0 then DefaultHealthCheckTimeout else hc_timeout spec);
          ok = gc_probe c w address timeout
      in case health_record t ok now spec of
           (t', update, changed) \<Rightarrow>
             if \<not> changed then (w, t', alive)
             else (fst (UpdateHealth c w key update), t', alive))"

text \<open>
  One round of \<^verbatim>\<open>Run\<close>: the new state and how long the loop waits, or nothing when it returns.
\<close>

definition health_round ::
  "'w gateway_client \<Rightarrow> string \<times> string \<Rightarrow> string \<Rightarrow> int \<Rightarrow> bool \<Rightarrow> 'w \<Rightarrow> health_tracker
     \<Rightarrow> 'w \<times> health_tracker \<times> int option" where
  "health_round c key address now alive w t =
     (case reporter_HealthCheckSpec c w key of
        Inl e \<Rightarrow> (w, t, Some 1000000000)
      | Inr spec \<Rightarrow>
          (let interval = (if hc_interval spec \<le> 0 then DefaultHealthCheckInterval else hc_interval spec)
           in case tick c key address now alive w spec t of
                (w', t', go_on) \<Rightarrow> (w', t', if go_on then Some interval else None)))"

section \<open>The tracker as an automaton\<close>

lemma uint_bound: "uint (w :: i32) < 2147483648 \<longleftrightarrow> unat w < 2147483648"
  using nat_less_iff [of "uint w" 2147483648] uint_ge_0 [of w] by (simp only: unat_eq_nat_uint)
    (simp add: nat_less_iff)

lemma uint_of_sint:
  assumes "0 \<le> sint (a :: i32)"
  shows "uint a = sint a"
proof -
  have "uint a = take_bit LENGTH(32) (sint a)" by (rule uint_sint)
  moreover have "sint a < 2 ^ 31" using sint_less [of a] by simp
  ultimately show ?thesis using assms by (simp add: take_bit_int_eq_self)
qed

lemma sint_of_uint:
  assumes "unat (a :: i32) < 2147483648"
  shows "sint a = uint a"
proof -
  have "uint a < 2 ^ 31" using assms uint_bound [of a] by simp
  then have "signed_take_bit 31 (uint a) = uint a" using uint_ge_0 [of a] by (intro signed_take_bit_int_eq_self) linarith+
  then show ?thesis using sint_uint [of a] by simp
qed

lemma i32_sle:
  "unat a < 2147483648 \<Longrightarrow> unat b < 2147483648 \<Longrightarrow> a \<le>s b \<longleftrightarrow> unat a \<le> unat (b :: i32)"
  unfolding word_sle_eq word_le_nat_alt [symmetric] word_le_def by (simp add: sint_of_uint)

lemma i32_positive:
  assumes "\<not> (w :: i32) \<le>s 0"
  shows "0 < unat w" and "unat w < 2147483648"
proof -
  have s: "0 < sint w" using assms by (simp add: word_sle_eq)
  then have "w \<noteq> 0" by auto
  then show "0 < unat w" using unat_eq_0 [of w] by simp
  have "uint w < 2147483648" using uint_of_sint [of w] s sint_less [of w] by simp
  then show "unat w < 2147483648" by (simp add: uint_bound)
qed

lemma thresholds_positive:
  "0 < unat (failure_threshold spec)" "unat (failure_threshold spec) < 2147483648"
  "0 < unat (success_threshold spec)" "unat (success_threshold spec) < 2147483648"
  using i32_positive by (simp_all add: failure_threshold_def success_threshold_def elp_consts)

text \<open>
  Phases and two counters: a device is up after enough successes in a row, down after enough
  failures in a row, and in between stays as it was; at the start nothing is known.
\<close>

datatype probe_phase = Unknown | Up | Down

fun phase_step :: "nat \<Rightarrow> nat \<Rightarrow> probe_phase \<times> nat \<times> nat \<Rightarrow> bool \<Rightarrow> probe_phase \<times> nat \<times> nat" where
  "phase_step f s (p, fails, succs) True = (if s \<le> succs + 1 then Up else p, 0, succs + 1)"
| "phase_step f s (p, fails, succs) False = (if f \<le> fails + 1 then Down else p, fails + 1, 0)"

definition phase_of :: "health_tracker \<Rightarrow> probe_phase \<times> nat \<times> nat" where
  "phase_of t =
     (if ht_reachable t then Up else if ht_degraded t then Down else Unknown,
      unat (consecutiveFailures t), unat (consecutiveSuccesses t))"

definition tracker_ok :: "health_tracker \<Rightarrow> bool" where
  "tracker_ok t \<longleftrightarrow> \<not> (ht_reachable t \<and> ht_degraded t)"

lemma track_ok: "tracker_ok t \<Longrightarrow> tracker_ok (track t ok spec)"
  by (simp add: tracker_ok_def track_def Let_def)

lemma unat_suc: "unat (w :: i32) + 1 < 2147483648 \<Longrightarrow> unat (w + 1) = unat w + 1"
  by (simp add: unat_word_ariths)

lemma track_refines:
  assumes "tracker_ok t" and "unat (consecutiveFailures t) + 1 < 2147483648"
    and "unat (consecutiveSuccesses t) + 1 < 2147483648"
  shows "phase_of (track t ok spec) =
    phase_step (unat (failure_threshold spec)) (unat (success_threshold spec)) (phase_of t) ok"
proof (cases ok)
  case True
  then show ?thesis
    using assms thresholds_positive [of spec] unat_suc [OF assms(3)]
    by (simp add: track_def Let_def phase_of_def tracker_ok_def i32_sle)
next
  case False
  then show ?thesis
    using assms thresholds_positive [of spec] unat_suc [OF assms(2)]
    by (simp add: track_def Let_def phase_of_def tracker_ok_def i32_sle)
qed

text \<open>A run of probes, each with its result and time, from the start.\<close>

definition probe_run :: "health_check_spec \<Rightarrow> (bool \<times> int) list \<Rightarrow> health_tracker" where
  "probe_run spec ps = foldl (\<lambda>t (ok, at). fst (health_record t ok at spec)) newHealthTracker ps"

lemma health_record_track [simp]: "fst (health_record t ok at spec) = track t ok spec"
  by (simp add: health_record_def Let_def)

lemma probe_run_snoc [simp]:
  "probe_run spec [] = newHealthTracker"
  "probe_run spec (ps @ [(ok, at)]) = track (probe_run spec ps) ok spec"
  by (simp_all add: probe_run_def)

lemma probe_run_ok: "tracker_ok (probe_run spec ps)"
proof (induction ps rule: rev_induct)
  case (snoc p ps)
  then show ?case by (cases p) (simp add: track_ok)
qed (simp add: newHealthTracker_def tracker_ok_def)

text \<open>The counters are the lengths of the last failures and of the last successes.\<close>

definition last_oks :: "(bool \<times> int) list \<Rightarrow> bool \<Rightarrow> nat" where
  "last_oks ps b = length (takeWhile (\<lambda>p. fst p = b) (rev ps))"

lemma last_oks_snoc [simp]:
  "last_oks [] b = 0"
  "last_oks (ps @ [(ok, at)]) b = (if ok = b then last_oks ps b + 1 else 0)"
  by (simp_all add: last_oks_def)

lemma last_oks_le: "last_oks ps b \<le> length ps"
  unfolding last_oks_def by (metis length_rev length_takeWhile_le)

lemma take_length_takeWhile: "n \<le> length (takeWhile P xs) \<longleftrightarrow> n \<le> length xs \<and> (\<forall>x \<in> set (take n xs). P x)"
proof (induction xs arbitrary: n)
  case (Cons x xs)
  then show ?case by (cases n) auto
qed simp

abbreviation spec_step :: "health_check_spec \<Rightarrow> probe_phase \<times> nat \<times> nat \<Rightarrow> bool \<Rightarrow> probe_phase \<times> nat \<times> nat" where
  "spec_step spec \<equiv> phase_step (unat (failure_threshold spec)) (unat (success_threshold spec))"

lemma probe_run_step:
  assumes "length ps + 1 < 2147483648"
    and "snd (phase_of (probe_run spec ps)) = (last_oks ps False, last_oks ps True)"
  shows "phase_of (probe_run spec (ps @ [(ok, at)])) = spec_step spec (phase_of (probe_run spec ps)) ok"
proof -
  have c: "unat (consecutiveFailures (probe_run spec ps)) = last_oks ps False"
    "unat (consecutiveSuccesses (probe_run spec ps)) = last_oks ps True"
    using assms(2) by (simp_all add: phase_of_def)
  show ?thesis
    unfolding probe_run_snoc
    using last_oks_le [of ps False] last_oks_le [of ps True] assms(1)
    by (intro track_refines probe_run_ok) (simp_all add: c)
qed

lemma snd_phase_step: "snd (phase_step f s q ok) =
  (if ok then (0, snd (snd q) + 1) else (fst (snd q) + 1, 0))"
  by (cases q; cases ok) simp_all

lemma probe_run_counters:
  "length ps < 2147483648 \<Longrightarrow> snd (phase_of (probe_run spec ps)) = (last_oks ps False, last_oks ps True)"
proof (induction ps rule: rev_induct)
  case Nil
  show ?case by (simp add: newHealthTracker_def phase_of_def)
next
  case (snoc p ps)
  obtain ok at where p: "p = (ok, at)" by (cases p)
  have l: "length ps + 1 < 2147483648" using snoc.prems by simp
  then have ih: "snd (phase_of (probe_run spec ps)) = (last_oks ps False, last_oks ps True)"
    by (intro snoc.IH) simp
  show ?case
    unfolding p probe_run_step [OF l ih] snd_phase_step ih by (cases ok) simp_all
qed

lemma probe_phase_step:
  assumes "length ps + 1 < 2147483648"
  shows "fst (phase_of (probe_run spec (ps @ [(ok, at)]))) =
    (if unat (success_threshold spec) \<le> last_oks (ps @ [(ok, at)]) True then Up
     else if unat (failure_threshold spec) \<le> last_oks (ps @ [(ok, at)]) False then Down
     else fst (phase_of (probe_run spec ps)))"
proof -
  have c: "snd (phase_of (probe_run spec ps)) = (last_oks ps False, last_oks ps True)"
    using assms by (intro probe_run_counters) simp
  then obtain p where "phase_of (probe_run spec ps) = (p, last_oks ps False, last_oks ps True)"
    by (cases "phase_of (probe_run spec ps)") simp
  then show ?thesis
    unfolding probe_run_step [OF assms c]
    using thresholds_positive [of spec] by (cases ok) simp_all
qed

lemma phase_of_flags:
  "tracker_ok t \<Longrightarrow> ht_reachable t \<longleftrightarrow> fst (phase_of t) = Up"
  "tracker_ok t \<Longrightarrow> ht_degraded t \<longleftrightarrow> fst (phase_of t) = Down"
  by (auto simp: phase_of_def tracker_ok_def)

section \<open>Properties\<close>

text \<open>
  C30: The health loop reports a device by its thresholds. After any probes, fewer than
  \<open>2 ^ 31\<close>, the device is never both reachable and degraded; it is reported reachable once the
  last probes include the success threshold of successes in a row, unreachable and degraded
  once they include the failure threshold of failures in a row, and a probe that completes
  neither run changes nothing. A threshold that is zero or negative counts as its default.
\<close>

theorem health_thresholds:
  assumes "length ps + 1 < 2147483648" and "qs = ps @ [(ok, at)]"
  shows "let t = probe_run spec ps; t' = probe_run spec qs;
      run = (\<lambda>n b. n \<le> length qs \<and> (\<forall>p \<in> set (take n (rev qs)). fst p = b)) in
    \<not> (ht_reachable t' \<and> ht_degraded t') \<and>
    (if run (unat (success_threshold spec)) True then ht_reachable t' \<and> \<not> ht_degraded t'
     else if run (unat (failure_threshold spec)) False then ht_degraded t' \<and> \<not> ht_reachable t'
     else ht_reachable t' = ht_reachable t \<and> ht_degraded t' = ht_degraded t)"
proof -
  have run: "(n \<le> length qs \<and> (\<forall>p \<in> set (take n (rev qs)). fst p = b)) \<longleftrightarrow> n \<le> last_oks qs b" for n b
    using take_length_takeWhile [of n "\<lambda>p. fst p = b" "rev qs"] by (simp add: last_oks_def)
  show ?thesis
    unfolding Let_def run
    using probe_phase_step [OF assms(1), of spec ok at] phase_of_flags [OF probe_run_ok, of spec]
      probe_run_ok [of spec qs]
    unfolding assms(2) [symmetric] by (simp add: tracker_ok_def)
qed

definition example_health_spec :: health_check_spec where
  "example_health_spec = HealthCheckSpecOrDefaults example_hardware"

lemma example_thresholds:
  "unat (success_threshold example_health_spec) = 1" "unat (failure_threshold example_health_spec) = 3"
  by code_simp+

theorem health_thresholds_witness:
  "(let t = probe_run example_health_spec [(True, 10), (False, 15), (False, 20)];
        t' = probe_run example_health_spec [(True, 10), (False, 15), (False, 20), (False, 25)]
    in ht_reachable t \<and> \<not> ht_degraded t \<and> \<not> ht_reachable t' \<and> ht_degraded t')"
proof -
  have "probe_run example_health_spec [(True, 10), (False, 15), (False, 20)] =
    \<lparr>consecutiveFailures = 2, consecutiveSuccesses = 0, ht_reachable = True, ht_degraded = False\<rparr>"
    by code_simp
  then show ?thesis
    using health_thresholds [of "[(True, 10), (False, 15), (False, 20)]"
      "[(True, 10), (False, 15), (False, 20), (False, 25)]" False 25 example_health_spec]
    by (simp only: Let_def example_thresholds) simp
qed

lemma health_record_changed: "snd (snd (health_record t ok at spec))"
  by (simp add: health_record_def Let_def snapshot_def track_def)

lemma health_record_update [simp]: "fst (snd (health_record t ok at spec)) = snapshot (track t ok spec) ok at"
  by (simp add: health_record_def Let_def)

lemma conditions_of_set_condition:
  "condition_laws (SetStatusCondition c) \<Longrightarrow>
   conditions_of (set_condition c d typ status reason msg) =
     (conditions_of d)(typ \<mapsto> (status, reason, msg, om_generation (dev_meta d)))"
  by (simp add: conditions_of_def set_condition_def condition_view_set)

lemma set_condition_keeps [simp]:
  "dev_meta (set_condition c d typ status reason msg) = dev_meta d"
  "dev_spec (set_condition c d typ status reason msg) = dev_spec d"
  "st_health_failures (dev_status (set_condition c d typ status reason msg)) = st_health_failures (dev_status d)"
  "st_last_health_check (dev_status (set_condition c d typ status reason msg)) = st_last_health_check (dev_status d)"
  by (simp_all add: set_condition_def)

lemma with_health_conditions [simp]: "st_conditions (with_health u st) = st_conditions st"
  by (simp add: with_health_def Let_def split: option.split)

lemma health_device_conditions:
  assumes "condition_laws (SetStatusCondition c)"
  shows "conditions_of (health_device c d u) = (conditions_of d)
    (ConditionDeviceReachable \<mapsto>
       (if hu_reachable u then (''True'', ''ProbeSucceeded'', ''Z21 endpoint responded to health probe'', om_generation (dev_meta d))
        else (''False'', ''ProbeFailing'', ''Z21 endpoint failed '' @ i32_dec (hu_failures u) @ '' consecutive health probe(s)'',
              om_generation (dev_meta d))),
     ConditionDegraded \<mapsto>
       (if hu_degraded u then (''True'', ''DeviceUnreachable'', ''Z21 endpoint is unreachable'', om_generation (dev_meta d))
        else (''False'', ''Healthy'', ''Z21 endpoint is reachable'', om_generation (dev_meta d))))"
proof -
  have "conditions_of (d\<lparr>dev_status := with_health u (dev_status d)\<rparr>) = conditions_of d"
    by (simp add: conditions_of_def)
  moreover have "dev_meta (d\<lparr>dev_status := with_health u (dev_status d)\<rparr>) = dev_meta d" by simp
  ultimately show ?thesis
    by (cases "hu_reachable u"; cases "hu_degraded u")
      (simp_all only: health_device_def setDegradedCondition_def setReachabilityCondition_def
        conditions_of_set_condition [OF assms] set_condition_keeps if_True if_False z21device.simps simp_thms)
qed

lemma health_device_keeps [simp]:
  "dev_meta (health_device c d u) = dev_meta d" "dev_spec (health_device c d u) = dev_spec d"
  "st_health_failures (dev_status (health_device c d u)) = hu_failures u"
  "st_last_health_check (dev_status (health_device c d u)) =
     (if hu_last_success u = None then st_last_health_check (dev_status d) else hu_last_success u)"
  by (simp_all add: health_device_def setDegradedCondition_def setReachabilityCondition_def with_health_def
      Let_def split: option.split)

text \<open>
  One round of the health loop on an existing device always patches its status, whatever the
  probe gives, and then waits a positive time unless the context has ended. The patch changes
  neither metadata nor spec; it stores the failure count, the time of a success, and the two
  conditions: \<open>DeviceReachable\<close> is \<open>True\<close> iff the tracker holds the device for reachable,
  \<open>Degraded\<close> is \<open>True\<close> iff it holds it for degraded, and all other conditions stay. While the
  thresholds are not yet met both conditions are \<open>False\<close>, and \<open>Degraded\<close> says the endpoint is
  reachable.
\<close>

theorem health_round_patches:
  assumes "gc_get c w key = Inr d" and "condition_laws (SetStatusCondition c)"
  shows "\<exists>timeout interval d'.
    0 < timeout \<and> 0 < interval \<and>
    (let ok = gc_probe c w address timeout; t' = track t ok (HealthCheckSpecOrDefaults d);
         gen = om_generation (dev_meta d) in
     health_round c key address now alive w t =
       (fst (gc_patch_status c w d d'), t', if alive then Some interval else None) \<and>
     dev_meta d' = dev_meta d \<and> dev_spec d' = dev_spec d \<and>
     st_health_failures (dev_status d') = consecutiveFailures t' \<and>
     st_last_health_check (dev_status d') = (if ok then Some now else st_last_health_check (dev_status d)) \<and>
     conditions_of d' = (conditions_of d)
       (ConditionDeviceReachable \<mapsto>
          (if ht_reachable t' then (''True'', ''ProbeSucceeded'', ''Z21 endpoint responded to health probe'', gen)
           else (''False'', ''ProbeFailing'',
             ''Z21 endpoint failed '' @ i32_dec (consecutiveFailures t') @ '' consecutive health probe(s)'', gen)),
        ConditionDegraded \<mapsto>
          (if ht_degraded t' then (''True'', ''DeviceUnreachable'', ''Z21 endpoint is unreachable'', gen)
           else (''False'', ''Healthy'', ''Z21 endpoint is reachable'', gen))))"
proof -
  define spec where "spec = HealthCheckSpecOrDefaults d"
  define timeout where "timeout = (if hc_timeout spec \<le> 0 then DefaultHealthCheckTimeout else hc_timeout spec)"
  define interval where "interval = (if hc_interval spec \<le> 0 then DefaultHealthCheckInterval else hc_interval spec)"
  define ok where "ok = gc_probe c w address timeout"
  define u where "u = snapshot (track t ok spec) ok now"
  have "0 < timeout" "0 < interval"
    by (simp_all add: timeout_def interval_def elp_consts)
  moreover have "health_round c key address now alive w t =
      (fst (gc_patch_status c w d (health_device c d u)), track t ok spec, if alive then Some interval else None)"
  proof -
    have r: "health_record t ok now spec = (track t ok spec, u, True)"
      using health_record_changed [of t ok now spec] by (simp add: prod_eq_iff u_def)
    have "tick c key address now alive w spec t =
        (fst (UpdateHealth c w key u), track t ok spec, alive)"
      by (simp add: tick_def r flip: timeout_def ok_def)
    then show ?thesis
      by (simp add: health_round_def reporter_HealthCheckSpec_def assms(1) UpdateHealth_def
          flip: spec_def interval_def)
  qed
  moreover have "hu_reachable u = ht_reachable (track t ok spec)" "hu_degraded u = ht_degraded (track t ok spec)"
    "hu_failures u = consecutiveFailures (track t ok spec)" "hu_last_success u = (if ok then Some now else None)"
    by (simp_all add: u_def snapshot_def)
  ultimately show ?thesis
    using health_device_conditions [OF assms(2), of d u]
    by (intro exI [of _ timeout] exI [of _ interval] exI [of _ "health_device c d u"])
      (simp only: Let_def health_device_keeps flip: spec_def ok_def; simp)
qed

text \<open>A client over a single device.\<close>

definition single_gateway_client :: "z21device gateway_client" where
  "single_gateway_client =
     \<lparr>gc_get = (\<lambda>w key. if key = (om_namespace (dev_meta w), om_name (dev_meta w)) then Inr w
                        else Inl (KubeNotFound (snd key))),
      gc_patch_status = (\<lambda>w base d. (w\<lparr>dev_status := dev_status d\<rparr>, None)),
      SetStatusCondition = list_set_condition, gc_probe = (\<lambda>w addr timeout. addr = ''10.0.0.5:21105'')\<rparr>"

theorem health_round_patches_witness:
  "conditions_of (fst (health_round single_gateway_client (''layout'', ''z1'') ''10.0.0.5:21105'' 7 True
      example_hardware newHealthTracker)) ConditionDeviceReachable =
   Some (''True'', ''ProbeSucceeded'', ''Z21 endpoint responded to health probe'', om_generation (dev_meta example_hardware))"
proof -
  have get: "gc_get single_gateway_client example_hardware (''layout'', ''z1'') = Inr example_hardware"
    by (simp add: single_gateway_client_def example_device_defs)
  have laws: "condition_laws (SetStatusCondition single_gateway_client)"
    by (simp add: single_gateway_client_def list_set_condition_laws)
  have up: "ht_reachable (track newHealthTracker True (HealthCheckSpecOrDefaults example_hardware))"
    by code_simp
  have sel: "gc_probe single_gateway_client example_hardware ''10.0.0.5:21105'' timeout"
    "fst (gc_patch_status single_gateway_client w b d) = w\<lparr>dev_status := dev_status d\<rparr>" for timeout w b d
    by (simp_all add: single_gateway_client_def)
  obtain d' where
    "fst (health_round single_gateway_client (''layout'', ''z1'') ''10.0.0.5:21105'' 7 True example_hardware newHealthTracker) =
      example_hardware\<lparr>dev_status := dev_status d'\<rparr>"
    "conditions_of d' ConditionDeviceReachable =
      Some (''True'', ''ProbeSucceeded'', ''Z21 endpoint responded to health probe'', om_generation (dev_meta example_hardware))"
    using health_round_patches [OF get laws, of "''10.0.0.5:21105''" newHealthTracker 7 True] up
    by (auto simp: Let_def sel elp_consts)
  then show ?thesis by (simp add: conditions_of_def)
qed

end
