(* ===== verification/Gateway_Detector.thy ===== *)
theory Gateway_Detector
  imports Device_Api Wire_Bytes
begin

text \<open>
  The gateway's manager of CAN detectors (\<^verbatim>\<open>apps/z21-gateway/internal/detector/manager.go\<close>):
  it turns detector reports of the Z21 into CANDetector objects and writes the wanted module
  addresses to the bus. The Kubernetes client, the Z21 client and the protocol package are the
  parameter \<open>detector_link\<close>; \<open>'w\<close> is the world behind them. The order of ranging over the map of
  discovered modules is the parameter \<open>dl_order\<close>. Every function returns its error or none.

  Lemmas: names and network ids, the summary of a discovery, what an upsert writes, and that a
  pass over the wanted addresses leaves them on the bus and in the status.
\<close>

section \<open>The clients\<close>

record can_report =
  rp_net_id :: u16
  rp_addr :: u16
  rp_port :: u8

record discovered_detector =
  dd_net_id :: u16
  dd_addr :: u16
  dd_ports :: "(u8, unit) gomap"

record 'w detector_link =
  dl_header_detector :: u16
  dl_poll_all :: u16
  dl_maintenance_port :: int
  dl_parse :: "bytes \<Rightarrow> string + can_report"
  dl_reports :: "message list \<Rightarrow> string + can_report list"
  dl_get_all :: message
  dl_get_one :: "u16 \<Rightarrow> message"
  dl_set_address :: "u16 \<Rightarrow> u16 \<Rightarrow> bool \<Rightarrow> string + message"
  dl_order :: "(u16 \<times> discovered_detector) list \<Rightarrow> (u16 \<times> discovered_detector) list"
  dl_collect :: "'w \<Rightarrow> message \<Rightarrow> 'w \<times> (string + message list)"
  dl_dial :: "'w \<Rightarrow> string \<Rightarrow> string option"
  dl_send :: "'w \<Rightarrow> string \<Rightarrow> message \<Rightarrow> 'w \<times> string option"
  dl_list :: "'w \<Rightarrow> string \<Rightarrow> kube_error + can_detector list"
  dl_get :: "'w \<Rightarrow> string \<times> string \<Rightarrow> kube_error + can_detector"
  dl_create :: "'w \<Rightarrow> can_detector \<Rightarrow> 'w \<times> (kube_error + can_detector)"
  dl_patch :: "'w \<Rightarrow> can_detector \<Rightarrow> can_detector \<Rightarrow> 'w \<times> (kube_error + can_detector)"
  dl_patch_status :: "'w \<Rightarrow> can_detector \<Rightarrow> can_detector \<Rightarrow> 'w \<times> kube_error option"

datatype manager_error =
    ManagerKube kube_error
  | ManagerLink string string
  | ManagerAddress string addr_error
  | NoDetectorReply u16

section \<open>The manager\<close>

record manager =
  mg_namespace :: string
  mg_device :: string
  mg_host :: string
  mg_port :: int

definition NewManager ::
  "'w detector_link \<Rightarrow> string \<Rightarrow> string \<Rightarrow> string \<Rightarrow> int \<Rightarrow> manager_error + manager" where
  "NewManager L ns deviceName z21Address maintPort =
     (case split_host_port z21Address of
        Inl e \<Rightarrow> Inl (ManagerAddress z21Address e)
      | Inr (host, _) \<Rightarrow>
          Inr \<lparr>mg_namespace = ns, mg_device = deviceName, mg_host = host,
               mg_port = (if maintPort \<le> 0 then dl_maintenance_port L else maintPort)\<rparr>)"

definition ParseZ21Host :: "string \<Rightarrow> addr_error + string" where
  "ParseZ21Host z21Address = (case split_host_port z21Address of Inl e \<Rightarrow> Inl e | Inr (host, _) \<Rightarrow> Inr host)"

definition detectorName :: "u16 \<Rightarrow> string" where
  "detectorName netID = ''detector-'' @ hex_pad False 4 (unat netID)"

definition NormalizeDetectorName :: "string \<Rightarrow> u16 option" where
  "NormalizeDetectorName name =
     (if \<not> has_prefix name ''detector-'' then None
      else (case parse_uint 16 16 (drop (length ''detector-'') name) of Inl e \<Rightarrow> None | Inr v \<Rightarrow> Some (of_nat v)))"

section \<open>Discovery\<close>

definition note_report :: "can_report \<Rightarrow> (u16, discovered_detector) gomap \<Rightarrow> (u16, discovered_detector) gomap" where
  "note_report report byNetID =
     (let entry = (case gm_get byNetID (rp_net_id report) of
           Some e \<Rightarrow> e | None \<Rightarrow> \<lparr>dd_net_id = rp_net_id report, dd_addr = 0, dd_ports = []\<rparr>);
          e1 = (if dd_addr entry = 0 then entry\<lparr>dd_addr := rp_addr report\<rparr> else entry)
      in gm_set (rp_net_id report) (e1\<lparr>dd_ports := gm_set (rp_port report) () (dd_ports e1)\<rparr>) byNetID)"

fun summarize_loop ::
  "'w detector_link \<Rightarrow> message list \<Rightarrow> (u16, discovered_detector) gomap
     \<Rightarrow> string + (u16, discovered_detector) gomap" where
  "summarize_loop L [] byNetID = Inr byNetID"
| "summarize_loop L (msg # msgs) byNetID =
     (if msg_header msg \<noteq> dl_header_detector L then summarize_loop L msgs byNetID
      else (case dl_parse L (msg_data msg) of
              Inl e \<Rightarrow> Inl e
            | Inr report \<Rightarrow>
                if rp_net_id report = dl_poll_all L then summarize_loop L msgs byNetID
                else summarize_loop L msgs (note_report report byNetID)))"

definition summarizeDiscovery :: "'w detector_link \<Rightarrow> message list \<Rightarrow> string + discovered_detector list" where
  "summarizeDiscovery L msgs =
     (case summarize_loop L msgs [] of Inl e \<Rightarrow> Inl e | Inr byNetID \<Rightarrow> Inr (map snd (dl_order L byNetID)))"

definition discovered_object :: "manager \<Rightarrow> discovered_detector \<Rightarrow> can_detector" where
  "discovered_object m det =
     \<lparr>det_meta =
        \<lparr>om_name = detectorName (dd_net_id det), om_namespace = mg_namespace m,
         om_labels = [(LabelDeviceName, mg_device m)], om_annotations = [], om_generation = 0,
         om_deleting = False, om_finalizers = []\<rparr>,
      det_spec = \<lparr>det_device_ref = mg_device m, det_net_id = dd_net_id det, det_desired = None,
                  det_adopt_observed = Some True\<rparr>,
      det_status = \<lparr>det_observed = None, det_assigned = None, det_phase = [], det_message = []\<rparr>\<rparr>"

definition merged_object :: "manager \<Rightarrow> discovered_detector \<Rightarrow> can_detector \<Rightarrow> can_detector" where
  "merged_object m det current =
     (let sp = (det_spec current)\<lparr>det_net_id := dd_net_id det\<rparr>;
          sp1 = (if det_device_ref sp = [] then sp\<lparr>det_device_ref := mg_device m\<rparr> else sp);
          sp2 = (if det_adopt_observed sp1 = None then sp1\<lparr>det_adopt_observed := Some True\<rparr> else sp1)
      in current\<lparr>det_meta := (det_meta current)\<lparr>om_labels := om_labels (det_meta (discovered_object m det))\<rparr>,
                 det_spec := sp2\<rparr>)"

definition observed_status :: "u16 \<Rightarrow> can_detector_status \<Rightarrow> can_detector_status" where
  "observed_status addr st =
     (let st1 = st\<lparr>det_observed := Some addr\<rparr>
      in if det_phase st1 = [] then st1\<lparr>det_phase := CANDetectorPhasePending\<rparr> else st1)"

definition patch_observed ::
  "'w detector_link \<Rightarrow> 'w \<Rightarrow> can_detector \<Rightarrow> u16 \<Rightarrow> 'w \<times> manager_error option" where
  "patch_observed L w current addr =
     (if det_observed (det_status current) = Some addr \<and> det_phase (det_status current) \<noteq> [] then (w, None)
      else (case dl_patch_status L w current (current\<lparr>det_status := observed_status addr (det_status current)\<rparr>) of
              (w', None) \<Rightarrow> (w', None) | (w', Some e) \<Rightarrow> (w', Some (ManagerKube e))))"

definition upsertDiscovered ::
  "'w detector_link \<Rightarrow> manager \<Rightarrow> 'w \<Rightarrow> discovered_detector \<Rightarrow> 'w \<times> manager_error option" where
  "upsertDiscovered L m w det =
     (case dl_get L w (mg_namespace m, detectorName (dd_net_id det)) of
        Inl (KubeNotFound _) \<Rightarrow>
          (case dl_create L w (discovered_object m det) of
             (w1, Inl e) \<Rightarrow> (w1, Some (ManagerKube e))
           | (w1, Inr current) \<Rightarrow> patch_observed L w1 current (dd_addr det))
      | Inl e \<Rightarrow> (w, Some (ManagerKube e))
      | Inr old \<Rightarrow>
          (case dl_patch L w old (merged_object m det old) of
             (w1, Inl e) \<Rightarrow> (w1, Some (ManagerKube e))
           | (w1, Inr current) \<Rightarrow> patch_observed L w1 current (dd_addr det)))"

fun upsert_all ::
  "'w detector_link \<Rightarrow> manager \<Rightarrow> 'w \<Rightarrow> discovered_detector list \<Rightarrow> 'w \<times> manager_error option" where
  "upsert_all L m w [] = (w, None)"
| "upsert_all L m w (det # dets) =
     (case upsertDiscovered L m w det of
        (w1, Some e) \<Rightarrow> (w1, Some e)
      | (w1, None) \<Rightarrow> upsert_all L m w1 dets)"

definition ProcessCANDetectorMessages ::
  "'w detector_link \<Rightarrow> manager \<Rightarrow> 'w \<Rightarrow> message list \<Rightarrow> 'w \<times> manager_error option" where
  "ProcessCANDetectorMessages L m w msgs =
     (case summarizeDiscovery L msgs of
        Inl e \<Rightarrow> (w, Some (ManagerLink [] e))
      | Inr discovered \<Rightarrow> upsert_all L m w discovered)"

definition SyncDiscovery :: "'w detector_link \<Rightarrow> manager \<Rightarrow> 'w \<Rightarrow> 'w \<times> manager_error option" where
  "SyncDiscovery L m w =
     (case dl_collect L w (dl_get_all L) of
        (w1, Inl e) \<Rightarrow> (w1, Some (ManagerLink ''can discovery'' e))
      | (w1, Inr msgs) \<Rightarrow> ProcessCANDetectorMessages L m w1 msgs)"

section \<open>Applying addresses\<close>

definition markApplied :: "'w detector_link \<Rightarrow> 'w \<Rightarrow> can_detector \<Rightarrow> 'w \<times> manager_error option" where
  "markApplied L w det =
     (if det_phase (det_status det) = CANDetectorPhaseApplied then (w, None)
      else (case dl_patch_status L w det
                   (det\<lparr>det_status := (det_status det)\<lparr>det_phase := CANDetectorPhaseApplied, det_message := []\<rparr>\<rparr>) of
              (w', None) \<Rightarrow> (w', None) | (w', Some e) \<Rightarrow> (w', Some (ManagerKube e))))"

definition pollModuleAddress :: "'w detector_link \<Rightarrow> 'w \<Rightarrow> u16 \<Rightarrow> 'w \<times> (manager_error + u16)" where
  "pollModuleAddress L w netID =
     (case dl_collect L w (dl_get_one L netID) of
        (w1, Inl e) \<Rightarrow> (w1, Inl (ManagerLink [] e))
      | (w1, Inr msgs) \<Rightarrow>
          (case dl_reports L msgs of
             Inl e \<Rightarrow> (w1, Inl (ManagerLink [] e))
           | Inr reports \<Rightarrow>
               (case find (\<lambda>report. rp_net_id report = netID) reports of
                  Some report \<Rightarrow> (w1, Inr (rp_addr report))
                | None \<Rightarrow> (w1, Inl (NoDetectorReply netID)))))"

definition applied_object :: "u16 \<Rightarrow> u16 \<Rightarrow> can_detector \<Rightarrow> can_detector" where
  "applied_object observed desired det =
     (let st = (det_status det)\<lparr>det_observed := Some observed\<rparr> in
      det\<lparr>det_status :=
        (if observed = desired then st\<lparr>det_phase := CANDetectorPhaseApplied, det_message := []\<rparr>
         else st\<lparr>det_phase := CANDetectorPhaseAllocated,
                 det_message := ''module still reports address '' @ nat_dec (unat observed) @ '' after apply''\<rparr>)\<rparr>)"

definition reconcileOne ::
  "'w detector_link \<Rightarrow> manager \<Rightarrow> 'w \<Rightarrow> can_detector \<Rightarrow> 'w \<times> manager_error option" where
  "reconcileOne L m w det =
     (case det_desired (det_spec det) of
        None \<Rightarrow> (w, None)
      | Some desired \<Rightarrow>
          if det_observed (det_status det) = Some desired then markApplied L w det
          else
            (let maint = join_host_port (mg_host m) (int_dec (mg_port m)); netID = det_net_id (det_spec det) in
             case dl_dial L w maint of
               Some e \<Rightarrow> (w, Some (ManagerLink ''dial maintenance port'' e))
             | None \<Rightarrow>
             (case dl_set_address L netID desired True of
               Inl e \<Rightarrow> (w, Some (ManagerLink [] e))
             | Inr msg \<Rightarrow>
             (case dl_send L w maint msg of
               (w1, Some e) \<Rightarrow> (w1, Some (ManagerLink (''set module address netID=0x'' @ hex_pad True 4 (unat netID) @ '' addr='' @ nat_dec (unat desired)) e))
             | (w1, None) \<Rightarrow>
             (case pollModuleAddress L w1 netID of
               (w2, Inl e) \<Rightarrow> (w2, Some e)
             | (w2, Inr observed) \<Rightarrow>
             (case dl_patch_status L w2 det (applied_object observed desired det) of
               (w3, None) \<Rightarrow> (w3, None)
             | (w3, Some e) \<Rightarrow> (w3, Some (ManagerKube e))))))))"

fun reconcile_each ::
  "'w detector_link \<Rightarrow> manager \<Rightarrow> 'w \<Rightarrow> can_detector list \<Rightarrow> 'w \<times> manager_error option" where
  "reconcile_each L m w [] = (w, None)"
| "reconcile_each L m w (det # dets) =
     (if det_device_ref (det_spec det) \<noteq> mg_device m then reconcile_each L m w dets
      else (case reconcileOne L m w det of
              (w1, Some e) \<Rightarrow> (w1, Some e)
            | (w1, None) \<Rightarrow> reconcile_each L m w1 dets))"

definition ReconcileAddresses :: "'w detector_link \<Rightarrow> manager \<Rightarrow> 'w \<Rightarrow> 'w \<times> manager_error option" where
  "ReconcileAddresses L m w =
     (case dl_list L w (mg_namespace m) of
        Inl e \<Rightarrow> (w, Some (ManagerKube e))
      | Inr items \<Rightarrow> reconcile_each L m w items)"

section \<open>Names\<close>

lemma unat_u16_16: "unat (n :: u16) < 16 ^ 4" "unat (n :: u16) < 2 ^ 16"
  using unat_u16_less [of n] by simp_all

lemma Normalize_detectorName: "NormalizeDetectorName (detectorName n) = Some n"
proof -
  have "parse_uint 16 16 (hex_pad False 4 (unat n)) = Inr (unat n)"
    using unat_u16_16 [of n] by (intro parse_uint_hex_pad) simp_all
  then show ?thesis by (simp add: NormalizeDetectorName_def detectorName_def has_prefix_def)
qed

lemma detectorName_inj: "detectorName n = detectorName m \<longleftrightarrow> n = m"
  using Normalize_detectorName by (metis option.inject)

section \<open>The summary of a discovery\<close>

text \<open>The reports in the messages, in order; the first that does not parse is the error.\<close>

fun detector_reports :: "'w detector_link \<Rightarrow> message list \<Rightarrow> string + can_report list" where
  "detector_reports L [] = Inr []"
| "detector_reports L (msg # msgs) =
     (if msg_header msg \<noteq> dl_header_detector L then detector_reports L msgs
      else (case dl_parse L (msg_data msg) of
              Inl e \<Rightarrow> Inl e
            | Inr r \<Rightarrow>
                (case detector_reports L msgs of
                   Inl e \<Rightarrow> Inl e
                 | Inr rs \<Rightarrow> Inr (if rp_net_id r = dl_poll_all L then rs else r # rs))))"

lemma summarize_loop_reports:
  "summarize_loop L msgs m = map_sum id (\<lambda>rs. fold note_report rs m) (detector_reports L msgs)"
  by (induction msgs arbitrary: m) (auto split: sum.split)

definition reported_addr :: "can_report list \<Rightarrow> u16 \<Rightarrow> u16" where
  "reported_addr rs n =
     (case find (\<lambda>r. rp_net_id r = n \<and> rp_addr r \<noteq> 0) rs of None \<Rightarrow> 0 | Some r \<Rightarrow> rp_addr r)"

definition summary_ok :: "can_report list \<Rightarrow> (u16, discovered_detector) gomap \<Rightarrow> bool" where
  "summary_ok rs m \<longleftrightarrow> gm_wf m \<and>
     (\<forall>n. gm_has m n \<longleftrightarrow> n \<in> rp_net_id ` set rs) \<and>
     (\<forall>n d. gm_get m n = Some d \<longrightarrow> dd_net_id d = n \<and> dd_addr d = reported_addr rs n \<and>
        (\<forall>p. gm_has (dd_ports d) p \<longleftrightarrow> (\<exists>r \<in> set rs. rp_net_id r = n \<and> rp_port r = p)))"

lemma find_append: "find P (xs @ ys) = (case find P xs of None \<Rightarrow> find P ys | Some x \<Rightarrow> Some x)"
  by (induction xs) auto

lemma reported_addr_snoc:
  "reported_addr (rs @ [r]) n =
     (if reported_addr rs n = 0 \<and> rp_net_id r = n then rp_addr r else reported_addr rs n)"
proof -
  have "find P xs = Some x \<Longrightarrow> P x" for P and xs :: "can_report list" and x by (metis find_Some_iff)
  then show ?thesis by (fastforce simp: reported_addr_def find_append split: option.splits)
qed

lemma reported_addr_none: "n \<notin> rp_net_id ` set rs \<Longrightarrow> reported_addr rs n = 0"
  by (auto simp: reported_addr_def find_Some_iff image_iff split: option.splits)

lemma summary_ok_step:
  assumes "summary_ok rs m"
  shows "summary_ok (rs @ [r]) (note_report r m)"
proof -
  define n where "n = rp_net_id r"
  define e where "e = (case gm_get m n of Some e \<Rightarrow> e | None \<Rightarrow> \<lparr>dd_net_id = n, dd_addr = 0, dd_ports = []\<rparr>)"
  have e: "(dd_net_id e = n \<and> dd_addr e = reported_addr rs n) \<and>
      (\<forall>p. gm_has (dd_ports e) p \<longleftrightarrow> (\<exists>r \<in> set rs. rp_net_id r = n \<and> rp_port r = p))"
  proof (cases "gm_get m n")
    case None
    then have "n \<notin> rp_net_id ` set rs" using assms unfolding summary_ok_def by (metis gm_has_iff)
    then show ?thesis
      using None reported_addr_none by (auto simp: e_def)
  next
    case (Some d)
    then show ?thesis
      using assms by (simp add: e_def summary_ok_def)
  qed
  define e' where "e' = (if dd_addr e = 0 then e\<lparr>dd_addr := rp_addr r\<rparr> else e)\<lparr>dd_ports := gm_set (rp_port r) () (dd_ports e)\<rparr>"
  have m': "note_report r m = gm_set n e' m"
    unfolding note_report_def e'_def e_def n_def Let_def by (simp split: if_splits)
  have e': "dd_net_id e' = n" "dd_addr e' = reported_addr (rs @ [r]) n"
    "gm_has (dd_ports e') p \<longleftrightarrow> (\<exists>q \<in> set (rs @ [r]). rp_net_id q = n \<and> rp_port q = p)" for p
    using e by (auto simp: e'_def reported_addr_snoc n_def)
  have other: "k \<noteq> n \<Longrightarrow> reported_addr (rs @ [r]) k = reported_addr rs k" for k
    by (simp add: reported_addr_snoc n_def)
  show ?thesis
    using assms e' other unfolding m' summary_ok_def by (auto simp: n_def)
qed

lemma summary_ok_fold: "summary_ok rs0 m \<Longrightarrow> summary_ok (rs0 @ rs) (fold note_report rs m)"
proof (induction rs arbitrary: rs0 m)
  case (Cons r rs)
  from Cons.IH [OF summary_ok_step [OF Cons.prems, of r]] show ?case by simp
qed simp

section \<open>Properties of names and discovery\<close>

text \<open>
  The name of a detector object determines the network id and back, and objects of
  different modules have different names.
\<close>

theorem detectorName_roundtrip:
  "NormalizeDetectorName (detectorName n) = Some n \<and> (detectorName n = detectorName m) = (n = m)"
  using Normalize_detectorName detectorName_inj by simp

lemma summary_exact:
  assumes "\<And>m. mset (dl_order L m) = mset m"
  shows "case detector_reports L msgs of
      Inl e \<Rightarrow> summarizeDiscovery L msgs = Inl e
    | Inr rs \<Rightarrow> \<exists>ds. summarizeDiscovery L msgs = Inr ds \<and> distinct (map dd_net_id ds) \<and>
        set (map dd_net_id ds) = rp_net_id ` set rs \<and>
        (\<forall>d \<in> set ds. dd_addr d = reported_addr rs (dd_net_id d) \<and>
           (\<forall>p. gm_has (dd_ports d) p \<longleftrightarrow> (\<exists>r \<in> set rs. rp_net_id r = dd_net_id d \<and> rp_port r = p)))"
proof (cases "detector_reports L msgs")
  case (Inl e)
  then show ?thesis by (simp add: summarizeDiscovery_def summarize_loop_reports)
next
  case (Inr rs)
  define m where "m = fold note_report rs []"
  have ok: "summary_ok rs m" using summary_ok_fold [of "[]" "[]" rs] by (simp add: m_def summary_ok_def)
  then have wf: "gm_wf m" by (simp add: summary_ok_def)
  have p: "set (dl_order L m) = set m" "mset (map fst (dl_order L m)) = mset (map fst m)"
    using assms by (metis mset_eq_setD, metis mset_map)
  define ds where "ds = map snd (dl_order L m)"
  have ids: "map dd_net_id ds = map fst (dl_order L m)"
    using ok p(1) gm_get_in [OF wf] by (auto simp: ds_def summary_ok_def)
  have "distinct (map dd_net_id ds)" using wf p(2) unfolding ids by (metis gm_wf_def mset_eq_imp_distinct_iff)
  moreover have "set (map dd_net_id ds) = rp_net_id ` set rs"
    using ok p(1) unfolding ids by (auto simp: summary_ok_def gm_has_fst)
  moreover have "\<forall>d \<in> set ds. dd_addr d = reported_addr rs (dd_net_id d) \<and>
           (\<forall>p. gm_has (dd_ports d) p \<longleftrightarrow> (\<exists>r \<in> set rs. rp_net_id r = dd_net_id d \<and> rp_port r = p))"
  proof
    fix d assume "d \<in> set ds"
    then obtain n where "gm_get m n = Some d" using p(1) gm_get_in [OF wf] by (auto simp: ds_def)
    then show "dd_addr d = reported_addr rs (dd_net_id d) \<and>
           (\<forall>p. gm_has (dd_ports d) p \<longleftrightarrow> (\<exists>r \<in> set rs. rp_net_id r = dd_net_id d \<and> rp_port r = p))"
      using ok by (simp add: summary_ok_def)
  qed
  moreover have "summarizeDiscovery L msgs = Inr ds"
    by (simp add: summarizeDiscovery_def summarize_loop_reports Inr m_def ds_def)
  ultimately show ?thesis unfolding Inr sum.case by blast
qed

text \<open>
  A discovery is summarised exactly. It fails iff a detector message does not parse;
  otherwise it has one entry for every network id reported, the poll-all id left out, with the
  first address that is not zero and with exactly the ports reported, whatever other messages
  there are and in whatever order the map is ranged over.
\<close>

theorem summarizeDiscovery_exact:
  assumes "\<And>m. mset (dl_order L m) = mset m"
  shows "case detector_reports L msgs of
      Inl e \<Rightarrow> summarizeDiscovery L msgs = Inl e
    | Inr rs \<Rightarrow> \<exists>ds. summarizeDiscovery L msgs = Inr ds \<and> distinct (map dd_net_id ds) \<and>
        set (map dd_net_id ds) = rp_net_id ` set rs \<and>
        (\<forall>d \<in> set ds. dd_addr d = reported_addr rs (dd_net_id d) \<and>
           (\<forall>p. gm_has (dd_ports d) p \<longleftrightarrow> (\<exists>r \<in> set rs. rp_net_id r = dd_net_id d \<and> rp_port r = p)))"
  by (rule summary_exact [OF assms])

section \<open>What the manager leaves behind\<close>

text \<open>
  Documented behaviour of the two sides, over the stored objects \<open>view w\<close> and the module
  addresses \<open>bus w\<close>. Kubernetes: reads give what is stored; a creation stores an object that
  has no status yet; a patch that does not touch the status stores the object; both answer with what is
  stored; a patch of the status stores the status over the one it was made from; the server may raise the generation; a call that fails may have changed the object
  it was about, and nothing else. Z21: setting an address changes that of the one module or
  nothing, and a poll answers with addresses the modules have.
\<close>

definition gateway_key :: "can_detector \<Rightarrow> string \<times> string" where
  "gateway_key d = (om_namespace (det_meta d), om_name (det_meta d))"

definition same_object :: "can_detector \<Rightarrow> can_detector \<Rightarrow> bool" where
  "same_object d e \<longleftrightarrow>
     e\<lparr>det_meta := (det_meta e)\<lparr>om_generation := om_generation (det_meta d)\<rparr>\<rparr> = d"

definition link_writes ::
  "('w \<Rightarrow> string \<times> string \<Rightarrow> can_detector option) \<Rightarrow> ('w \<Rightarrow> u16 \<Rightarrow> u16 option) \<Rightarrow> 'w \<Rightarrow> can_detector
     \<Rightarrow> 'w \<Rightarrow> kube_error + can_detector \<Rightarrow> bool" where
  "link_writes view bus w new w' r \<longleftrightarrow> bus w' = bus w \<and>
     (case r of
        Inl e \<Rightarrow> \<exists>x. view w' = (view w)(gateway_key new := x)
      | Inr d \<Rightarrow> same_object new d \<and> view w' = (view w)(gateway_key new \<mapsto> d))"

definition unset_detector_status :: can_detector_status where
  "unset_detector_status = \<lparr>det_observed = None, det_assigned = None, det_phase = [], det_message = []\<rparr>"

definition link_kube ::
  "'w detector_link \<Rightarrow> ('w \<Rightarrow> string \<times> string \<Rightarrow> can_detector option) \<Rightarrow> ('w \<Rightarrow> u16 \<Rightarrow> u16 option) \<Rightarrow> bool" where
  "link_kube L view bus \<longleftrightarrow>
     (\<forall>w k. case dl_get L w k of
        Inr d \<Rightarrow> view w k = Some d \<and> gateway_key d = k | Inl e \<Rightarrow> (\<exists>m. e = KubeNotFound m) \<longrightarrow> view w k = None) \<and>
     (\<forall>w d. det_status d = unset_detector_status \<longrightarrow>
        link_writes view bus w d (fst (dl_create L w d)) (snd (dl_create L w d))) \<and>
     (\<forall>w old new. view w (gateway_key new) = Some old \<and> det_status new = det_status old \<longrightarrow>
        link_writes view bus w new (fst (dl_patch L w old new)) (snd (dl_patch L w old new))) \<and>
     (\<forall>w base new. gateway_key base = gateway_key new \<longrightarrow>
        (let (w', r) = dl_patch_status L w base new; k = gateway_key new in bus w' = bus w \<and>
         (case r of
            Some e \<Rightarrow> \<exists>x. view w' = (view w)(k := x)
          | None \<Rightarrow> \<exists>old x. view w k = Some old \<and> view w' = (view w)(k := x) \<and>
              (det_status old = det_status base \<longrightarrow> x = Some (old\<lparr>det_status := det_status new\<rparr>)))))"

definition link_bus ::
  "'w detector_link \<Rightarrow> ('w \<Rightarrow> string \<times> string \<Rightarrow> can_detector option) \<Rightarrow> ('w \<Rightarrow> u16 \<Rightarrow> u16 option) \<Rightarrow> bool" where
  "link_bus L view bus \<longleftrightarrow>
     (\<forall>w maint n a msg. dl_set_address L n a True = Inr msg \<longrightarrow>
        (let w' = fst (dl_send L w maint msg) in view w' = view w \<and> (\<exists>x. bus w' = (bus w)(n := x)))) \<and>
     (\<forall>w n. let (w', r) = dl_collect L w (dl_get_one L n) in view w' = view w \<and> bus w' = bus w \<and>
        (\<forall>msgs rs rep. r = Inr msgs \<longrightarrow> dl_reports L msgs = Inr rs \<longrightarrow> rep \<in> set rs \<longrightarrow>
           bus w (rp_net_id rep) = Some (rp_addr rep)))"

lemma link_getD:
  assumes "link_kube L view bus"
  shows "dl_get L w k = Inr d \<Longrightarrow> view w k = Some d \<and> gateway_key d = k"
    and "dl_get L w k = Inl (KubeNotFound m) \<Longrightarrow> view w k = None"
proof -
  have "case dl_get L w k of
        Inr d \<Rightarrow> view w k = Some d \<and> gateway_key d = k | Inl e \<Rightarrow> (\<exists>m. e = KubeNotFound m) \<longrightarrow> view w k = None"
    using assms unfolding link_kube_def by blast
  then show "dl_get L w k = Inr d \<Longrightarrow> view w k = Some d \<and> gateway_key d = k"
    and "dl_get L w k = Inl (KubeNotFound m) \<Longrightarrow> view w k = None" by auto
qed

lemma link_createD:
  assumes "link_kube L view bus" and "det_status d = unset_detector_status" and "dl_create L w d = (w', r)"
  shows "link_writes view bus w d w' r"
proof -
  have "link_writes view bus w d (fst (dl_create L w d)) (snd (dl_create L w d))"
    using assms(1,2) unfolding link_kube_def by blast
  then show ?thesis using assms(3) by simp
qed

lemma link_patchD:
  assumes "link_kube L view bus" and "view w (gateway_key new) = Some old" and "det_status new = det_status old"
    and "dl_patch L w old new = (w', r)"
  shows "link_writes view bus w new w' r"
proof -
  have "link_writes view bus w new (fst (dl_patch L w old new)) (snd (dl_patch L w old new))"
    using assms(1-3) unfolding link_kube_def by blast
  then show ?thesis using assms(4) by simp
qed

lemma link_patch_statusD:
  assumes "link_kube L view bus" and "gateway_key base = gateway_key new" and "dl_patch_status L w base new = (w', r)"
  shows "bus w' = bus w \<and>
    (case r of
       Some e \<Rightarrow> \<exists>x. view w' = (view w)(gateway_key new := x)
     | None \<Rightarrow> \<exists>old x. view w (gateway_key new) = Some old \<and> view w' = (view w)(gateway_key new := x) \<and>
              (det_status old = det_status base \<longrightarrow> x = Some (old\<lparr>det_status := det_status new\<rparr>)))"
proof -
  have "let (w', r) = dl_patch_status L w base new; k = gateway_key new in bus w' = bus w \<and>
         (case r of
            Some e \<Rightarrow> \<exists>x. view w' = (view w)(k := x)
          | None \<Rightarrow> \<exists>old x. view w k = Some old \<and> view w' = (view w)(k := x) \<and>
              (det_status old = det_status base \<longrightarrow> x = Some (old\<lparr>det_status := det_status new\<rparr>)))"
    using assms(1,2) unfolding link_kube_def by blast
  then show ?thesis using assms(3) by (simp add: Let_def)
qed

lemma gateway_key_simps [simp]:
  "gateway_key (d\<lparr>det_status := st\<rparr>) = gateway_key d"
  "gateway_key (d\<lparr>det_meta := (det_meta d)\<lparr>om_labels := l\<rparr>, det_spec := sp\<rparr>) = gateway_key d"
  "gateway_key (d\<lparr>det_spec := sp\<rparr>) = gateway_key d"
  by (simp_all add: gateway_key_def)

lemma same_objectD:
  assumes "same_object d e"
  shows "det_spec e = det_spec d" "det_status e = det_status d" "om_labels (det_meta e) = om_labels (det_meta d)"
    "gateway_key e = gateway_key d"
proof -
  note eq = assms [unfolded same_object_def, symmetric]
  show "det_spec e = det_spec d" "det_status e = det_status d" "om_labels (det_meta e) = om_labels (det_meta d)"
    "gateway_key e = gateway_key d"
    by (subst eq, simp add: gateway_key_def)+
qed

lemma merged_object_status: "det_status (merged_object m det d) = det_status d"
  by (simp add: merged_object_def Let_def)

lemma merged_object_key [simp]: "gateway_key (merged_object m det d) = gateway_key d"
  by (simp add: merged_object_def Let_def gateway_key_def)

text \<open>What an upsert without error leaves in the store.\<close>

definition upserted :: "manager \<Rightarrow> discovered_detector \<Rightarrow> can_detector option \<Rightarrow> can_detector \<Rightarrow> bool" where
  "upserted m det old d \<longleftrightarrow>
     om_labels (det_meta d) = [(LabelDeviceName, mg_device m)] \<and>
     det_net_id (det_spec d) = dd_net_id det \<and>
     det_device_ref (det_spec d) =
       (case old of Some e \<Rightarrow> if det_device_ref (det_spec e) = [] then mg_device m else det_device_ref (det_spec e)
        | None \<Rightarrow> mg_device m) \<and>
     det_adopt_observed (det_spec d) =
       (case old of Some e \<Rightarrow> if det_adopt_observed (det_spec e) = None then Some True else det_adopt_observed (det_spec e)
        | None \<Rightarrow> Some True) \<and>
     det_desired (det_spec d) = (case old of Some e \<Rightarrow> det_desired (det_spec e) | None \<Rightarrow> None) \<and>
     det_assigned (det_status d) = (case old of Some e \<Rightarrow> det_assigned (det_status e) | None \<Rightarrow> None) \<and>
     det_observed (det_status d) = Some (dd_addr det) \<and>
     det_phase (det_status d) =
       (case old of Some e \<Rightarrow> if det_phase (det_status e) = [] then CANDetectorPhasePending else det_phase (det_status e)
        | None \<Rightarrow> CANDetectorPhasePending)"

lemma patch_observed_stores:
  assumes "link_kube L view bus" and "view w (gateway_key cur) = Some cur" and "patch_observed L w cur addr = (w', None)"
  shows "view w' = (view w)(gateway_key cur \<mapsto> cur\<lparr>det_status := observed_status addr (det_status cur)\<rparr>)"
proof (cases "det_observed (det_status cur) = Some addr \<and> det_phase (det_status cur) \<noteq> []")
  case True
  then have "observed_status addr (det_status cur) = det_status cur" by (simp add: observed_status_def Let_def)
  then show ?thesis using True assms(2,3) by (simp add: patch_observed_def fun_upd_idem)
next
  case False
  then have "dl_patch_status L w cur (cur\<lparr>det_status := observed_status addr (det_status cur)\<rparr>) = (w', None)"
    using assms(3) by (auto simp: patch_observed_def split: prod.splits option.splits)
  from link_patch_statusD [OF assms(1) _ this] assms(2) show ?thesis by auto
qed

lemma observed_status_fields [simp]:
  "det_observed (observed_status a st) = Some a"
  "det_assigned (observed_status a st) = det_assigned st"
  "det_phase (observed_status a st) = (if det_phase st = [] then CANDetectorPhasePending else det_phase st)"
  by (simp_all add: observed_status_def Let_def)

lemma upsertDiscovered_stores:
  assumes "link_kube L view bus" and "upsertDiscovered L m w det = (w', None)"
  shows "\<exists>d. view w' = (view w)((mg_namespace m, detectorName (dd_net_id det)) \<mapsto> d) \<and>
    upserted m det (view w (mg_namespace m, detectorName (dd_net_id det))) d"
proof -
  define k where "k = (mg_namespace m, detectorName (dd_net_id det))"
  show ?thesis
  proof (cases "dl_get L w k")
    case (Inl e)
    then obtain msg where nf: "e = KubeNotFound msg" using assms(2) by (auto simp: upsertDiscovered_def k_def split: kube_error.splits)
    have none: "view w k = None" using link_getD(2) [OF assms(1)] Inl nf by blast
    obtain w1 cur where cr: "dl_create L w (discovered_object m det) = (w1, Inr cur)" "patch_observed L w1 cur (dd_addr det) = (w', None)"
      using assms(2) Inl nf by (auto simp: upsertDiscovered_def k_def split: prod.splits sum.splits)
    have kd: "gateway_key (discovered_object m det) = k" by (simp add: gateway_key_def discovered_object_def k_def)
    have w: "same_object (discovered_object m det) cur" "view w1 = (view w)(k \<mapsto> cur)"
      using link_createD [OF assms(1) _ cr(1)] kd by (simp_all add: link_writes_def discovered_object_def unset_detector_status_def)
    note o = same_objectD [OF w(1)]
    have "view w' = (view w)(k \<mapsto> cur\<lparr>det_status := observed_status (dd_addr det) (det_status cur)\<rparr>)"
      using patch_observed_stores [OF assms(1) _ cr(2)] w(2) o(4) kd by simp
    then show ?thesis using o none
      by (intro exI [of _ "cur\<lparr>det_status := observed_status (dd_addr det) (det_status cur)\<rparr>"])
        (simp add: k_def [symmetric] upserted_def discovered_object_def)
  next
    case (Inr old)
    have k: "view w k = Some old" "gateway_key old = k" using link_getD(1) [OF assms(1) Inr] by simp_all
    obtain w1 cur where pa: "dl_patch L w old (merged_object m det old) = (w1, Inr cur)" "patch_observed L w1 cur (dd_addr det) = (w', None)"
      using assms(2) Inr by (auto simp: upsertDiscovered_def k_def split: prod.splits sum.splits)
    have w: "same_object (merged_object m det old) cur" "view w1 = (view w)(k \<mapsto> cur)"
      using link_patchD [OF assms(1) _ _ pa(1)] k by (simp_all add: link_writes_def merged_object_status)
    note o = same_objectD [OF w(1)]
    have "view w' = (view w)(k \<mapsto> cur\<lparr>det_status := observed_status (dd_addr det) (det_status cur)\<rparr>)"
      using patch_observed_stores [OF assms(1) _ pa(2)] w(2) o(4) k by simp
    then show ?thesis using o k
      by (intro exI [of _ "cur\<lparr>det_status := observed_status (dd_addr det) (det_status cur)\<rparr>"])
        (simp add: k_def [symmetric] upserted_def merged_object_def discovered_object_def Let_def)
  qed
qed


text \<open>The outcome for one detector: the object it becomes, and the address of its module.\<close>

definition applied_as :: "can_detector \<Rightarrow> can_detector \<Rightarrow> (u16 \<Rightarrow> u16 option) \<Rightarrow> bool" where
  "applied_as det d addrs \<longleftrightarrow>
     (case det_desired (det_spec det) of
        None \<Rightarrow> d = det
      | Some a \<Rightarrow>
          if det_observed (det_status det) = Some a
          then (\<exists>msg. d = det\<lparr>det_status := (det_status det)\<lparr>det_phase := CANDetectorPhaseApplied, det_message := msg\<rparr>\<rparr>)
          else (\<exists>x. addrs (det_net_id (det_spec det)) = Some x \<and> d = applied_object x a det))"

lemma applied_object_simps [simp]:
  "det_spec (applied_object x a det) = det_spec det" "gateway_key (applied_object x a det) = gateway_key det"
  "det_status (applied_object x a det) = det_status det \<Longrightarrow> True"
  by (simp_all add: applied_object_def Let_def gateway_key_def)

lemma link_sendD:
  assumes "link_bus L view bus" and "dl_set_address L n a True = Inr msg" and "dl_send L w maint msg = (w', r)"
  shows "view w' = view w" "\<exists>x. bus w' = (bus w)(n := x)"
proof -
  have "let w' = fst (dl_send L w maint msg) in view w' = view w \<and> (\<exists>x. bus w' = (bus w)(n := x))"
    using assms(1,2) unfolding link_bus_def by blast
  then show "view w' = view w" "\<exists>x. bus w' = (bus w)(n := x)" using assms(3) by (simp_all add: Let_def)
qed

lemma find_SomeD: "find P xs = Some x \<Longrightarrow> P x \<and> x \<in> set xs"
  by (induction xs) (auto split: if_splits)

lemma pollModuleAddress_bus:
  assumes "link_bus L view bus" and "pollModuleAddress L w n = (w', r)"
  shows "view w' = view w \<and> bus w' = bus w \<and> (\<forall>x. r = Inr x \<longrightarrow> bus w n = Some x)"
proof -
  obtain w1 r1 where c: "dl_collect L w (dl_get_one L n) = (w1, r1)" by fastforce
  have "let (w', r) = dl_collect L w (dl_get_one L n) in view w' = view w \<and> bus w' = bus w \<and>
        (\<forall>msgs rs rep. r = Inr msgs \<longrightarrow> dl_reports L msgs = Inr rs \<longrightarrow> rep \<in> set rs \<longrightarrow>
           bus w (rp_net_id rep) = Some (rp_addr rep))"
    using assms(1) unfolding link_bus_def by blast
  then have l: "view w1 = view w" "bus w1 = bus w"
    "r1 = Inr msgs \<Longrightarrow> dl_reports L msgs = Inr rs \<Longrightarrow> rep \<in> set rs \<Longrightarrow> bus w (rp_net_id rep) = Some (rp_addr rep)" for msgs rs rep
    using c by (simp_all add: Let_def)
  have "w' = w1" using assms(2) c by (auto simp: pollModuleAddress_def split: sum.splits option.splits)
  moreover have "bus w n = Some x" if r: "r = Inr x" for x
  proof -
    obtain msgs rs rep where f: "r1 = Inr msgs" "dl_reports L msgs = Inr rs"
      "find (\<lambda>report. rp_net_id report = n) rs = Some rep" and x: "x = rp_addr rep"
      using assms(2) c r by (auto simp: pollModuleAddress_def split: sum.splits option.splits)
    from find_SomeD [OF f(3)] have "rp_net_id rep = n" "rep \<in> set rs" by simp_all
    then show ?thesis using l(3) [OF f(1,2), of rep] x by simp
  qed
  ultimately show ?thesis using l by simp
qed

lemma reconcileOne_stores:
  assumes "link_kube L view bus" and "link_bus L view bus" and "view w (gateway_key det) = Some det"
    and "reconcileOne L m w det = (w', None)"
  shows "\<exists>d x. view w' = (view w)(gateway_key det \<mapsto> d) \<and> bus w' = (bus w)(det_net_id (det_spec det) := x) \<and>
    applied_as det d (bus w')"
proof (cases "det_desired (det_spec det)")
  case None
  then show ?thesis using assms(3,4)
    by (intro exI [of _ det] exI [of _ "bus w (det_net_id (det_spec det))"])
      (simp add: reconcileOne_def applied_as_def fun_upd_idem)
next
  case (Some a)
  let ?n = "det_net_id (det_spec det)"
  show ?thesis
  proof (cases "det_observed (det_status det) = Some a")
    case True
    then have ma: "markApplied L w det = (w', None)" using assms(4) Some by (simp add: reconcileOne_def)
    show ?thesis
    proof (cases "det_phase (det_status det) = CANDetectorPhaseApplied")
      case ph: True
      then have "w' = w" using ma by (simp add: markApplied_def)
      then show ?thesis using assms(3) ph True Some
        by (intro exI [of _ det] exI [of _ "bus w ?n"]) (auto simp: applied_as_def fun_upd_idem intro: exI [of _ "det_message (det_status det)"])
    next
      case ph: False
      define d where "d = det\<lparr>det_status := (det_status det)\<lparr>det_phase := CANDetectorPhaseApplied, det_message := []\<rparr>\<rparr>"
      have "dl_patch_status L w det d = (w', None)"
        using ma ph by (auto simp: markApplied_def d_def split: prod.splits option.splits)
      from link_patch_statusD [OF assms(1) _ this] assms(3)
      have "bus w' = bus w" "view w' = (view w)(gateway_key det \<mapsto> d)" by (auto simp: d_def)
      then show ?thesis using True Some
        by (intro exI [of _ d] exI [of _ "bus w ?n"]) (auto simp: applied_as_def d_def)
    qed
  next
    case False
    define maint where "maint = join_host_port (mg_host m) (int_dec (mg_port m))"
    obtain msg w1 w2 x where st: "dl_set_address L ?n a True = Inr msg" "dl_send L w maint msg = (w1, None)"
      "pollModuleAddress L w1 ?n = (w2, Inr x)" "dl_patch_status L w2 det (applied_object x a det) = (w', None)"
      using assms(4) Some False
      by (auto simp: reconcileOne_def maint_def Let_def split: option.splits sum.splits prod.splits)
    note s = link_sendD [OF assms(2) st(1,2)] and p = pollModuleAddress_bus [OF assms(2) st(3)]
    obtain y where y: "bus w1 = (bus w)(?n := y)" using s(2) by blast
    from link_patch_statusD [OF assms(1) _ st(4)] assms(3) s(1) p
    have "bus w' = bus w2" "view w' = (view w2)(gateway_key det \<mapsto> det\<lparr>det_status := det_status (applied_object x a det)\<rparr>)" by auto
    moreover have "det\<lparr>det_status := det_status (applied_object x a det)\<rparr> = applied_object x a det"
      by (simp add: applied_object_def Let_def)
    ultimately show ?thesis using Some False s(1) p y
      by (intro exI [of _ "applied_object x a det"] exI [of _ y]) (simp add: applied_as_def)
  qed
qed

lemma applied_as_other_bus:
  "applied_as det d addrs \<Longrightarrow> det_net_id (det_spec det) \<noteq> n \<Longrightarrow> applied_as det d (addrs(n := x))"
  by (auto simp: applied_as_def split: option.splits if_splits)

definition mine :: "manager \<Rightarrow> can_detector list \<Rightarrow> can_detector list" where
  "mine m dets = filter (\<lambda>d. det_device_ref (det_spec d) = mg_device m) dets"

lemma mine_simps [simp]:
  "mine m [] = []"
  "mine m (det # dets) = (if det_device_ref (det_spec det) = mg_device m then det # mine m dets else mine m dets)"
  by (simp_all add: mine_def)

lemma set_mine: "set (mine m dets) \<subseteq> set dets" by (auto simp: mine_def)

lemma reconcile_each_stores:
  assumes "link_kube L view bus" and "link_bus L view bus" and "distinct (map gateway_key dets)"
    and "\<forall>d \<in> set dets. view w (gateway_key d) = Some d"
    and "distinct (map (\<lambda>d. det_net_id (det_spec d)) (mine m dets))"
    and "reconcile_each L m w dets = (w', None)"
  shows "(\<forall>k. k \<notin> set (map gateway_key (mine m dets)) \<longrightarrow> view w' k = view w k) \<and>
    (\<forall>n. n \<notin> set (map (\<lambda>d. det_net_id (det_spec d)) (mine m dets)) \<longrightarrow> bus w' n = bus w n) \<and>
    (\<forall>det \<in> set (mine m dets). \<exists>d. view w' (gateway_key det) = Some d \<and> applied_as det d (bus w'))"
  using assms(3-6)
proof (induction dets arbitrary: w)
  case Nil
  then show ?case by simp
next
  case (Cons det dets)
  show ?case
  proof (cases "det_device_ref (det_spec det) = mg_device m")
    case False
    then show ?thesis using Cons.IH [of w] Cons.prems by simp
  next
    case True
    obtain w1 where w1: "reconcileOne L m w det = (w1, None)" "reconcile_each L m w1 dets = (w', None)"
      using Cons.prems(4) True by (auto split: prod.splits option.splits)
    obtain d x where d: "view w1 = (view w)(gateway_key det \<mapsto> d)" "bus w1 = (bus w)(det_net_id (det_spec det) := x)"
      "applied_as det d (bus w1)"
      using reconcileOne_stores [OF assms(1,2) _ w1(1)] Cons.prems(2) by (metis list.set_intros(1))
    have fresh: "gateway_key det \<notin> set (map gateway_key dets)" using Cons.prems(1) by simp
    have st: "\<forall>e \<in> set dets. view w1 (gateway_key e) = Some e"
    proof
      fix e assume e: "e \<in> set dets"
      then have "view w (gateway_key e) = Some e" using Cons.prems(2) by simp
      moreover have "gateway_key e \<noteq> gateway_key det" using e fresh unfolding set_map by (metis imageI)
      ultimately show "view w1 (gateway_key e) = Some e" by (simp add: d(1))
    qed
    have nf: "det_net_id (det_spec det) \<notin> set (map (\<lambda>d. det_net_id (det_spec d)) (mine m dets))"
      using Cons.prems(3) True by simp
    have ih: "\<forall>k. k \<notin> set (map gateway_key (mine m dets)) \<longrightarrow> view w' k = view w1 k"
      "\<forall>n. n \<notin> set (map (\<lambda>d. det_net_id (det_spec d)) (mine m dets)) \<longrightarrow> bus w' n = bus w1 n"
      "\<forall>det \<in> set (mine m dets). \<exists>d. view w' (gateway_key det) = Some d \<and> applied_as det d (bus w')"
      using Cons.IH [OF _ st _ w1(2)] Cons.prems(1,3) True by simp_all
    have "gateway_key det \<notin> set (map gateway_key (mine m dets))"
      using fresh set_mine [of m dets] unfolding set_map by blast
    then have "view w' (gateway_key det) = view w1 (gateway_key det)" using ih(1) by blast
    then have v: "view w' (gateway_key det) = Some d" by (simp add: d(1))
    have "bus w' (det_net_id (det_spec det)) = bus w1 (det_net_id (det_spec det))" using ih(2) nf by blast
    then have "applied_as det d (bus w')" using d(3) by (auto simp: applied_as_def split: option.splits if_splits)
    with v have own: "\<exists>d. view w' (gateway_key det) = Some d \<and> applied_as det d (bus w')" by blast
    show ?thesis
    proof (intro conjI allI ballI impI)
      fix k assume "k \<notin> set (map gateway_key (mine m (det # dets)))"
      then have "k \<noteq> gateway_key det" "k \<notin> set (map gateway_key (mine m dets))" using True by simp_all
      moreover from this(2) have "view w' k = view w1 k" using ih(1) by blast
      ultimately show "view w' k = view w k" by (simp add: d(1))
    next
      fix n assume "n \<notin> set (map (\<lambda>d. det_net_id (det_spec d)) (mine m (det # dets)))"
      then have "n \<noteq> det_net_id (det_spec det)" "n \<notin> set (map (\<lambda>d. det_net_id (det_spec d)) (mine m dets))" using True by simp_all
      then show "bus w' n = bus w n" using ih(2) d(2) by simp
    next
      fix e assume "e \<in> set (mine m (det # dets))"
      then have "e = det \<or> e \<in> set (mine m dets)" using True by simp
      then show "\<exists>d. view w' (gateway_key e) = Some d \<and> applied_as e d (bus w')" using own ih(3) by blast
    qed
  qed
qed

section \<open>Properties of the manager\<close>

lemma upsert_all_stores:
  assumes "link_kube L view bus" and "distinct (map dd_net_id ds)" and "upsert_all L m w ds = (w', None)"
  shows "(\<forall>k. k \<notin> (\<lambda>det. (mg_namespace m, detectorName (dd_net_id det))) ` set ds \<longrightarrow> view w' k = view w k) \<and>
    (\<forall>det \<in> set ds. \<exists>d. view w' (mg_namespace m, detectorName (dd_net_id det)) = Some d \<and>
       upserted m det (view w (mg_namespace m, detectorName (dd_net_id det))) d)"
  using assms(2,3)
proof (induction ds arbitrary: w)
  case Nil
  then show ?case by simp
next
  case (Cons det ds)
  obtain w1 where w1: "upsertDiscovered L m w det = (w1, None)" "upsert_all L m w1 ds = (w', None)"
    using Cons.prems(2) by (auto split: prod.splits option.splits)
  obtain d where d: "view w1 = (view w)((mg_namespace m, detectorName (dd_net_id det)) \<mapsto> d)"
    "upserted m det (view w (mg_namespace m, detectorName (dd_net_id det))) d"
    using upsertDiscovered_stores [OF assms(1) w1(1)] by blast
  have dd: "distinct (map dd_net_id ds)" using Cons.prems(1) by simp
  have ih: "k \<notin> (\<lambda>det. (mg_namespace m, detectorName (dd_net_id det))) ` set ds \<Longrightarrow> view w' k = view w1 k"
    "e \<in> set ds \<Longrightarrow> \<exists>d. view w' (mg_namespace m, detectorName (dd_net_id e)) = Some d \<and>
       upserted m e (view w1 (mg_namespace m, detectorName (dd_net_id e))) d" for k e
    using Cons.IH [OF dd w1(2)] by blast+
  have other: "n \<noteq> dd_net_id det \<Longrightarrow> view w1 (mg_namespace m, detectorName n) = view w (mg_namespace m, detectorName n)" for n
    by (simp add: d(1) detectorName_inj)
  have fresh: "dd_net_id det \<notin> dd_net_id ` set ds"
    "(mg_namespace m, detectorName (dd_net_id det)) \<notin> (\<lambda>det. (mg_namespace m, detectorName (dd_net_id det))) ` set ds"
    using Cons.prems(1) by (auto simp: detectorName_inj)
  show ?case
  proof (intro conjI allI ballI impI)
    fix k assume "k \<notin> (\<lambda>det. (mg_namespace m, detectorName (dd_net_id det))) ` set (det # ds)"
    then show "view w' k = view w k" using ih(1) d(1) by simp
  next
    fix e assume "e \<in> set (det # ds)"
    then have "e = det \<or> e \<in> set ds \<and> dd_net_id e \<noteq> dd_net_id det" using fresh(1) by (metis imageI set_ConsD)
    then consider "e = det" | "e \<in> set ds" "dd_net_id e \<noteq> dd_net_id det" by blast
    then show "\<exists>d. view w' (mg_namespace m, detectorName (dd_net_id e)) = Some d \<and>
       upserted m e (view w (mg_namespace m, detectorName (dd_net_id e))) d"
    proof cases
      case 1
      then show ?thesis using ih(1) [OF fresh(2)] d by simp
    next
      case 2
      then show ?thesis using ih(2) other by metis
    qed
  qed
qed

lemma upserted_cong:
  "dd_net_id a = dd_net_id b \<Longrightarrow> dd_addr a = dd_addr b \<Longrightarrow> upserted m a old d = upserted m b old d"
  by (simp add: upserted_def)

lemma Process_stores:
  assumes "link_kube L view bus" and "\<And>xs. mset (dl_order L xs) = mset xs" and "detector_reports L msgs = Inr rs"
    and "ProcessCANDetectorMessages L m w msgs = (w', None)"
  obtains ds where "distinct (map dd_net_id ds)" "dd_net_id ` set ds = rp_net_id ` set rs"
    "\<forall>d \<in> set ds. dd_addr d = reported_addr rs (dd_net_id d)" "upsert_all L m w ds = (w', None)"
  using summary_exact [OF assms(2), of msgs] assms(3,4)
  by (auto simp: ProcessCANDetectorMessages_def)

text \<open>
  C33: Detector reports become objects. When the messages of a poll or a broadcast are processed
  without error, every reported module has its object under the name of its network id, with
  the first reported address as observed, the label of this gateway's device and automatic
  adoption unless that was set otherwise; addresses wanted or assigned before, an earlier
  phase and the device an object already refers to are kept. So the object of another
  device with a module of the same id gets this device's label but still refers to the other.
  No other object in the cluster changes, whatever its name and namespace.
\<close>

theorem discovery_upserts:
  assumes "link_kube L view bus" and "\<And>xs. mset (dl_order L xs) = mset xs" and "detector_reports L msgs = Inr rs"
    and "ProcessCANDetectorMessages L m w msgs = (w', None)"
  shows "(\<forall>k. k \<notin> (\<lambda>n. (mg_namespace m, detectorName n)) ` rp_net_id ` set rs \<longrightarrow> view w' k = view w k) \<and>
    (\<forall>n \<in> rp_net_id ` set rs. let now = \<lambda>n. view w' (mg_namespace m, detectorName n); before = \<lambda>n. view w (mg_namespace m, detectorName n) in
    (\<exists>d. now n = Some d \<and> det_net_id (det_spec d) = n \<and> det_observed (det_status d) = Some (reported_addr rs n) \<and>
      om_labels (det_meta d) = [(LabelDeviceName, mg_device m)] \<and> det_phase (det_status d) \<noteq> [] \<and>
      (case before n of
         None \<Rightarrow> det_device_ref (det_spec d) = mg_device m \<and> det_desired (det_spec d) = None \<and>
           det_assigned (det_status d) = None \<and> AdoptObservedEnabled d
       | Some e \<Rightarrow>
           det_device_ref (det_spec d) = (if det_device_ref (det_spec e) = [] then mg_device m else det_device_ref (det_spec e)) \<and>
           det_desired (det_spec d) = det_desired (det_spec e) \<and> det_assigned (det_status d) = det_assigned (det_status e) \<and>
           AdoptObservedEnabled d = AdoptObservedEnabled e)))"
proof -
  obtain ds where ds: "distinct (map dd_net_id ds)" "dd_net_id ` set ds = rp_net_id ` set rs"
    "\<forall>d \<in> set ds. dd_addr d = reported_addr rs (dd_net_id d)" "upsert_all L m w ds = (w', None)"
    by (rule Process_stores [OF assms])
  note st = upsert_all_stores [OF assms(1) ds(1,4)]
  have ph: "CANDetectorPhasePending \<noteq> []" by (simp add: CANDetectorPhasePending_def)
  have "(\<lambda>det. (mg_namespace m, detectorName (dd_net_id det))) ` set ds = (\<lambda>n. (mg_namespace m, detectorName n)) ` rp_net_id ` set rs"
    unfolding ds(2) [symmetric] by (simp add: image_image)
  with st have others: "\<forall>k. k \<notin> (\<lambda>n. (mg_namespace m, detectorName n)) ` rp_net_id ` set rs \<longrightarrow> view w' k = view w k" by simp
  show ?thesis
  proof (rule conjI [OF others], rule ballI)
    fix n assume n: "n \<in> rp_net_id ` set rs"
    then obtain det where det: "det \<in> set ds" "dd_net_id det = n" using ds(2) by (metis imageE)
    obtain d where d: "view w' (mg_namespace m, detectorName n) = Some d"
      "upserted m det (view w (mg_namespace m, detectorName n)) d"
      using st det by blast
    have a: "dd_addr det = reported_addr rs n" using ds(3) det by blast
    show "let now = \<lambda>n. view w' (mg_namespace m, detectorName n); before = \<lambda>n. view w (mg_namespace m, detectorName n) in
    (\<exists>d. now n = Some d \<and> det_net_id (det_spec d) = n \<and> det_observed (det_status d) = Some (reported_addr rs n) \<and>
      om_labels (det_meta d) = [(LabelDeviceName, mg_device m)] \<and> det_phase (det_status d) \<noteq> [] \<and>
      (case before n of
         None \<Rightarrow> det_device_ref (det_spec d) = mg_device m \<and> det_desired (det_spec d) = None \<and>
           det_assigned (det_status d) = None \<and> AdoptObservedEnabled d
       | Some e \<Rightarrow>
           det_device_ref (det_spec d) = (if det_device_ref (det_spec e) = [] then mg_device m else det_device_ref (det_spec e)) \<and>
           det_desired (det_spec d) = det_desired (det_spec e) \<and> det_assigned (det_status d) = det_assigned (det_status e) \<and>
           AdoptObservedEnabled d = AdoptObservedEnabled e))"
      using d det(2) a ph by (auto simp: Let_def upserted_def AdoptObservedEnabled_def split: option.splits)
  qed
qed

text \<open>
  A pass over the wanted addresses without error leaves them on the bus and in the status.
  For every detector of this device with a wanted address that was not observed, the module
  was asked to take it, the address observed afterwards is the one the module has, and the
  phase is \<open>Applied\<close> iff that is the wanted one; one that was observed at its wanted address is
  \<open>Applied\<close>; one without a wanted address stays as it is. Specs never change, and detectors of
  other devices and their modules are not touched.
\<close>

theorem ReconcileAddresses_applies:
  assumes "link_kube L view bus" and "link_bus L view bus" and "dl_list L w (mg_namespace m) = Inr dets"
    and "distinct (map gateway_key dets)" and "\<forall>d \<in> set dets. view w (gateway_key d) = Some d"
    and "distinct (map (\<lambda>d. det_net_id (det_spec d)) (mine m dets))"
    and "ReconcileAddresses L m w = (w', None)" and "det \<in> set dets"
  shows "if det_device_ref (det_spec det) = mg_device m
    then (\<exists>d. view w' (gateway_key det) = Some d \<and> det_spec d = det_spec det \<and>
      (case det_desired (det_spec det) of
         None \<Rightarrow> d = det
       | Some a \<Rightarrow>
           if det_observed (det_status det) = Some a then det_phase (det_status d) = CANDetectorPhaseApplied
           else det_observed (det_status d) = bus w' (det_net_id (det_spec det)) \<and> det_observed (det_status d) \<noteq> None \<and>
             (det_phase (det_status d) = CANDetectorPhaseApplied) = (det_observed (det_status d) = Some a)))
    else view w' (gateway_key det) = Some det"
proof -
  have each: "reconcile_each L m w dets = (w', None)" using assms(3,7) by (simp add: ReconcileAddresses_def)
  note st = reconcile_each_stores [OF assms(1,2,4-6) each]
  have ph: "CANDetectorPhaseAllocated \<noteq> CANDetectorPhaseApplied"
    by (simp add: CANDetectorPhaseAllocated_def CANDetectorPhaseApplied_def)
  show ?thesis
  proof (cases "det_device_ref (det_spec det) = mg_device m")
    case False
    have "gateway_key det \<notin> set (map gateway_key (mine m dets))"
    proof
      assume "gateway_key det \<in> set (map gateway_key (mine m dets))"
      then obtain e where e: "e \<in> set dets" "det_device_ref (det_spec e) = mg_device m" "gateway_key e = gateway_key det"
        by (auto simp: mine_def)
      then have "view w (gateway_key det) = Some e" using assms(5) by metis
      then have "e = det" using assms(5,8) by simp
      then show False using e False by simp
    qed
    then have "view w' (gateway_key det) = view w (gateway_key det)" using st by blast
    then show ?thesis using assms(5,8) False by simp
  next
    case True
    then have "det \<in> set (mine m dets)" using assms(8) by (simp add: mine_def)
    then obtain d where d: "view w' (gateway_key det) = Some d" "applied_as det d (bus w')" using st by blast
    then show ?thesis using True ph
      by (auto simp: applied_as_def applied_object_def Let_def split: option.splits if_splits)
  qed
qed


section \<open>A bus and a store in memory\<close>

record mem_world =
  mw_objects :: "(string \<times> string, can_detector) gomap"
  mw_modules :: "(u16, u16) gomap"

definition mw_view :: "mem_world \<Rightarrow> string \<times> string \<Rightarrow> can_detector option" where
  "mw_view w k = (case gm_get (mw_objects w) k of None \<Rightarrow> None | Some d \<Rightarrow> if gateway_key d = k then Some d else None)"

definition mw_store :: "can_detector \<Rightarrow> mem_world \<Rightarrow> mem_world" where
  "mw_store d w = w\<lparr>mw_objects := gm_set (gateway_key d) d (mw_objects w)\<rparr>"

definition mw_parse :: "bytes \<Rightarrow> string + can_report" where
  "mw_parse bs =
     (if length bs < 5 then Inl ''short''
      else Inr \<lparr>rp_net_id = get_le16 bs, rp_addr = get_le16 (drop 2 bs), rp_port = bs ! 4\<rparr>)"

fun mw_reports :: "message list \<Rightarrow> string + can_report list" where
  "mw_reports [] = Inr []"
| "mw_reports (msg # msgs) =
     (case mw_parse (msg_data msg) of
        Inl e \<Rightarrow> Inl e
      | Inr r \<Rightarrow> (case mw_reports msgs of Inl e \<Rightarrow> Inl e | Inr rs \<Rightarrow> Inr (r # rs)))"

definition mw_link :: "mem_world detector_link" where
  "mw_link =
     \<lparr>dl_header_detector = 0xC4, dl_poll_all = 0xD000, dl_maintenance_port = 34472, dl_parse = mw_parse,
      dl_reports = mw_reports, dl_get_all = \<lparr>msg_header = 0xC4, msg_data = le16 0xD000\<rparr>,
      dl_get_one = (\<lambda>n. \<lparr>msg_header = 0xC4, msg_data = le16 n\<rparr>),
      dl_set_address = (\<lambda>n a store. Inr \<lparr>msg_header = 0xC5, msg_data = le16 n @ le16 a\<rparr>),
      dl_order = (\<lambda>m. m),
      dl_collect = (\<lambda>w msg. (w, case gm_get (mw_modules w) (get_le16 (msg_data msg)) of
          None \<Rightarrow> Inr []
        | Some a \<Rightarrow> Inr [\<lparr>msg_header = 0xC4, msg_data = le16 (get_le16 (msg_data msg)) @ le16 a @ [0]\<rparr>])),
      dl_dial = (\<lambda>w maint. None),
      dl_send = (\<lambda>w maint msg. (w\<lparr>mw_modules := gm_set (get_le16 (msg_data msg)) (get_le16 (drop 2 (msg_data msg))) (mw_modules w)\<rparr>, None)),
      dl_list = (\<lambda>w ns. Inr (filter (\<lambda>d. om_namespace (det_meta d) = ns) (map snd (mw_objects w)))),
      dl_get = (\<lambda>w k. case mw_view w k of None \<Rightarrow> Inl (KubeNotFound []) | Some d \<Rightarrow> Inr d),
      dl_create = (\<lambda>w d. (mw_store d w, Inr d)),
      dl_patch = (\<lambda>w old new. (mw_store (new\<lparr>det_status := det_status old\<rparr>) w, Inr (new\<lparr>det_status := det_status old\<rparr>))),
      dl_patch_status = (\<lambda>w base new. case mw_view w (gateway_key new) of
          None \<Rightarrow> (w, Some (KubeNotFound []))
        | Some old \<Rightarrow> (mw_store (old\<lparr>det_status := det_status new\<rparr>) w, None))\<rparr>"

lemma mw_view_store [simp]: "mw_view (mw_store d w) = (mw_view w)(gateway_key d \<mapsto> d)"
  by (auto simp: mw_view_def mw_store_def fun_eq_iff)

lemma mw_view_modules [simp]: "mw_view (w\<lparr>mw_modules := m\<rparr>) = mw_view w"
  by (simp add: mw_view_def fun_eq_iff)

lemma mw_modules_store [simp]: "mw_modules (mw_store d w) = mw_modules w"
  by (simp add: mw_store_def)

lemma mw_view_key: "mw_view w k = Some d \<Longrightarrow> gateway_key d = k"
  by (auto simp: mw_view_def split: option.splits if_splits)

definition mw_bus :: "mem_world \<Rightarrow> u16 \<Rightarrow> u16 option" where
  "mw_bus w = gm_get (mw_modules w)"

lemma same_object_refl [simp]: "same_object d d" by (simp add: same_object_def)

lemma mw_link_kube: "link_kube mw_link mw_view mw_bus"
  unfolding link_kube_def
proof (intro conjI allI impI)
  show "case dl_get mw_link w k of Inl e \<Rightarrow> (\<exists>m. e = KubeNotFound m) \<longrightarrow> mw_view w k = None
      | Inr d \<Rightarrow> mw_view w k = Some d \<and> gateway_key d = k" for w k
    using mw_view_key [of w k] by (simp add: mw_link_def split: option.split)
  show "link_writes mw_view mw_bus w d (fst (dl_create mw_link w d)) (snd (dl_create mw_link w d))"
    if "det_status d = unset_detector_status" for w d
    by (simp add: link_writes_def mw_link_def mw_bus_def)
  show "link_writes mw_view mw_bus w new (fst (dl_patch mw_link w old new)) (snd (dl_patch mw_link w old new))"
    if h: "mw_view w (gateway_key new) = Some old \<and> det_status new = det_status old" for w old new
  proof -
    have "new\<lparr>det_status := det_status old\<rparr> = new" using conjunct2 [OF h, symmetric] by simp
    then show ?thesis by (simp add: link_writes_def mw_link_def mw_bus_def)
  qed
next
  fix w and base new :: can_detector
  let ?k = "gateway_key new"
  show "let (w', r) = dl_patch_status mw_link w base new; k = gateway_key new
     in mw_bus w' = mw_bus w \<and>
        (case r of None \<Rightarrow> \<exists>old x. mw_view w k = Some old \<and> mw_view w' = (mw_view w)(k := x) \<and>
              (det_status old = det_status base \<longrightarrow> x = Some (old\<lparr>det_status := det_status new\<rparr>))
         | Some e \<Rightarrow> \<exists>x. mw_view w' = (mw_view w)(k := x))"
  proof (cases "mw_view w ?k")
    case None
    then have "mw_view w = (mw_view w)(?k := None)" by (simp add: fun_upd_idem)
    then show ?thesis using None by (auto simp: mw_link_def Let_def)
  next
    case (Some old)
    then have "gateway_key old = ?k" by (rule mw_view_key)
    then show ?thesis using Some by (auto simp: mw_link_def Let_def mw_bus_def)
  qed
qed

lemma gm_get_set_fun: "gm_get (gm_set k v m) = (gm_get m)(k \<mapsto> v)"
  by (simp add: fun_eq_iff)

lemma mw_link_bus: "link_bus mw_link mw_view mw_bus"
proof -
  have "let w' = fst (dl_send mw_link w maint msg) in mw_view w' = mw_view w \<and> (\<exists>x. mw_bus w' = (mw_bus w)(n := x))"
    if "dl_set_address mw_link n a True = Inr msg" for w maint n a msg
  proof -
    have "msg_data msg = le16 n @ le16 a" using that by (auto simp: mw_link_def)
    then have "dl_send mw_link w maint msg = (w\<lparr>mw_modules := gm_set n (get_le16 (drop 2 (msg_data msg))) (mw_modules w)\<rparr>, None)"
      by (simp add: mw_link_def)
    then show ?thesis by (auto simp: Let_def mw_bus_def gm_get_set_fun)
  qed
  moreover have "let (w', r) = dl_collect mw_link w (dl_get_one mw_link n) in mw_view w' = mw_view w \<and> mw_bus w' = mw_bus w \<and>
        (\<forall>msgs rs rep. r = Inr msgs \<longrightarrow> dl_reports mw_link msgs = Inr rs \<longrightarrow> rep \<in> set rs \<longrightarrow>
           mw_bus w (rp_net_id rep) = Some (rp_addr rep))" for w n
  proof -
    have "get_le16 (le16 a) = a" for a using get_le16_le16 [of a "[]"] by simp
    then show ?thesis by (auto simp: mw_link_def mw_bus_def mw_parse_def split: option.splits)
  qed
  ultimately show ?thesis unfolding link_bus_def by blast
qed

lemma mw_calls:
  "dl_get mw_link w k = (case mw_view w k of None \<Rightarrow> Inl (KubeNotFound []) | Some d \<Rightarrow> Inr d)"
  "dl_create mw_link w d = (mw_store d w, Inr d)"
  "dl_patch_status mw_link w base new = (case mw_view w (gateway_key new) of
          None \<Rightarrow> (w, Some (KubeNotFound []))
        | Some old \<Rightarrow> (mw_store (old\<lparr>det_status := det_status new\<rparr>) w, None))"
  by (simp_all add: mw_link_def)

definition example_manager :: manager where
  "example_manager = \<lparr>mg_namespace = ''layout'', mg_device = ''sim1'', mg_host = ''10.0.0.5'', mg_port = 34472\<rparr>"

definition report_message :: "u16 \<Rightarrow> u16 \<Rightarrow> u8 \<Rightarrow> message" where
  "report_message n a p = \<lparr>msg_header = 0xC4, msg_data = le16 n @ le16 a @ [p]\<rparr>"

lemma mw_parse_report: "mw_parse (le16 n @ le16 a @ [p]) = Inr \<lparr>rp_net_id = n, rp_addr = a, rp_port = p\<rparr>"
  by (simp add: mw_parse_def nth_append)

lemma report_messages:
  "n \<noteq> 0xD000 \<Longrightarrow> detector_reports mw_link (report_message n a p # msgs) =
     map_sum id (\<lambda>rs. \<lparr>rp_net_id = n, rp_addr = a, rp_port = p\<rparr> # rs) (detector_reports mw_link msgs)"
  by (simp add: mw_link_def report_message_def mw_parse_report split: sum.split)

theorem summarizeDiscovery_exact_witness:
  "\<exists>d. summarizeDiscovery mw_link [report_message 0xDB04 0 0, report_message 0xDB04 7 1] = Inr [d] \<and>
     dd_net_id d = 0xDB04 \<and> dd_addr d = 7"
proof -
  have r: "detector_reports mw_link [report_message 0xDB04 0 0, report_message 0xDB04 7 1] =
      Inr [\<lparr>rp_net_id = 0xDB04, rp_addr = 0, rp_port = 0\<rparr>, \<lparr>rp_net_id = 0xDB04, rp_addr = 7, rp_port = 1\<rparr>]"
    by (simp add: report_messages del: detector_reports.simps(2))
  have m: "mset (dl_order mw_link xs) = mset xs" for xs by (simp add: mw_link_def)
  obtain ds where ds: "summarizeDiscovery mw_link [report_message 0xDB04 0 0, report_message 0xDB04 7 1] = Inr ds"
    "distinct (map dd_net_id ds)" "set (map dd_net_id ds) = {0xDB04}"
    "\<forall>d \<in> set ds. dd_addr d = reported_addr [\<lparr>rp_net_id = 0xDB04, rp_addr = 0, rp_port = 0\<rparr>, \<lparr>rp_net_id = 0xDB04, rp_addr = 7, rp_port = 1\<rparr>] (dd_net_id d)"
    using summarizeDiscovery_exact [OF m, of "[report_message 0xDB04 0 0, report_message 0xDB04 7 1]"] unfolding r by auto
  have "length ds = 1" using ds(2,3) distinct_card [of "map dd_net_id ds"] by simp
  then obtain d where "ds = [d]" by (cases ds) auto
  then show ?thesis using ds by (simp add: reported_addr_def)
qed

definition process_example :: "mem_world \<times> manager_error option" where
  "process_example = ProcessCANDetectorMessages mw_link example_manager \<lparr>mw_objects = [], mw_modules = []\<rparr> [report_message 0xDB04 7 0]"

theorem discovery_upserts_witness:
  "mw_view (fst process_example) (''yard'', detectorName 0xDB04) = None \<and>
   (\<exists>d. mw_view (fst process_example) (''layout'', detectorName 0xDB04) = Some d \<and> det_observed (det_status d) = Some 7)"
proof -
  have r: "detector_reports mw_link [report_message 0xDB04 7 0] = Inr [\<lparr>rp_net_id = 0xDB04, rp_addr = 7, rp_port = 0\<rparr>]"
    by (simp add: report_messages del: detector_reports.simps(2))
  have m: "mset (dl_order mw_link xs) = mset xs" for xs by (simp add: mw_link_def)
  have "summarizeDiscovery mw_link [report_message 0xDB04 7 0] = Inr [\<lparr>dd_net_id = 0xDB04, dd_addr = 7, dd_ports = [(0, ())]\<rparr>]"
    using r by (simp add: summarizeDiscovery_def summarize_loop_reports note_report_def gm_set_def mw_link_def)
  moreover have none: "mw_view \<lparr>mw_objects = [], mw_modules = []\<rparr> k = None" for k by (simp add: mw_view_def)
  ultimately have "snd process_example = None"
    by (simp add: process_example_def ProcessCANDetectorMessages_def upsertDiscovered_def mw_calls patch_observed_def
        discovered_object_def gateway_key_def split: option.splits)
  then have p: "ProcessCANDetectorMessages mw_link example_manager \<lparr>mw_objects = [], mw_modules = []\<rparr> [report_message 0xDB04 7 0] =
      (fst process_example, None)" unfolding process_example_def by (metis prod.collapse)
  have "reported_addr [\<lparr>rp_net_id = 0xDB04, rp_addr = 7, rp_port = 0\<rparr>] 0xDB04 = 7" by (simp add: reported_addr_def)
  then show ?thesis
    using discovery_upserts [OF mw_link_kube m r p] by (auto simp: Let_def example_manager_def none)
qed

definition apply_detector :: can_detector where
  "apply_detector =
     (discovered_object example_manager \<lparr>dd_net_id = 0xDB04, dd_addr = 7, dd_ports = []\<rparr>)
       \<lparr>det_spec := \<lparr>det_device_ref = ''sim1'', det_net_id = 0xDB04, det_desired = Some 12, det_adopt_observed = None\<rparr>\<rparr>"

definition apply_example :: "mem_world \<times> manager_error option" where
  "apply_example = ReconcileAddresses mw_link example_manager
     \<lparr>mw_objects = [((''layout'', detectorName 0xDB04), apply_detector)], mw_modules = [(0xDB04, 7)]\<rparr>"

lemma mw_apply_calls:
  "dl_dial mw_link w maint = None"
  "dl_set_address mw_link n a st = Inr \<lparr>msg_header = 0xC5, msg_data = le16 n @ le16 a\<rparr>"
  "dl_send mw_link w maint \<lparr>msg_header = 0xC5, msg_data = le16 n @ le16 a\<rparr> = (w\<lparr>mw_modules := gm_set n a (mw_modules w)\<rparr>, None)"
  using get_le16_le16 [of a "[]"] by (simp_all add: mw_link_def)

lemma mw_poll: "gm_get (mw_modules w) n = Some a \<Longrightarrow> pollModuleAddress mw_link w n = (w, Inr a)"
  using get_le16_le16 [of n "[]"] by (simp add: pollModuleAddress_def mw_link_def mw_parse_report [simplified])

lemma mw_reconcileOne:
  assumes "mw_view w (gateway_key det) = Some det" and "det_desired (det_spec det) = Some a" and "det_observed (det_status det) \<noteq> Some a"
  shows "reconcileOne mw_link m w det =
    (mw_store (applied_object a a det) (w\<lparr>mw_modules := gm_set (det_net_id (det_spec det)) a (mw_modules w)\<rparr>), None)"
proof -
  have "det\<lparr>det_status := det_status (applied_object a a det)\<rparr> = applied_object a a det"
    by (simp add: applied_object_def Let_def)
  then show ?thesis using assms
    by (simp add: reconcileOne_def mw_apply_calls mw_poll mw_calls Let_def)
qed

theorem ReconcileAddresses_applies_witness:
  "\<exists>d. mw_view (fst apply_example) (gateway_key apply_detector) = Some d \<and> det_observed (det_status d) = Some 12 \<and>
     det_phase (det_status d) = CANDetectorPhaseApplied"
proof -
  let ?w = "\<lparr>mw_objects = [((''layout'', detectorName 0xDB04), apply_detector)], mw_modules = [(0xDB04, 7)]\<rparr>"
  have h: "dl_list mw_link ?w (mg_namespace example_manager) = Inr [apply_detector]"
    "mw_view ?w (gateway_key apply_detector) = Some apply_detector"
    "det_device_ref (det_spec apply_detector) = mg_device example_manager"
    "det_desired (det_spec apply_detector) = Some 12" "det_observed (det_status apply_detector) = None"
    "det_net_id (det_spec apply_detector) = 0xDB04"
    by (simp_all add: mw_link_def apply_detector_def discovered_object_def example_manager_def mw_view_def gateway_key_def gm_get_def)
  have e: "apply_example = (mw_store (applied_object 12 12 apply_detector) (?w\<lparr>mw_modules := gm_set 0xDB04 12 [(0xDB04, 7)]\<rparr>), None)"
    using mw_reconcileOne [OF h(2,4)] h(1,3,5,6) by (simp add: apply_example_def ReconcileAddresses_def)
  have b: "mw_bus (fst apply_example) 0xDB04 = Some 12" unfolding e by (simp add: mw_bus_def)
  have p: "ReconcileAddresses mw_link example_manager ?w = (fst apply_example, None)"
    using e unfolding apply_example_def by (metis fst_conv)
  show ?thesis
    using ReconcileAddresses_applies [OF mw_link_kube mw_link_bus h(1) _ _ _ p, of apply_detector] b h(2-6)
    by (auto simp: mine_def)
qed

end
