(* ===== verification/Gateway.thy ===== *)
theory Gateway
  imports Gateway_Health Gateway_Detector
begin

text \<open>
  The gateway process (\<^verbatim>\<open>apps/z21-gateway/internal/gateway\<close>, \<^verbatim>\<open>internal/config\<close> and
  \<^verbatim>\<open>packages/events\<close>): its configuration from the environment, the session shared with the
  control handler, the handshake with the Z21, the bridge that publishes what the Z21 sends, and the
  outer loop that reconnects. The Z21 client, NATS, \<^verbatim>\<open>encoding/json\<close>, the protocol package, the
  clock and the context are the parameter \<open>gateway_runtime\<close>; \<open>'w\<close> is the world behind them, in which
  the context may end at any call. A connection is a number. The two endless loops are given by
  one round each, and by their runs with a bound on the rounds (\<open>bridge_loop\<close>, \<open>run_loop\<close>).

  Lemmas: which environments are accepted; the session never holds empty flags; when a
  handshake succeeds; what is published; and that the process only ends with its context.
\<close>

section \<open>Events and commands\<close>

record event =
  ev_timestamp :: int
  ev_device_name :: string
  ev_device_namespace :: string
  ev_header :: u16
  ev_data :: bytes
  ev_subject_prefix :: string

record control_command =
  cc_type :: string
  cc_device_name :: string
  cc_device_namespace :: string
  cc_broadcast_flags :: u32

definition CommandTypeSetBroadcastFlags :: string where
  "CommandTypeSetBroadcastFlags = ''setBroadcastFlags''"

definition ControlSubject :: "string \<Rightarrow> string" where "ControlSubject pfx = pfx @ ''.control''"
definition EventsSubject :: "string \<Rightarrow> string" where "EventsSubject pfx = pfx @ ''.events''"

section \<open>Configuration\<close>

record gateway_config =
  gc_z21_address :: string
  gc_nats_url :: string
  gc_subject_prefix :: string
  gc_device_name :: string
  gc_device_namespace :: string
  gc_health_addr :: string
  gc_skip_status :: bool
  gc_log_messages :: bool

text \<open>\<^verbatim>\<open>os.Getenv\<close> is the function \<open>env\<close>; a variable that is not set is the empty string.\<close>

definition envOr :: "(string \<Rightarrow> string) \<Rightarrow> string \<Rightarrow> string \<Rightarrow> string" where
  "envOr env k fallback = (if env k \<noteq> [] then env k else fallback)"

definition envBool :: "(string \<Rightarrow> string) \<Rightarrow> string \<Rightarrow> bool" where
  "envBool env k = (case parse_bool_str (env k) of None \<Rightarrow> False | Some v \<Rightarrow> v)"

definition Load :: "(string \<Rightarrow> string) \<Rightarrow> string + gateway_config" where
  "Load env =
     (let cfg =
        \<lparr>gc_z21_address = env ''Z21_ADDRESS'', gc_nats_url = env ''NATS_URL'',
         gc_subject_prefix = env ''NATS_SUBJECT_PREFIX'', gc_device_name = env ''Z21_DEVICE_NAME'',
         gc_device_namespace = env ''Z21_DEVICE_NAMESPACE'', gc_health_addr = envOr env ''HEALTH_ADDR'' '':8080'',
         gc_skip_status = envBool env ''Z21_GATEWAY_SKIP_STATUS'', gc_log_messages = envBool env ''Z21_LOG_MESSAGES''\<rparr>
      in if gc_z21_address cfg = [] then Inl ''Z21_ADDRESS is required''
         else if gc_nats_url cfg = [] then Inl ''NATS_URL is required''
         else if gc_subject_prefix cfg = [] then Inl ''NATS_SUBJECT_PREFIX is required''
         else if gc_device_name cfg = [] then Inl ''Z21_DEVICE_NAME is required''
         else if gc_device_namespace cfg = [] then Inl ''Z21_DEVICE_NAMESPACE is required''
         else Inr cfg)"

section \<open>The environment of the process\<close>

datatype read_error = ReadTimeout | ReadFailed string

record gateway_protocol =
  gp_default_flags :: u32
  gp_get_hwinfo :: message
  gp_get_serial :: message
  gp_get_xversion :: message
  gp_get_xfirmware :: message
  gp_get_code :: message
  gp_system_state :: message
  gp_set_flags :: "u32 \<Rightarrow> message"
  gp_hwinfo :: "message list \<Rightarrow> string + u32 \<times> u32"
  gp_serial :: "message list \<Rightarrow> string option"
  gp_xversion :: "message list \<Rightarrow> string + u8"
  gp_xfirmware :: "message list \<Rightarrow> string + bytes"
  gp_code :: "message list \<Rightarrow> string + u8"
  gp_format_firmware :: "u32 \<Rightarrow> string"
  gp_format_xbus :: "u8 \<Rightarrow> string"
  gp_format_xfirmware :: "bytes \<Rightarrow> string"

record 'w gateway_runtime =
  ge_protocol :: gateway_protocol
  ge_alive :: "'w \<Rightarrow> bool"
  ge_now :: "'w \<Rightarrow> int"
  ge_dial :: "'w \<Rightarrow> string \<Rightarrow> 'w \<times> (string + nat)"
  ge_close :: "'w \<Rightarrow> nat \<Rightarrow> 'w"
  ge_call :: "'w \<Rightarrow> nat \<Rightarrow> message \<Rightarrow> 'w \<times> (string + message list)"
  ge_send :: "'w \<Rightarrow> nat \<Rightarrow> message \<Rightarrow> 'w \<times> string option"
  ge_read :: "'w \<Rightarrow> nat \<Rightarrow> int \<Rightarrow> 'w \<times> (read_error + message list)"
  ge_wait :: "'w \<Rightarrow> int \<Rightarrow> 'w \<times> bool"
  ge_marshal :: "event \<Rightarrow> string + bytes"
  ge_unmarshal :: "bytes \<Rightarrow> string + control_command"
  ge_publish :: "'w \<Rightarrow> string \<Rightarrow> bytes \<Rightarrow> 'w \<times> string option"
  ge_connect_nats :: "'w \<Rightarrow> string \<Rightarrow> string option"
  ge_subscribe :: "'w \<Rightarrow> string \<Rightarrow> string option"
  ge_set_ready :: "'w \<Rightarrow> bool \<Rightarrow> 'w"
  ge_new_reporter :: "'w \<Rightarrow> string \<Rightarrow> string \<Rightarrow> string option"
  ge_reporter :: "'w gateway_client"
  ge_link :: "nat \<Rightarrow> 'w detector_link"

section \<open>The session\<close>

record z21_session =
  ss_client :: "nat option"
  ss_flags :: u32

definition newZ21Session :: "gateway_protocol \<Rightarrow> u32 \<Rightarrow> z21_session" where
  "newZ21Session P initialFlags =
     \<lparr>ss_client = None, ss_flags = (if initialFlags = 0 then gp_default_flags P else initialFlags)\<rparr>"

definition setFlags :: "gateway_protocol \<Rightarrow> u32 \<Rightarrow> z21_session \<Rightarrow> z21_session" where
  "setFlags P flags s = s\<lparr>ss_flags := (if flags = 0 then gp_default_flags P else flags)\<rparr>"

definition session_attach :: "nat \<Rightarrow> z21_session \<Rightarrow> z21_session" where
  "session_attach c s = s\<lparr>ss_client := Some c\<rparr>"

definition session_detach :: "z21_session \<Rightarrow> z21_session" where
  "session_detach s = s\<lparr>ss_client := None\<rparr>"

definition applyBroadcastFlags ::
  "'w gateway_runtime \<Rightarrow> 'w \<Rightarrow> z21_session \<Rightarrow> u32 \<Rightarrow> 'w \<times> z21_session \<times> string option" where
  "applyBroadcastFlags G w s flags =
     (let s1 = setFlags (ge_protocol G) flags s in
      case ss_client s1 of
        None \<Rightarrow> (w, s1, None)
      | Some c \<Rightarrow> (case ge_send G w c (gp_set_flags (ge_protocol G) (ss_flags s1)) of (w1, e) \<Rightarrow> (w1, s1, e)))"

definition handleControlMessage :: "'w gateway_runtime \<Rightarrow> 'w \<Rightarrow> z21_session \<Rightarrow> bytes \<Rightarrow> 'w \<times> z21_session" where
  "handleControlMessage G w s payload =
     (case ge_unmarshal G payload of
        Inl e \<Rightarrow> (w, s)
      | Inr cmd \<Rightarrow>
          if cc_type cmd = CommandTypeSetBroadcastFlags
          then (case applyBroadcastFlags G w s (cc_broadcast_flags cmd) of (w1, s1, e) \<Rightarrow> (w1, s1))
          else (w, s))"

section \<open>The handshake\<close>

record hardware_info =
  hi_hardware_type :: string
  hi_serial_number :: string
  hi_firmware_version :: string
  hi_xbus_version :: string
  hi_xbus_firmware_version :: string
  hi_lock_code :: "u8 option"

definition no_hardware_info :: hardware_info where
  "no_hardware_info =
     \<lparr>hi_hardware_type = [], hi_serial_number = [], hi_firmware_version = [], hi_xbus_version = [],
      hi_xbus_firmware_version = [], hi_lock_code = None\<rparr>"

text \<open>
  A question the handshake can do without: on an answer that parses the information is
  extended, otherwise it stays as it is.
\<close>

definition ask_optional ::
  "'w gateway_runtime \<Rightarrow> nat \<Rightarrow> message \<Rightarrow> (message list \<Rightarrow> hardware_info \<Rightarrow> hardware_info)
     \<Rightarrow> 'w \<times> hardware_info \<Rightarrow> 'w \<times> hardware_info" where
  "ask_optional G c req fill st =
     (case st of (w, info) \<Rightarrow>
        (case ge_call G w c req of (w1, Inl e) \<Rightarrow> (w1, info) | (w1, Inr msgs) \<Rightarrow> (w1, fill msgs info)))"

definition fill_serial :: "gateway_protocol \<Rightarrow> message list \<Rightarrow> hardware_info \<Rightarrow> hardware_info" where
  "fill_serial P msgs info =
     (case gp_serial P msgs of Some serial \<Rightarrow> info\<lparr>hi_serial_number := serial\<rparr> | None \<Rightarrow> info)"

definition fill_xversion :: "gateway_protocol \<Rightarrow> message list \<Rightarrow> hardware_info \<Rightarrow> hardware_info" where
  "fill_xversion P msgs info =
     (case gp_xversion P msgs of Inr v \<Rightarrow> info\<lparr>hi_xbus_version := gp_format_xbus P v\<rparr> | Inl e \<Rightarrow> info)"

definition fill_xfirmware :: "gateway_protocol \<Rightarrow> message list \<Rightarrow> hardware_info \<Rightarrow> hardware_info" where
  "fill_xfirmware P msgs info =
     (case gp_xfirmware P msgs of
        Inr fw \<Rightarrow> info\<lparr>hi_xbus_firmware_version := gp_format_xfirmware P fw\<rparr> | Inl e \<Rightarrow> info)"

definition fill_code :: "gateway_protocol \<Rightarrow> message list \<Rightarrow> hardware_info \<Rightarrow> hardware_info" where
  "fill_code P msgs info =
     (case gp_code P msgs of Inr code \<Rightarrow> info\<lparr>hi_lock_code := Some code\<rparr> | Inl e \<Rightarrow> info)"

definition handshake :: "'w gateway_runtime \<Rightarrow> 'w \<Rightarrow> nat \<Rightarrow> u32 \<Rightarrow> 'w \<times> (string + hardware_info)" where
  "handshake G w c broadcastFlags =
     (let P = ge_protocol G in
      case ge_call G w c (gp_get_hwinfo P) of
        (w1, Inl e) \<Rightarrow> (w1, Inl (''handshake: '' @ e))
      | (w1, Inr hwMsgs) \<Rightarrow>
      (case gp_hwinfo P hwMsgs of
        Inl e \<Rightarrow> (w1, Inl (''handshake: '' @ e))
      | Inr (hwType, firmware) \<Rightarrow>
      (let info = no_hardware_info\<lparr>hi_hardware_type := ''0x'' @ hex_pad False 8 (unat hwType),
                                    hi_firmware_version := gp_format_firmware P firmware\<rparr>;
           (w2, info1) =
             ask_optional G c (gp_get_code P) (fill_code P)
               (ask_optional G c (gp_get_xfirmware P) (fill_xfirmware P)
                 (ask_optional G c (gp_get_xversion P) (fill_xversion P)
                   (ask_optional G c (gp_get_serial P) (fill_serial P) (w1, info))));
           flags = (if broadcastFlags = 0 then gp_default_flags P else broadcastFlags)
       in case ge_send G w2 c (gp_set_flags P flags) of
            (w3, Some e) \<Rightarrow> (w3, Inl (''set broadcast flags: '' @ e))
          | (w3, None) \<Rightarrow>
          (case ge_call G w3 c (gp_system_state P) of
            (w4, Inl e) \<Rightarrow> (w4, Inl (''system state: '' @ e))
          | (w4, Inr _) \<Rightarrow> (w4, Inr info1)))))"

section \<open>Status patches\<close>

text \<open>There is a reporter unless the configuration skips the status.\<close>

definition gateway_reporter :: "'w gateway_runtime \<Rightarrow> gateway_config \<Rightarrow> 'w gateway_client option" where
  "gateway_reporter G cfg = (if gc_skip_status cfg then None else Some (ge_reporter G))"

definition gateway_device_key :: "gateway_config \<Rightarrow> string \<times> string" where
  "gateway_device_key cfg = (gc_device_namespace cfg, gc_device_name cfg)"

definition patchSession :: "'w gateway_runtime \<Rightarrow> gateway_config \<Rightarrow> 'w \<Rightarrow> session_update \<Rightarrow> 'w" where
  "patchSession G cfg w update =
     (case gateway_reporter G cfg of
        None \<Rightarrow> w | Some c \<Rightarrow> fst (UpdateSession c w (gateway_device_key cfg) update))"

definition markZ21Connected :: "'w gateway_runtime \<Rightarrow> gateway_config \<Rightarrow> hardware_info \<Rightarrow> 'w \<Rightarrow> int \<Rightarrow> 'w" where
  "markZ21Connected G cfg hw w at =
     patchSession G cfg w
       \<lparr>su_last_seen = at, su_serial_number = hi_serial_number hw, su_firmware_version = hi_firmware_version hw,
        su_hardware_type = hi_hardware_type hw, su_xbus_version = hi_xbus_version hw,
        su_xbus_firmware_version = hi_xbus_firmware_version hw, su_lock_code = hi_lock_code hw\<rparr>"

definition markZ21Disconnected :: "'w gateway_runtime \<Rightarrow> gateway_config \<Rightarrow> 'w \<Rightarrow> int \<Rightarrow> 'w" where
  "markZ21Disconnected G cfg w at =
     patchSession G cfg w
       \<lparr>su_last_seen = at, su_serial_number = [], su_firmware_version = [], su_hardware_type = [],
        su_xbus_version = [], su_xbus_firmware_version = [], su_lock_code = None\<rparr>"

section \<open>The bridge\<close>

text \<open>Durations are nanoseconds.\<close>

definition readTimeout :: int where "readTimeout = 30000000000"

definition message_event :: "gateway_config \<Rightarrow> int \<Rightarrow> message \<Rightarrow> event" where
  "message_event cfg now msg =
     \<lparr>ev_timestamp = now, ev_device_name = gc_device_name cfg, ev_device_namespace = gc_device_namespace cfg,
      ev_header = msg_header msg, ev_data = msg_data msg, ev_subject_prefix = gc_subject_prefix cfg\<rparr>"

fun publish_all :: "'w gateway_runtime \<Rightarrow> gateway_config \<Rightarrow> string \<Rightarrow> int \<Rightarrow> 'w \<Rightarrow> message list \<Rightarrow> 'w" where
  "publish_all G cfg subject now w [] = w"
| "publish_all G cfg subject now w (msg # msgs) =
     (case ge_marshal G (message_event cfg now msg) of
        Inl e \<Rightarrow> publish_all G cfg subject now w msgs
      | Inr payload \<Rightarrow> publish_all G cfg subject now (fst (ge_publish G w subject payload)) msgs)"

text \<open>One round: it goes on (\<open>None\<close>) or returns whether the connection was lost.\<close>

definition bridge_round ::
  "'w gateway_runtime \<Rightarrow> gateway_config \<Rightarrow> hardware_info \<Rightarrow> string \<Rightarrow> nat \<Rightarrow> manager option \<Rightarrow> 'w \<Rightarrow> 'w \<times> bool option" where
  "bridge_round G cfg hw subject c detMgr w =
     (if \<not> ge_alive G w then (w, Some False)
      else (case ge_read G w c readTimeout of
        (w1, Inl err) \<Rightarrow>
          if \<not> ge_alive G w1 then (w1, Some False)
          else if err = ReadTimeout then
            (case ge_call G w1 c (gp_get_hwinfo (ge_protocol G)) of
               (w2, Inl probeErr) \<Rightarrow>
                 if \<not> ge_alive G w2 then (w2, Some False)
                 else (markZ21Disconnected G cfg w2 (ge_now G w2), Some True)
             | (w2, Inr _) \<Rightarrow>
                 (let w3 = markZ21Connected G cfg hw w2 (ge_now G w2) in
                  case detMgr of
                    None \<Rightarrow> (w3, None)
                  | Some m \<Rightarrow> (fst (ReconcileAddresses (ge_link G c) m w3), None)))
          else (markZ21Disconnected G cfg w1 (ge_now G w1), Some True)
      | (w1, Inr msgs) \<Rightarrow>
          (let now = ge_now G w1;
               w2 = (case detMgr of None \<Rightarrow> w1 | Some m \<Rightarrow> fst (ProcessCANDetectorMessages (ge_link G c) m w1 msgs));
               w3 = publish_all G cfg subject now w2 msgs
           in (markZ21Connected G cfg hw w3 now, None))))"

definition bridge_start :: "'w gateway_runtime \<Rightarrow> gateway_config \<Rightarrow> nat \<Rightarrow> 'w \<Rightarrow> 'w \<times> manager option" where
  "bridge_start G cfg c w =
     (case gateway_reporter G cfg of
        None \<Rightarrow> (w, None)
      | Some _ \<Rightarrow>
          (case NewManager (ge_link G c) (gc_device_namespace cfg) (gc_device_name cfg) (gc_z21_address cfg) 0 of
             Inl e \<Rightarrow> (w, None)
           | Inr m \<Rightarrow> (fst (SyncDiscovery (ge_link G c) m w), Some m)))"

text \<open>At most \<open>n\<close> rounds; \<open>None\<close> when they are used up.\<close>

fun bridge_loop ::
  "nat \<Rightarrow> 'w gateway_runtime \<Rightarrow> gateway_config \<Rightarrow> hardware_info \<Rightarrow> string \<Rightarrow> nat \<Rightarrow> manager option \<Rightarrow> 'w \<Rightarrow> 'w \<times> bool option" where
  "bridge_loop 0 G cfg hw subject c detMgr w = (w, None)"
| "bridge_loop (Suc n) G cfg hw subject c detMgr w =
     (case bridge_round G cfg hw subject c detMgr w of
        (w1, None) \<Rightarrow> bridge_loop n G cfg hw subject c detMgr w1
      | (w1, Some lost) \<Rightarrow> (w1, Some lost))"

definition bridgeZ21 ::
  "nat \<Rightarrow> 'w gateway_runtime \<Rightarrow> gateway_config \<Rightarrow> hardware_info \<Rightarrow> string \<Rightarrow> nat \<Rightarrow> 'w \<Rightarrow> 'w \<times> bool option" where
  "bridgeZ21 n G cfg hw subject c w =
     (case bridge_start G cfg c w of (w1, detMgr) \<Rightarrow> bridge_loop n G cfg hw subject c detMgr w1)"

section \<open>Run\<close>

definition connectRetryInterval :: int where "connectRetryInterval = 5000000000"

text \<open>What follows a failure or a loss: wait, and stop when the context ends meanwhile.\<close>

definition retry :: "'w gateway_runtime \<Rightarrow> gateway_config \<Rightarrow> 'w \<Rightarrow> 'w \<times> bool" where
  "retry G cfg w =
     (case ge_wait G (markZ21Disconnected G cfg w (ge_now G w)) connectRetryInterval of
        (w1, False) \<Rightarrow> (markZ21Disconnected G cfg w1 (ge_now G w1), False)
      | (w1, True) \<Rightarrow> (w1, True))"

text \<open>
  One round of the outer loop: \<open>Some True\<close> to go on, \<open>Some False\<close> when \<^verbatim>\<open>Run\<close> returns, \<open>None\<close> when the
  bridge is still in its loop after \<open>n\<close> rounds.
\<close>

definition run_round ::
  "nat \<Rightarrow> 'w gateway_runtime \<Rightarrow> gateway_config \<Rightarrow> z21_session \<Rightarrow> 'w \<Rightarrow> 'w \<times> z21_session \<times> bool option" where
  "run_round n G cfg s w =
     (if \<not> ge_alive G w then (markZ21Disconnected G cfg w (ge_now G w), s, Some False)
      else (case ge_dial G w (gc_z21_address cfg) of
        (w1, Inl e) \<Rightarrow> (case retry G cfg w1 of (w2, b) \<Rightarrow> (w2, s, Some b))
      | (w1, Inr c) \<Rightarrow>
      (let s1 = session_attach c s in
       case handshake G w1 c (ss_flags s1) of
        (w2, Inl e) \<Rightarrow>
          (let s2 = session_detach s1; w3 = ge_close G w2 c in
           if \<not> ge_alive G w3 then (markZ21Disconnected G cfg w3 (ge_now G w3), s2, Some False)
           else (case retry G cfg w3 of (w4, b) \<Rightarrow> (w4, s2, Some b)))
      | (w2, Inr hw) \<Rightarrow>
      (case bridgeZ21 n G cfg hw (EventsSubject (gc_subject_prefix cfg)) c
              (markZ21Connected G cfg hw w2 (ge_now G w2)) of
        (w3, None) \<Rightarrow> (w3, s1, None)
      | (w3, Some lost) \<Rightarrow>
          (let s2 = session_detach s1; w4 = ge_close G w3 c in
           if \<not> ge_alive G w4 then (markZ21Disconnected G cfg w4 (ge_now G w4), s2, Some False)
           else if \<not> lost then (w4, s2, Some False)
           else (case retry G cfg w4 of (w5, b) \<Rightarrow> (w5, s2, Some b)))))))"

text \<open>
  Before the loop: NATS, the reporter, the flags of the device and the subscription are needed; then
  the process is ready, and the status shows it is not connected yet. The health loop and the control
  handler run beside it.
\<close>

datatype run_error = RunText string string | RunKube string kube_error

definition run_start :: "'w gateway_runtime \<Rightarrow> gateway_config \<Rightarrow> 'w \<Rightarrow> 'w \<times> (run_error + z21_session)" where
  "run_start G cfg w =
     (case ge_connect_nats G w (gc_nats_url cfg) of
        Some e \<Rightarrow> (w, Inl (RunText ''connect nats'' e))
      | None \<Rightarrow>
      (case (if gc_skip_status cfg then None else ge_new_reporter G w (gc_device_namespace cfg) (gc_device_name cfg)) of
        Some e \<Rightarrow> (w, Inl (RunText ''create status reporter'' e))
      | None \<Rightarrow>
      (let s = newZ21Session (ge_protocol G) (gp_default_flags (ge_protocol G)) in
      (case (case gateway_reporter G cfg of
               None \<Rightarrow> Inr s
             | Some c \<Rightarrow>
                 (case reporter_BroadcastFlags c w (gateway_device_key cfg) of
                    Inl e \<Rightarrow> Inl e | Inr flags \<Rightarrow> Inr (setFlags (ge_protocol G) flags s))) of
        Inl e \<Rightarrow> (w, Inl (RunKube ''read broadcast flags'' e))
      | Inr s1 \<Rightarrow>
      (case ge_subscribe G w (ControlSubject (gc_subject_prefix cfg)) of
        Some e \<Rightarrow> (w, Inl (RunText ''subscribe control'' e))
      | None \<Rightarrow>
          (let w1 = ge_set_ready G w True
           in (markZ21Disconnected G cfg w1 (ge_now G w1), Inr s1)))))))"

fun run_loop ::
  "nat \<Rightarrow> nat \<Rightarrow> 'w gateway_runtime \<Rightarrow> gateway_config \<Rightarrow> z21_session \<Rightarrow> 'w \<Rightarrow> 'w \<times> z21_session \<times> bool" where
  "run_loop 0 n G cfg s w = (w, s, False)"
| "run_loop (Suc k) n G cfg s w =
     (case run_round n G cfg s w of
        (w1, s1, None) \<Rightarrow> (w1, s1, False)
      | (w1, s1, Some True) \<Rightarrow> run_loop k n G cfg s1 w1
      | (w1, s1, Some False) \<Rightarrow> (w1, s1, True))"

text \<open>\<open>Run\<close> with bounds on the rounds; the last result is \<open>None\<close> when they are used up.\<close>

definition Run :: "nat \<Rightarrow> nat \<Rightarrow> 'w gateway_runtime \<Rightarrow> gateway_config \<Rightarrow> 'w \<Rightarrow> 'w \<times> run_error option option" where
  "Run k n G cfg w =
     (case run_start G cfg w of
        (w1, Inl e) \<Rightarrow> (w1, Some (Some e))
      | (w1, Inr s) \<Rightarrow>
          (case run_loop k n G cfg s w1 of
             (w2, s2, False) \<Rightarrow> (w2, None)
           | (w2, s2, True) \<Rightarrow> (ge_set_ready G w2 False, Some None)))"

section \<open>The process ends with its context\<close>

text \<open>
  What the loop relies on: a status patch and closing a connection do not revive a context that
  has ended, and a wait is cut short only by the end of the context.
\<close>

definition context_laws :: "'w gateway_runtime \<Rightarrow> bool" where
  "context_laws G \<longleftrightarrow>
     (\<forall>w old new. \<not> ge_alive G w \<longrightarrow> \<not> ge_alive G (fst (gc_patch_status (ge_reporter G) w old new))) \<and>
     (\<forall>w c. \<not> ge_alive G w \<longrightarrow> \<not> ge_alive G (ge_close G w c)) \<and>
     (\<forall>w d. \<not> snd (ge_wait G w d) \<longrightarrow> \<not> ge_alive G (fst (ge_wait G w d)))"

lemma patchSession_dead:
  "context_laws G \<Longrightarrow> \<not> ge_alive G w \<Longrightarrow> \<not> ge_alive G (patchSession G cfg w u)"
  by (auto simp: patchSession_def gateway_reporter_def UpdateSession_def context_laws_def split: sum.split)

lemma mark_dead:
  assumes "context_laws G" and "\<not> ge_alive G w"
  shows "\<not> ge_alive G (markZ21Disconnected G cfg w at)"
  using patchSession_dead [OF assms] by (simp add: markZ21Disconnected_def)

lemma retry_dead: "context_laws G \<Longrightarrow> retry G cfg w = (w', False) \<Longrightarrow> \<not> ge_alive G w'"
proof -
  assume l: "context_laws G" and r: "retry G cfg w = (w', False)"
  obtain w1 b where w: "ge_wait G (markZ21Disconnected G cfg w (ge_now G w)) connectRetryInterval = (w1, b)" by fastforce
  have b: "b = False" "w' = markZ21Disconnected G cfg w1 (ge_now G w1)"
    using r w by (cases b; simp add: retry_def)+
  have "\<not> ge_alive G w1" using l w b(1) unfolding context_laws_def by (metis fst_conv snd_conv)
  then show "\<not> ge_alive G w'" using mark_dead [OF l] b(2) by simp
qed

lemma bridge_round_kept: "bridge_round G cfg hw subject c detMgr w = (w', Some False) \<Longrightarrow> \<not> ge_alive G w'"
  by (auto simp: bridge_round_def Let_def split: if_splits prod.splits sum.splits option.splits)

lemma bridge_loop_kept: "bridge_loop n G cfg hw subject c detMgr w = (w', Some False) \<Longrightarrow> \<not> ge_alive G w'"
proof (induction n arbitrary: w)
  case (Suc n)
  then show ?case by (auto split: prod.splits option.splits dest: bridge_round_kept)
qed simp

lemma run_round_ends:
  assumes "context_laws G" and "run_round n G cfg s w = (w', s', Some b)"
  shows "(b \<or> \<not> ge_alive G w') \<and> (ss_client s = None \<longrightarrow> ss_client s' = None) \<and> ss_flags s' = ss_flags s"
proof -
  note dead = mark_dead [OF assms(1)]
  have close: "\<not> ge_alive G w \<Longrightarrow> \<not> ge_alive G (ge_close G w c)" for w c
    using assms(1) by (simp add: context_laws_def)
  have ret: "retry G cfg w = (w2, b2) \<Longrightarrow> b2 \<or> \<not> ge_alive G w2" for w w2 b2
    using retry_dead [OF assms(1)] by (cases b2) auto
  show ?thesis
  proof (cases "ge_alive G w")
    case False
    then show ?thesis using assms(2) dead [OF False] by (auto simp: run_round_def)
  next
    case True
    obtain w1 r1 where 1: "ge_dial G w (gc_z21_address cfg) = (w1, r1)" by fastforce
    show ?thesis
    proof (cases r1)
      case (Inl e)
      then show ?thesis using assms(2) True 1 ret [of w1] by (auto simp: run_round_def split: prod.splits)
    next
      case (Inr c)
      obtain w2 r2 where 2: "handshake G w1 c (ss_flags s) = (w2, r2)" by fastforce
      have [simp]: "ss_flags (session_attach c s) = ss_flags s" "ss_flags (session_detach x) = ss_flags x"
        "ss_client (session_detach x) = None" for x
        by (simp_all add: session_attach_def session_detach_def)
      show ?thesis
      proof (cases r2)
        case (Inl e)
        then show ?thesis using assms(2) True 1 2 Inr dead [of "ge_close G w2 c"] ret [of "ge_close G w2 c"]
          by (auto simp: run_round_def Let_def split: prod.splits if_splits)
      next
        case r2: (Inr hw)
        obtain w3 r3 where 3: "bridgeZ21 n G cfg hw (EventsSubject (gc_subject_prefix cfg)) c
              (markZ21Connected G cfg hw w2 (ge_now G w2)) = (w3, r3)" by fastforce
        have lost: "r3 = Some False \<Longrightarrow> \<not> ge_alive G w3"
          using 3 by (auto simp: bridgeZ21_def split: prod.splits dest: bridge_loop_kept)
        show ?thesis
        proof (cases r3)
          case None
          then show ?thesis using assms(2) True 1 2 3 Inr r2 by (simp add: run_round_def Let_def)
        next
          case (Some l)
          then show ?thesis
            using assms(2) True 1 2 3 Inr r2 lost close [of w3 c] dead [of "ge_close G w3 c"] ret [of "ge_close G w3 c"]
            by (cases l) (auto simp: run_round_def Let_def split: prod.splits if_splits)
        qed
      qed
    qed
  qed
qed

lemma run_loop_ends:
  assumes "context_laws G"
  shows "run_loop k n G cfg s w = (w', s', True) \<Longrightarrow> ss_client s = None \<Longrightarrow> \<not> ge_alive G w' \<and> ss_client s' = None"
proof (induction k arbitrary: s w)
  case (Suc k)
  obtain w1 s1 r where r: "run_round n G cfg s w = (w1, s1, r)" by (metis prod_cases3)
  show ?case
  proof (cases r)
    case None
    then show ?thesis using Suc.prems r by simp
  next
    case (Some b)
    then show ?thesis using Suc r run_round_ends [OF assms, of n cfg s w w1 s1 b] by (cases b) auto
  qed
qed simp


section \<open>The session never holds empty flags\<close>

text \<open>The transitions of the session: the loop attaches and detaches, commands arrive in between.\<close>

datatype session_event = SessionAttach nat | SessionDetach | SessionControl bytes

fun session_step :: "'w gateway_runtime \<Rightarrow> 'w \<times> z21_session \<Rightarrow> session_event \<Rightarrow> 'w \<times> z21_session" where
  "session_step G (w, s) (SessionAttach c) = (w, session_attach c s)"
| "session_step G (w, s) SessionDetach = (w, session_detach s)"
| "session_step G (w, s) (SessionControl payload) = handleControlMessage G w s payload"

definition flags_set :: "'w \<times> z21_session \<Rightarrow> bool" where
  "flags_set st \<longleftrightarrow> ss_flags (snd st) \<noteq> 0"

lemma setFlags_nonzero: "gp_default_flags P \<noteq> 0 \<Longrightarrow> ss_flags (setFlags P f s) \<noteq> 0"
  by (simp add: setFlags_def)

lemma session_step_flags:
  assumes "gp_default_flags (ge_protocol G) \<noteq> 0" and "flags_set st"
  shows "flags_set (session_step G st e)"
proof (cases st)
  case (Pair w s)
  then show ?thesis using assms setFlags_nonzero [OF assms(1)]
    by (cases e) (auto simp: flags_set_def session_attach_def session_detach_def handleControlMessage_def
        applyBroadcastFlags_def Let_def split: sum.split option.split prod.split)
qed

interpretation session_machine: invariant_machine "session_step G"
  "\<lambda>st. gp_default_flags (ge_protocol G) \<noteq> 0 \<longrightarrow> flags_set st" for G
  by unfold_locales (simp add: session_step_flags)

section \<open>What is published\<close>

text \<open>The log of what was offered to NATS, each with whether NATS accepted it, and calls that leave it alone.\<close>

type_synonym publish_log = "(string \<times> bytes \<times> bool) list"

definition publish_laws :: "'w gateway_runtime \<Rightarrow> ('w \<Rightarrow> publish_log) \<Rightarrow> bool" where
  "publish_laws G tried \<longleftrightarrow>
     (\<forall>w subject payload. tried (fst (ge_publish G w subject payload)) =
        tried w @ [(subject, payload, snd (ge_publish G w subject payload) = None)])"

definition link_keeps :: "'w detector_link \<Rightarrow> ('w \<Rightarrow> 'a) \<Rightarrow> bool" where
  "link_keeps L f \<longleftrightarrow>
     (\<forall>w d. f (fst (dl_create L w d)) = f w) \<and> (\<forall>w a b. f (fst (dl_patch L w a b)) = f w) \<and>
     (\<forall>w a b. f (fst (dl_patch_status L w a b)) = f w)"

lemma link_keepsD:
  assumes "link_keeps L f"
  shows "dl_create L w d = (w', r) \<Longrightarrow> f w' = f w" "dl_patch L w a b = (w', r) \<Longrightarrow> f w' = f w"
    "dl_patch_status L w a b = (w', s) \<Longrightarrow> f w' = f w"
  using assms unfolding link_keeps_def by (metis fst_conv)+

lemma patch_observed_keeps: "link_keeps L f \<Longrightarrow> f (fst (patch_observed L w cur a)) = f w"
  by (auto simp: patch_observed_def split: prod.split option.split dest: link_keepsD)

lemma upsertDiscovered_keeps: "link_keeps L f \<Longrightarrow> f (fst (upsertDiscovered L m w det)) = f w"
  by (auto simp: upsertDiscovered_def patch_observed_keeps split: prod.split sum.split kube_error.split dest: link_keepsD)

lemma upsert_all_keeps: "link_keeps L f \<Longrightarrow> f (fst (upsert_all L m w ds)) = f w"
proof (induction ds arbitrary: w)
  case (Cons d ds)
  then show ?case using upsertDiscovered_keeps [of L f m w d] by (auto split: prod.split option.split)
qed simp

lemma Process_keeps: "link_keeps L f \<Longrightarrow> f (fst (ProcessCANDetectorMessages L m w msgs)) = f w"
  by (simp add: ProcessCANDetectorMessages_def upsert_all_keeps split: sum.split)

definition payloads :: "'w gateway_runtime \<Rightarrow> gateway_config \<Rightarrow> int \<Rightarrow> message list \<Rightarrow> bytes list" where
  "payloads G cfg now msgs =
     concat (map (\<lambda>msg. case ge_marshal G (message_event cfg now msg) of Inl e \<Rightarrow> [] | Inr p \<Rightarrow> [p]) msgs)"

text \<open>A log entry for every payload, with some answers.\<close>

definition offers :: "string \<Rightarrow> bytes list \<Rightarrow> bool list \<Rightarrow> publish_log" where
  "offers subject ps answers = map (\<lambda>(p, ok). (subject, p, ok)) (zip ps answers)"

lemma publish_all_tried:
  assumes "publish_laws G tried"
  shows "\<exists>answers. length answers = length (payloads G cfg now msgs) \<and>
    tried (publish_all G cfg subject now w msgs) = tried w @ offers subject (payloads G cfg now msgs) answers"
proof (induction msgs arbitrary: w)
  case Nil
  show ?case by (simp add: payloads_def offers_def)
next
  case (Cons msg msgs)
  show ?case
  proof (cases "ge_marshal G (message_event cfg now msg)")
    case (Inl e)
    then show ?thesis using Cons.IH [of w] by (simp add: payloads_def)
  next
    case (Inr p)
    define w1 where "w1 = fst (ge_publish G w subject p)"
    obtain as where as: "length as = length (payloads G cfg now msgs)"
      "tried (publish_all G cfg subject now w1 msgs) = tried w1 @ offers subject (payloads G cfg now msgs) as"
      using Cons.IH [of w1] by blast
    have t1: "tried w1 = tried w @ [(subject, p, snd (ge_publish G w subject p) = None)]"
      using assms by (simp add: publish_laws_def w1_def)
    have pl: "payloads G cfg now (msg # msgs) = p # payloads G cfg now msgs" by (simp add: payloads_def Inr)
    have "tried (publish_all G cfg subject now w (msg # msgs)) =
        tried w @ offers subject (p # payloads G cfg now msgs) ((snd (ge_publish G w subject p) = None) # as)"
      using as(2) t1 by (simp add: Inr offers_def flip: w1_def)
    then show ?thesis unfolding pl
      using as(1) by (intro exI [of _ "(snd (ge_publish G w subject p) = None) # as"]) simp
  qed
qed

lemma mark_keeps:
  assumes "\<forall>w old new. f (fst (gc_patch_status (ge_reporter G) w old new)) = f w"
  shows "f (markZ21Connected G cfg hw w at) = f w" "f (markZ21Disconnected G cfg w at) = f w"
  using assms by (simp_all add: markZ21Connected_def markZ21Disconnected_def patchSession_def gateway_reporter_def
      UpdateSession_def split: sum.split)

section \<open>A process in memory\<close>

text \<open>
  A world for the examples: the context lives for a number of waits, the device and what NATS
  accepted are kept, dialling fails, and every read gives the packet of the connection.
\<close>

record gate_world =
  gw_waits :: nat
  gw_device :: z21device
  gw_sent :: "(string \<times> bytes) list"

definition gateway_z21 :: gateway_protocol where
  "gateway_z21 =
     (let q = (\<lambda>h. \<lparr>msg_header = h, msg_data = []\<rparr>) in
      \<lparr>gp_default_flags = 0x80101, gp_get_hwinfo = q 0x1A, gp_get_serial = q 0x10, gp_get_xversion = q 0x40,
       gp_get_xfirmware = q 0x40, gp_get_code = q 0x18, gp_system_state = q 0x85,
       gp_set_flags = (\<lambda>f. \<lparr>msg_header = 0x50, msg_data = le32 f\<rparr>), gp_hwinfo = (\<lambda>ms. Inr (0x201, 0x142)),
       gp_serial = (\<lambda>ms. None), gp_xversion = (\<lambda>ms. Inl ''none''), gp_xfirmware = (\<lambda>ms. Inl ''none''),
       gp_code = (\<lambda>ms. Inl ''none''), gp_format_firmware = (\<lambda>f. ''1.42''), gp_format_xbus = (\<lambda>v. ''3.0''),
       gp_format_xfirmware = (\<lambda>f. ''1.0'')\<rparr>)"

definition no_link :: "'w detector_link" where
  "no_link =
     \<lparr>dl_header_detector = 0xC4, dl_poll_all = 0xD000, dl_maintenance_port = 34472, dl_parse = (\<lambda>bs. Inl ''none''),
      dl_reports = (\<lambda>ms. Inl ''none''), dl_get_all = \<lparr>msg_header = 0xC4, msg_data = []\<rparr>,
      dl_get_one = (\<lambda>n. \<lparr>msg_header = 0xC4, msg_data = []\<rparr>), dl_set_address = (\<lambda>n a s. Inl ''none''), dl_order = (\<lambda>m. m),
      dl_collect = (\<lambda>w m. (w, Inl ''none'')), dl_dial = (\<lambda>w m. Some ''none''), dl_send = (\<lambda>w m x. (w, Some ''none'')),
      dl_list = (\<lambda>w ns. Inr []), dl_get = (\<lambda>w k. Inl (KubeNotFound [])), dl_create = (\<lambda>w d. (w, Inl (KubeNotFound []))),
      dl_patch = (\<lambda>w a b. (w, Inl (KubeNotFound []))), dl_patch_status = (\<lambda>w a b. (w, Some (KubeNotFound [])))\<rparr>"

definition example_gateway :: "gate_world gateway_runtime" where
  "example_gateway =
     \<lparr>ge_protocol = gateway_z21, ge_alive = (\<lambda>w. 0 < gw_waits w), ge_now = (\<lambda>w. 7),
      ge_dial = (\<lambda>w a. (w, Inl ''refused'')), ge_close = (\<lambda>w c. w), ge_call = (\<lambda>w c m. (w, Inl ''none'')),
      ge_send = (\<lambda>w c m. (w, None)), ge_read = (\<lambda>w c t. (w, Inr [\<lparr>msg_header = 0x84, msg_data = [1]\<rparr>, \<lparr>msg_header = 0xC4, msg_data = []\<rparr>])),
      ge_wait = (\<lambda>w t. (w\<lparr>gw_waits := gw_waits w - 1\<rparr>, 1 < gw_waits w)),
      ge_marshal = (\<lambda>e. if ev_data e = [] then Inl ''empty'' else Inr (ev_data e)),
      ge_unmarshal = (\<lambda>bs. Inr \<lparr>cc_type = CommandTypeSetBroadcastFlags, cc_device_name = [], cc_device_namespace = [], cc_broadcast_flags = 0\<rparr>),
      ge_publish = (\<lambda>w s p. (w\<lparr>gw_sent := gw_sent w @ [(s, p)]\<rparr>, None)), ge_connect_nats = (\<lambda>w u. None),
      ge_subscribe = (\<lambda>w s. None), ge_set_ready = (\<lambda>w b. w), ge_new_reporter = (\<lambda>w ns n. None),
      ge_reporter = \<lparr>gc_get = (\<lambda>w k. Inr (gw_device w)),
        gc_patch_status = (\<lambda>w old new. (w\<lparr>gw_device := (gw_device w)\<lparr>dev_status := dev_status new\<rparr>\<rparr>, None)),
        SetStatusCondition = list_set_condition, gc_probe = (\<lambda>w a t. True)\<rparr>,
      ge_link = (\<lambda>c. no_link)\<rparr>"

definition example_gateway_config :: gateway_config where
  "example_gateway_config =
     \<lparr>gc_z21_address = ''10.0.0.5:21105'', gc_nats_url = ''nats://nats:4222'', gc_subject_prefix = ''z21.layout.z1'',
      gc_device_name = ''z1'', gc_device_namespace = ''layout'', gc_health_addr = '':8080'', gc_skip_status = False,
      gc_log_messages = False\<rparr>"

definition gate_world_with :: "nat \<Rightarrow> gate_world" where
  "gate_world_with n = \<lparr>gw_waits = n, gw_device = example_hardware, gw_sent = []\<rparr>"

lemma example_context_laws: "context_laws example_gateway"
  by (simp add: context_laws_def example_gateway_def)

lemma example_calls:
  "ge_dial example_gateway w a = (w, Inl ''refused'')" "ge_alive example_gateway w = (0 < gw_waits w)"
  "ge_now example_gateway w = 7" "ge_wait example_gateway w t = (w\<lparr>gw_waits := gw_waits w - 1\<rparr>, 1 < gw_waits w)"
  "gc_get (ge_reporter example_gateway) w k = Inr (gw_device w)"
  "gc_patch_status (ge_reporter example_gateway) w old new = (w\<lparr>gw_device := (gw_device w)\<lparr>dev_status := dev_status new\<rparr>\<rparr>, None)"
  "ge_publish example_gateway w s p = (w\<lparr>gw_sent := gw_sent w @ [(s, p)]\<rparr>, None)"
  "ge_link example_gateway c = no_link"
  "ge_read example_gateway w c t = (w, Inr [\<lparr>msg_header = 0x84, msg_data = [1]\<rparr>, \<lparr>msg_header = 0xC4, msg_data = []\<rparr>])"
  "ge_marshal example_gateway ev = (if ev_data ev = [] then Inl ''empty'' else Inr (ev_data ev))"
  "gp_default_flags (ge_protocol example_gateway) = 0x80101"
  by (simp_all add: example_gateway_def gateway_z21_def)

lemma example_reporter [simp]: "gateway_reporter example_gateway example_gateway_config = Some (ge_reporter example_gateway)"
  by (simp add: gateway_reporter_def example_gateway_config_def)

lemma example_patch_keeps:
  "gw_waits (patchSession example_gateway example_gateway_config w u) = gw_waits w"
  "gw_sent (patchSession example_gateway example_gateway_config w u) = gw_sent w"
  by (simp_all add: patchSession_def UpdateSession_def example_calls)

section \<open>Properties\<close>

text \<open>
  The gateway process ends only with its context, and without a connection. When its loop
  returns, the context has ended, whatever the Z21, NATS or the API server did, and the session is detached;
  as long as the context lives, every failure leads to another round.
\<close>

theorem gateway_ends_with_context:
  assumes "context_laws G" and "ss_client s = None" and "run_loop k n G cfg s w = (w', s', True)"
  shows "\<not> ge_alive G w' \<and> ss_client s' = None"
  using run_loop_ends [OF assms(1,3,2)] .

theorem gateway_ends_with_context_witness:
  "case run_loop 2 0 example_gateway example_gateway_config (newZ21Session gateway_z21 0) (gate_world_with 2) of
     (w', s', b) \<Rightarrow> b \<and> \<not> ge_alive example_gateway w' \<and> ss_client s' = None"
proof -
  have n: "ss_client (newZ21Session gateway_z21 0) = None" by (simp add: newZ21Session_def)
  obtain w' s' b where r: "run_loop 2 0 example_gateway example_gateway_config (newZ21Session gateway_z21 0) (gate_world_with 2) = (w', s', b)"
    using prod_cases3 by blast
  have "b"
    using r by (simp add: numeral_2_eq_2 run_round_def retry_def example_calls markZ21Disconnected_def example_patch_keeps
        gate_world_with_def)
  then show ?thesis using gateway_ends_with_context [OF example_context_laws n, of 2 0] r by simp
qed

text \<open>
  The broadcast flags of a session are never empty. Whatever connections come and go and
  whatever control messages arrive, the flags stay nonzero, as the protocol's default is.
\<close>

theorem session_flags_nonzero:
  assumes "gp_default_flags (ge_protocol G) \<noteq> 0"
  shows "ss_flags (snd (run_events (session_step G) (w, newZ21Session (ge_protocol G) initial) es)) \<noteq> 0"
  using session_machine.run_inv [of G "(w, newZ21Session (ge_protocol G) initial)" es] assms
  by (simp add: flags_set_def newZ21Session_def)

theorem session_flags_nonzero_witness:
  "ss_flags (snd (run_events (session_step example_gateway) (gate_world_with 1, newZ21Session (ge_protocol example_gateway) 0)
     [SessionAttach 3, SessionControl [], SessionDetach])) \<noteq> 0"
  by (rule session_flags_nonzero) (simp add: example_calls)

text \<open>
  C34: A packet is published message by message. Every message that can be encoded is offered to NATS
  exactly once, in order and as the event of that message under the given subject, also after NATS
  has refused earlier ones; a message that cannot be encoded is left out. The bridge goes on
  afterwards, whatever NATS answered.
\<close>

theorem bridge_publishes:
  assumes "publish_laws G tried" and "link_keeps (ge_link G c) tried"
    and "\<forall>w old new. tried (fst (gc_patch_status (ge_reporter G) w old new)) = tried w"
    and "ge_alive G w" and "ge_read G w c readTimeout = (w1, Inr msgs)"
    and "bridge_round G cfg hw subject c detMgr w = (w', r)"
  shows "r = None \<and> (\<exists>answers. length answers = length (payloads G cfg (ge_now G w1) msgs) \<and>
    tried w' = tried w1 @ offers subject (payloads G cfg (ge_now G w1) msgs) answers)"
proof -
  define w2 where "w2 = (case detMgr of None \<Rightarrow> w1 | Some m \<Rightarrow> fst (ProcessCANDetectorMessages (ge_link G c) m w1 msgs))"
  have s2: "tried w2 = tried w1" using Process_keeps [OF assms(2)] by (simp add: w2_def split: option.split)
  have "r = None" "w' = markZ21Connected G cfg hw (publish_all G cfg subject (ge_now G w1) w2 msgs) (ge_now G w1)"
    using assms(4-6) by (simp_all add: bridge_round_def Let_def w2_def)
  then show ?thesis
    using publish_all_tried [OF assms(1), of cfg "ge_now G w1" msgs subject w2] mark_keeps(1) [OF assms(3)] s2 by simp
qed

text \<open>A gateway whose NATS refuses the payload \<open>[1]\<close>; the log of its world has every offer.\<close>

definition refusing_gateway :: "gate_world gateway_runtime" where
  "refusing_gateway = example_gateway
     \<lparr>ge_publish := (\<lambda>w s p. (w\<lparr>gw_sent := gw_sent w @ [(s, p)]\<rparr>, if p = [1] then Some ''refused'' else None)),
      ge_read := (\<lambda>w c t. (w, Inr [\<lparr>msg_header = 0x84, msg_data = [1]\<rparr>, \<lparr>msg_header = 0xC4, msg_data = []\<rparr>, \<lparr>msg_header = 0x84, msg_data = [2]\<rparr>]))\<rparr>"

definition refused_log :: "gate_world \<Rightarrow> publish_log" where
  "refused_log w = map (\<lambda>(s, p). (s, p, p \<noteq> [1])) (gw_sent w)"

theorem bridge_publishes_witness:
  "refused_log (fst (bridge_round refusing_gateway example_gateway_config no_hardware_info ''z21.layout.z1.events'' 0 None (gate_world_with 1))) =
   [(''z21.layout.z1.events'', [1], False), (''z21.layout.z1.events'', [2], True)]"
proof -
  have calls: "ge_publish refusing_gateway w s p = (w\<lparr>gw_sent := gw_sent w @ [(s, p)]\<rparr>, if p = [1] then Some ''refused'' else None)"
    "ge_read refusing_gateway w c t = (w, Inr [\<lparr>msg_header = 0x84, msg_data = [1]\<rparr>, \<lparr>msg_header = 0xC4, msg_data = []\<rparr>, \<lparr>msg_header = 0x84, msg_data = [2]\<rparr>])"
    "ge_link refusing_gateway c = no_link" "ge_reporter refusing_gateway = ge_reporter example_gateway"
    "ge_alive refusing_gateway w = (0 < gw_waits w)" "ge_marshal refusing_gateway = ge_marshal example_gateway" for w c t s p
    by (simp_all add: refusing_gateway_def example_calls)
  have laws: "publish_laws refusing_gateway refused_log" "link_keeps (ge_link refusing_gateway 0) refused_log"
    by (simp_all add: publish_laws_def link_keeps_def calls no_link_def refused_log_def)
  obtain w' r where r: "bridge_round refusing_gateway example_gateway_config no_hardware_info ''z21.layout.z1.events'' 0 None
      (gate_world_with 1) = (w', r)" by fastforce
  have patch: "\<forall>w old new. refused_log (fst (gc_patch_status (ge_reporter refusing_gateway) w old new)) = refused_log w"
    and alive: "ge_alive refusing_gateway (gate_world_with 1)"
    by (simp_all add: calls example_calls gate_world_with_def refused_log_def)
  have p: "payloads refusing_gateway example_gateway_config now
      [\<lparr>msg_header = 0x84, msg_data = [1]\<rparr>, \<lparr>msg_header = 0xC4, msg_data = []\<rparr>, \<lparr>msg_header = 0x84, msg_data = [2]\<rparr>] = [[1], [2]]" for now
    by (simp add: payloads_def calls example_calls message_event_def)
  have s: "refused_log (gate_world_with n) = []" for n by (simp add: gate_world_with_def refused_log_def)
  from bridge_publishes [OF laws patch alive calls(2) r] obtain answers where
    "length answers = Suc (Suc 0)" "refused_log w' = offers ''z21.layout.z1.events'' [[1], [2]] answers" by (auto simp: p s)
  then obtain a b where log: "refused_log w' = [(''z21.layout.z1.events'', [1], a), (''z21.layout.z1.events'', [2], b)]"
    by (auto simp: offers_def length_Suc_conv)
  moreover have "\<forall>(s, p, ok) \<in> set (refused_log w'). ok = (p \<noteq> [1])" by (auto simp: refused_log_def)
  ultimately show ?thesis unfolding r fst_conv by simp
qed

text \<open>
  A Z21 that cannot be reached is seen all the time. When dialling fails, the gateway patches
  \<open>LastSeen\<close> of its device with the present time, and changes nothing else in the status, before it waits to
  try again.
\<close>

theorem failed_dial_sets_last_seen:
  assumes "ge_alive G w" and "ge_dial G w (gc_z21_address cfg) = (w1, Inl e)" and "\<not> gc_skip_status cfg"
    and "gc_get (ge_reporter G) w1 (gateway_device_key cfg) = Inr device"
    and "ge_wait G (fst (gc_patch_status (ge_reporter G) w1 device
        (device\<lparr>dev_status := (dev_status device)\<lparr>st_last_seen := Some (ge_now G w1)\<rparr>\<rparr>))) connectRetryInterval = (w2, True)"
  shows "run_round n G cfg s w = (w2, s, Some True)"
proof -
  have "with_session \<lparr>su_last_seen = ge_now G w1, su_serial_number = [], su_firmware_version = [], su_hardware_type = [],
        su_xbus_version = [], su_xbus_firmware_version = [], su_lock_code = None\<rparr> (dev_status device) =
      (dev_status device)\<lparr>st_last_seen := Some (ge_now G w1)\<rparr>"
    by (simp add: with_session_def Let_def)
  then have "markZ21Disconnected G cfg w1 (ge_now G w1) = fst (gc_patch_status (ge_reporter G) w1 device
        (device\<lparr>dev_status := (dev_status device)\<lparr>st_last_seen := Some (ge_now G w1)\<rparr>\<rparr>))"
    using assms(3,4) by (simp add: markZ21Disconnected_def patchSession_def gateway_reporter_def UpdateSession_def)
  then show ?thesis using assms(1,2,5) by (simp add: run_round_def retry_def)
qed

theorem failed_dial_sets_last_seen_witness:
  "case run_round 0 example_gateway example_gateway_config (newZ21Session gateway_z21 0) (gate_world_with 2) of
     (w', s', r) \<Rightarrow> st_last_seen (dev_status (gw_device w')) = Some 7 \<and> r = Some True"
proof -
  define w1 where "w1 = gate_world_with 2"
  define w2 where "w2 = w1\<lparr>gw_device := (gw_device w1)\<lparr>dev_status := (dev_status (gw_device w1))\<lparr>st_last_seen := Some 7\<rparr>\<rparr>,
      gw_waits := 1\<rparr>"
  have "run_round 0 example_gateway example_gateway_config (newZ21Session gateway_z21 0) w1 =
      (w2, newZ21Session gateway_z21 0, Some True)"
    by (rule failed_dial_sets_last_seen [of example_gateway w1 _ w1 "''refused''" "gw_device w1"])
      (simp_all add: example_calls w1_def w2_def gate_world_with_def example_gateway_config_def)
  then show ?thesis by (simp add: w1_def w2_def)
qed

text \<open>
  The configuration is accepted exactly when the five required variables are set, and then it
  holds their values; otherwise the error names the first one missing, in the order of the code.
\<close>

theorem Load_requires:
  "let missing = filter (\<lambda>k. env k = []) [''Z21_ADDRESS'', ''NATS_URL'', ''NATS_SUBJECT_PREFIX'', ''Z21_DEVICE_NAME'', ''Z21_DEVICE_NAMESPACE''] in
   case Load env of
     Inl e \<Rightarrow> missing \<noteq> [] \<and> e = hd missing @ '' is required''
   | Inr cfg \<Rightarrow> missing = [] \<and> gc_z21_address cfg = env ''Z21_ADDRESS'' \<and> gc_nats_url cfg = env ''NATS_URL'' \<and>
       gc_subject_prefix cfg = env ''NATS_SUBJECT_PREFIX'' \<and> gc_device_name cfg = env ''Z21_DEVICE_NAME'' \<and>
       gc_device_namespace cfg = env ''Z21_DEVICE_NAMESPACE'' \<and>
       gc_health_addr cfg = (if env ''HEALTH_ADDR'' = [] then '':8080'' else env ''HEALTH_ADDR'') \<and>
       gc_log_messages cfg = (parse_bool_str (env ''Z21_LOG_MESSAGES'') = Some True)"
  by (simp add: Load_def Let_def envOr_def envBool_def split: option.split)

end
