(* ===== verification/Simulation_Controller.thy ===== *)
theory Simulation_Controller
  imports Device_Api Sim_Server
begin

text \<open>
  The Simulation resource and its controller (\<^verbatim>\<open>operators/z21-sim-controller\<close>): the API types, the
  pool of gRPC clients and \<^verbatim>\<open>Reconcile\<close>, which registers the declared CAN modules on the simulator
  of a device. The Kubernetes client and the gRPC library are parameters; \<open>'w\<close> is the world behind
  them.

  Lemmas: the pool keeps one connection for an endpoint and loses none; and, with the simulator of
  \<open>Sim_Server\<close> at the other end, what the registry of the simulator holds after a reconciliation.
\<close>

section \<open>The Simulation resource\<close>

definition SimulationPhaseApplied :: string where "SimulationPhaseApplied = ''Applied''"
definition SimulationPhaseFailed :: string where "SimulationPhaseFailed = ''Failed''"

record simulation_detector =
  smd_net_id :: u16
  smd_name :: string
  smd_module_address :: u16
  smd_port_count :: u16

record simulation_booster =
  smb_net_id :: u16
  smb_name :: string
  smb_output_port :: u16

record simulation_spec =
  sms_device_ref :: string
  sms_detectors :: "simulation_detector list"
  sms_boosters :: "simulation_booster list"

record simulation_status =
  smt_phase :: string
  smt_message :: string
  smt_observed_generation :: int
  smt_applied :: i32

record simulation =
  smn_meta :: object_meta
  smn_spec :: simulation_spec
  smn_status :: simulation_status

section \<open>The pool of gRPC clients\<close>

text \<open>
  \<^verbatim>\<open>grpc.NewClient\<close>, the error of the context, closing a connection and a call on one, which is a
  number. A pool maps an endpoint to its connection, if it has been made.
\<close>

record 'w grpc_lib =
  gl_new :: "'w \<Rightarrow> string \<Rightarrow> 'w \<times> (string + nat)"
  gl_done :: "'w \<Rightarrow> string option"
  gl_close :: "'w \<Rightarrow> nat \<Rightarrow> 'w \<times> string option"
  gl_call :: "'w \<Rightarrow> nat \<Rightarrow> notify_request \<Rightarrow> 'w \<times> string option"

record grpc_client =
  gcl_addr :: string
  gcl_conn :: "nat option"

type_synonym client_pool = "(string, grpc_client) gomap"

definition NewGRPC :: "string \<Rightarrow> grpc_client" where
  "NewGRPC addr = \<lparr>gcl_addr = addr, gcl_conn = None\<rparr>"

definition ClientFor :: "client_pool \<Rightarrow> string \<Rightarrow> client_pool \<times> grpc_client" where
  "ClientFor p addr =
     (case gm_get p addr of Some cl \<Rightarrow> (p, cl) | None \<Rightarrow> (gm_set addr (NewGRPC addr) p, NewGRPC addr))"

definition grpc_connect :: "'w grpc_lib \<Rightarrow> 'w \<Rightarrow> grpc_client \<Rightarrow> 'w \<times> grpc_client \<times> (string + nat)" where
  "grpc_connect L w cl =
     (case gcl_conn cl of
        Some k \<Rightarrow> (w, cl, Inr k)
      | None \<Rightarrow>
          (case gl_new L w (gcl_addr cl) of
             (w1, Inl e) \<Rightarrow> (w1, cl, Inl (''dial simulator gRPC '' @ gcl_addr cl @ '': '' @ e))
           | (w1, Inr k) \<Rightarrow>
               (case gl_done L w1 of
                  Some e \<Rightarrow> (fst (gl_close L w1 k), cl, Inl e)
                | None \<Rightarrow> (w1, cl\<lparr>gcl_conn := Some k\<rparr>, Inr k))))"

definition grpc_notify :: "'w grpc_lib \<Rightarrow> 'w \<Rightarrow> grpc_client \<Rightarrow> notify_request \<Rightarrow> 'w \<times> grpc_client \<times> string option" where
  "grpc_notify L w cl req =
     (case grpc_connect L w cl of
        (w1, cl1, Inl e) \<Rightarrow> (w1, cl1, Some e)
      | (w1, cl1, Inr k) \<Rightarrow> (case gl_call L w1 k req of (w2, r) \<Rightarrow> (w2, cl1, r)))"

definition grpc_close :: "'w grpc_lib \<Rightarrow> 'w \<Rightarrow> grpc_client \<Rightarrow> 'w \<times> grpc_client \<times> string option" where
  "grpc_close L w cl =
     (case gcl_conn cl of
        None \<Rightarrow> (w, cl, None)
      | Some k \<Rightarrow> (case gl_close L w k of (w1, e) \<Rightarrow> (w1, cl\<lparr>gcl_conn := None\<rparr>, e)))"

text \<open>A call for an endpoint through the pool: the client is shared, so the pool keeps its new state.\<close>

definition pool_notify :: "'w grpc_lib \<Rightarrow> 'w \<Rightarrow> client_pool \<Rightarrow> string \<Rightarrow> notify_request \<Rightarrow> 'w \<times> client_pool \<times> string option" where
  "pool_notify L w p addr req =
     (case ClientFor p addr of (p1, cl) \<Rightarrow>
        (case grpc_notify L w cl req of (w1, cl1, r) \<Rightarrow> (w1, gm_set addr cl1 p1, r)))"

text \<open>\<^verbatim>\<open>Close\<close> ranges over the clients in some order \<open>order\<close> and keeps the first error.\<close>

fun pool_close_each :: "'w grpc_lib \<Rightarrow> 'w \<Rightarrow> (string \<times> grpc_client) list \<Rightarrow> client_pool \<Rightarrow> string option
    \<Rightarrow> 'w \<times> client_pool \<times> string option" where
  "pool_close_each L w [] p firstErr = (w, p, firstErr)"
| "pool_close_each L w ((addr, cl) # cls) p firstErr =
     (case grpc_close L w cl of (w1, _, e) \<Rightarrow>
        pool_close_each L w1 cls (gm_del addr p) (if firstErr = None then e else firstErr))"

definition pool_Close :: "'w grpc_lib \<Rightarrow> ((string \<times> grpc_client) list \<Rightarrow> (string \<times> grpc_client) list) \<Rightarrow> 'w \<Rightarrow> client_pool
    \<Rightarrow> 'w \<times> client_pool \<times> string option" where
  "pool_Close L order w p = pool_close_each L w (order p) p None"

section \<open>The controller\<close>

record 'w simulation_client =
  sc_get :: "'w \<Rightarrow> string \<times> string \<Rightarrow> kube_error + simulation"
  sc_get_device :: "'w \<Rightarrow> string \<times> string \<Rightarrow> kube_error + z21device"
  sc_update_status :: "'w \<Rightarrow> simulation \<Rightarrow> 'w \<times> kube_error option"
  sc_configured :: bool
  sc_notify :: "'w \<Rightarrow> string \<Rightarrow> notify_request \<Rightarrow> 'w \<times> string option"

definition defaultDetectorModuleAddress :: u16 where "defaultDetectorModuleAddress = 1"
definition defaultDetectorPortCount :: u16 where "defaultDetectorPortCount = 8"
definition defaultBoosterOutputPort :: u16 where "defaultBoosterOutputPort = 1"

definition detector_request :: "simulation_detector \<Rightarrow> notify_request" where
  "detector_request detector =
     (let moduleAddr = (if smd_module_address detector = 0 then defaultDetectorModuleAddress else smd_module_address detector);
          portCount = (if smd_port_count detector = 0 then defaultDetectorPortCount else smd_port_count detector)
      in \<lparr>nr_net_id = ucast (smd_net_id detector), nr_kind = 1, nr_name = smd_name detector,
          nr_module_addr = ucast moduleAddr, nr_port_count = ucast portCount, nr_output_port = 0\<rparr>)"

definition booster_request :: "simulation_booster \<Rightarrow> notify_request" where
  "booster_request booster =
     (let outputPort = (if smb_output_port booster = 0 then defaultBoosterOutputPort else smb_output_port booster)
      in \<lparr>nr_net_id = ucast (smb_net_id booster), nr_kind = 2, nr_name = smb_name booster,
          nr_module_addr = 0, nr_port_count = 0, nr_output_port = ucast outputPort\<rparr>)"

text \<open>Both loops stop at the first call that fails; \<open>what\<close> names the module in its error.\<close>

fun notify_each ::
  "'w simulation_client \<Rightarrow> string \<Rightarrow> 'w \<Rightarrow> (notify_request \<times> string) list \<Rightarrow> i32 \<Rightarrow> 'w \<times> i32 \<times> string option" where
  "notify_each c addr w [] applied = (w, applied, None)"
| "notify_each c addr w ((req, what) # reqs) applied =
     (case sc_notify c w addr req of
        (w1, Some e) \<Rightarrow> (w1, applied, Some (what @ '': '' @ e))
      | (w1, None) \<Rightarrow> notify_each c addr w1 reqs (applied + 1))"

definition applyCANDevices :: "'w simulation_client \<Rightarrow> string \<Rightarrow> 'w \<Rightarrow> simulation \<Rightarrow> 'w \<times> i32 \<times> string option" where
  "applyCANDevices c addr w sim =
     (case notify_each c addr w
             (map (\<lambda>d. (detector_request d, ''register CAN detector netID=0x'' @ hex_pad True 4 (unat (smd_net_id d))))
                (sms_detectors (smn_spec sim))) 0 of
        (w1, applied, Some e) \<Rightarrow> (w1, applied, Some e)
      | (w1, applied, None) \<Rightarrow>
          notify_each c addr w1
            (map (\<lambda>b. (booster_request b, ''register CAN booster netID=0x'' @ hex_pad True 4 (unat (smb_net_id b))))
               (sms_boosters (smn_spec sim))) applied)"

definition simulation_patchStatus ::
  "'w simulation_client \<Rightarrow> 'w \<Rightarrow> simulation \<Rightarrow> string \<Rightarrow> string \<Rightarrow> i32 \<Rightarrow> 'w \<times> kube_error option" where
  "simulation_patchStatus c w sim phase message applied =
     (let st = \<lparr>smt_phase = phase, smt_message = message,
                smt_observed_generation = om_generation (smn_meta sim), smt_applied = applied\<rparr>
      in if smn_status sim = st then (w, None) else sc_update_status c w (sim\<lparr>smn_status := st\<rparr>))"

definition sim_workloadNamespace :: "string \<Rightarrow> string" where
  "sim_workloadNamespace ns = (if ns \<noteq> [] then ns else DefaultWorkloadNamespace)"

text \<open>\<open>ns\<close> is the configured \<^verbatim>\<open>WorkloadNamespace\<close>.\<close>

definition simulation_Reconcile ::
  "'w simulation_client \<Rightarrow> string \<Rightarrow> 'w \<Rightarrow> string \<times> string \<Rightarrow> 'w \<times> kube_error option" where
  "simulation_Reconcile c ns w req =
     (case sc_get c w req of
        Inl (KubeNotFound _) \<Rightarrow> (w, None)
      | Inl e \<Rightarrow> (w, Some e)
      | Inr sim \<Rightarrow>
      (let ref = sms_device_ref (smn_spec sim); sns = om_namespace (smn_meta sim) in
       if ref = [] then simulation_patchStatus c w sim SimulationPhaseFailed ''spec.deviceRef.name is required'' 0
       else (case sc_get_device c w (sns, ref) of
         Inl (KubeNotFound _) \<Rightarrow>
           simulation_patchStatus c w sim SimulationPhaseFailed
             (''Z21Device '' @ quote ref @ '' not found in namespace '' @ quote sns) 0
       | Inl e \<Rightarrow> (w, Some e)
       | Inr device \<Rightarrow>
         if be_type (ds_backend (dev_spec device)) \<noteq> BackendSimulator then
           simulation_patchStatus c w sim SimulationPhaseFailed
             (''Z21Device '' @ quote (om_name (dev_meta device)) @ '' backend is '' @
              quote (be_type (ds_backend (dev_spec device))) @ '', expected '' @ quote BackendSimulator) 0
         else if \<not> sc_configured c then
           simulation_patchStatus c w sim SimulationPhaseFailed ''simulator gRPC client pool is not configured'' 0
         else
           (case applyCANDevices c (SimulatorGRPCAddress (sim_workloadNamespace ns) (om_name (dev_meta device))) w sim of
              (w1, applied, Some e) \<Rightarrow> simulation_patchStatus c w1 sim SimulationPhaseFailed e applied
            | (w1, applied, None) \<Rightarrow> simulation_patchStatus c w1 sim SimulationPhaseApplied [] applied))))"

section \<open>The pool\<close>

lemma ClientFor_again: "ClientFor p addr = (p1, cl) \<Longrightarrow> ClientFor p1 addr = (p1, cl)"
  by (auto simp: ClientFor_def split: option.splits)

text \<open>Once an endpoint is connected, later calls use that connection and leave the pool as it is.\<close>

lemma pool_notify_connected:
  assumes "gm_get p addr = Some cl" and "gcl_conn cl = Some k"
  shows "pool_notify L w p addr req = (fst (gl_call L w k req), gm_set addr cl p, snd (gl_call L w k req))"
  using assms by (simp add: pool_notify_def ClientFor_def grpc_notify_def grpc_connect_def split: prod.split)

section \<open>What a request registers\<close>

definition declared_devices :: "simulation_spec \<Rightarrow> (u16 \<times> can_device) list" where
  "declared_devices sp =
     map (\<lambda>d. (smd_net_id d, newDetectorDevice (smd_net_id d) (smd_name d)
           (if smd_module_address d = 0 then 1 else smd_module_address d) (if smd_port_count d = 0 then 8 else smd_port_count d)))
       (sms_detectors sp) @
     map (\<lambda>b. (smb_net_id b, newBoosterDevice (smb_net_id b) (smb_name b) (smb_output_port b))) (sms_boosters sp)"

definition registers :: "z21_protocol \<Rightarrow> sim_env \<Rightarrow> notify_request \<Rightarrow> u16 \<times> can_device \<Rightarrow> bool" where
  "registers P E req nd \<longleftrightarrow>
     (\<forall>s. case grpc_NotifyCANDeviceDetected P E s (Some req) of
        (s', Inl e) \<Rightarrow> s' = s
      | (s', Inr n) \<Rightarrow> canDevice s' = (canDevice s)(fst nd \<mapsto> snd nd))"

lemma canDevice_register: "canDevice (RegisterCANDevice s d) = (canDevice s)(cd_net_id d \<mapsto> d)"
  by (simp add: fun_eq_iff canDevice_def RegisterCANDevice_def put_device_def)

lemma only_sent_devices: "only_sent s s' \<Longrightarrow> canDevice s' = canDevice s"
  by (auto simp: only_sent_def canDevice_def fun_eq_iff)

lemma canDevice_notify: "canDevice (fst (NotifyCANDeviceDetected P E s d)) = (canDevice s)(cd_net_id d \<mapsto> d)"
proof -
  have "only_sent (RegisterCANDevice s d) (fst (NotifyCANDeviceDetected P E s d))"
    by (simp add: NotifyCANDeviceDetected_def broadcastCANDeviceDetected_def broadcast_def broadcastMany_only_sent)
  then show ?thesis by (simp add: only_sent_devices canDevice_register)
qed

lemma ucast_u16 [simp]: "ucast (ucast (n :: u16) :: u32) = n" "\<not> (0xFFFF < (ucast n :: u32))"
proof -
  show "ucast (ucast n :: u32) = n" by (rule bit_word_eqI) (simp add: bit_simps)
  have "take_bit 32 (uint n) = uint n" using unsigned_less [of n, where ?'a = int] by (intro take_bit_int_eq_self) auto
  then have "uint (ucast n :: u32) = uint n" by (simp add: unsigned_ucast_eq)
  then show "\<not> (0xFFFF < (ucast n :: u32))" using unsigned_less [of n, where ?'a = int] by (simp add: word_less_def)
qed

lemma registers_built:
  assumes "\<And>e. canDeviceKindFromProto (nr_kind req) \<noteq> Inl e"
    and "\<And>kind d. canDeviceKindFromProto (nr_kind req) = Inr kind \<Longrightarrow>
      BuildCANDevice (nr_net_id req) kind (nr_name req) (nr_module_addr req) (nr_port_count req) (nr_output_port req) = Inr d \<Longrightarrow>
      d = snd nd \<and> cd_net_id d = fst nd"
  shows "registers P E req nd"
  unfolding registers_def grpc_NotifyCANDeviceDetected_def
  using assms canDevice_notify by (auto split: sum.split prod.split) (metis fst_conv)+

lemma detector_registers:
  "registers P E (detector_request d)
     (smd_net_id d, newDetectorDevice (smd_net_id d) (smd_name d)
        (if smd_module_address d = 0 then 1 else smd_module_address d) (if smd_port_count d = 0 then 8 else smd_port_count d))"
  by (rule registers_built)
    (auto simp: detector_request_def canDeviceKindFromProto_def BuildCANDevice_def newDetectorDevice_def
      defaultDetectorModuleAddress_def defaultDetectorPortCount_def Let_def CANDeviceDetector_def split: if_splits)

lemma booster_registers:
  "registers P E (booster_request b) (smb_net_id b, newBoosterDevice (smb_net_id b) (smb_name b) (smb_output_port b))"
  by (rule registers_built)
    (auto simp: booster_request_def canDeviceKindFromProto_def BuildCANDevice_def newBoosterDevice_def
      defaultBoosterOutputPort_def Let_def CANDeviceDetector_def CANDeviceBooster_def split: if_splits)

section \<open>What a reconciliation leaves behind\<close>

definition simulation_key :: "simulation \<Rightarrow> string \<times> string" where
  "simulation_key s = (om_namespace (smn_meta s), om_name (smn_meta s))"

text \<open>
  Documented behaviour of the two sides, over the stored resources \<open>view w\<close> and the simulator at
  every endpoint, \<open>sims w addr\<close>: reads give what is stored; a status update stores the status
  over the stored object, and when it reports an error may have done so; a call that succeeds has been
  handled by the simulator without an error, one that fails may have been handled or not.
\<close>

definition simulation_laws ::
  "z21_protocol \<Rightarrow> sim_env \<Rightarrow> 'w simulation_client \<Rightarrow> ('w \<Rightarrow> string \<times> string \<Rightarrow> simulation option) \<Rightarrow> ('w \<Rightarrow> string \<Rightarrow> sim_server) \<Rightarrow> bool" where
  "simulation_laws P E c view sims \<longleftrightarrow>
     (\<forall>w k. case sc_get c w k of
        Inl e \<Rightarrow> (\<exists>m. e = KubeNotFound m) \<longrightarrow> view w k = None
      | Inr s \<Rightarrow> view w k = Some s \<and> simulation_key s = k) \<and>
     (\<forall>w addr req w' r. sc_notify c w addr req = (w', r) \<longrightarrow> view w' = view w \<and>
        (sims w' = (sims w)(addr := fst (grpc_NotifyCANDeviceDetected P E (sims w addr) (Some req))) \<and>
           (r = None \<longrightarrow> (\<exists>n. snd (grpc_NotifyCANDeviceDetected P E (sims w addr) (Some req)) = Inr n)) \<or>
         r \<noteq> None \<and> sims w' = sims w)) \<and>
     (\<forall>w s old w' r. view w (simulation_key s) = Some old \<longrightarrow> sc_update_status c w s = (w', r) \<longrightarrow> sims w' = sims w \<and>
        (view w' = (view w)(simulation_key s \<mapsto> old\<lparr>smn_status := smn_status s\<rparr>) \<or> r \<noteq> None \<and> view w' = view w))"

lemma notify_law:
  assumes "simulation_laws P E c view sims" and "sc_notify c w addr req = (w', r)" and "registers P E req nd"
  shows "view w' = view w \<and> (\<forall>a. a \<noteq> addr \<longrightarrow> sims w' a = sims w a) \<and>
    (canDevice (sims w' addr) = (canDevice (sims w addr))(fst nd \<mapsto> snd nd) \<or>
     r \<noteq> None \<and> canDevice (sims w' addr) = canDevice (sims w addr))"
proof -
  obtain s' x where g: "grpc_NotifyCANDeviceDetected P E (sims w addr) (Some req) = (s', x)" by fastforce
  have "view w' = view w \<and> (sims w' = (sims w)(addr := s') \<and> (r = None \<longrightarrow> (\<exists>n. x = Inr n)) \<or> r \<noteq> None \<and> sims w' = sims w)"
    using assms(1,2) g unfolding simulation_laws_def by (metis fst_conv snd_conv)
  moreover have "case x of Inl e \<Rightarrow> s' = sims w addr | Inr n \<Rightarrow> canDevice s' = (canDevice (sims w addr))(fst nd \<mapsto> snd nd)"
    using assms(3) g unfolding registers_def by (cases x) (metis (mono_tags, lifting) case_prod_conv sum.case)+
  ultimately show ?thesis by (cases x) auto
qed

lemma notify_each_registers:
  assumes "simulation_laws P E c view sims"
  shows "list_all2 (registers P E) (map fst reqs) ds \<Longrightarrow> notify_each c addr w reqs a = (w', a', r) \<Longrightarrow>
    \<exists>k m. a' = a + of_nat k \<and> view w' = view w \<and> (\<forall>b. b \<noteq> addr \<longrightarrow> sims w' b = sims w b) \<and>
      canDevice (sims w' addr) = canDevice (sims w addr) ++ map_of (rev (take m ds)) \<and>
      (case r of None \<Rightarrow> k = length ds \<and> m = k | Some e \<Rightarrow> k < length ds \<and> m \<in> {k, Suc k} \<and> e \<noteq> [])"
proof (induction reqs arbitrary: ds w a)
  case Nil
  then show ?case by (auto intro!: exI [of _ 0])
next
  case (Cons q reqs)
  obtain req what where q: "q = (req, what)" by fastforce
  obtain nd ds1 where ds: "ds = nd # ds1" "registers P E req nd" "list_all2 (registers P E) (map fst reqs) ds1"
    using Cons.prems(1) q by (auto simp: list_all2_Cons1)
  obtain w1 r1 where n: "sc_notify c w addr req = (w1, r1)" by fastforce
  note law = notify_law [OF assms n ds(2)]
  show ?case
  proof (cases r1)
    case (Some e)
    then have *: "w' = w1" "a' = a" "r = Some (what @ '': '' @ e)" using Cons.prems(2) q n by auto
    show ?thesis
    proof (cases "canDevice (sims w1 addr) = canDevice (sims w addr)")
      case True
      then show ?thesis using law * ds(1) by (intro exI [of _ 0]) auto
    next
      case False
      then show ?thesis using law * ds(1) by (intro exI [of _ 0] exI [of _ 1]) (auto simp: map_add_def fun_eq_iff)
    qed
  next
    case None
    then have c1: "canDevice (sims w1 addr) = (canDevice (sims w addr))(fst nd \<mapsto> snd nd)" using law by auto
    obtain k m where IH: "a' = a + 1 + of_nat k" "view w' = view w1" "\<forall>b. b \<noteq> addr \<longrightarrow> sims w' b = sims w1 b"
      "canDevice (sims w' addr) = canDevice (sims w1 addr) ++ map_of (rev (take m ds1))"
      "case r of None \<Rightarrow> k = length ds1 \<and> m = k | Some e \<Rightarrow> k < length ds1 \<and> m \<in> {k, Suc k} \<and> e \<noteq> []"
      using Cons.IH [OF ds(3), of w1 "a + 1"] Cons.prems(2) q n None by auto
    have "(canDevice (sims w addr))(fst nd \<mapsto> snd nd) ++ map_of (rev (take m ds1)) =
        canDevice (sims w addr) ++ map_of (rev (take (Suc m) ds))"
      using ds(1) by (cases nd) (auto simp: map_add_def fun_eq_iff split: option.split)
    then show ?thesis
      using IH law ds(1) c1 by (intro exI [of _ "Suc k"] exI [of _ "Suc m"]) (auto split: option.splits)
  qed
qed

lemma applyCANDevices_registers:
  assumes laws: "simulation_laws P E c view sims" and ap: "applyCANDevices c addr w sim = (w', a, r)"
  shows "\<exists>k m. a = of_nat k \<and> view w' = view w \<and> (\<forall>b. b \<noteq> addr \<longrightarrow> sims w' b = sims w b) \<and>
    canDevice (sims w' addr) = canDevice (sims w addr) ++ map_of (rev (take m (declared_devices (smn_spec sim)))) \<and>
    (case r of None \<Rightarrow> k = length (declared_devices (smn_spec sim)) \<and> m = k
     | Some e \<Rightarrow> k < length (declared_devices (smn_spec sim)) \<and> m \<in> {k, Suc k} \<and> e \<noteq> [])"
proof -
  let ?ds = "map (\<lambda>d. (detector_request d, ''register CAN detector netID=0x'' @ hex_pad True 4 (unat (smd_net_id d)))) (sms_detectors (smn_spec sim))"
  let ?bs = "map (\<lambda>b. (booster_request b, ''register CAN booster netID=0x'' @ hex_pad True 4 (unat (smb_net_id b)))) (sms_boosters (smn_spec sim))"
  have eq: "notify_each c addr w (xs @ ys) n = (case notify_each c addr w xs n of
      (w1, n1, Some e) \<Rightarrow> (w1, n1, Some e) | (w1, n1, None) \<Rightarrow> notify_each c addr w1 ys n1)" for xs ys n w
    by (induction xs arbitrary: w n) (auto split: prod.split option.split)
  have n: "notify_each c addr w (?ds @ ?bs) 0 = (w', a, r)" using ap unfolding applyCANDevices_def eq .
  have "list_all2 (registers P E) (map fst (?ds @ ?bs)) (declared_devices (smn_spec sim))"
    unfolding declared_devices_def map_append map_map comp_def fst_conv
    by (intro list_all2_appendI) (auto simp: list_all2_map1 list_all2_map2 detector_registers booster_registers list_all2_same)
  from notify_each_registers [OF laws this n] show ?thesis by (simp only: add_0)
qed

lemma simulation_patchStatus_stores:
  assumes "simulation_laws P E c view sims" and "view w (simulation_key sim) = Some sim"
    and "simulation_patchStatus c w sim phase msg n = (w', None)"
  shows "sims w' = sims w \<and> view w' = (view w)(simulation_key sim \<mapsto> sim\<lparr>smn_status :=
      \<lparr>smt_phase = phase, smt_message = msg, smt_observed_generation = om_generation (smn_meta sim), smt_applied = n\<rparr>\<rparr>)"
proof -
  define st where "st = \<lparr>smt_phase = phase, smt_message = msg, smt_observed_generation = om_generation (smn_meta sim), smt_applied = n\<rparr>"
  show ?thesis
  proof (cases "smn_status sim = st")
    case True
    then have "sim\<lparr>smn_status := st\<rparr> = sim" by (cases sim) simp
    then show ?thesis using assms(2,3) True by (auto simp: simulation_patchStatus_def Let_def st_def)
  next
    case False
    then have u: "sc_update_status c w (sim\<lparr>smn_status := st\<rparr>) = (w', None)"
      using assms(3) by (simp add: simulation_patchStatus_def Let_def st_def)
    have k: "simulation_key (sim\<lparr>smn_status := st\<rparr>) = simulation_key sim" by (simp add: simulation_key_def)
    have "sims w' = sims w \<and> view w' = (view w)(simulation_key sim \<mapsto> sim\<lparr>smn_status := st\<rparr>)"
      using conjunct2 [OF conjunct2 [OF assms(1) [unfolded simulation_laws_def]], rule_format, OF assms(2) [folded k] u] k by simp
    then show ?thesis by (simp add: st_def)
  qed
qed

section \<open>A cluster with one Simulation\<close>

record simulation_world =
  sw_simulation :: simulation
  sw_servers :: "string \<Rightarrow> sim_server"

definition sw_view :: "simulation_world \<Rightarrow> string \<times> string \<Rightarrow> simulation option" where
  "sw_view w k = (if simulation_key (sw_simulation w) = k then Some (sw_simulation w) else None)"

definition sw_client :: "simulation_world simulation_client" where
  "sw_client =
     \<lparr>sc_get = (\<lambda>w k. case sw_view w k of None \<Rightarrow> Inl (KubeNotFound []) | Some s \<Rightarrow> Inr s),
      sc_get_device = (\<lambda>w k. Inr example_simulator),
      sc_update_status = (\<lambda>w s. (if simulation_key (sw_simulation w) = simulation_key s
         then w\<lparr>sw_simulation := (sw_simulation w)\<lparr>smn_status := smn_status s\<rparr>\<rparr> else w, None)),
      sc_configured = True,
      sc_notify = (\<lambda>w addr req. let (s', x) = grpc_NotifyCANDeviceDetected example_protocol example_env (sw_servers w addr) (Some req) in
         (w\<lparr>sw_servers := (sw_servers w)(addr := s')\<rparr>, case x of Inl e \<Rightarrow> Some ''rejected'' | Inr n \<Rightarrow> None))\<rparr>"

lemma sw_laws: "simulation_laws example_protocol example_env sw_client sw_view sw_servers"
  unfolding simulation_laws_def
proof (intro conjI allI impI)
  show "case sc_get sw_client w k of Inl e \<Rightarrow> (\<exists>m. e = KubeNotFound m) \<longrightarrow> sw_view w k = None
      | Inr s \<Rightarrow> sw_view w k = Some s \<and> simulation_key s = k" for w k
    by (simp add: sw_client_def sw_view_def)
next
  fix w addr req w' r assume "sc_notify sw_client w addr req = (w', r)"
  then have w': "w' = w\<lparr>sw_servers := (sw_servers w)(addr := fst (grpc_NotifyCANDeviceDetected example_protocol example_env (sw_servers w addr) (Some req)))\<rparr>"
    "r = (case snd (grpc_NotifyCANDeviceDetected example_protocol example_env (sw_servers w addr) (Some req)) of Inl e \<Rightarrow> Some ''rejected'' | Inr n \<Rightarrow> None)"
    by (auto simp: sw_client_def split: prod.splits)
  then show "sw_view w' = sw_view w" by (simp add: sw_view_def fun_eq_iff)
  show "sw_servers w' = (sw_servers w)(addr := fst (grpc_NotifyCANDeviceDetected example_protocol example_env (sw_servers w addr) (Some req))) \<and>
      (r = None \<longrightarrow> (\<exists>n. snd (grpc_NotifyCANDeviceDetected example_protocol example_env (sw_servers w addr) (Some req)) = Inr n)) \<or>
      r \<noteq> None \<and> sw_servers w' = sw_servers w"
    using w' by (simp split: sum.splits)
next
  fix w s old w' r
  assume "sw_view w (simulation_key s) = Some old" and u: "sc_update_status sw_client w s = (w', r)"
  then have w: "sw_simulation w = old" "simulation_key old = simulation_key s" by (auto simp: sw_view_def split: if_splits)
  then have w': "w' = w\<lparr>sw_simulation := old\<lparr>smn_status := smn_status s\<rparr>\<rparr>" using u by (auto simp: sw_client_def)
  then show "sw_servers w' = sw_servers w" by simp
  show "sw_view w' = (sw_view w)(simulation_key s \<mapsto> old\<lparr>smn_status := smn_status s\<rparr>) \<or> r \<noteq> None \<and> sw_view w' = sw_view w"
    using w w' by (auto simp: sw_view_def simulation_key_def fun_eq_iff)
qed

definition example_simulation :: simulation where
  "example_simulation =
     \<lparr>smn_meta = example_meta ''layout'' ''yard'',
      smn_spec = \<lparr>sms_device_ref = ''sim1'',
        sms_detectors = [\<lparr>smd_net_id = 0xDB04, smd_name = ''d'', smd_module_address = 7, smd_port_count = 2\<rparr>], sms_boosters = []\<rparr>,
      smn_status = \<lparr>smt_phase = [], smt_message = [], smt_observed_generation = 0, smt_applied = 0\<rparr>\<rparr>"

lemma Reconcile_outcome:
  assumes "simulation_laws P E c view sims" and "view w k = Some sim" and "sms_device_ref (smn_spec sim) \<noteq> []"
    and "sc_get_device c w (fst k, sms_device_ref (smn_spec sim)) = Inr device"
    and "be_type (ds_backend (dev_spec device)) = BackendSimulator" and "sc_configured c"
    and "addr = SimulatorGRPCAddress (sim_workloadNamespace ns) (om_name (dev_meta device))"
    and "simulation_Reconcile c ns w k = (w', None)"
  shows "let ds = declared_devices (smn_spec sim) in
    \<exists>n m st. view w' k = Some (sim\<lparr>smn_status := st\<rparr>) \<and> smt_applied st = of_nat n \<and>
      smt_observed_generation st = om_generation (smn_meta sim) \<and>
      (smt_phase st = SimulationPhaseApplied \<and> smt_message st = [] \<and> n = length ds \<and> m = n \<or>
       smt_phase st = SimulationPhaseFailed \<and> smt_message st \<noteq> [] \<and> n < length ds \<and> (m = n \<or> m = Suc n)) \<and>
      canDevice (sims w' addr) = canDevice (sims w addr) ++ map_of (rev (take m ds)) \<and>
      (\<forall>b. b \<noteq> addr \<longrightarrow> sims w' b = sims w b)"
proof -
  have g: "sc_get c w k = Inr sim" and key: "simulation_key sim = k"
  proof -
    have 1: "case sc_get c w k of Inl e \<Rightarrow> (\<exists>m. e = KubeNotFound m) \<longrightarrow> view w k = None
        | Inr s \<Rightarrow> view w k = Some s \<and> simulation_key s = k"
      using assms(1) unfolding simulation_laws_def by blast
    then show "sc_get c w k = Inr sim"
      using assms(2,8) by (auto simp: simulation_Reconcile_def split: sum.splits kube_error.splits)
    then show "simulation_key sim = k" using 1 by simp
  qed
  obtain w1 a r where ap: "applyCANDevices c addr w sim = (w1, a, r)" by (metis prod_cases3)
  obtain n m where nm: "a = of_nat n" "view w1 = view w" "\<forall>b. b \<noteq> addr \<longrightarrow> sims w1 b = sims w b"
    "canDevice (sims w1 addr) = canDevice (sims w addr) ++ map_of (rev (take m (declared_devices (smn_spec sim))))"
    "case r of None \<Rightarrow> n = length (declared_devices (smn_spec sim)) \<and> m = n
     | Some e \<Rightarrow> n < length (declared_devices (smn_spec sim)) \<and> m \<in> {n, Suc n} \<and> e \<noteq> []"
    using applyCANDevices_registers [OF assms(1) ap] by blast
  have ns: "om_namespace (smn_meta sim) = fst k" using key by (auto simp: simulation_key_def)
  have p: "simulation_patchStatus c w1 sim (case r of None \<Rightarrow> SimulationPhaseApplied | Some e \<Rightarrow> SimulationPhaseFailed)
      (case r of None \<Rightarrow> [] | Some e \<Rightarrow> e) a = (w', None)"
    using assms(3-8) g ap ns by (cases r) (simp_all add: simulation_Reconcile_def Let_def)
  have "view w1 (simulation_key sim) = Some sim" using nm(2) assms(2) key by simp
  from simulation_patchStatus_stores [OF assms(1) this p] show ?thesis
    unfolding Let_def using nm key by (intro exI [of _ n] exI [of _ m] exI conjI) (auto split: option.splits)
qed

section \<open>Properties\<close>

text \<open>
  C11: A reconciliation without an error makes the simulator hold what the Simulation declares. Its
  registry is the former one overridden by the declared modules in order, the last with
  the same network id winning; the status counts them and says Applied. When a call fails, the modules before it are registered,
  the status says Failed with the number of those and a message, and no error is returned, so the
  work queue does not try again. Modules that are no longer declared stay, and no other simulator changes.
\<close>

theorem simulation_refines:
  assumes "simulation_laws P E c view sims" and "view w k = Some sim" and "sms_device_ref (smn_spec sim) \<noteq> []"
    and "sc_get_device c w (fst k, sms_device_ref (smn_spec sim)) = Inr device"
    and "be_type (ds_backend (dev_spec device)) = BackendSimulator" and "sc_configured c"
    and "addr = SimulatorGRPCAddress (sim_workloadNamespace ns) (om_name (dev_meta device))"
    and "simulation_Reconcile c ns w k = (w', None)"
  shows "let ds = declared_devices (smn_spec sim) in
    \<exists>n m st. view w' k = Some (sim\<lparr>smn_status := st\<rparr>) \<and> smt_applied st = of_nat n \<and>
      smt_observed_generation st = om_generation (smn_meta sim) \<and>
      (smt_phase st = SimulationPhaseApplied \<and> smt_message st = [] \<and> n = length ds \<and> m = n \<or>
       smt_phase st = SimulationPhaseFailed \<and> smt_message st \<noteq> [] \<and> n < length ds \<and> (m = n \<or> m = Suc n)) \<and>
      canDevice (sims w' addr) = canDevice (sims w addr) ++ map_of (rev (take m ds)) \<and>
      (\<forall>b. b \<noteq> addr \<longrightarrow> sims w' b = sims w b)"
  using assms by (rule Reconcile_outcome)

theorem simulation_refines_witness:
  "\<exists>w' addr m. simulation_Reconcile sw_client [] \<lparr>sw_simulation = example_simulation, sw_servers = (\<lambda>a. new_server 0)\<rparr> (''layout'', ''yard'') = (w', None) \<and>
     (m = 0 \<or> m = Suc 0) \<and>
     canDevice (sw_servers w' addr) = map_of (rev (take m [(0xDB04, newDetectorDevice 0xDB04 ''d'' 7 2)]))"
proof -
  let ?w = "\<lparr>sw_simulation = example_simulation, sw_servers = (\<lambda>a. new_server 0)\<rparr>"
  have k: "simulation_key example_simulation = (''layout'', ''yard'')"
    by (simp add: simulation_key_def example_simulation_def example_meta_def)
  have v: "sw_view ?w (''layout'', ''yard'') = Some example_simulation" by (simp add: sw_view_def k)
  have dev: "sc_get_device sw_client ?w (fst (''layout'', ''yard''), sms_device_ref (smn_spec example_simulation)) = Inr example_simulator"
    by (simp add: sw_client_def)
  have d: "be_type (ds_backend (dev_spec example_simulator)) = BackendSimulator" "sc_configured sw_client"
    "sms_device_ref (smn_spec example_simulation) \<noteq> []"
    by (simp_all add: sw_client_def example_simulator_def example_spec_def example_simulation_def BackendSimulator_def)
  have noerr: "snd (sc_update_status sw_client w s) = None" for w s by (simp add: sw_client_def)
  obtain w' r where r: "simulation_Reconcile sw_client [] ?w (''layout'', ''yard'') = (w', r)" by fastforce
  have "snd (simulation_patchStatus sw_client w s p msg a) = None" for w s p msg a
    by (simp add: simulation_patchStatus_def Let_def noerr)
  then have "snd (simulation_Reconcile sw_client [] ?w (''layout'', ''yard'')) = None"
    using v by (simp add: simulation_Reconcile_def Let_def sw_client_def split: prod.split option.split)
  then have "r = None" using r by simp
  then have rec: "simulation_Reconcile sw_client [] ?w (''layout'', ''yard'') = (w', None)" using r by simp
  define addr where "addr = SimulatorGRPCAddress (sim_workloadNamespace []) (om_name (dev_meta example_simulator))"
  have ds: "declared_devices (smn_spec example_simulation) = [(0xDB04, newDetectorDevice 0xDB04 ''d'' 7 2)]"
    by (simp add: declared_devices_def example_simulation_def)
  have empty: "canDevice (new_server 0) = Map.empty" by (simp add: canDevice_def new_server_def fun_eq_iff)
  from simulation_refines [OF sw_laws v d(3) dev d(1,2) addr_def rec] obtain n m where
    "n = 1 \<and> m = n \<or> n < 1 \<and> (m = n \<or> m = Suc n)"
    "canDevice (sw_servers w' addr) = canDevice (new_server 0) ++ map_of (rev (take m [(0xDB04, newDetectorDevice 0xDB04 ''d'' 7 2)]))"
    by (auto simp: ds)
  then show ?thesis using rec empty by (intro exI [of _ w'] exI [of _ addr] exI [of _ m]) auto
qed

end
