(* ===== verification/Rest_Api.thy ===== *)
theory Rest_Api
  imports Simulation_Controller Gateway
begin

text \<open>
  The HTTP API (\<^verbatim>\<open>apps/api\<close>): the handlers for devices and simulations with their status codes and
  errors, the mapping between API types and custom resources, the hub that fans out device events, the
  text of server-sent events, and the publisher of control commands. The Kubernetes client, NATS and
  JSON are parameters: a request body is passed as what the decoder made of it. The router, its
  middleware and the informer only wire these functions.

  Lemmas: what each validation accepts; what a created or patched device is and the
  address its gateway will dial; the merge of detectors; and what a subscriber of the hub receives.
\<close>

section \<open>API types\<close>

record api_nats =
  an_url :: string
  an_subject_prefix :: string

record api_gateway =
  ag_image :: string
  ag_host_network :: bool
  ag_node_selector :: "(string, string) gomap"

record api_status =
  as_phase :: string
  as_gateway_deployment :: string
  as_gateway_ready :: bool
  as_device_reachable :: bool
  as_degraded :: bool
  as_health_failures :: i32
  as_last_health_check :: "int option"
  as_last_seen :: "int option"
  as_serial_number :: string
  as_firmware_version :: string
  as_hardware_type :: string
  as_xbus_version :: string
  as_xbus_firmware_version :: string
  as_lock_code :: "u8 option"

record api_device =
  ad_name :: string
  ad_namespace :: string
  ad_address :: string
  ad_nats :: api_nats
  ad_gateway :: "api_gateway option"
  ad_broadcast_flags :: u32
  ad_status :: "api_status option"

record hardware_create =
  hcr_host :: string
  hcr_port :: i32

record simulator_create =
  scr_image :: string

record backend_create =
  bc_type :: string
  bc_hardware :: "hardware_create option"
  bc_simulator :: "simulator_create option"

record device_create =
  dc_name :: string
  dc_address :: string
  dc_backend :: "backend_create option"
  dc_nats :: api_nats
  dc_gateway :: "api_gateway option"
  dc_broadcast_flags :: "u32 option"

record device_update =
  du_address :: "string option"
  du_nats :: "api_nats option"
  du_gateway :: "api_gateway option"
  du_broadcast_flags :: "u32 option"

record api_simulation_status =
  ass_phase :: string
  ass_message :: string
  ass_applied :: i32

record api_simulation =
  asm_name :: string
  asm_namespace :: string
  asm_device_ref :: string
  asm_detectors :: "simulation_detector list"
  asm_status :: "api_simulation_status option"

record simulate_request =
  sr_simulation_name :: string
  sr_detectors :: "simulation_detector list"

section \<open>From resources to the API\<close>

definition conditionIsTrue :: "condition list \<Rightarrow> string \<Rightarrow> bool" where
  "conditionIsTrue conditions condType =
     list_ex (\<lambda>cond. cond_type cond = condType \<and> cond_status cond = ''True'') conditions"

definition statusFromCR :: "z21device \<Rightarrow> api_status option" where
  "statusFromCR cr =
     (let st = dev_status cr in
      if st_phase st = [] \<and> st_gateway_deployment st = [] \<and> st_last_seen st = None \<and> st_serial_number st = [] \<and>
         st_firmware_version st = [] \<and> st_hardware_type st = [] \<and> st_xbus_version st = [] \<and>
         st_xbus_firmware_version st = [] \<and> st_lock_code st = None \<and> st_conditions st = []
      then None
      else Some
        \<lparr>as_phase = st_phase st, as_gateway_deployment = st_gateway_deployment st,
         as_gateway_ready = conditionIsTrue (st_conditions st) ConditionGatewayReady,
         as_device_reachable = conditionIsTrue (st_conditions st) ConditionDeviceReachable,
         as_degraded = conditionIsTrue (st_conditions st) ConditionDegraded,
         as_health_failures = st_health_failures st, as_last_health_check = st_last_health_check st,
         as_last_seen = st_last_seen st, as_serial_number = st_serial_number st,
         as_firmware_version = st_firmware_version st, as_hardware_type = st_hardware_type st,
         as_xbus_version = st_xbus_version st, as_xbus_firmware_version = st_xbus_firmware_version st,
         as_lock_code = st_lock_code st\<rparr>)"

text \<open>The error of \<^verbatim>\<open>Z21Address\<close> is ignored, which leaves the empty string.\<close>

definition DeviceFromCR :: "z21device \<Rightarrow> api_device" where
  "DeviceFromCR cr =
     (let gw = ds_gateway (dev_spec cr); nats = ds_nats (dev_spec cr) in
      \<lparr>ad_name = om_name (dev_meta cr), ad_namespace = om_namespace (dev_meta cr),
       ad_address = (case Z21Address cr of Inl e \<Rightarrow> [] | Inr a \<Rightarrow> a),
       ad_nats = \<lparr>an_url = nats_url nats, an_subject_prefix = nats_subject_prefix nats\<rparr>,
       ad_gateway = (if gw_image gw \<noteq> [] \<or> gw_host_network gw \<or> gw_node_selector gw \<noteq> []
         then Some \<lparr>ag_image = gw_image gw, ag_host_network = gw_host_network gw, ag_node_selector = gw_node_selector gw\<rparr>
         else None),
       ad_broadcast_flags = BroadcastFlagsValue cr, ad_status = statusFromCR cr\<rparr>)"

section \<open>From the API to resources\<close>

definition parseHardwareAddress :: "string \<Rightarrow> string + hardware_backend" where
  "parseHardwareAddress addr =
     (case split_host_port addr of
        Inl e \<Rightarrow> Inr \<lparr>hw_host = addr, hw_port = 0\<rparr>
      | Inr (host, portStr) \<Rightarrow>
          (case parse_int 32 portStr of
             Inl e \<Rightarrow> Inl (''invalid address port '' @ quote portStr)
           | Inr port \<Rightarrow>
               if port < 1 \<or> 65535 < port then Inl (''invalid address port '' @ quote portStr)
               else Inr \<lparr>hw_host = host, hw_port = word_of_int port\<rparr>))"

definition hardwareFromCreate :: "hardware_create option \<Rightarrow> string \<Rightarrow> string + hardware_backend" where
  "hardwareFromCreate hw address =
     (if address \<noteq> [] then
        (case hw of
           Some h \<Rightarrow> if hcr_host h \<noteq> [] \<or> hcr_port h \<noteq> 0 then Inl ''use either address or backend.hardware, not both''
                      else parseHardwareAddress address
         | None \<Rightarrow> parseHardwareAddress address)
      else (case hw of
        None \<Rightarrow> Inl ''backend.hardware.host is required for hardware backend''
      | Some h \<Rightarrow>
          if hcr_host h = [] then Inl ''backend.hardware.host is required for hardware backend''
          else if hcr_port h \<noteq> 0 \<and> (sint (hcr_port h) < 1 \<or> 65535 < sint (hcr_port h))
            then Inl (''invalid backend.hardware.port '' @ i32_dec (hcr_port h))
          else Inr \<lparr>hw_host = hcr_host h, hw_port = hcr_port h\<rparr>))"

definition backendFromCreate :: "device_create \<Rightarrow> string + backend_spec" where
  "backendFromCreate req =
     (case dc_backend req of
        Some b \<Rightarrow>
          if bc_type b = BackendHardware then
            (case hardwareFromCreate (bc_hardware b) [] of
               Inl e \<Rightarrow> Inl e
             | Inr hw \<Rightarrow> Inr \<lparr>be_type = BackendHardware, be_hardware = Some hw, be_simulator = None\<rparr>)
          else if bc_type b = BackendSimulator then
            Inr \<lparr>be_type = BackendSimulator, be_hardware = None,
                 be_simulator = map_option (\<lambda>s. \<lparr>sb_image = scr_image s\<rparr>) (bc_simulator b)\<rparr>
          else Inl (''unsupported backend type '' @ quote (bc_type b))
      | None \<Rightarrow>
          (case parseHardwareAddress (dc_address req) of
             Inl e \<Rightarrow> Inl e
           | Inr hw \<Rightarrow> Inr \<lparr>be_type = BackendHardware, be_hardware = Some hw, be_simulator = None\<rparr>))"

definition nats_of :: "api_nats \<Rightarrow> nats_spec" where
  "nats_of n = \<lparr>nats_url = an_url n, nats_subject_prefix = an_subject_prefix n\<rparr>"

text \<open>Host aliases cannot be given: the struct literal of the code leaves them empty.\<close>

definition gateway_of :: "api_gateway \<Rightarrow> gateway_spec" where
  "gateway_of g =
     \<lparr>gw_image = ag_image g, gw_host_network = ag_host_network g, gw_node_selector = ag_node_selector g, gw_host_aliases = []\<rparr>"

definition no_gateway :: gateway_spec where
  "no_gateway = \<lparr>gw_image = [], gw_host_network = False, gw_node_selector = [], gw_host_aliases = []\<rparr>"

definition no_health_check :: health_check_spec where
  "no_health_check = \<lparr>hc_interval = 0, hc_timeout = 0, hc_failure_threshold = 0, hc_success_threshold = 0\<rparr>"

definition specFromCreate :: "device_create \<Rightarrow> string + device_spec" where
  "specFromCreate req =
     (case backendFromCreate req of
        Inl e \<Rightarrow> Inl e
      | Inr backend \<Rightarrow> Inr
          \<lparr>ds_backend = backend, ds_nats = nats_of (dc_nats req), ds_health_check = no_health_check,
           ds_gateway = (case dc_gateway req of None \<Rightarrow> no_gateway | Some g \<Rightarrow> gateway_of g),
           ds_broadcast_flags = (case dc_broadcast_flags req of None \<Rightarrow> Some DefaultBroadcastFlags | Some f \<Rightarrow> Some f),
           ds_pool_ref = None\<rparr>)"

definition validateDeviceCreate :: "device_create \<Rightarrow> string option" where
  "validateDeviceCreate req =
     (if dc_name req = [] then Some ''name is required''
      else if an_url (dc_nats req) = [] then Some ''nats.url is required''
      else if dc_backend req \<noteq> None \<and> dc_address req \<noteq> [] then Some ''use either address or backend, not both''
      else if dc_backend req = None \<and> dc_address req = [] then Some ''address or backend is required''
      else (case dc_backend req of
        None \<Rightarrow> None
      | Some b \<Rightarrow>
          if bc_type b = [] then Some ''backend.type is required''
          else if bc_type b = BackendHardware then
            (if bc_simulator b \<noteq> None then Some ''backend.simulator must not be set for hardware backend'' else None)
          else if bc_type b = BackendSimulator then
            (if bc_hardware b \<noteq> None then Some ''backend.hardware must not be set for simulator backend'' else None)
          else Some (''unsupported backend type '' @ quote (bc_type b))))"

definition applyUpdate :: "device_spec \<Rightarrow> device_update \<Rightarrow> string + device_spec" where
  "applyUpdate spec req =
     (case (case du_address req of
              None \<Rightarrow> Inr spec
            | Some a \<Rightarrow>
                (case parseHardwareAddress a of
                   Inl e \<Rightarrow> Inl e
                 | Inr hw \<Rightarrow> Inr (spec\<lparr>ds_backend :=
                     \<lparr>be_type = BackendHardware, be_hardware = Some hw, be_simulator = None\<rparr>\<rparr>))) of
        Inl e \<Rightarrow> Inl e
      | Inr s0 \<Rightarrow>
          (let s1 = (case du_nats req of None \<Rightarrow> s0 | Some n \<Rightarrow> s0\<lparr>ds_nats := nats_of n\<rparr>);
               s2 = (case du_gateway req of None \<Rightarrow> s1 | Some g \<Rightarrow> s1\<lparr>ds_gateway := gateway_of g\<rparr>)
           in Inr (case du_broadcast_flags req of None \<Rightarrow> s2 | Some f \<Rightarrow> s2\<lparr>ds_broadcast_flags := Some f\<rparr>)))"

section \<open>Responses and the clients\<close>

datatype api_error = ApiText string | ApiKube kube_error | ApiPublish string

datatype api_body = BodyError api_error | BodyDevice api_device | BodyDevices "api_device list" | BodySimulation api_simulation | NoBody

text \<open>A response is a status code and a body.\<close>

type_synonym response = "int \<times> api_body"

definition writeError :: "int \<Rightarrow> api_error \<Rightarrow> response" where
  "writeError status e = (status, BodyError e)"

record 'w rest_client =
  ra_list :: "'w \<Rightarrow> string \<Rightarrow> kube_error + z21device list"
  ra_get :: "'w \<Rightarrow> string \<times> string \<Rightarrow> kube_error + z21device"
  ra_create :: "'w \<Rightarrow> z21device \<Rightarrow> 'w \<times> (kube_error + z21device)"
  ra_patch :: "'w \<Rightarrow> z21device \<Rightarrow> z21device \<Rightarrow> 'w \<times> (kube_error + z21device)"
  ra_delete :: "'w \<Rightarrow> z21device \<Rightarrow> 'w \<times> kube_error option"
  ra_get_simulation :: "'w \<Rightarrow> string \<times> string \<Rightarrow> kube_error + simulation"
  ra_create_simulation :: "'w \<Rightarrow> simulation \<Rightarrow> 'w \<times> (kube_error + simulation)"
  ra_patch_simulation :: "'w \<Rightarrow> simulation \<Rightarrow> simulation \<Rightarrow> 'w \<times> (kube_error + simulation)"
  PublishFlags :: "'w \<Rightarrow> z21device \<Rightarrow> 'w \<times> string option"

definition empty_object_meta :: "string \<Rightarrow> string \<Rightarrow> object_meta" where
  "empty_object_meta ns name =
     \<lparr>om_name = name, om_namespace = ns, om_labels = [], om_annotations = [], om_generation = 0,
      om_deleting = False, om_finalizers = []\<rparr>"

section \<open>The handlers for devices\<close>

definition listDevices :: "'w rest_client \<Rightarrow> 'w \<Rightarrow> string \<Rightarrow> response" where
  "listDevices c w ns =
     (case ra_list c w ns of
        Inl e \<Rightarrow> writeError 500 (ApiKube e)
      | Inr items \<Rightarrow> (200, BodyDevices (map DeviceFromCR items)))"

text \<open>\<^verbatim>\<open>List\<close>, which the stream uses.\<close>

definition handler_List :: "'w rest_client \<Rightarrow> 'w \<Rightarrow> string \<Rightarrow> kube_error + api_device list" where
  "handler_List c w ns = (case ra_list c w ns of Inl e \<Rightarrow> Inl e | Inr items \<Rightarrow> Inr (map DeviceFromCR items))"

text \<open>\<open>body\<close> is what the JSON decoder made of the request, \<open>urlName\<close> is empty when the path has no name.\<close>

definition createDevice :: "'w rest_client \<Rightarrow> 'w \<Rightarrow> string \<Rightarrow> string \<Rightarrow> string + device_create \<Rightarrow> 'w \<times> response" where
  "createDevice c w ns urlName body =
     (case body of
        Inl e \<Rightarrow> (w, writeError 400 (ApiText e))
      | Inr req0 \<Rightarrow>
          if dc_name req0 \<noteq> [] \<and> urlName \<noteq> [] \<and> dc_name req0 \<noteq> urlName
          then (w, writeError 400 (ApiText ''name in URL and body must match''))
          else
            (let req = (if dc_name req0 = [] then req0\<lparr>dc_name := urlName\<rparr> else req0) in
             case validateDeviceCreate req of
               Some e \<Rightarrow> (w, writeError 400 (ApiText e))
             | None \<Rightarrow>
             (case specFromCreate req of
               Inl e \<Rightarrow> (w, writeError 400 (ApiText e))
             | Inr spec \<Rightarrow>
             (case ra_create c w \<lparr>dev_meta = empty_object_meta ns (dc_name req), dev_spec = spec, dev_status = zero_status\<rparr> of
               (w1, Inl (KubeAlreadyExists m)) \<Rightarrow> (w1, writeError 409 (ApiKube (KubeAlreadyExists m)))
             | (w1, Inl e) \<Rightarrow> (w1, writeError 500 (ApiKube e))
             | (w1, Inr device) \<Rightarrow> (w1, 201, BodyDevice (DeviceFromCR device))))))"

definition fetchDevice :: "'w rest_client \<Rightarrow> 'w \<Rightarrow> string \<Rightarrow> string \<Rightarrow> response + z21device" where
  "fetchDevice c w ns name =
     (case ra_get c w (ns, name) of
        Inl (KubeNotFound m) \<Rightarrow> Inl (writeError 404 (ApiKube (KubeNotFound m)))
      | Inl e \<Rightarrow> Inl (writeError 500 (ApiKube e))
      | Inr device \<Rightarrow> Inr device)"

definition getDevice :: "'w rest_client \<Rightarrow> 'w \<Rightarrow> string \<Rightarrow> string \<Rightarrow> response" where
  "getDevice c w ns name =
     (case fetchDevice c w ns name of Inl r \<Rightarrow> r | Inr device \<Rightarrow> (200, BodyDevice (DeviceFromCR device)))"

definition patchDevice :: "'w rest_client \<Rightarrow> 'w \<Rightarrow> string \<Rightarrow> string \<Rightarrow> string + device_update \<Rightarrow> 'w \<times> response" where
  "patchDevice c w ns name body =
     (case fetchDevice c w ns name of
        Inl r \<Rightarrow> (w, r)
      | Inr device \<Rightarrow>
      (case body of
        Inl e \<Rightarrow> (w, writeError 400 (ApiText e))
      | Inr req \<Rightarrow>
      (case applyUpdate (dev_spec device) req of
        Inl e \<Rightarrow> (w, writeError 400 (ApiText e))
      | Inr spec \<Rightarrow>
      (case ra_patch c w device (device\<lparr>dev_spec := spec\<rparr>) of
        (w1, Inl e) \<Rightarrow> (w1, writeError 500 (ApiKube e))
      | (w1, Inr patched) \<Rightarrow>
          if du_broadcast_flags req \<noteq> None then
            (case PublishFlags c w1 patched of
               (w2, Some e) \<Rightarrow> (w2, writeError 502 (ApiPublish e))
             | (w2, None) \<Rightarrow> (w2, 200, BodyDevice (DeviceFromCR patched)))
          else (w1, 200, BodyDevice (DeviceFromCR patched))))))"

definition deleteDevice :: "'w rest_client \<Rightarrow> 'w \<Rightarrow> string \<Rightarrow> string \<Rightarrow> 'w \<times> response" where
  "deleteDevice c w ns name =
     (case fetchDevice c w ns name of
        Inl r \<Rightarrow> (w, r)
      | Inr device \<Rightarrow>
          (case ra_delete c w device of
             (w1, Some e) \<Rightarrow> (w1, writeError 500 (ApiKube e))
           | (w1, None) \<Rightarrow> (w1, 204, NoBody)))"

section \<open>Simulated CAN modules\<close>

definition api_defaultDetectorModuleAddress :: u16 where "api_defaultDetectorModuleAddress = 1"
definition api_defaultDetectorPortCount :: u16 where "api_defaultDetectorPortCount = 8"

fun detectorsFromAPI :: "simulation_detector list \<Rightarrow> string + simulation_detector list" where
  "detectorsFromAPI [] = Inr []"
| "detectorsFromAPI (d # ds) =
     (if smd_net_id d = 0 then Inl ''canDetectors[].netID is required''
      else (case detectorsFromAPI ds of
              Inl e \<Rightarrow> Inl e
            | Inr out \<Rightarrow> Inr
                (d\<lparr>smd_module_address := (if smd_module_address d = 0 then api_defaultDetectorModuleAddress else smd_module_address d),
                   smd_port_count := (if smd_port_count d = 0 then api_defaultDetectorPortCount else smd_port_count d)\<rparr> # out)))"

text \<open>The map by network id, and its values in the order of the sorted keys.\<close>

definition mergeCANDetectors :: "simulation_detector list \<Rightarrow> simulation_detector list \<Rightarrow> simulation_detector list" where
  "mergeCANDetectors existing incoming =
     (let byNetID = fold (\<lambda>d m. gm_set (smd_net_id d) d m) (existing @ incoming) []
      in map (\<lambda>n. the (gm_get byNetID n)) (sort (map fst byNetID)))"

definition simulationFromCR :: "simulation \<Rightarrow> api_simulation" where
  "simulationFromCR cr =
     \<lparr>asm_name = om_name (smn_meta cr), asm_namespace = om_namespace (smn_meta cr),
      asm_device_ref = sms_device_ref (smn_spec cr), asm_detectors = sms_detectors (smn_spec cr),
      asm_status =
        (let st = smn_status cr in
         if smt_phase st \<noteq> [] \<or> smt_message st \<noteq> [] \<or> smt_applied st \<noteq> 0
         then Some \<lparr>ass_phase = smt_phase st, ass_message = smt_message st, ass_applied = smt_applied st\<rparr> else None)\<rparr>"

definition new_simulation :: "string \<Rightarrow> string \<Rightarrow> string \<Rightarrow> simulation_detector list \<Rightarrow> simulation" where
  "new_simulation ns name deviceName detectors =
     \<lparr>smn_meta = empty_object_meta ns name,
      smn_spec = \<lparr>sms_device_ref = deviceName, sms_detectors = detectors, sms_boosters = []\<rparr>,
      smn_status = \<lparr>smt_phase = [], smt_message = [], smt_observed_generation = 0, smt_applied = 0\<rparr>\<rparr>"

definition simulateCAN :: "'w rest_client \<Rightarrow> 'w \<Rightarrow> string \<Rightarrow> string \<Rightarrow> string + simulate_request \<Rightarrow> 'w \<times> response" where
  "simulateCAN c w ns deviceName body =
     (case body of
        Inl e \<Rightarrow> (w, writeError 400 (ApiText e))
      | Inr req \<Rightarrow>
      if sr_detectors req = [] then (w, writeError 400 (ApiText ''canDetectors is required''))
      else (case ra_get c w (ns, deviceName) of
        Inl (KubeNotFound m) \<Rightarrow> (w, writeError 404 (ApiText (''device '' @ quote deviceName @ '' not found'')))
      | Inl e \<Rightarrow> (w, writeError 500 (ApiKube e))
      | Inr device \<Rightarrow>
      if be_type (ds_backend (dev_spec device)) \<noteq> BackendSimulator then
        (w, writeError 400 (ApiText (''device '' @ quote deviceName @ '' backend is '' @
           quote (be_type (ds_backend (dev_spec device))) @ '', expected '' @ quote BackendSimulator)))
      else
        (let name = (if sr_simulation_name req = [] then deviceName else sr_simulation_name req) in
         case detectorsFromAPI (sr_detectors req) of
           Inl e \<Rightarrow> (w, writeError 400 (ApiText e))
         | Inr incoming \<Rightarrow>
         (case ra_get_simulation c w (ns, name) of
           Inl (KubeNotFound m) \<Rightarrow>
             (case ra_create_simulation c w (new_simulation ns name deviceName incoming) of
                (w1, Inl e) \<Rightarrow> (w1, writeError 500 (ApiKube e))
              | (w1, Inr s) \<Rightarrow> (w1, 200, BodySimulation (simulationFromCR s)))
         | Inl e \<Rightarrow> (w, writeError 500 (ApiKube e))
         | Inr s \<Rightarrow>
             if sms_device_ref (smn_spec s) \<noteq> deviceName then
               (w, writeError 409 (ApiText (''simulation '' @ quote name @ '' already exists for device '' @ quote (sms_device_ref (smn_spec s)))))
             else
               (case ra_patch_simulation c w s (s\<lparr>smn_spec := (smn_spec s)\<lparr>sms_detectors :=
                       mergeCANDetectors (sms_detectors (smn_spec s)) incoming\<rparr>\<rparr>) of
                  (w1, Inl e) \<Rightarrow> (w1, writeError 500 (ApiKube e))
                | (w1, Inr s1) \<Rightarrow> (w1, 200, BodySimulation (simulationFromCR s1)))))))"

section \<open>The stream hub\<close>

text \<open>
  A channel is a number with its buffer. \<open>sh_received\<close> is what the handlers have taken from their
  channels, in order.
\<close>

datatype stream_event = DeviceUpdated api_device | DeviceDeleted string

record stream_hub =
  sh_subscribers :: "string \<Rightarrow> nat list"
  sh_queue :: "nat \<Rightarrow> stream_event list"
  sh_received :: "nat \<Rightarrow> stream_event list"
  sh_next :: nat

definition stream_capacity :: nat where "stream_capacity = 32"

definition NewStreamHub :: stream_hub where
  "NewStreamHub = \<lparr>sh_subscribers = (\<lambda>ns. []), sh_queue = (\<lambda>ch. []), sh_received = (\<lambda>ch. []), sh_next = 0\<rparr>"

definition hub_Subscribe :: "stream_hub \<Rightarrow> string \<Rightarrow> stream_hub \<times> nat" where
  "hub_Subscribe h ns =
     (let ch = sh_next h in
      (h\<lparr>sh_subscribers := (sh_subscribers h)(ns := sh_subscribers h ns @ [ch]),
         sh_queue := (sh_queue h)(ch := []), sh_received := (sh_received h)(ch := []), sh_next := ch + 1\<rparr>, ch))"

definition hub_cancel :: "stream_hub \<Rightarrow> string \<Rightarrow> nat \<Rightarrow> stream_hub" where
  "hub_cancel h ns ch = h\<lparr>sh_subscribers := (sh_subscribers h)(ns := removeAll ch (sh_subscribers h ns))\<rparr>"

text \<open>A send to a channel whose buffer is full takes the default branch, which drops the event.\<close>

definition hub_send :: "stream_event \<Rightarrow> nat \<Rightarrow> stream_hub \<Rightarrow> stream_hub" where
  "hub_send event ch h =
     (if length (sh_queue h ch) < stream_capacity then h\<lparr>sh_queue := (sh_queue h)(ch := sh_queue h ch @ [event])\<rparr> else h)"

definition hub_Publish :: "stream_hub \<Rightarrow> string \<Rightarrow> stream_event \<Rightarrow> stream_hub" where
  "hub_Publish h ns event = fold (hub_send event) (sh_subscribers h ns) h"

definition hub_take :: "stream_hub \<Rightarrow> nat \<Rightarrow> stream_hub" where
  "hub_take h ch =
     (case sh_queue h ch of
        [] \<Rightarrow> h
      | ev # q \<Rightarrow> h\<lparr>sh_queue := (sh_queue h)(ch := q), sh_received := (sh_received h)(ch := sh_received h ch @ [ev])\<rparr>)"

text \<open>
  What the informer publishes. An object is \<open>None\<close> when the type assertion fails: it is no device, as the
  tombstone of a deletion that the informer has missed.
\<close>

definition publishDevice :: "stream_hub \<Rightarrow> z21device option \<Rightarrow> stream_hub" where
  "publishDevice h obj =
     (case obj of
        None \<Rightarrow> h
      | Some device \<Rightarrow> hub_Publish h (om_namespace (dev_meta device)) (DeviceUpdated (DeviceFromCR device)))"

definition publishDeleted :: "stream_hub \<Rightarrow> z21device option \<Rightarrow> stream_hub" where
  "publishDeleted h obj =
     (case obj of
        None \<Rightarrow> h
      | Some device \<Rightarrow> hub_Publish h (om_namespace (dev_meta device)) (DeviceDeleted (om_name (dev_meta device))))"

datatype informer_event =
  InformerAdd "z21device option" | InformerUpdate "z21device option" | InformerDelete "z21device option"

text \<open>The handlers that \<^verbatim>\<open>StartDeviceWatch\<close> registers.\<close>

fun device_watch :: "stream_hub \<Rightarrow> informer_event \<Rightarrow> stream_hub" where
  "device_watch h (InformerAdd obj) = publishDevice h obj"
| "device_watch h (InformerUpdate obj) = publishDevice h obj"
| "device_watch h (InformerDelete obj) = publishDeleted h obj"

section \<open>Server-sent events\<close>

definition newline :: char where "newline = CHR 0x0A"

text \<open>The bytes of one event with its JSON text.\<close>

definition writeSSE :: "string \<Rightarrow> string \<Rightarrow> string" where
  "writeSSE event data = ''event: '' @ event @ [newline] @ ''data: '' @ data @ [newline, newline]"

definition keepalive :: string where "keepalive = '': keepalive'' @ [newline, newline]"

text \<open>The JSON objects of the stream and their event types.\<close>

datatype stream_payload = PayloadSnapshot "api_device list" | PayloadUpdated api_device | PayloadDeleted string

definition snapshotPayload :: "api_device list \<Rightarrow> stream_payload" where
  "snapshotPayload items = PayloadSnapshot items"

definition streamPayload :: "stream_event \<Rightarrow> stream_payload \<times> string" where
  "streamPayload event =
     (case event of DeviceUpdated d \<Rightarrow> (PayloadUpdated d, ''updated'') | DeviceDeleted n \<Rightarrow> (PayloadDeleted n, ''deleted''))"

section \<open>The publisher of control commands\<close>

record 'w nats_lib =
  nl_connected :: "'w \<Rightarrow> nat \<Rightarrow> bool"
  nl_close :: "'w \<Rightarrow> nat \<Rightarrow> 'w"
  nl_connect :: "'w \<Rightarrow> string \<Rightarrow> 'w \<times> (string + nat)"
  nl_marshal :: "control_command \<Rightarrow> string + bytes"
  nl_publish :: "'w \<Rightarrow> nat \<Rightarrow> string \<Rightarrow> bytes \<Rightarrow> 'w \<times> string option"

record publisher =
  pub_default_url :: string
  pub_conns :: "(string, nat) gomap"

definition NewPublisher :: "string \<Rightarrow> publisher" where
  "NewPublisher url = \<lparr>pub_default_url = url, pub_conns = []\<rparr>"

definition natsURL :: "publisher \<Rightarrow> z21device \<Rightarrow> string" where
  "natsURL p device = (if pub_default_url p \<noteq> [] then pub_default_url p else nats_url (ds_nats (dev_spec device)))"

definition publisher_conn :: "'w nats_lib \<Rightarrow> 'w \<Rightarrow> publisher \<Rightarrow> string \<Rightarrow> 'w \<times> publisher \<times> (string + nat)" where
  "publisher_conn L w p url =
     (case gm_get (pub_conns p) url of
        Some nc \<Rightarrow> if nl_connected L w nc then (w, p, Inr nc)
          else (let w1 = nl_close L w nc; p1 = p\<lparr>pub_conns := gm_del url (pub_conns p)\<rparr> in
            case nl_connect L w1 url of
              (w2, Inl e) \<Rightarrow> (w2, p1, Inl (''connect nats '' @ url @ '': '' @ e))
            | (w2, Inr nc1) \<Rightarrow> (w2, p1\<lparr>pub_conns := gm_set url nc1 (pub_conns p1)\<rparr>, Inr nc1))
      | None \<Rightarrow>
          (case nl_connect L w url of
              (w2, Inl e) \<Rightarrow> (w2, p, Inl (''connect nats '' @ url @ '': '' @ e))
            | (w2, Inr nc1) \<Rightarrow> (w2, p\<lparr>pub_conns := gm_set url nc1 (pub_conns p)\<rparr>, Inr nc1)))"

text \<open>\<open>order\<close> is the one in which Go ranges over the connections.\<close>

definition publisher_Close :: "'w nats_lib \<Rightarrow> ((string \<times> nat) list \<Rightarrow> (string \<times> nat) list) \<Rightarrow> 'w \<Rightarrow> publisher \<Rightarrow> 'w \<times> publisher" where
  "publisher_Close L order w p = (fold (\<lambda>(url, nc) w. nl_close L w nc) (order (pub_conns p)) w, p\<lparr>pub_conns := []\<rparr>)"

definition flags_command :: "z21device \<Rightarrow> control_command" where
  "flags_command device =
     \<lparr>cc_type = CommandTypeSetBroadcastFlags, cc_device_name = om_name (dev_meta device),
      cc_device_namespace = om_namespace (dev_meta device), cc_broadcast_flags = BroadcastFlagsValue device\<rparr>"

definition PublishSetBroadcastFlags :: "'w nats_lib \<Rightarrow> 'w \<Rightarrow> publisher \<Rightarrow> z21device \<Rightarrow> 'w \<times> publisher \<times> string option" where
  "PublishSetBroadcastFlags L w p device =
     (if natsURL p device = [] then
        (w, p, Some (''device '' @ om_namespace (dev_meta device) @ ''/'' @ om_name (dev_meta device) @ '' has no nats url''))
      else (case publisher_conn L w p (natsURL p device) of
        (w1, p1, Inl e) \<Rightarrow> (w1, p1, Some e)
      | (w1, p1, Inr nc) \<Rightarrow>
      (case nl_marshal L (flags_command device) of
        Inl e \<Rightarrow> (w1, p1, Some e)
      | Inr payload \<Rightarrow>
          (case nl_publish L w1 nc (ControlSubject (SubjectPrefix device)) payload of (w2, e) \<Rightarrow> (w2, p1, e)))))"

section \<open>What a subscriber receives\<close>

datatype hub_event = HubSubscribe string | HubCancel string nat | HubPublish string stream_event | HubTake nat

fun hub_step :: "stream_hub \<Rightarrow> hub_event \<Rightarrow> stream_hub" where
  "hub_step h (HubSubscribe ns) = fst (hub_Subscribe h ns)"
| "hub_step h (HubCancel ns ch) = hub_cancel h ns ch"
| "hub_step h (HubPublish ns ev) = hub_Publish h ns ev"
| "hub_step h (HubTake ch) = hub_take h ch"

definition hub_wf :: "stream_hub \<Rightarrow> bool" where
  "hub_wf h \<longleftrightarrow>
     (\<forall>ns. distinct (sh_subscribers h ns) \<and> (\<forall>ch \<in> set (sh_subscribers h ns). ch < sh_next h)) \<and>
     (\<forall>ns ns' ch. ch \<in> set (sh_subscribers h ns) \<longrightarrow> ch \<in> set (sh_subscribers h ns') \<longrightarrow> ns = ns') \<and>
     (\<forall>ch. length (sh_queue h ch) \<le> stream_capacity)"

lemma hub_send_simps [simp]:
  "sh_subscribers (hub_send ev ch h) = sh_subscribers h" "sh_received (hub_send ev ch h) = sh_received h"
  "sh_next (hub_send ev ch h) = sh_next h"
  "sh_queue (hub_send ev ch h) ch' =
     (if ch' = ch \<and> length (sh_queue h ch) < stream_capacity then sh_queue h ch @ [ev] else sh_queue h ch')"
  by (simp_all add: hub_send_def)

lemma hub_send_all:
  "sh_subscribers (fold (hub_send ev) chs h) = sh_subscribers h \<and> sh_received (fold (hub_send ev) chs h) = sh_received h \<and>
   sh_next (fold (hub_send ev) chs h) = sh_next h"
  by (induction chs arbitrary: h) auto

lemma hub_send_queue:
  "distinct chs \<Longrightarrow> sh_queue (fold (hub_send ev) chs h) ch =
     (if ch \<in> set chs \<and> length (sh_queue h ch) < stream_capacity then sh_queue h ch @ [ev] else sh_queue h ch)"
  by (induction chs arbitrary: h) auto

lemma hub_Publish_simps:
  "sh_subscribers (hub_Publish h ns ev) = sh_subscribers h" "sh_received (hub_Publish h ns ev) = sh_received h"
  "sh_next (hub_Publish h ns ev) = sh_next h"
  "hub_wf h \<Longrightarrow> sh_queue (hub_Publish h ns ev) ch =
     (if ch \<in> set (sh_subscribers h ns) \<and> length (sh_queue h ch) < stream_capacity then sh_queue h ch @ [ev] else sh_queue h ch)"
  by (simp_all add: hub_Publish_def hub_send_all hub_send_queue hub_wf_def)

lemma hub_take_simps:
  "sh_subscribers (hub_take h ch) = sh_subscribers h" "sh_next (hub_take h ch) = sh_next h"
  "sh_received (hub_take h ch) ch' @ sh_queue (hub_take h ch) ch' = sh_received h ch' @ sh_queue h ch'"
  "length (sh_queue (hub_take h ch) ch') \<le> length (sh_queue h ch')"
  by (auto simp: hub_take_def split: list.split)

lemma hub_step_wf:
  assumes "hub_wf h"
  shows "hub_wf (hub_step h e)"
proof (cases e)
  case (HubSubscribe ns)
  have "ch \<in> set (sh_subscribers h n) \<Longrightarrow> ch < sh_next h" for ch n using assms by (auto simp: hub_wf_def)
  then show ?thesis using assms HubSubscribe
    by (fastforce simp: hub_wf_def hub_Subscribe_def Let_def less_Suc_eq stream_capacity_def split: if_splits)
next
  case (HubCancel ns ch)
  then show ?thesis using assms by (auto simp: hub_wf_def hub_cancel_def distinct_removeAll split: if_splits)
next
  case (HubPublish ns ev)
  then show ?thesis using assms hub_Publish_simps(4) [OF assms] by (simp add: hub_wf_def hub_Publish_simps(1-3))
next
  case (HubTake ch)
  have "length (sh_queue (hub_take h ch) ch') \<le> stream_capacity" for ch'
    using assms hub_take_simps(4) [of h ch ch'] by (meson hub_wf_def le_trans)
  then show ?thesis using assms HubTake by (simp add: hub_wf_def hub_take_simps(1,2))
qed

interpretation hub_machine: invariant_machine hub_step hub_wf
  by unfold_locales (rule hub_step_wf)

lemma hub_wf_new: "hub_wf NewStreamHub"
  by (simp add: hub_wf_def NewStreamHub_def)

definition published :: "string \<Rightarrow> hub_event list \<Rightarrow> stream_event list" where
  "published ns es = concat (map (\<lambda>e. case e of HubPublish n ev \<Rightarrow> if n = ns then [ev] else [] | _ \<Rightarrow> []) es)"

definition subscribed_since :: "stream_hub \<Rightarrow> string \<Rightarrow> nat \<Rightarrow> stream_event list \<Rightarrow> bool" where
  "subscribed_since h ns ch sent \<longleftrightarrow> hub_wf h \<and> ch \<in> set (sh_subscribers h ns) \<and>
     subseq (sh_received h ch @ sh_queue h ch) sent \<and>
     (length sent \<le> stream_capacity \<longrightarrow> sh_received h ch @ sh_queue h ch = sent)"

lemma subscribed_step:
  assumes s: "subscribed_since h ns ch sent" and e: "e \<noteq> HubCancel ns ch"
  shows "subscribed_since (hub_step h e) ns ch (sent @ published ns [e])"
proof -
  have wf: "hub_wf h" "hub_wf (hub_step h e)" and ch: "ch \<in> set (sh_subscribers h ns)"
    using s hub_step_wf by (auto simp: subscribed_since_def)
  have lt: "ch < sh_next h" using wf(1) ch by (auto simp: hub_wf_def)
  show ?thesis
  proof (cases e)
    case (HubSubscribe n)
    then show ?thesis using s wf(2) lt by (auto simp: subscribed_since_def hub_Subscribe_def published_def Let_def)
  next
    case (HubCancel n c)
    then show ?thesis using s wf(2) e by (auto simp: subscribed_since_def hub_cancel_def published_def)
  next
    case (HubTake c)
    then show ?thesis using s wf(2) by (simp add: subscribed_since_def published_def hub_take_simps)
  next
    case (HubPublish n ev)
    show ?thesis
    proof (cases "n = ns")
      case False
      have "ch \<notin> set (sh_subscribers h n)" using wf(1) ch False unfolding hub_wf_def by blast
      then show ?thesis using s wf HubPublish False by (simp add: subscribed_since_def published_def hub_Publish_simps)
    next
      case True
      let ?old = "sh_received h ch @ sh_queue h ch"
      have new: "sh_received (hub_step h e) ch @ sh_queue (hub_step h e) ch =
          ?old @ (if length (sh_queue h ch) < stream_capacity then [ev] else [])"
        using ch HubPublish True wf(1) by (simp add: hub_Publish_simps)
      have sub: "subseq (sh_received (hub_step h e) ch @ sh_queue (hub_step h e) ch) (sent @ [ev])"
      proof -
        have o: "subseq ?old sent" using s by (simp add: subscribed_since_def)
        have "subseq (?old @ [ev]) (sent @ [ev])" using o by (rule list_emb_append_mono) simp
        moreover have "subseq ?old (sent @ [ev])" using o by (rule list_emb_prefix)
        ultimately show ?thesis unfolding new by simp
      qed
      have "length (sh_queue h ch) < stream_capacity" if "length (sent @ [ev]) \<le> stream_capacity"
      proof -
        have "length ?old \<le> length sent" using s by (auto simp: subscribed_since_def dest: list_emb_length)
        then show ?thesis using that by simp
      qed
      then have eq: "length (sent @ [ev]) \<le> stream_capacity \<Longrightarrow>
          sh_received (hub_step h e) ch @ sh_queue (hub_step h e) ch = sent @ [ev]"
        using s unfolding new by (auto simp: subscribed_since_def)
      have "published ns [e] = [ev]" using HubPublish True by (simp add: published_def)
      moreover have "ch \<in> set (sh_subscribers (hub_step h e) ns)" using ch HubPublish by (simp add: hub_Publish_simps)
      ultimately show ?thesis using sub eq wf(2) unfolding subscribed_since_def by simp
    qed
  qed
qed

lemma subscribed_run:
  "subscribed_since h ns ch sent \<Longrightarrow> HubCancel ns ch \<notin> set es \<Longrightarrow>
   subscribed_since (run_events hub_step h es) ns ch (sent @ published ns es)"
proof (induction es arbitrary: h sent)
  case (Cons e es)
  have "subscribed_since (run_events hub_step (hub_step h e) es) ns ch ((sent @ published ns [e]) @ published ns es)"
    using Cons.prems by (intro Cons.IH subscribed_step) auto
  then show ?case by (simp add: published_def)
qed (simp add: published_def)

section \<open>The merge of detectors\<close>

lemma fold_set_get:
  "gm_get (fold (\<lambda>d m. gm_set (smd_net_id d) d m) ds m) n =
     (case find (\<lambda>d. smd_net_id d = n) (rev ds) of Some d \<Rightarrow> Some d | None \<Rightarrow> gm_get m n)"
proof (induction ds arbitrary: m)
  case (Cons d ds)
  then show ?case by (simp add: find_append split: option.split)
qed simp

lemma fold_set_wf: "gm_wf m \<Longrightarrow> gm_wf (fold (\<lambda>d m. gm_set (smd_net_id d) d m) ds m)"
  by (induction ds arbitrary: m) auto

definition detector_for :: "simulation_detector list \<Rightarrow> u16 \<Rightarrow> simulation_detector option" where
  "detector_for ds n = find (\<lambda>d. smd_net_id d = n) ds"

lemma detector_for_distinct:
  "distinct (map smd_net_id ds) \<Longrightarrow> detector_for ds n = Some d \<longleftrightarrow> d \<in> set ds \<and> smd_net_id d = n"
  by (induction ds) (auto simp: detector_for_def)

lemma detector_for_id: "detector_for ds n = Some d \<Longrightarrow> smd_net_id d = n"
  by (auto simp: detector_for_def find_Some_iff)

lemma merge_ids:
  "map smd_net_id (mergeCANDetectors existing incoming) =
     sort (map fst (fold (\<lambda>d m. gm_set (smd_net_id d) d m) (existing @ incoming) []))"
proof -
  let ?m = "fold (\<lambda>d m. gm_set (smd_net_id d) d m) (existing @ incoming) []"
  have g: "gm_get ?m n = detector_for (rev (existing @ incoming)) n" for n
    unfolding fold_set_get detector_for_def by (simp split: option.split)
  have "smd_net_id (the (gm_get ?m n)) = n" if "n \<in> set (map fst ?m)" for n
  proof -
    have "gm_has ?m n" using that unfolding gm_has_fst by simp
    then obtain d where "gm_get ?m n = Some d" by (auto simp: gm_has_iff)
    then show ?thesis using g detector_for_id by simp
  qed
  then have "map (smd_net_id \<circ> (\<lambda>n. the (gm_get ?m n))) (sort (map fst ?m)) = map id (sort (map fst ?m))"
    by (intro map_cong) auto
  then show ?thesis unfolding mergeCANDetectors_def Let_def map_map by simp
qed

lemma merge_exact:
  "sorted_wrt (<) (map smd_net_id (mergeCANDetectors existing incoming)) \<and>
   (\<forall>n. detector_for (mergeCANDetectors existing incoming) n = detector_for (rev (existing @ incoming)) n)"
proof (intro conjI allI)
  let ?m = "fold (\<lambda>d m. gm_set (smd_net_id d) d m) (existing @ incoming) []"
  let ?out = "mergeCANDetectors existing incoming"
  have wf: "gm_wf ?m" by (intro fold_set_wf) simp
  have g: "gm_get ?m n = detector_for (rev (existing @ incoming)) n" for n
    unfolding fold_set_get detector_for_def by (simp split: option.split)
  have "distinct (sort (map fst ?m))" using wf by (simp add: gm_wf_def)
  then show "sorted_wrt (<) (map smd_net_id ?out)" unfolding merge_ids by (simp add: strict_sorted_iff)
  fix n
  have keys: "n \<in> set (map fst ?m) \<longleftrightarrow> gm_get ?m n \<noteq> None" using gm_has_fst [of ?m n] by (simp add: gm_has_iff)
  have out: "d \<in> set ?out \<longleftrightarrow> (\<exists>k. gm_get ?m k = Some d)" for d
  proof -
    have "d \<in> set ?out \<longleftrightarrow> (\<exists>k \<in> set (map fst ?m). d = the (gm_get ?m k))" by (auto simp: mergeCANDetectors_def Let_def)
    also have "\<dots> \<longleftrightarrow> (\<exists>k. gm_get ?m k = Some d)"
    proof
      assume "\<exists>k \<in> set (map fst ?m). d = the (gm_get ?m k)"
      then obtain k where k: "k \<in> set (map fst ?m)" "d = the (gm_get ?m k)" by (rule bexE)
      then have "gm_get ?m k \<noteq> None" using gm_has_fst [of ?m k] by (simp add: gm_has_iff)
      then show "\<exists>k. gm_get ?m k = Some d" using k(2) by auto
    next
      assume "\<exists>k. gm_get ?m k = Some d"
      then obtain k where k: "gm_get ?m k = Some d" ..
      then have "k \<in> set (map fst ?m)" using gm_has_fst [of ?m k] by (simp add: gm_has_iff)
      then show "\<exists>k \<in> set (map fst ?m). d = the (gm_get ?m k)" by (rule bexI [rotated]) (simp only: k option.sel)
    qed
    finally show ?thesis .
  qed
  show "detector_for ?out n = detector_for (rev (existing @ incoming)) n"
  proof (rule option_eq_by_Some)
    fix d
    have dist: "distinct (map smd_net_id ?out)" unfolding merge_ids using wf by (simp add: gm_wf_def)
    have "detector_for ?out n = Some d \<longleftrightarrow> d \<in> set ?out \<and> smd_net_id d = n"
      using dist by (rule detector_for_distinct)
    also have "\<dots> \<longleftrightarrow> detector_for (rev (existing @ incoming)) n = Some d"
      unfolding out g using detector_for_id by blast
    finally show "detector_for ?out n = Some d \<longleftrightarrow> detector_for (rev (existing @ incoming)) n = Some d" .
  qed
qed

lemma detectors_determined:
  assumes "sorted_wrt (<) (map smd_net_id xs)"
  shows "xs = map (\<lambda>n. the (detector_for xs n)) (sorted_list_of_set {n. detector_for xs n \<noteq> None})"
proof -
  have d: "distinct (map smd_net_id xs)" and so: "sorted (map smd_net_id xs)" using assms strict_sorted_iff by blast+
  have s: "{n. detector_for xs n \<noteq> None} = set (map smd_net_id xs)"
    using detector_for_distinct [OF d] by auto
  have "sorted_list_of_set {n. detector_for xs n \<noteq> None} = map smd_net_id xs"
    unfolding s by (rule sorted_list_of_set.idem_if_sorted_distinct [OF so d])
  moreover have "map ((\<lambda>n. the (detector_for xs n)) \<circ> smd_net_id) xs = map id xs"
  proof (rule map_cong [OF refl])
    fix x assume "x \<in> set xs"
    then show "((\<lambda>n. the (detector_for xs n)) \<circ> smd_net_id) x = id x" using detector_for_distinct [OF d, of "smd_net_id x" x] by simp
  qed
  ultimately show ?thesis by simp
qed

lemma merge_again: "mergeCANDetectors (mergeCANDetectors existing incoming) incoming = mergeCANDetectors existing incoming"
proof -
  let ?m = "mergeCANDetectors existing incoming" and ?m2 = "mergeCANDetectors (mergeCANDetectors existing incoming) incoming"
  have f: "detector_for (xs @ ys) n = (case detector_for xs n of None \<Rightarrow> detector_for ys n | Some d \<Rightarrow> Some d)" for xs ys n
    by (simp add: detector_for_def find_append split: option.split)
  have rev_m: "detector_for (rev ?m) n = detector_for ?m n" for n
  proof (rule option_eq_by_Some)
    have d: "distinct (map smd_net_id ?m)" using merge_exact strict_sorted_iff by blast
    then have "distinct (map smd_net_id (rev ?m))" by (simp add: rev_map [symmetric])
    then show "detector_for (rev ?m) n = Some x \<longleftrightarrow> detector_for ?m n = Some x" for x
      using detector_for_distinct d by simp
  qed
  note exact = merge_exact [THEN conjunct2, rule_format]
  have "detector_for ?m2 n = detector_for ?m n" for n
    unfolding exact [of ?m incoming] rev_append f rev_m unfolding exact [of existing incoming] rev_append f
    by (simp split: option.split)
  then have eq: "detector_for ?m2 = detector_for ?m" by (rule ext)
  have "?m2 = map (\<lambda>n. the (detector_for ?m2 n)) (sorted_list_of_set {n. detector_for ?m2 n \<noteq> None})"
    by (rule detectors_determined [OF merge_exact [THEN conjunct1]])
  also have "\<dots> = ?m"
    unfolding eq by (rule detectors_determined [OF merge_exact [THEN conjunct1], symmetric])
  finally show ?thesis .
qed

section \<open>Properties\<close>

text \<open>
  The merge of detectors is exact: one detector for each network id of both lists, in ascending
  order of the ids, the last incoming one where there is one and otherwise the last existing one.
  Sending the same request again changes nothing.
\<close>

theorem mergeCANDetectors_exact:
  "sorted_wrt (<) (map smd_net_id (mergeCANDetectors existing incoming)) \<and>
   (\<forall>n. detector_for (mergeCANDetectors existing incoming) n =
      (case detector_for (rev incoming) n of Some d \<Rightarrow> Some d | None \<Rightarrow> detector_for (rev existing) n)) \<and>
   mergeCANDetectors (mergeCANDetectors existing incoming) incoming = mergeCANDetectors existing incoming"
proof -
  have "detector_for (rev (existing @ incoming)) n =
      (case detector_for (rev incoming) n of Some d \<Rightarrow> Some d | None \<Rightarrow> detector_for (rev existing) n)" for n
    by (simp add: detector_for_def find_append split: option.split)
  then show ?thesis using merge_exact [of existing incoming] merge_again by simp
qed

text \<open>
  C20: A subscriber of the stream hub receives events of its namespace only, each at most once and
  in the order they were published since it subscribed, whatever other subscribers do; what waits in its channel is
  at most 32 events, and none is lost as long as no more than 32 have been published.
\<close>

theorem stream_delivers:
  assumes "hub_Subscribe (run_events hub_step NewStreamHub es0) ns = (h, ch)" and "HubCancel ns ch \<notin> set es"
  shows "let h' = run_events hub_step h es; got = sh_received h' ch @ sh_queue h' ch in
    length (sh_queue h' ch) \<le> 32 \<and> subseq got (published ns es) \<and>
    (length (published ns es) \<le> 32 \<longrightarrow> got = published ns es)"
proof -
  let ?h0 = "run_events hub_step NewStreamHub es0"
  have wf: "hub_wf ?h0" by (rule hub_machine.run_inv [OF hub_wf_new])
  have "h = hub_step ?h0 (HubSubscribe ns)" using assms(1) by simp
  then have "hub_wf h" using hub_step_wf [OF wf, of "HubSubscribe ns"] by simp
  then have "subscribed_since h ns ch []"
    using assms(1) by (auto simp: subscribed_since_def hub_Subscribe_def Let_def)
  from subscribed_run [OF this assms(2)] show ?thesis
    by (auto simp: subscribed_since_def Let_def hub_wf_def stream_capacity_def)
qed

theorem stream_delivers_witness:
  "sh_received (run_events hub_step NewStreamHub
      [HubSubscribe ''layout'', HubPublish ''layout'' (DeviceDeleted ''a''), HubPublish ''other'' (DeviceDeleted ''b''), HubTake 0]) 0 @
   sh_queue (run_events hub_step NewStreamHub
      [HubSubscribe ''layout'', HubPublish ''layout'' (DeviceDeleted ''a''), HubPublish ''other'' (DeviceDeleted ''b''), HubTake 0]) 0 =
   [DeviceDeleted ''a'']"
proof -
  let ?es = "[HubPublish ''layout'' (DeviceDeleted ''a''), HubPublish ''other'' (DeviceDeleted ''b''), HubTake 0]"
  have s: "hub_Subscribe (run_events hub_step NewStreamHub []) ''layout'' = (fst (hub_Subscribe NewStreamHub ''layout''), 0)"
    by (simp add: hub_Subscribe_def NewStreamHub_def)
  have p: "published ''layout'' ?es = [DeviceDeleted ''a'']" by (simp add: published_def)
  from stream_delivers [OF s, of ?es] p show ?thesis by (simp add: Let_def)
qed

text \<open>
  What a client asks for is what the gateway will dial. An accepted creation request gives a
  device with an address: for a plain address its host and port, the default port where it has
  none, for a hardware backend its host and its port or the default one, for a simulator the Service of the
  device. A canonical address is shown again as it was given.
\<close>

theorem created_device_dials:
  assumes "validateDeviceCreate req = None" and "specFromCreate req = Inr spec" and "dev_spec d = spec"
  shows "\<exists>a. Z21Address d = Inr a \<and> ad_address (DeviceFromCR d) = a \<and>
    (case dc_backend req of
       None \<Rightarrow>
         (case split_host_port (dc_address req) of
            Inl e \<Rightarrow> a = join_host_port (dc_address req) (i32_dec DefaultZ21Port)
          | Inr (host, port) \<Rightarrow> \<exists>n. parse_int 32 port = Inr n \<and> 1 \<le> n \<and> n \<le> 65535 \<and> a = join_host_port host (int_dec n))
     | Some b \<Rightarrow>
         if bc_type b = BackendHardware then
           (case bc_hardware b of None \<Rightarrow> False | Some hw \<Rightarrow> hcr_host hw \<noteq> [] \<and>
              a = join_host_port (hcr_host hw) (i32_dec (if hcr_port hw = 0 then DefaultZ21Port else hcr_port hw)))
         else bc_type b = BackendSimulator \<and>
           a = join_host_port (SimulatorServiceFQDN DefaultWorkloadNamespace (om_name (dev_meta d))) (i32_dec DefaultZ21Port)) \<and>
    (\<forall>host n. dc_backend req = None \<longrightarrow> dc_address req = join_host_port host (int_dec n) \<longrightarrow> no_brackets host \<longrightarrow>
       1 \<le> n \<longrightarrow> n \<le> 65535 \<longrightarrow> a = dc_address req)"
proof -
  obtain be where be: "backendFromCreate req = Inr be" and spec: "ds_backend spec = be"
    using assms(2) by (auto simp: specFromCreate_def split: sum.splits)
  have types: "BackendHardware \<noteq> BackendSimulator" by (simp add: BackendHardware_def BackendSimulator_def)
  have port: "i32_dec (word_of_int n) = int_dec n \<and> (word_of_int n :: i32) \<noteq> 0" if "1 \<le> n" "n \<le> 65535" for n
  proof -
    have "sint (word_of_int n :: i32) = n" using that by (simp add: signed_of_int signed_take_bit_int_eq_self)
    then show ?thesis using that by (auto simp: i32_dec_def)
  qed
  show ?thesis
  proof (cases "dc_backend req")
    case (Some b)
    then show ?thesis
      using assms(1,3) be spec types
      by (auto simp: validateDeviceCreate_def backendFromCreate_def hardwareFromCreate_def Z21Address_def DeviceFromCR_def Let_def
          split: if_splits sum.splits option.splits)
  next
    case None
    then obtain hw where hw: "parseHardwareAddress (dc_address req) = Inr hw"
      "be = \<lparr>be_type = BackendHardware, be_hardware = Some hw, be_simulator = None\<rparr>"
      using be by (auto simp: backendFromCreate_def split: sum.splits)
    have a: "Z21Address d = Inr (join_host_port (hw_host hw) (i32_dec (if hw_port hw = 0 then DefaultZ21Port else hw_port hw)))"
      using assms(3) spec hw(2) by (auto simp: Z21Address_def Let_def)
    have same: "\<exists>n. parse_int 32 port = Inr n \<and> 1 \<le> n \<and> n \<le> 65535 \<and> hw_host hw = host \<and> hw_port hw \<noteq> 0 \<and> i32_dec (hw_port hw) = int_dec n"
      if "split_host_port (dc_address req) = Inr (host, port)" for host port
      using hw(1) that port by (auto simp: parseHardwareAddress_def split: sum.splits if_splits)
    have canon: "split_host_port (dc_address req) = Inr (host, int_dec n) \<and> parse_int 32 (int_dec n) = Inr n"
      if "dc_address req = join_host_port host (int_dec n)" "no_brackets host" "1 \<le> n" "n \<le> 65535" for host n
      using that split_join_int_dec [of host n] parse_int_int_dec [of n 32] by simp
    show ?thesis
    proof (cases "split_host_port (dc_address req)")
      case (Inl e)
      then show ?thesis using a hw(1) None canon by (auto simp: parseHardwareAddress_def DeviceFromCR_def Let_def)
    next
      case (Inr hp)
      obtain host port where hp: "hp = (host, port)" by fastforce
      from same [OF Inr [unfolded hp]] obtain n where n: "parse_int 32 port = Inr n" "1 \<le> n" "n \<le> 65535" "hw_host hw = host"
        "hw_port hw \<noteq> 0" "i32_dec (hw_port hw) = int_dec n" by blast
      have "a' = dc_address req" if "a' = join_host_port host (int_dec n)" "dc_address req = join_host_port h (int_dec m)"
        "no_brackets h" "1 \<le> m" "m \<le> 65535" for a' h m
        using canon [OF that(2-5)] that n(1) Inr hp by simp
      then show ?thesis using a n None Inr hp by (auto simp: DeviceFromCR_def Let_def)
    qed
  qed
qed

definition example_create :: device_create where
  "example_create =
     \<lparr>dc_name = ''z1'', dc_address = ''10.0.0.5:21106'', dc_backend = None,
      dc_nats = \<lparr>an_url = ''nats://nats:4222'', an_subject_prefix = []\<rparr>, dc_gateway = None, dc_broadcast_flags = None\<rparr>"

theorem created_device_dials_witness:
  "\<exists>spec. specFromCreate example_create = Inr spec \<and>
     Z21Address (example_hardware\<lparr>dev_spec := spec\<rparr>) = Inr ''10.0.0.5:21106''"
proof -
  have n: "int_dec 21106 = ''21106''" by (simp add: int_dec_def nat_dec.simps digit_chars_def)
  have j: "dc_address example_create = join_host_port ''10.0.0.5'' (int_dec 21106)"
    by (simp add: example_create_def join_host_port_def n)
  have v: "validateDeviceCreate example_create = None" by (simp add: validateDeviceCreate_def example_create_def)
  have b: "no_brackets ''10.0.0.5''" by (simp add: no_brackets_def)
  have "parse_int 32 (int_dec 21106) = Inr 21106" by (rule parse_int_int_dec) simp_all
  then have "parseHardwareAddress (dc_address example_create) = Inr \<lparr>hw_host = ''10.0.0.5'', hw_port = 21106\<rparr>"
    unfolding j parseHardwareAddress_def split_join_int_dec [OF b] by simp
  then obtain spec where s: "specFromCreate example_create = Inr spec"
    by (simp add: specFromCreate_def backendFromCreate_def example_create_def)
  from created_device_dials [OF v s, of "example_hardware\<lparr>dev_spec := spec\<rparr>"] j b
  have "Z21Address (example_hardware\<lparr>dev_spec := spec\<rparr>) = Inr (dc_address example_create)"
    by (auto simp: example_create_def)
  then show ?thesis using s by (simp add: example_create_def)
qed

text \<open>The backend is the alternative its type names, with a port in range or the default one.\<close>

definition backend_typed :: "backend_spec \<Rightarrow> bool" where
  "backend_typed b \<longleftrightarrow>
     (be_type b = BackendHardware \<and> be_simulator b = None \<and>
        (case be_hardware b of None \<Rightarrow> False | Some hw \<Rightarrow> hw_port hw = 0 \<or> (1 \<le> sint (hw_port hw) \<and> sint (hw_port hw) \<le> 65535))) \<or>
     (be_type b = BackendSimulator \<and> be_hardware b = None)"

text \<open>A request to change the device: a rejected one leaves it as it is.\<close>

definition update_spec :: "device_spec \<Rightarrow> device_update \<Rightarrow> device_spec" where
  "update_spec spec u = (case applyUpdate spec u of Inl e \<Rightarrow> spec | Inr spec' \<Rightarrow> spec')"

lemma port_in_range: "1 \<le> n \<Longrightarrow> n \<le> 65535 \<Longrightarrow> sint (word_of_int n :: i32) = n"
  by (simp add: signed_of_int signed_take_bit_int_eq_self)

lemma parsed_hardware_typed:
  "parseHardwareAddress a = Inr hw \<Longrightarrow> backend_typed \<lparr>be_type = BackendHardware, be_hardware = Some hw, be_simulator = None\<rparr>"
  by (auto simp: parseHardwareAddress_def backend_typed_def port_in_range split: sum.splits if_splits)

lemma created_typed:
  assumes "specFromCreate req = Inr spec"
  shows "backend_typed (ds_backend spec)"
proof -
  have types: "BackendHardware \<noteq> BackendSimulator" by (simp add: BackendHardware_def BackendSimulator_def)
  obtain be where be: "backendFromCreate req = Inr be" "ds_backend spec = be"
    using assms by (auto simp: specFromCreate_def split: sum.splits)
  have "backend_typed be"
  proof (cases "dc_backend req")
    case None
    then show ?thesis using be(1) by (auto simp: backendFromCreate_def split: sum.splits dest: parsed_hardware_typed)
  next
    case (Some b)
    then show ?thesis using be(1) types
      by (auto simp: backendFromCreate_def hardwareFromCreate_def backend_typed_def split: if_splits sum.splits option.splits)
  qed
  then show ?thesis using be(2) by simp
qed

lemma update_typed: "backend_typed (ds_backend spec) \<Longrightarrow> backend_typed (ds_backend (update_spec spec u))"
  by (auto simp: update_spec_def applyUpdate_def Let_def dest: parsed_hardware_typed split: sum.splits option.splits)

interpretation spec_machine: invariant_machine update_spec "\<lambda>spec. backend_typed (ds_backend spec)"
  by unfold_locales (rule update_typed)

text \<open>
  C19: A device of the API is well-formed. Whatever request creates it and whatever updates
  follow, accepted or not, its backend is the one alternative its type names, a hardware backend has a port
  in range or none, and so it always has an address to dial.
\<close>

theorem api_devices_typed:
  assumes "specFromCreate req = Inr spec" and "dev_spec d = run_events update_spec spec us"
  shows "backend_typed (ds_backend (dev_spec d)) \<and> (\<exists>a. Z21Address d = Inr a)"
proof -
  have "backend_typed (ds_backend (dev_spec d))"
    unfolding assms(2) by (rule spec_machine.run_inv [OF created_typed [OF assms(1)]])
  then show ?thesis by (auto simp: backend_typed_def Z21Address_def Let_def BackendHardware_def BackendSimulator_def split: option.splits)
qed

definition simulator_create :: device_create where
  "simulator_create =
     \<lparr>dc_name = ''z1'', dc_address = [],
      dc_backend = Some \<lparr>bc_type = BackendSimulator, bc_hardware = None, bc_simulator = None\<rparr>,
      dc_nats = \<lparr>an_url = ''nats://nats:4222'', an_subject_prefix = []\<rparr>, dc_gateway = None, dc_broadcast_flags = None\<rparr>"

text \<open>A simulator that is turned into hardware, after a request with a bad port.\<close>

theorem api_devices_typed_witness:
  "\<exists>spec. specFromCreate simulator_create = Inr spec \<and>
     (let spec' = run_events update_spec spec
        [\<lparr>du_address = Some ''10.0.0.5:0'', du_nats = None, du_gateway = None, du_broadcast_flags = None\<rparr>,
         \<lparr>du_address = Some ''10.0.0.5'', du_nats = None, du_gateway = None, du_broadcast_flags = None\<rparr>] in
      be_type (ds_backend spec') = BackendHardware \<and> backend_typed (ds_backend spec'))"
proof -
  let ?us = "[\<lparr>du_address = Some ''10.0.0.5:0'', du_nats = None, du_gateway = None, du_broadcast_flags = None\<rparr>,
         \<lparr>du_address = Some ''10.0.0.5'', du_nats = None, du_gateway = None, du_broadcast_flags = None\<rparr>]"
  obtain spec where s: "specFromCreate simulator_create = Inr spec"
    by (simp add: specFromCreate_def backendFromCreate_def simulator_create_def BackendHardware_def BackendSimulator_def)
  let ?d = "example_hardware\<lparr>dev_spec := run_events update_spec spec ?us\<rparr>"
  have plain: "\<exists>hw. parseHardwareAddress ''10.0.0.5'' = Inr hw"
    by (simp add: parseHardwareAddress_def split_host_port_def)
  have "be_type (ds_backend (run_events update_spec spec ?us)) = BackendHardware"
    using plain by (auto simp: update_spec_def applyUpdate_def)
  moreover have "backend_typed (ds_backend (run_events update_spec spec ?us))"
    using api_devices_typed [OF s, of ?d ?us] by simp
  ultimately show ?thesis using s by (simp add: Let_def)
qed

end
