(* ===== verification/Elpctl.thy ===== *)
theory Elpctl
  imports Rest_Api "HOL-Library.List_Lexorder" "HOL-Library.Product_Lexorder" "HOL-Library.Char_ord"
begin

text \<open>
  The command line client (\<^verbatim>\<open>apps/elpctl\<close>): its configuration file, the choice of server and
  namespace, the HTTP requests, the reader of server-sent events, the arguments of \<^verbatim>\<open>simulate can\<close> and
  \<^verbatim>\<open>device create\<close>, and the table that \<^verbatim>\<open>get --watch\<close> keeps up to date. HTTP, JSON, YAML, the file
  system and kubectl are parameters. The client's types mirror those of \<open>Rest_Api\<close>, field by
  field, and are not repeated. Cobra's commands and flags only pass their values to these functions.

  Lemmas: what a written configuration reads back as; the round trip of the event stream from the
  server's writer to this reader; which network ids are accepted; and what the watch shows.
\<close>

section \<open>Text\<close>

text \<open>\<^verbatim>\<open>url.PathEscape\<close>.\<close>

definition path_plain :: "char \<Rightarrow> bool" where
  "path_plain c \<longleftrightarrow> c \<in> set ''abcdefghijklmnopqrstuvwxyzABCDEFGHIJKLMNOPQRSTUVWXYZ0123456789-_.~$&+=:@''"

definition PathEscape :: "string \<Rightarrow> string" where
  "PathEscape s = concat (map (\<lambda>c. if path_plain c then [c] else CHR ''%'' # hex_pad True 2 (of_char c)) s)"

section \<open>The configuration file\<close>

definition DefaultDeviceNamespace :: string where "DefaultDeviceNamespace = ''elp''"
definition config_APIVersion :: string where "config_APIVersion = ''v1''"
definition config_Kind :: string where "config_Kind = ''Config''"

record elp_cluster =
  ec_name :: string
  ec_server :: string

record elp_context =
  ex_name :: string
  ex_cluster :: string
  ex_namespace :: string

record elp_config =
  ecf_api_version :: string
  ecf_kind :: string
  ecf_clusters :: "elp_cluster list"
  ecf_contexts :: "elp_context list"
  ecf_current :: string

definition empty_elp_config :: elp_config where
  "empty_elp_config = \<lparr>ecf_api_version = [], ecf_kind = [], ecf_clusters = [], ecf_contexts = [], ecf_current = []\<rparr>"

definition contextByName :: "elp_config \<Rightarrow> string \<Rightarrow> elp_context option" where
  "contextByName cfg name = find (\<lambda>c. ex_name c = name) (ecf_contexts cfg)"

definition clusterByName :: "elp_config \<Rightarrow> string \<Rightarrow> elp_cluster option" where
  "clusterByName cfg name = find (\<lambda>c. ec_name c = name) (ecf_clusters cfg)"

definition config_Current :: "elp_config option \<Rightarrow> string + string \<times> string" where
  "config_Current c =
     (case c of
        None \<Rightarrow> Inl ''no elpconfig loaded''
      | Some cfg \<Rightarrow>
      if ecf_current cfg = [] then Inl ''current-context is not set''
      else (case contextByName cfg (ecf_current cfg) of
        None \<Rightarrow> Inl (''context '' @ quote (ecf_current cfg) @ '' not found'')
      | Some ctx \<Rightarrow>
      (case clusterByName cfg (ex_cluster ctx) of
        None \<Rightarrow> Inl (''cluster '' @ quote (ex_cluster ctx) @ '' not found'')
      | Some cluster \<Rightarrow>
          if ec_server cluster = [] then Inl (''cluster '' @ quote (ex_cluster ctx) @ '' has no server'')
          else Inr (ec_server cluster, if ex_namespace ctx = [] then DefaultDeviceNamespace else ex_namespace ctx))))"

fun upsert_cluster :: "string \<Rightarrow> string \<Rightarrow> elp_cluster list \<Rightarrow> elp_cluster list" where
  "upsert_cluster name server [] = [\<lparr>ec_name = name, ec_server = server\<rparr>]"
| "upsert_cluster name server (c # cs) =
     (if ec_name c = name then c\<lparr>ec_server := server\<rparr> # cs else c # upsert_cluster name server cs)"

fun upsert_context :: "string \<Rightarrow> string \<Rightarrow> string \<Rightarrow> elp_context list \<Rightarrow> elp_context list" where
  "upsert_context name cluster ns [] = [\<lparr>ex_name = name, ex_cluster = cluster, ex_namespace = ns\<rparr>]"
| "upsert_context name cluster ns (c # cs) =
     (if ex_name c = name then c\<lparr>ex_cluster := cluster, ex_namespace := ns\<rparr> # cs else c # upsert_context name cluster ns cs)"

definition config_defaults :: "elp_config \<Rightarrow> elp_config" where
  "config_defaults cfg =
     (let c1 = (if ecf_api_version cfg = [] then cfg\<lparr>ecf_api_version := config_APIVersion\<rparr> else cfg)
      in if ecf_kind c1 = [] then c1\<lparr>ecf_kind := config_Kind\<rparr> else c1)"

definition UpsertClusterContext :: "string \<Rightarrow> string \<Rightarrow> string \<Rightarrow> string \<Rightarrow> elp_config \<Rightarrow> elp_config" where
  "UpsertClusterContext clusterName server contextName ns0 cfg =
     (let c1 = config_defaults cfg; ns = (if ns0 = [] then DefaultDeviceNamespace else ns0)
      in c1\<lparr>ecf_clusters := upsert_cluster clusterName server (ecf_clusters c1),
            ecf_contexts := upsert_context contextName clusterName ns (ecf_contexts c1),
            ecf_current := contextName\<rparr>)"

text \<open>The file system and YAML; \<^verbatim>\<open>ReadMissing\<close> is \<^verbatim>\<open>os.IsNotExist\<close>.\<close>

datatype read_result = ReadMissing | ReadError string | ReadText string

record 'w elp_files =
  ef_read :: "'w \<Rightarrow> string \<Rightarrow> read_result"
  ef_mkdir :: "'w \<Rightarrow> string \<Rightarrow> 'w \<times> string option"
  ef_write :: "'w \<Rightarrow> string \<Rightarrow> string \<Rightarrow> 'w \<times> string option"
  ef_dir :: "string \<Rightarrow> string"
  ef_join :: "string list \<Rightarrow> string"
  ef_home :: "string + string"
  ef_unmarshal :: "string \<Rightarrow> string + elp_config"
  ef_marshal :: "elp_config \<Rightarrow> string + string"

definition DefaultPath :: "'w elp_files \<Rightarrow> (string \<Rightarrow> string) \<Rightarrow> string + string" where
  "DefaultPath F env =
     (if env ''ELPCONFIG'' \<noteq> [] then Inr (env ''ELPCONFIG'')
      else (case ef_home F of Inl e \<Rightarrow> Inl e | Inr home \<Rightarrow> Inr (ef_join F [home, ''.elp'', ''config''])))"

definition ResolvePath :: "'w elp_files \<Rightarrow> (string \<Rightarrow> string) \<Rightarrow> string \<Rightarrow> string + string" where
  "ResolvePath F env flagPath = (if flagPath \<noteq> [] then Inr flagPath else DefaultPath F env)"

definition elpconfig_Load :: "'w elp_files \<Rightarrow> 'w \<Rightarrow> string \<Rightarrow> string + elp_config option" where
  "elpconfig_Load F w path =
     (case ef_read F w path of
        ReadMissing \<Rightarrow> Inr None
      | ReadError e \<Rightarrow> Inl e
      | ReadText data \<Rightarrow>
          (case ef_unmarshal F data of
             Inl e \<Rightarrow> Inl (''parse elpconfig '' @ path @ '': '' @ e) | Inr cfg \<Rightarrow> Inr (Some cfg)))"

definition elpconfig_Write :: "'w elp_files \<Rightarrow> 'w \<Rightarrow> string \<Rightarrow> elp_config \<Rightarrow> 'w \<times> string option" where
  "elpconfig_Write F w path cfg0 =
     (case ef_marshal F (config_defaults cfg0) of
        Inl e \<Rightarrow> (w, Some e)
      | Inr data \<Rightarrow>
          (case ef_mkdir F w (ef_dir F path) of
             (w1, Some e) \<Rightarrow> (w1, Some e)
           | (w1, None) \<Rightarrow> ef_write F w1 path data))"

text \<open>
  \<^verbatim>\<open>applyConfigDefaults\<close> for a command that is not \<^verbatim>\<open>help\<close> or \<^verbatim>\<open>config\<close>: a flag is \<open>Some\<close> when it was
  given. The result is the server and the namespace.
\<close>

definition applyConfigDefaults ::
  "'w elp_files \<Rightarrow> (string \<Rightarrow> string) \<Rightarrow> 'w \<Rightarrow> string option \<Rightarrow> string option \<Rightarrow> string \<Rightarrow> string + string \<times> string" where
  "applyConfigDefaults F env w serverFlag nsFlag configPath =
     (let ns0 = (case nsFlag of Some n \<Rightarrow> n | None \<Rightarrow> []) in
      case (case serverFlag of
          Some s \<Rightarrow> Inr (s, ns0)
        | None \<Rightarrow>
            if env ''ELP_SERVER'' \<noteq> [] then Inr (env ''ELP_SERVER'', ns0)
            else (case ResolvePath F env configPath of
              Inl e \<Rightarrow> Inl e
            | Inr path \<Rightarrow>
            (case elpconfig_Load F w path of
              Inl e \<Rightarrow> Inl e
            | Inr None \<Rightarrow> Inr ([], ns0)
            | Inr (Some cfg) \<Rightarrow>
            (case config_Current (Some cfg) of
              Inl e \<Rightarrow> Inl e
            | Inr (s, ns) \<Rightarrow> Inr (s, if nsFlag = None \<and> env ''ELP_NAMESPACE'' = [] then ns else ns0))))) of
        Inl e \<Rightarrow> Inl e
      | Inr (server, ns1) \<Rightarrow>
          (let ns2 = (if nsFlag = None \<and> env ''ELP_NAMESPACE'' \<noteq> [] then env ''ELP_NAMESPACE'' else ns1)
           in Inr (if server = [] then ''http://localhost:8080'' else server,
                   if ns2 = [] then DefaultDeviceNamespace else ns2)))"

section \<open>Discovery of the server\<close>

record service_ingress =
  ig_ip :: string
  ig_hostname :: string

record service_json =
  sj_ports :: "int list"
  sj_ingress :: "service_ingress list"

fun serviceExternalHost :: "service_ingress list \<Rightarrow> string + string" where
  "serviceExternalHost [] =
     Inl ''service has no LoadBalancer external address yet; wait for MetalLB or use port-forward''"
| "serviceExternalHost (i # is) =
     (if ig_ip i \<noteq> [] then Inr (ig_ip i) else if ig_hostname i \<noteq> [] then Inr (ig_hostname i) else serviceExternalHost is)"

text \<open>\<open>kubectl\<close> is \<open>kubectlOutput\<close> below for some way to run commands, \<open>decode\<close> is JSON.\<close>

definition DiscoverFromCluster ::
  "(string \<Rightarrow> string list \<Rightarrow> string + string) \<Rightarrow> (string \<Rightarrow> string + service_json) \<Rightarrow> string \<Rightarrow> string \<Rightarrow> string \<Rightarrow> string
     \<Rightarrow> string + string \<times> string" where
  "DiscoverFromCluster kubectl decode kubeContext0 serviceName0 serviceNamespace0 binary0 =
     (let serviceName = (if serviceName0 = [] then ''elp-api'' else serviceName0);
          serviceNamespace = (if serviceNamespace0 = [] then ''elp'' else serviceNamespace0);
          binary = (if binary0 = [] then ''kubectl'' else binary0) in
      case (if kubeContext0 \<noteq> [] then Inr kubeContext0
            else (case kubectl binary [''config'', ''current-context''] of
                    Inl e \<Rightarrow> Inl (''kubectl current-context: '' @ e)
                  | Inr out \<Rightarrow> if trim_space out = [] then Inl ''kubectl has no current context'' else Inr (trim_space out))) of
        Inl e \<Rightarrow> Inl e
      | Inr kubeContext \<Rightarrow>
      (case kubectl binary [''get'', ''svc'', serviceName, ''-n'', serviceNamespace, ''-o'', ''json''] of
        Inl e \<Rightarrow> Inl (''get service/'' @ serviceName @ '': '' @ e)
      | Inr raw \<Rightarrow>
      (case decode raw of
        Inl e \<Rightarrow> Inl (''decode service: '' @ e)
      | Inr svc \<Rightarrow>
          (let port = (if sj_ports svc \<noteq> [] \<and> 0 < hd (sj_ports svc) then hd (sj_ports svc) else 8080) in
           case serviceExternalHost (sj_ingress svc) of
             Inl e \<Rightarrow> Inl e
           | Inr host \<Rightarrow> Inr (''http://'' @ host @ '':'' @ int_dec port, kubeContext)))))"

text \<open>\<open>exec\<close> runs a command: its combined output and its error.\<close>

definition kubectlOutput :: "(string \<Rightarrow> string list \<Rightarrow> string \<times> string option) \<Rightarrow> string \<Rightarrow> string list \<Rightarrow> string + string" where
  "kubectlOutput exec binary args =
     (case exec binary args of
        (out, None) \<Rightarrow> Inr out
      | (out, Some e) \<Rightarrow> if trim_space out = [] then Inl e else Inl (e @ '': '' @ trim_space out))"

section \<open>The HTTP client\<close>

text \<open>
  The types of the client repeat those of the API field by field, with the same JSON names, so that
  they are the same records here.
\<close>

type_synonym ctl_nats = api_nats
type_synonym ctl_gateway = api_gateway
type_synonym ctl_status = api_status
type_synonym ctl_device = api_device
type_synonym ctl_hardware_create = hardware_create
type_synonym ctl_simulator_create = simulator_create
type_synonym ctl_backend_create = backend_create
type_synonym ctl_device_create = device_create
type_synonym ctl_simulation_detector = simulation_detector
type_synonym ctl_simulate_request = simulate_request
type_synonym ctl_simulation_status = api_simulation_status
type_synonym ctl_simulation = api_simulation

record http_response =
  hr_code :: int
  hr_status :: string
  hr_body :: string

record 'w http_lib =
  hl_do :: "'w \<Rightarrow> string \<Rightarrow> string \<Rightarrow> string option \<Rightarrow> 'w \<times> (string + http_response)"
  hl_decode_error :: "string \<Rightarrow> string + string"
  hl_decode_device :: "string \<Rightarrow> string + ctl_device"
  hl_decode_devices :: "string \<Rightarrow> string + ctl_device list"
  hl_decode_simulation :: "string \<Rightarrow> string + ctl_simulation"
  hl_marshal_create :: "ctl_device_create \<Rightarrow> string + string"
  hl_marshal_simulate :: "ctl_simulate_request \<Rightarrow> string + string"

record elp_client =
  el_base_url :: string
  el_namespace :: string

definition client_New :: "string \<Rightarrow> string \<Rightarrow> elp_client" where
  "client_New baseURL ns = \<lparr>el_base_url = trim_right_char (CHR ''/'') baseURL, el_namespace = ns\<rparr>"

definition devicesPath :: "elp_client \<Rightarrow> string" where
  "devicesPath c = el_base_url c @ ''/api/v1/namespaces/'' @ PathEscape (el_namespace c) @ ''/devices''"

definition devicePath :: "elp_client \<Rightarrow> string \<Rightarrow> string" where
  "devicePath c name = devicesPath c @ ''/'' @ PathEscape name"

definition streamPath :: "elp_client \<Rightarrow> string" where
  "streamPath c = devicesPath c @ ''/stream''"

definition simulateCANPath :: "elp_client \<Rightarrow> string \<Rightarrow> string" where
  "simulateCANPath c deviceName = devicePath c deviceName @ ''/simulate/can''"

definition decodeAPIError :: "'w http_lib \<Rightarrow> http_response \<Rightarrow> string" where
  "decodeAPIError H resp =
     (case hl_decode_error H (hr_body resp) of
        Inl e \<Rightarrow> ''api request failed: '' @ hr_status resp
      | Inr e \<Rightarrow> if e = [] then ''api request failed: '' @ hr_status resp else e)"

text \<open>\<open>body\<close> is the marshalled body, if there is one; \<open>decode\<close> reads the answer.\<close>

definition doJSON ::
  "'w http_lib \<Rightarrow> 'w \<Rightarrow> string \<Rightarrow> string \<Rightarrow> (string + string) option \<Rightarrow> int \<Rightarrow> (string \<Rightarrow> string + 'a) \<Rightarrow> 'w \<times> (string + 'a)" where
  "doJSON H w verb path body expectStatus decode =
     (case body of
        Some (Inl e) \<Rightarrow> (w, Inl e)
      | _ \<Rightarrow>
      (case hl_do H w verb path (case body of Some (Inr data) \<Rightarrow> Some data | _ \<Rightarrow> None) of
        (w1, Inl e) \<Rightarrow> (w1, Inl e)
      | (w1, Inr resp) \<Rightarrow>
          if hr_code resp \<noteq> expectStatus then (w1, Inl (decodeAPIError H resp))
          else (case decode (hr_body resp) of
                  Inl e \<Rightarrow> (w1, Inl (''decode response: '' @ e)) | Inr x \<Rightarrow> (w1, Inr x))))"

definition client_CreateDevice :: "'w http_lib \<Rightarrow> elp_client \<Rightarrow> 'w \<Rightarrow> ctl_device_create \<Rightarrow> 'w \<times> (string + ctl_device)" where
  "client_CreateDevice H c w req =
     (if dc_name req = [] then (w, Inl ''name is required'')
      else doJSON H w ''POST'' (devicePath c (dc_name req)) (Some (hl_marshal_create H req)) 201 (hl_decode_device H))"

definition client_GetDevice :: "'w http_lib \<Rightarrow> elp_client \<Rightarrow> 'w \<Rightarrow> string \<Rightarrow> 'w \<times> (string + ctl_device)" where
  "client_GetDevice H c w name = doJSON H w ''GET'' (devicePath c name) None 200 (hl_decode_device H)"

definition client_ListDevices :: "'w http_lib \<Rightarrow> elp_client \<Rightarrow> 'w \<Rightarrow> 'w \<times> (string + ctl_device list)" where
  "client_ListDevices H c w = doJSON H w ''GET'' (devicesPath c) None 200 (hl_decode_devices H)"

definition client_DeleteDevice :: "'w http_lib \<Rightarrow> elp_client \<Rightarrow> 'w \<Rightarrow> string \<Rightarrow> 'w \<times> (string + unit)" where
  "client_DeleteDevice H c w name = doJSON H w ''DELETE'' (devicePath c name) None 204 (\<lambda>body. Inr ())"

definition client_SimulateCAN :: "'w http_lib \<Rightarrow> elp_client \<Rightarrow> 'w \<Rightarrow> string \<Rightarrow> ctl_simulate_request \<Rightarrow> 'w \<times> (string + ctl_simulation)" where
  "client_SimulateCAN H c w deviceName req =
     (if deviceName = [] then (w, Inl ''device name is required'')
      else doJSON H w ''POST'' (simulateCANPath c deviceName) (Some (hl_marshal_simulate H req)) 200 (hl_decode_simulation H))"

section \<open>The reader of server-sent events\<close>

record watch_event =
  we_type :: string
  we_items :: "ctl_device list"
  we_device :: ctl_device
  we_name :: string

text \<open>
  \<^verbatim>\<open>bufio.Scanner\<close> on the whole stream: the lines without their end, each without one trailing
  carriage return; a line of 1 MiB or more does not fit the buffer, which ends the scan with an
  error (the flag). An empty last piece is no line.
\<close>

definition max_token :: nat where "max_token = 1048576"

definition drop_cr :: "string \<Rightarrow> string" where
  "drop_cr line = (if line \<noteq> [] \<and> last line = CHR 0x0D then butlast line else line)"

definition raw_lines :: "string \<Rightarrow> string list" where
  "raw_lines s = (let ls = split_on newline s in if last ls = [] then butlast ls else ls)"

definition scan_lines :: "string \<Rightarrow> string list \<times> bool" where
  "scan_lines s =
     (let ls = raw_lines s in
      (map drop_cr (takeWhile (\<lambda>l. length l < max_token) ls), list_ex (\<lambda>l. max_token \<le> length l) ls))"

record sse_state =
  se_event :: string
  se_data :: "string list"

definition sse_start :: sse_state where "sse_start = \<lparr>se_event = [], se_data = []\<rparr>"

text \<open>\<open>decode\<close> is JSON, \<open>fn\<close> the callback with its state.\<close>

definition sse_flush ::
  "(string \<Rightarrow> string + watch_event) \<Rightarrow> ('s \<Rightarrow> watch_event \<Rightarrow> 's \<times> string option) \<Rightarrow> sse_state \<Rightarrow> 's \<Rightarrow> sse_state \<times> 's \<times> string option" where
  "sse_flush decode fn st s =
     (if se_event st = [] \<and> se_data st = [] then (st, s, None)
      else let payload = join_with [newline] (se_data st); st1 = sse_start in
        if payload = [] then (st1, s, None)
        else (case decode payload of
          Inl e \<Rightarrow> (st1, s, Some (''decode stream event: '' @ e))
        | Inr event \<Rightarrow>
            (let event1 = (if we_type event = [] then event\<lparr>we_type := se_event st1\<rparr> else event) in
             case fn s event1 of (s1, e) \<Rightarrow> (st1, s1, e))))"

definition sse_line :: "string \<Rightarrow> sse_state \<Rightarrow> sse_state" where
  "sse_line line st =
     (if has_prefix line '':'' then st
      else (case cut_prefix line ''event: '' of
        Some after \<Rightarrow> st\<lparr>se_event := trim_space after\<rparr>
      | None \<Rightarrow>
      (case cut_prefix line ''data: '' of
        Some after \<Rightarrow> st\<lparr>se_data := se_data st @ [after]\<rparr>
      | None \<Rightarrow> st)))"

fun sse_lines ::
  "(string \<Rightarrow> string + watch_event) \<Rightarrow> ('s \<Rightarrow> watch_event \<Rightarrow> 's \<times> string option) \<Rightarrow> string list \<Rightarrow> sse_state \<Rightarrow> 's
     \<Rightarrow> sse_state \<times> 's \<times> string option" where
  "sse_lines decode fn [] st s = (st, s, None)"
| "sse_lines decode fn (line # lines) st s =
     (if line = [] then
        (case sse_flush decode fn st s of
           (st1, s1, Some e) \<Rightarrow> (st1, s1, Some e)
         | (st1, s1, None) \<Rightarrow> sse_lines decode fn lines st1 s1)
      else sse_lines decode fn lines (sse_line line st) s)"

definition readSSE ::
  "(string \<Rightarrow> string + watch_event) \<Rightarrow> ('s \<Rightarrow> watch_event \<Rightarrow> 's \<times> string option) \<Rightarrow> string \<Rightarrow> 's \<Rightarrow> 's \<times> string option" where
  "readSSE decode fn input s =
     (case scan_lines input of (lines, too_long) \<Rightarrow>
        (case sse_lines decode fn lines sse_start s of
           (st1, s1, Some e) \<Rightarrow> (s1, Some e)
         | (st1, s1, None) \<Rightarrow>
             if too_long then (s1, Some ''bufio.Scanner: token too long'')
             else (case sse_flush decode fn st1 s1 of (_, s2, e) \<Rightarrow> (s2, e))))"

text \<open>\<open>fn\<close> may return an error to stop the stream; the body is all that was read of it.\<close>

definition client_WatchDevices ::
  "'w http_lib \<Rightarrow> (string \<Rightarrow> string + watch_event) \<Rightarrow> ('s \<Rightarrow> watch_event \<Rightarrow> 's \<times> string option) \<Rightarrow> elp_client \<Rightarrow> 'w \<Rightarrow> 's
     \<Rightarrow> 'w \<times> 's \<times> string option" where
  "client_WatchDevices H decode fn c w s =
     (case hl_do H w ''GET'' (streamPath c) None of
        (w1, Inl e) \<Rightarrow> (w1, s, Some e)
      | (w1, Inr resp) \<Rightarrow>
          if hr_code resp \<noteq> 200 then (w1, s, Some (decodeAPIError H resp))
          else (case readSSE decode fn (hr_body resp) s of (s1, e) \<Rightarrow> (w1, s1, e)))"

section \<open>Simulated modules\<close>

definition defaultDetectorNetID :: u16 where "defaultDetectorNetID = 0xDB04"
definition defaultDetectorName :: string where "defaultDetectorName = ''occupancy-a''"
definition ctl_defaultDetectorModuleAddress :: u16 where "ctl_defaultDetectorModuleAddress = 1"
definition ctl_defaultDetectorPortCount :: u16 where "ctl_defaultDetectorPortCount = 8"

definition ParseNetID :: "string \<Rightarrow> string + u16" where
  "ParseNetID raw0 =
     (let raw1 = trim_space raw0 in
      if raw1 = [] then Inl ''net ID is required''
      else let hex = (has_prefix raw1 ''0x'' \<or> has_prefix raw1 ''0X''); raw = (if hex then drop 2 raw1 else raw1) in
        case parse_uint (if hex then 16 else 10) 16 raw of
          Inl e \<Rightarrow> Inl (''parse net ID '' @ quote raw @ '': strconv.ParseUint: parsing '' @ quote raw @ '': '' @
              (case e of NumSyntax \<Rightarrow> ''invalid syntax'' | NumRange \<Rightarrow> ''value out of range''))
        | Inr v \<Rightarrow> if v = 0 \<or> 0xFFFF < v then Inl (''net ID '' @ quote raw @ '' out of range'') else Inr (of_nat v))"

definition DetectorsFromNetIDs :: "u16 list \<Rightarrow> simulation_detector list" where
  "DetectorsFromNetIDs netIDs =
     (if netIDs = [] then
        [\<lparr>smd_net_id = defaultDetectorNetID, smd_name = defaultDetectorName,
          smd_module_address = ctl_defaultDetectorModuleAddress, smd_port_count = ctl_defaultDetectorPortCount\<rparr>]
      else map (\<lambda>(i, netID).
         \<lparr>smd_net_id = netID,
          smd_name = (if 1 < length netIDs then ''detector-'' @ nat_dec (i + 1) else defaultDetectorName),
          smd_module_address = ctl_defaultDetectorModuleAddress, smd_port_count = ctl_defaultDetectorPortCount\<rparr>)
       (enumerate 0 netIDs))"

fun parse_net_ids :: "string list \<Rightarrow> string + u16 list" where
  "parse_net_ids [] = Inr []"
| "parse_net_ids (raw # raws) =
     (case ParseNetID raw of
        Inl e \<Rightarrow> Inl e
      | Inr n \<Rightarrow> (case parse_net_ids raws of Inl e \<Rightarrow> Inl e | Inr ns \<Rightarrow> Inr (n # ns)))"

text \<open>The request of \<^verbatim>\<open>simulate can\<close>; the two numbers are \<open>Some\<close> when their flag was given.\<close>

definition simulate_can_request ::
  "string \<Rightarrow> string list \<Rightarrow> string \<Rightarrow> u16 option \<Rightarrow> u16 option \<Rightarrow> string + simulate_request" where
  "simulate_can_request simulationName netIDs givenName moduleAddress portCount =
     (case parse_net_ids netIDs of
        Inl e \<Rightarrow> Inl e
      | Inr parsed \<Rightarrow>
          (let detectors = DetectorsFromNetIDs parsed;
               only = (\<lambda>f. case detectors of [d] \<Rightarrow> [f d] | _ \<Rightarrow> detectors);
               f = (\<lambda>d. let d1 = (if givenName \<noteq> [] then d\<lparr>smd_name := givenName\<rparr> else d);
                            d2 = (case moduleAddress of Some a \<Rightarrow> d1\<lparr>smd_module_address := a\<rparr> | None \<Rightarrow> d1)
                        in case portCount of Some p \<Rightarrow> d2\<lparr>smd_port_count := p\<rparr> | None \<Rightarrow> d2)
           in Inr \<lparr>sr_simulation_name = simulationName, sr_detectors = only f\<rparr>))"

section \<open>Devices on the command line\<close>

definition parseNodeSelector :: "string list \<Rightarrow> (string, string) gomap" where
  "parseNodeSelector pairs =
     fold (\<lambda>pair out. case cut_at (CHR ''='') pair of
         None \<Rightarrow> out | Some (k, v) \<Rightarrow> if k = [] then out else gm_set k v out) pairs []"

record create_flags =
  cf_backend :: string
  cf_address :: string
  cf_nats_url :: string
  cf_subject_prefix :: string
  cf_host_network :: bool
  cf_gateway_image :: string
  cf_simulator_image :: string
  cf_node_selector :: "string list"
  cf_broadcast_flags :: u32
  cf_set_broadcast :: bool

definition create_request :: "string \<Rightarrow> create_flags \<Rightarrow> string + device_create" where
  "create_request name fl =
     (let req = \<lparr>dc_name = name, dc_address = [], dc_backend = None,
          dc_nats = \<lparr>an_url = cf_nats_url fl, an_subject_prefix = cf_subject_prefix fl\<rparr>,
          dc_gateway = (if cf_host_network fl \<or> cf_gateway_image fl \<noteq> [] \<or> cf_node_selector fl \<noteq> []
            then Some \<lparr>ag_image = cf_gateway_image fl, ag_host_network = cf_host_network fl,
                       ag_node_selector = parseNodeSelector (cf_node_selector fl)\<rparr> else None),
          dc_broadcast_flags = (if cf_set_broadcast fl then Some (cf_broadcast_flags fl) else None)\<rparr>
      in if cf_backend fl = ''hardware'' then
           (if cf_address fl = [] then Inl ''--address is required for hardware backend''
            else Inr (req\<lparr>dc_address := cf_address fl\<rparr>))
         else if cf_backend fl = ''simulator'' then
           Inr (req\<lparr>dc_backend := Some \<lparr>bc_type = ''simulator'', bc_hardware = None,
                                       bc_simulator = Some \<lparr>scr_image = cf_simulator_image fl\<rparr>\<rparr>\<rparr>)
         else Inl (''unsupported backend type '' @ quote (cf_backend fl)))"

definition filterDevices :: "api_device list \<Rightarrow> string \<Rightarrow> api_device list" where
  "filterDevices items name = filter (\<lambda>d. ad_name d = name) items"

definition boolLabel :: "bool \<Rightarrow> string" where
  "boolLabel v = (if v then ''true'' else ''false'')"

definition statusColumns :: "api_status option \<Rightarrow> string list" where
  "statusColumns status =
     (case status of
        None \<Rightarrow> [''-'', ''-'', ''-'', ''-'']
      | Some st \<Rightarrow> [if as_phase st = [] then ''-'' else as_phase st, boolLabel (as_gateway_ready st),
                    boolLabel (as_device_reachable st), boolLabel (as_degraded st)])"

section \<open>The table of devices\<close>

text \<open>
  \<^verbatim>\<open>text/tabwriter\<close> with padding 2 on rows of the same number of cells: every column but the last is
  as wide as its widest cell and two blanks. Cells hold no tab or newline; a width counts the bytes that
  start a UTF-8 character.
\<close>

definition rune_count :: "string \<Rightarrow> nat" where
  "rune_count s = length (filter (\<lambda>c. of_char c div 64 \<noteq> (2 :: nat)) s)"

definition column_width :: "string list list \<Rightarrow> nat \<Rightarrow> nat" where
  "column_width rows j = foldl max 0 (map (\<lambda>r. rune_count (r ! j) + 2) rows)"

definition table_row :: "string list list \<Rightarrow> string list \<Rightarrow> string" where
  "table_row rows r =
     concat (map (\<lambda>j. r ! j @ replicate (column_width rows j - rune_count (r ! j)) CHR '' '') [0 ..< length r - 1]) @
     last r @ [newline]"

definition device_row :: "api_device \<Rightarrow> string list" where
  "device_row d = [ad_name d, ad_namespace d, ad_address d] @ statusColumns (ad_status d)"

definition table_header :: "string list" where
  "table_header = [''NAME'', ''NAMESPACE'', ''ADDRESS'', ''PHASE'', ''GATEWAY'', ''REACHABLE'', ''DEGRADED'']"

definition formatDeviceTable :: "api_device list \<Rightarrow> string" where
  "formatDeviceTable items =
     (let rows = table_header # map device_row items in concat (map (table_row rows) rows))"

definition deviceTableLineCount :: "string \<Rightarrow> nat" where
  "deviceTableLineCount table0 =
     (let table = trim_right_char newline table0
      in if table = [] then 0 else length (filter (\<lambda>c. c = newline) table) + 1)"

definition eraseToEndOfLine :: "string \<Rightarrow> string" where
  "eraseToEndOfLine table0 =
     (let table = trim_right_char newline table0 in
      if table = [] then []
      else join_with [newline] (map (\<lambda>line. line @ CHR 0x1B # ''[K'') (split_on newline table)) @ [newline])"

section \<open>The watch\<close>

text \<open>
  \<open>ww_out\<close> is what has been written to standard output. A map of devices keeps its order here; \<open>order\<close>
  stands for the one in which Go ranges over it.
\<close>

datatype watch_output =
  OutText string | OutDevices "api_device list" | OutDevice api_device | OutDeleted string | OutEvent watch_event

record watch_writer =
  ww_by_name :: "(string, api_device) gomap"
  ww_lines :: nat
  ww_out :: "watch_output list"

definition newDeviceWatchWriter :: watch_writer where
  "newDeviceWatchWriter = \<lparr>ww_by_name = [], ww_lines = 0, ww_out = []\<rparr>"

definition deviceMapKey :: "api_device \<Rightarrow> string" where
  "deviceMapKey d = ad_namespace d @ ''/'' @ ad_name d"

definition devicesFromMap :: "(string, api_device) gomap \<Rightarrow> api_device list" where
  "devicesFromMap byName = sort_key (\<lambda>d. (ad_namespace d, ad_name d)) (map snd byName)"

definition watch_render :: "bool \<Rightarrow> watch_writer \<Rightarrow> watch_writer" where
  "watch_render tty w =
     (let table = formatDeviceTable (devicesFromMap (ww_by_name w)); redraw = (tty \<and> 0 < ww_lines w) in
      w\<lparr>ww_lines := deviceTableLineCount table,
        ww_out := ww_out w @
          (if redraw then [OutText (concat (replicate (ww_lines w) (CHR 0x1B # ''[F'')))] else []) @
          [OutText (if redraw then eraseToEndOfLine table else table)]\<rparr>)"

definition writeSnapshot :: "bool \<Rightarrow> api_device list \<Rightarrow> watch_writer \<Rightarrow> watch_writer" where
  "writeSnapshot tty items w = watch_render tty (w\<lparr>ww_by_name := fold (\<lambda>d. gm_set (deviceMapKey d) d) items []\<rparr>)"

definition writeUpdated :: "bool \<Rightarrow> api_device \<Rightarrow> watch_writer \<Rightarrow> watch_writer" where
  "writeUpdated tty d w = watch_render tty (w\<lparr>ww_by_name := gm_set (deviceMapKey d) d (ww_by_name w)\<rparr>)"

definition writeDeleted ::
  "bool \<Rightarrow> ((string \<times> api_device) list \<Rightarrow> (string \<times> api_device) list) \<Rightarrow> string \<Rightarrow> watch_writer \<Rightarrow> watch_writer" where
  "writeDeleted tty order name w =
     (let w1 = (case find (\<lambda>(k, d). ad_name d = name) (order (ww_by_name w)) of
                  None \<Rightarrow> w | Some (k, d) \<Rightarrow> w\<lparr>ww_by_name := gm_del k (ww_by_name w)\<rparr>);
          w2 = watch_render tty w1
      in w2\<lparr>ww_out := ww_out w2 @ [OutText (''deleted'' @ CHR 0x09 # name @ [newline])]\<rparr>)"

definition handleDeviceWatchEvent ::
  "bool \<Rightarrow> bool \<Rightarrow> ((string \<times> api_device) list \<Rightarrow> (string \<times> api_device) list) \<Rightarrow> string \<Rightarrow> watch_writer \<Rightarrow> watch_event \<Rightarrow> watch_writer" where
  "handleDeviceWatchEvent json tty order name w event =
     (let out = (\<lambda>x. w\<lparr>ww_out := ww_out w @ [x]\<rparr>) in
      if we_type event = ''snapshot'' then
        (let items = filterDevices (we_items event) name
         in if json then out (OutDevices items) else writeSnapshot tty items w)
      else if we_type event = ''updated'' then
        (if ad_name (we_device event) \<noteq> name then w
         else if json then out (OutDevice (we_device event)) else writeUpdated tty (we_device event) w)
      else if we_type event = ''deleted'' then
        (if we_name event \<noteq> name then w
         else if json then out (OutDeleted (we_name event)) else writeDeleted tty order (we_name event) w)
      else if json then out (OutEvent event) else w)"

section \<open>The configuration reads back\<close>

lemma find_upsert_cluster:
  "find (\<lambda>c. ec_name c = n) (upsert_cluster name server cs) =
     (if n = name then Some \<lparr>ec_name = name, ec_server = server\<rparr> else find (\<lambda>c. ec_name c = n) cs)"
  by (induction cs) (auto split: if_splits)

lemma find_upsert_context:
  "find (\<lambda>c. ex_name c = n) (upsert_context name cluster ns cs) =
     (if n = name then Some \<lparr>ex_name = name, ex_cluster = cluster, ex_namespace = ns\<rparr> else find (\<lambda>c. ex_name c = n) cs)"
  by (induction cs) (auto split: if_splits)

lemma config_defaults_keeps [simp]:
  "ecf_clusters (config_defaults cfg) = ecf_clusters cfg" "ecf_contexts (config_defaults cfg) = ecf_contexts cfg"
  "ecf_current (config_defaults cfg) = ecf_current cfg"
  by (simp_all add: config_defaults_def Let_def)

lemma Upsert_lookups:
  "clusterByName (UpsertClusterContext cl srv ctx ns cfg) n =
     (if n = cl then Some \<lparr>ec_name = cl, ec_server = srv\<rparr> else clusterByName cfg n)"
  "contextByName (UpsertClusterContext cl srv ctx ns cfg) n =
     (if n = ctx then Some \<lparr>ex_name = ctx, ex_cluster = cl, ex_namespace = (if ns = [] then DefaultDeviceNamespace else ns)\<rparr>
      else contextByName cfg n)"
  "ecf_current (UpsertClusterContext cl srv ctx ns cfg) = ctx"
  by (simp_all add: UpsertClusterContext_def clusterByName_def contextByName_def find_upsert_cluster find_upsert_context Let_def)

section \<open>The event stream\<close>

lemma raw_lines_line:
  assumes "newline \<notin> set l"
  shows "raw_lines (l @ newline # rest) = l # raw_lines rest"
  using split_on_line [OF assms, of rest] by (simp add: raw_lines_def Let_def)

lemma raw_lines_Nil [simp]: "raw_lines [] = []"
  by (simp add: raw_lines_def)

definition frame_lines :: "string \<times> string \<Rightarrow> string list" where
  "frame_lines = (\<lambda>(ev, data). [''event: '' @ ev, ''data: '' @ data, []])"

text \<open>What the server can write: one line of event, one line of data that is not empty and does not end with a carriage return, and both fit the buffer.\<close>

definition good_frame :: "string \<times> string \<Rightarrow> bool" where
  "good_frame = (\<lambda>(ev, data). newline \<notin> set ev \<and> newline \<notin> set data \<and> data \<noteq> [] \<and> last data \<noteq> CHR 0x0D \<and>
     length ev + 7 < max_token \<and> length data + 6 < max_token)"

definition stream_text :: "(string \<times> string) option list \<Rightarrow> string" where
  "stream_text fs = concat (map (\<lambda>f. case f of Some (ev, data) \<Rightarrow> writeSSE ev data | None \<Rightarrow> keepalive) fs)"

definition stream_lines :: "(string \<times> string) option list \<Rightarrow> string list" where
  "stream_lines fs = concat (map (\<lambda>f. case f of Some p \<Rightarrow> frame_lines p | None \<Rightarrow> ['': keepalive'', []]) fs)"

lemma raw_lines_stream:
  assumes "\<forall>p. Some p \<in> set fs \<longrightarrow> good_frame p"
  shows "raw_lines (stream_text fs) = stream_lines fs"
  using assms
proof (induction fs)
  case (Cons f fs)
  then have IH: "raw_lines (stream_text fs) = stream_lines fs" by simp
  show ?case
  proof (cases f)
    case None
    have "raw_lines (keepalive @ stream_text fs) = ['': keepalive'', []] @ raw_lines (stream_text fs)"
      using raw_lines_line [of "'': keepalive''" "newline # stream_text fs"] raw_lines_line [of "[]" "stream_text fs"]
      by (simp add: keepalive_def newline_def)
    then show ?thesis using IH None by (simp add: stream_text_def stream_lines_def)
  next
    case (Some p)
    obtain ev data where p: "p = (ev, data)" by fastforce
    then have g: "newline \<notin> set (''event: '' @ ev)" "newline \<notin> set (''data: '' @ data)"
      using Cons.prems Some by (auto simp: good_frame_def newline_def)
    have "raw_lines (writeSSE ev data @ stream_text fs) = frame_lines p @ raw_lines (stream_text fs)"
      using raw_lines_line [OF g(1), of "''data: '' @ data @ newline # newline # stream_text fs"]
        raw_lines_line [OF g(2), of "newline # stream_text fs"] raw_lines_line [of "[]" "stream_text fs"]
      by (simp add: writeSSE_def frame_lines_def p)
    then show ?thesis using IH Some p by (simp add: stream_text_def stream_lines_def)
  qed
qed (simp add: stream_text_def stream_lines_def)

lemma scan_stream:
  assumes "\<forall>p. Some p \<in> set fs \<longrightarrow> good_frame p"
  shows "scan_lines (stream_text fs) = (map drop_cr (stream_lines fs), False)"
proof -
  have "length l < max_token" if "l \<in> set (stream_lines fs)" for l
    using that assms by (fastforce simp: stream_lines_def frame_lines_def good_frame_def max_token_def split: option.splits)
  then show ?thesis unfolding scan_lines_def raw_lines_stream [OF assms] Let_def
    by (auto simp: list_ex_iff takeWhile_eq_all_conv [THEN iffD2] not_le)
qed

fun deliver :: "('s \<Rightarrow> watch_event \<Rightarrow> 's \<times> string option) \<Rightarrow> watch_event list \<Rightarrow> 's \<Rightarrow> 's \<times> string option" where
  "deliver fn [] s = (s, None)"
| "deliver fn (x # xs) s = (case fn s x of (s1, Some e) \<Rightarrow> (s1, Some e) | (s1, None) \<Rightarrow> deliver fn xs s1)"

lemma drop_cr_event: "\<exists>ev'. drop_cr (''event: '' @ ev) = ''event: '' @ ev'"
  by (cases ev rule: rev_cases) (auto simp: drop_cr_def butlast_append)

lemma drop_cr_data: "data \<noteq> [] \<Longrightarrow> last data \<noteq> CHR 0x0D \<Longrightarrow> drop_cr (''data: '' @ data) = ''data: '' @ data"
  by (simp add: drop_cr_def)

lemma sse_prefixes:
  "sse_line (''event: '' @ ev) st = st\<lparr>se_event := trim_space ev\<rparr>"
  "sse_line (''data: '' @ data) st = st\<lparr>se_data := se_data st @ [data]\<rparr>"
  "sse_line '': keepalive'' st = st"
  by (simp_all add: sse_line_def cut_prefix_def has_prefix_def)

lemma sse_three:
  "l1 \<noteq> [] \<Longrightarrow> l2 \<noteq> [] \<Longrightarrow> sse_lines decode fn ([l1, l2, []] @ ls) st s =
    (case sse_flush decode fn (sse_line l2 (sse_line l1 st)) s of
       (st1, s1, Some e) \<Rightarrow> (st1, s1, Some e) | (st1, s1, None) \<Rightarrow> sse_lines decode fn ls st1 s1)"
  by simp

lemma sse_flush_one:
  assumes "data \<noteq> []" and "decode data = Inr x" and "we_type x \<noteq> []"
  shows "sse_flush decode fn \<lparr>se_event = ev, se_data = [data]\<rparr> s = (sse_start, fst (fn s x), snd (fn s x))"
  using assms by (simp add: sse_flush_def split: prod.split)

lemma sse_frame:
  assumes "good_frame (ev, data)" and "decode data = Inr x" and "we_type x \<noteq> []"
  shows "sse_lines decode fn (map drop_cr (frame_lines (ev, data)) @ ls) sse_start s =
    (case fn s x of (s1, Some e) \<Rightarrow> (sse_start, s1, Some e) | (s1, None) \<Rightarrow> sse_lines decode fn ls sse_start s1)"
proof -
  obtain ev' where ev': "drop_cr (''event: '' @ ev) = ''event: '' @ ev'" using drop_cr_event by blast
  have d: "drop_cr (''data: '' @ data) = ''data: '' @ data" "data \<noteq> []"
    using assms(1) drop_cr_data by (auto simp: good_frame_def)
  have l: "map drop_cr (frame_lines (ev, data)) = [''event: '' @ ev', ''data: '' @ data, []]"
    unfolding frame_lines_def prod.case list.map ev' d(1) by (simp add: drop_cr_def)
  have st: "sse_line (''data: '' @ data) (sse_line (''event: '' @ ev') sse_start) = \<lparr>se_event = trim_space ev', se_data = [data]\<rparr>"
    unfolding sse_prefixes by (simp add: sse_start_def)
  have ne: "''event: '' @ ev' \<noteq> []" "''data: '' @ data \<noteq> []" by simp_all
  show ?thesis
    unfolding l sse_three [OF ne] st sse_flush_one [where decode = decode, OF d(2) assms(2,3)]
    by (cases "fn s x") (simp split: option.split)
qed

lemma sse_stream:
  assumes "\<forall>p. Some p \<in> set fs \<longrightarrow> good_frame p" and "\<forall>p. Some p \<in> set fs \<longrightarrow> decode (snd p) = Inr (g p) \<and> we_type (g p) \<noteq> []"
  shows "\<exists>st. sse_lines decode fn (map drop_cr (stream_lines fs)) sse_start s = (st, deliver fn (map g (List.map_filter (\<lambda>f. f) fs)) s) \<and>
    (snd (deliver fn (map g (List.map_filter (\<lambda>f. f) fs)) s) = None \<longrightarrow> st = sse_start)"
  using assms
proof (induction fs arbitrary: s)
  case (Cons f fs)
  have IH: "\<exists>st. sse_lines decode fn (map drop_cr (stream_lines fs)) sse_start s = (st, deliver fn (map g (List.map_filter (\<lambda>f. f) fs)) s) \<and>
    (snd (deliver fn (map g (List.map_filter (\<lambda>f. f) fs)) s) = None \<longrightarrow> st = sse_start)" for s
    using Cons.IH Cons.prems by simp
  show ?case
  proof (cases f)
    case None
    have "sse_lines decode fn (drop_cr '': keepalive'' # drop_cr [] # ls) sse_start s = sse_lines decode fn ls sse_start s" for ls
      using sse_prefixes(3) [of sse_start] by (simp add: drop_cr_def sse_flush_def) (simp add: sse_start_def)
    then show ?thesis using IH [of s] None by (simp add: stream_lines_def map_filter_simps)
  next
    case (Some p)
    obtain ev data where p: "p = (ev, data)" by fastforce
    have 1: "good_frame (ev, data)" "decode data = Inr (g p)" "we_type (g p) \<noteq> []" using Cons.prems Some p by auto
    obtain s1 r where r: "fn s (g p) = (s1, r)" by fastforce
    have ls: "map drop_cr (stream_lines (f # fs)) = map drop_cr (frame_lines (ev, data)) @ map drop_cr (stream_lines fs)"
      by (simp add: stream_lines_def Some p)
    show ?thesis
      unfolding ls sse_frame [where decode = decode and fn = fn, OF 1] using IH [of s1] r Some
      by (cases r) (simp_all add: map_filter_simps)
  qed
qed (simp add: stream_lines_def map_filter_simps)

section \<open>The watch shows the latest state\<close>

fun latest_state :: "string \<Rightarrow> watch_event list \<Rightarrow> api_device option \<Rightarrow> api_device option" where
  "latest_state name [] l = l"
| "latest_state name (e # es) l = latest_state name es
     (if we_type e = ''snapshot'' then find (\<lambda>d. ad_name d = name) (rev (we_items e))
      else if we_type e = ''updated'' \<and> ad_name (we_device e) = name then Some (we_device e)
      else if we_type e = ''deleted'' \<and> we_name e = name then None
      else l)"

definition shows_device :: "string \<Rightarrow> string \<Rightarrow> watch_writer \<Rightarrow> api_device option \<Rightarrow> bool" where
  "shows_device ns name w l \<longleftrightarrow>
     ww_by_name w = (case l of None \<Rightarrow> [] | Some d \<Rightarrow> [(ns @ ''/'' @ name, d)]) \<and>
     (\<forall>d. l = Some d \<longrightarrow> ad_namespace d = ns \<and> ad_name d = name)"

text \<open>The devices that the event carries are in the namespace of the stream.\<close>

definition in_namespace :: "string \<Rightarrow> watch_event \<Rightarrow> bool" where
  "in_namespace ns e \<longleftrightarrow>
     (we_type e = ''updated'' \<longrightarrow> ad_namespace (we_device e) = ns) \<and> (\<forall>d \<in> set (we_items e). ad_namespace d = ns)"

lemma render_by_name [simp]: "ww_by_name (watch_render tty w) = ww_by_name w"
  by (simp add: watch_render_def Let_def)

lemma fold_same_key:
  "(\<And>d. d \<in> set ds \<Longrightarrow> f d = k) \<Longrightarrow> fold (\<lambda>d. gm_set (f d) d) ds [(k, x)] = [(k, last (x # ds))]"
  by (induction ds arbitrary: x) (auto simp: gm_set_def)

lemma fold_from_empty:
  assumes "\<And>d. d \<in> set ds \<Longrightarrow> f d = k"
  shows "fold (\<lambda>d. gm_set (f d) d) ds [] = (if ds = [] then [] else [(k, last ds)])"
proof (cases ds)
  case (Cons d ds')
  then show ?thesis using fold_same_key [of ds' f k d] assms by (auto simp: gm_set_def)
qed simp

lemma find_rev_last: "find P (rev xs) = (if filter P xs = [] then None else Some (last (filter P xs)))"
  by (induction xs rule: rev_induct) (auto simp: find_None_iff filter_empty_conv)

lemma order_small:
  assumes "\<And>m. mset (order m) = mset m"
  shows "order [] = []" "order [x] = [x]"
  using assms [of "[]"] assms [of "[x]"] by (auto simp: mset_single_iff)

lemma watch_step:
  assumes order: "\<And>m. mset (order m) = mset m" and ns: "in_namespace ns e" and w: "shows_device ns name w l"
  shows "shows_device ns name (handleDeviceWatchEvent False tty order name w e) (latest_state name [e] l)"
proof -
  have key: "deviceMapKey d = ns @ ''/'' @ name" if "ad_namespace d = ns" "ad_name d = name" for d
    using that by (simp add: deviceMapKey_def)
  consider (snap) "we_type e = ''snapshot''" | (upd) "we_type e = ''updated''" | (del) "we_type e = ''deleted''"
    | (other) "we_type e \<notin> {''snapshot'', ''updated'', ''deleted''}" by blast
  then show ?thesis
  proof cases
    case snap
    let ?items = "filterDevices (we_items e) name"
    have items: "d \<in> set ?items \<Longrightarrow> ad_namespace d = ns \<and> ad_name d = name" for d
      using ns by (auto simp: filterDevices_def in_namespace_def)
    have "fold (\<lambda>d. gm_set (deviceMapKey d) d) ?items [] = (if ?items = [] then [] else [(ns @ ''/'' @ name, last ?items)])"
      using items key by (intro fold_from_empty) auto
    moreover have "find (\<lambda>d. ad_name d = name) (rev (we_items e)) = (if ?items = [] then None else Some (last ?items))"
      by (simp add: filterDevices_def find_rev_last)
    ultimately show ?thesis
      using snap items [of "last ?items"] by (simp add: shows_device_def handleDeviceWatchEvent_def writeSnapshot_def)
  next
    case upd
    then show ?thesis using w ns key [of "we_device e"]
      by (auto simp: shows_device_def handleDeviceWatchEvent_def writeUpdated_def in_namespace_def gm_set_def split: option.splits)
  next
    case del
    then show ?thesis using w order_small [OF order]
      by (auto simp: shows_device_def handleDeviceWatchEvent_def writeDeleted_def Let_def gm_del_def split: option.splits)
  next
    case other
    then show ?thesis using w by (auto simp: shows_device_def handleDeviceWatchEvent_def)
  qed
qed

lemma watch_run:
  assumes order: "\<And>m. mset (order m) = mset m"
  shows "\<forall>e \<in> set es. in_namespace ns e \<Longrightarrow> shows_device ns name w l \<Longrightarrow>
    shows_device ns name (run_events (handleDeviceWatchEvent False tty order name) w es) (latest_state name es l)"
proof (induction es arbitrary: w l)
  case (Cons e es)
  have "shows_device ns name (handleDeviceWatchEvent False tty order name w e) (latest_state name [e] l)"
    using Cons.prems by (intro watch_step [OF order]) auto
  from Cons.IH [OF _ this] Cons.prems(1) show ?case by (simp del: latest_state.simps) simp
qed simp

lemma readSSE_stream:
  assumes "\<forall>p. Some p \<in> set fs \<longrightarrow> good_frame p"
    and "\<forall>p. Some p \<in> set fs \<longrightarrow> decode (snd p) = Inr (g p) \<and> we_type (g p) \<noteq> []"
  shows "readSSE decode fn (stream_text fs) s = deliver fn (map g (List.map_filter (\<lambda>f. f) fs)) s"
proof -
  obtain st where st: "sse_lines decode fn (map drop_cr (stream_lines fs)) sse_start s =
      (st, deliver fn (map g (List.map_filter (\<lambda>f. f) fs)) s) \<and>
    (snd (deliver fn (map g (List.map_filter (\<lambda>f. f) fs)) s) = None \<longrightarrow> st = sse_start)"
    using sse_stream [OF assms] ..
  obtain s1 r where d: "deliver fn (map g (List.map_filter (\<lambda>f. f) fs)) s = (s1, r)" by fastforce
  have "sse_flush decode fn sse_start s1 = (sse_start, s1, None)" by (simp add: sse_flush_def sse_start_def)
  then show ?thesis using st by (cases r) (simp_all add: readSSE_def scan_stream [OF assms(1)] d)
qed

section \<open>Properties\<close>

text \<open>
  The event stream survives the wire. What the server writes for a sequence of events and
  keep-alives, each JSON text a single line within the 1 MiB of the reader's buffer, the client reads as
  exactly these events in this order, stopping at the first its callback refuses.
\<close>

theorem sse_roundtrip:
  assumes "\<forall>p. Some p \<in> set fs \<longrightarrow> good_frame p"
    and "\<forall>p. Some p \<in> set fs \<longrightarrow> decode (snd p) = Inr (g p) \<and> we_type (g p) \<noteq> []"
  shows "readSSE decode fn (stream_text fs) s = deliver fn (map g (List.map_filter (\<lambda>f. f) fs)) s"
  using assms by (rule readSSE_stream)

theorem sse_roundtrip_witness:
  "readSSE (\<lambda>data. Inr \<lparr>we_type = ''deleted'', we_items = [], we_device = undefined, we_name = data\<rparr>)
     (\<lambda>s x. (s @ [we_name x], None)) (stream_text [Some (''deleted'', ''z1''), None, Some (''deleted'', ''z2'')]) [] =
   ([''z1'', ''z2''], None)"
proof -
  let ?fs = "[Some (''deleted'', ''z1''), None, Some (''deleted'', ''z2'')]"
  have g: "\<forall>p. Some p \<in> set ?fs \<longrightarrow> good_frame p"
    by (auto simp: good_frame_def newline_def max_token_def)
  show ?thesis
    by (subst sse_roundtrip [OF g, of _ "\<lambda>p. \<lparr>we_type = ''deleted'', we_items = [], we_device = undefined, we_name = snd p\<rparr>"])
      (simp_all add: map_filter_simps)
qed

text \<open>
  The watch shows the device as it is. After a snapshot and any events of one namespace the table
  of \<^verbatim>\<open>get --watch\<close> holds the device exactly when the last event about it was not its deletion, with the
  content of that event, and never another device.
\<close>

theorem watch_shows_latest:
  assumes "\<And>m. mset (order m) = mset m" and "\<forall>e \<in> set es. in_namespace ns e"
  shows "devicesFromMap (ww_by_name (run_events (handleDeviceWatchEvent False tty order name) newDeviceWatchWriter es)) =
    (case latest_state name es None of None \<Rightarrow> [] | Some d \<Rightarrow> [d])"
proof -
  have "shows_device ns name newDeviceWatchWriter None" by (simp add: shows_device_def newDeviceWatchWriter_def)
  from watch_run [OF assms this, of tty] show ?thesis
    by (simp add: shows_device_def devicesFromMap_def split: option.splits)
qed

text \<open>
  A context that has been written is the one in use. After adding or updating a cluster and a context, the
  current server and namespace are those given, the default namespace when none was; every other
  context and cluster is found as before.
\<close>

theorem upsert_then_current:
  assumes "ctx \<noteq> []" and "srv \<noteq> []"
  shows "config_Current (Some (UpsertClusterContext cl srv ctx ns cfg)) = Inr (srv, if ns = [] then DefaultDeviceNamespace else ns) \<and>
    (\<forall>n. n \<noteq> ctx \<longrightarrow> contextByName (UpsertClusterContext cl srv ctx ns cfg) n = contextByName cfg n) \<and>
    (\<forall>n. n \<noteq> cl \<longrightarrow> clusterByName (UpsertClusterContext cl srv ctx ns cfg) n = clusterByName cfg n)"
  using assms by (simp add: config_Current_def Upsert_lookups DefaultDeviceNamespace_def)

theorem upsert_then_current_witness:
  "config_Current (Some (UpsertClusterContext ''kind'' ''http://10.0.0.1:8080'' ''kind@elp'' [] empty_elp_config)) =
   Inr (''http://10.0.0.1:8080'', ''elp'')"
  using upsert_then_current [of "''kind@elp''" "''http://10.0.0.1:8080''" "''kind''" "[]" empty_elp_config]
  by (simp add: DefaultDeviceNamespace_def)

definition example_api_device :: "string \<Rightarrow> string \<Rightarrow> api_device" where
  "example_api_device ns name =
     \<lparr>ad_name = name, ad_namespace = ns, ad_address = [], ad_nats = \<lparr>an_url = [], an_subject_prefix = []\<rparr>,
      ad_gateway = None, ad_broadcast_flags = 0, ad_status = None\<rparr>"

theorem watch_shows_latest_witness:
  "devicesFromMap (ww_by_name (run_events (handleDeviceWatchEvent False True (\<lambda>m. m) ''z1'') newDeviceWatchWriter
     [\<lparr>we_type = ''snapshot'', we_items = [example_api_device ''elp'' ''z0'', example_api_device ''elp'' ''z1''],
       we_device = example_api_device [] [], we_name = []\<rparr>])) = [example_api_device ''elp'' ''z1'']"
proof -
  let ?e = "\<lparr>we_type = ''snapshot'', we_items = [example_api_device ''elp'' ''z0'', example_api_device ''elp'' ''z1''],
       we_device = example_api_device [] [], we_name = []\<rparr>"
  have "\<forall>e \<in> set [?e]. in_namespace ''elp'' e" by (simp add: in_namespace_def example_api_device_def)
  from watch_shows_latest [of "\<lambda>m. m", OF refl this, of True "''z1''"]
  show ?thesis by (simp add: example_api_device_def)
qed

lemma trim_left_plain:
  assumes "c \<notin> hd ` set rs" and "[] \<notin> set rs"
  shows "trim_left_runes rs n (c # cs) = c # cs"
proof (cases n)
  case (Suc m)
  have "\<not> has_prefix (c # cs) r" if r: "r \<in> set rs" for r
  proof
    assume p: "has_prefix (c # cs) r"
    have "r \<noteq> []" using r assms(2) by metis
    then obtain a r' where "r = a # r'" by (cases r) auto
    then have "hd r = c" using p by (auto simp: has_prefix_def)
    then show False using r assms(1) by auto
  qed
  then have "find (\<lambda>r. has_prefix (c # cs) r) rs = None" by (simp add: find_None_iff)
  then show ?thesis using Suc by simp
qed simp

definition id_chars :: string where "id_chars = ''0123456789abcdefABCDEFx''"

lemma id_chars_plain:
  assumes "c \<in> set id_chars"
  shows "c \<notin> hd ` set space_runes" "c \<notin> hd ` set (map rev space_runes)"
proof -
  have "list_all (\<lambda>c. c \<notin> hd ` set space_runes \<and> c \<notin> hd ` set (map rev space_runes)) id_chars" by code_simp
  then show "c \<notin> hd ` set space_runes" "c \<notin> hd ` set (map rev space_runes)" using assms by (auto simp only: list_all_iff)
qed

lemma trim_space_id:
  assumes "set s \<subseteq> set id_chars" and "s \<noteq> []"
  shows "trim_space s = s"
proof -
  obtain c cs where s: "s = c # cs" using assms(2) by (cases s) auto
  obtain d ds where r: "rev s = d # ds" using assms(2) by (cases "rev s") auto
  have "c \<in> set id_chars" using assms(1) s by auto
  moreover have "d \<in> set s" using r by (metis list.set_intros(1) set_rev)
  then have "d \<in> set id_chars" using assms(1) by blast
  moreover have "[] \<notin> set space_runes" "[] \<notin> set (map rev space_runes)" by (simp_all add: space_runes_def)
  ultimately have "trim_left_runes space_runes n (c # cs) = c # cs"
    "trim_left_runes (map rev space_runes) n (d # ds) = d # ds" for n
    by (auto intro!: trim_left_plain dest: id_chars_plain simp del: trim_left_runes.simps)
  then have "trim_left_runes space_runes n s = s" "trim_left_runes (map rev space_runes) n (rev s) = rev s" for n
    by (simp_all only: r, simp_all only: s)
  then show ?thesis by (simp add: trim_space_def trim_left_space_def Let_def)
qed

lemma digit_in: "d < 16 \<Longrightarrow> digit_chars u ! d \<in> set ''0123456789abcdefABCDEF''"
proof -
  have "list_all (\<lambda>d. digit_chars True ! d \<in> set ''0123456789abcdefABCDEF'' \<and> digit_chars False ! d \<in> set ''0123456789abcdefABCDEF'') [0..<16]"
    by code_simp
  then show "d < 16 \<Longrightarrow> digit_chars u ! d \<in> set ''0123456789abcdefABCDEF''" by (cases u) (auto simp only: list_all_iff atLeastLessThan_iff set_upt)
qed

lemma nat_dec_chars: "set (nat_dec n) \<subseteq> set ''0123456789abcdefABCDEF''"
proof (induction n rule: nat_dec.induct)
  case (1 n)
  show ?case
  proof (cases "n < 10")
    case True
    then show ?thesis using digit_in [of n False] by (subst nat_dec.simps) (simp only: if_True list.set insert_subset empty_subsetI)
  next
    case False
    then show ?thesis using 1 [OF False] digit_in [OF mod10_less16, of False n]
      by (subst nat_dec.simps) (simp only: if_False set_append list.set insert_subset empty_subsetI Un_subset_iff)
  qed
qed

lemma hex_pad_chars: "set (hex_pad u n k) \<subseteq> set ''0123456789abcdefABCDEF''"
proof (induction n arbitrary: k)
  case (Suc n)
  then show ?case using digit_in [of "k mod 16" u]
    by (simp only: hex_pad.simps set_append list.set insert_subset empty_subsetI Un_subset_iff mod_less_divisor zero_less_numeral)
qed simp

text \<open>
  Network ids are read in both notations. Every nonzero id, written in decimal or after 0x in hexadecimal
  of either case, is accepted as that id; whatever is accepted is not zero.
\<close>

theorem ParseNetID_roundtrip:
  "(\<forall>raw n. ParseNetID raw = Inr n \<longrightarrow> n \<noteq> 0) \<and>
   (\<forall>n. n \<noteq> 0 \<longrightarrow> ParseNetID (nat_dec (unat n)) = Inr n \<and> ParseNetID (''0x'' @ hex_pad upper 4 (unat n)) = Inr n)"
proof (intro conjI allI impI)
  fix raw and n :: u16 assume "ParseNetID raw = Inr n"
  then obtain v :: nat where "v \<noteq> 0" "v \<le> 0xFFFF" "n = of_nat v"
    by (auto simp: ParseNetID_def Let_def not_less split: if_splits sum.splits)
  then show "n \<noteq> 0" using unat_of_nat [of v, where ?'a = 16] by auto
next
  fix n :: u16 assume n: "n \<noteq> 0"
  then have v: "unat n \<noteq> 0" "unat n \<le> 0xFFFF" "unat n < 2 ^ 16" "unat n < 16 ^ 4"
    using unat_u16_less [of n] by (auto simp: unat_eq_0)
  have x: "CHR ''x'' \<notin> set ''0123456789abcdefABCDEF''" "CHR ''X'' \<notin> set ''0123456789abcdefABCDEF''" by simp_all
  have sub: "set ''0123456789abcdefABCDEF'' \<subseteq> set id_chars" "set ''0x'' \<subseteq> set id_chars" by (simp_all add: id_chars_def)
  have dec: "trim_space (nat_dec (unat n)) = nat_dec (unat n)"
    using nat_dec_chars sub(1) by (intro trim_space_id nat_dec_nonempty) blast
  have "\<not> has_prefix (nat_dec (unat n)) [CHR ''0'', c]" if "c \<notin> set ''0123456789abcdefABCDEF''" for c
  proof
    assume "has_prefix (nat_dec (unat n)) [CHR ''0'', c]"
    then have "take (Suc (Suc 0)) (nat_dec (unat n)) = [CHR ''0'', c]" by (simp add: has_prefix_def)
    then have "c \<in> set (take (Suc (Suc 0)) (nat_dec (unat n)))" by simp
    then show False using that nat_dec_chars by (meson in_mono in_set_takeD)
  qed
  then show "ParseNetID (nat_dec (unat n)) = Inr n"
    using v x parse_uint_nat_dec [OF v(3)] nat_dec_nonempty [of "unat n"]
    by (simp add: ParseNetID_def dec Let_def del: set_simps)
  have "trim_space (''0x'' @ hex_pad upper 4 (unat n)) = ''0x'' @ hex_pad upper 4 (unat n)"
    using order_trans [OF hex_pad_chars sub(1)] sub(2) by (intro trim_space_id) (simp_all del: list.set append.simps)
  then show "ParseNetID (''0x'' @ hex_pad upper 4 (unat n)) = Inr n"
    using v parse_uint_hex_pad [OF v(4,3), of upper] by (simp add: ParseNetID_def Let_def has_prefix_def)
qed

theorem ParseNetID_roundtrip_witness: "ParseNetID (''0x'' @ hex_pad True 4 (unat (0xDB04 :: u16))) = Inr 0xDB04"
proof -
  have "(0xDB04 :: u16) \<noteq> 0" by simp
  then show ?thesis using ParseNetID_roundtrip [of True] by blast
qed

end
