(* ===== verification/Stream_Watch.thy ===== *)
theory Stream_Watch
  imports Elpctl
begin

text \<open>
  The device stream from end to end: the handler \<^verbatim>\<open>streamDevices\<close> of the API
  (\<^verbatim>\<open>apps/api/internal/api/stream.go\<close>) on top of the stream hub, and what \<^verbatim>\<open>elpctl device get --watch\<close>
  shows of what it wrote. The handler runs against a sequence of ticks that says which case of its
  \<^verbatim>\<open>select\<close> is taken and what others do to the hub in between.
\<close>

section \<open>The handler\<close>

record 'w stream_io =
  si_marshal :: "stream_payload \<Rightarrow> string + string"
  si_write :: "'w \<Rightarrow> string \<Rightarrow> 'w \<times> string option"

definition send_sse :: "'w stream_io \<Rightarrow> 'w \<Rightarrow> string \<Rightarrow> stream_payload \<Rightarrow> 'w \<times> string option" where
  "send_sse io w event payload =
     (case si_marshal io payload of
        Inl e \<Rightarrow> (w, Some e)
      | Inr data \<Rightarrow> si_write io w (writeSSE event data))"

datatype stream_tick = TickDone | TickKeepAlive | TickEvent | TickOther hub_event

text \<open>
  The last result tells that the handler has returned, which unsubscribes it. A tick for an event
  while the channel is empty is one in which the \<^verbatim>\<open>select\<close> goes on waiting; the channel is closed only by
  the handler itself.
\<close>

fun stream_loop ::
  "'w stream_io \<Rightarrow> string \<Rightarrow> nat \<Rightarrow> 'w \<Rightarrow> stream_hub \<Rightarrow> stream_tick list \<Rightarrow> 'w \<times> stream_hub \<times> bool" where
  "stream_loop io ns ch w h [] = (w, h, False)"
| "stream_loop io ns ch w h (TickDone # ts) = (w, hub_cancel h ns ch, True)"
| "stream_loop io ns ch w h (TickKeepAlive # ts) =
     (case si_write io w keepalive of
        (w1, Some e) \<Rightarrow> (w1, hub_cancel h ns ch, True)
      | (w1, None) \<Rightarrow> stream_loop io ns ch w1 h ts)"
| "stream_loop io ns ch w h (TickEvent # ts) =
     (case sh_queue h ch of
        [] \<Rightarrow> stream_loop io ns ch w h ts
      | event # q \<Rightarrow>
          (case streamPayload event of (payload, eventType) \<Rightarrow>
             (case send_sse io w eventType payload of
                (w1, Some e) \<Rightarrow> (w1, hub_cancel (hub_take h ch) ns ch, True)
              | (w1, None) \<Rightarrow> stream_loop io ns ch w1 (hub_take h ch) ts)))"
| "stream_loop io ns ch w h (TickOther e # ts) = stream_loop io ns ch w (hub_step h e) ts"

text \<open>
  A response is what is answered instead of a stream. \<open>hub\<close> is \<open>None\<close> when the server has no hub,
  \<open>flusher\<close> whether the connection can be flushed.
\<close>

definition streamDevices ::
  "'w rest_client \<Rightarrow> 'w stream_io \<Rightarrow> bool \<Rightarrow> string \<Rightarrow> 'w \<Rightarrow> stream_hub option \<Rightarrow> stream_tick list
     \<Rightarrow> 'w \<times> stream_hub option \<times> response option \<times> bool" where
  "streamDevices c io flusher ns w hub ticks =
     (case hub of
        None \<Rightarrow> (w, None, Some (writeError 503 (ApiText ''device stream unavailable'')), True)
      | Some h \<Rightarrow>
      if \<not> flusher then (w, Some h, Some (writeError 500 (ApiText ''streaming not supported'')), True)
      else (case handler_List c w ns of
        Inl e \<Rightarrow> (w, Some h, Some (writeError 500 (ApiKube e)), True)
      | Inr items \<Rightarrow>
      (case send_sse io w ''snapshot'' (snapshotPayload items) of
        (w1, Some e) \<Rightarrow> (w1, Some h, None, True)
      | (w1, None) \<Rightarrow>
          (case hub_Subscribe h ns of (h1, ch) \<Rightarrow>
          (case stream_loop io ns ch w1 h1 ticks of (w2, h2, done) \<Rightarrow> (w2, Some h2, None, done))))))"

section \<open>What has been written\<close>

text \<open>A payload as the client decodes it: fields that are absent are zero.\<close>

definition no_device :: api_device where
  "no_device =
     \<lparr>ad_name = [], ad_namespace = [], ad_address = [], ad_nats = \<lparr>an_url = [], an_subject_prefix = []\<rparr>,
      ad_gateway = None, ad_broadcast_flags = 0, ad_status = None\<rparr>"

fun wire_event :: "stream_payload \<Rightarrow> watch_event" where
  "wire_event (PayloadSnapshot items) = \<lparr>we_type = ''snapshot'', we_items = items, we_device = no_device, we_name = []\<rparr>"
| "wire_event (PayloadUpdated d) = \<lparr>we_type = ''updated'', we_items = [], we_device = d, we_name = []\<rparr>"
| "wire_event (PayloadDeleted n) = \<lparr>we_type = ''deleted'', we_items = [], we_device = no_device, we_name = n\<rparr>"

definition event_wire :: "stream_event \<Rightarrow> watch_event" where
  "event_wire e = wire_event (fst (streamPayload e))"

text \<open>
  What the handler relies on: JSON text is one line that the client decodes to the same object, and a
  write that reports no error has been sent. Not every JSON text fits the buffer of the client, which
  reads at most a megabyte as one line; a payload whose text does is said to fit.
\<close>

definition stream_link :: "'w stream_io \<Rightarrow> (string \<Rightarrow> string + watch_event) \<Rightarrow> ('w \<Rightarrow> string) \<Rightarrow> bool" where
  "stream_link io decode sent \<longleftrightarrow>
     (\<forall>p s. si_marshal io p = Inr s \<longrightarrow> decode s = Inr (wire_event p) \<and>
        newline \<notin> set s \<and> s \<noteq> [] \<and> last s \<noteq> CHR 0x0D) \<and>
     (\<forall>w s w'. si_write io w s = (w', None) \<longrightarrow> sent w' = sent w @ s)"

definition fits_line :: "'w stream_io \<Rightarrow> stream_payload \<Rightarrow> bool" where
  "fits_line io p \<longleftrightarrow> (case si_marshal io p of Inl e \<Rightarrow> True | Inr s \<Rightarrow> length s + 6 < max_token)"

definition event_fits :: "'w stream_io \<Rightarrow> stream_event \<Rightarrow> bool" where
  "event_fits io e \<longleftrightarrow> fits_line io (fst (streamPayload e))"

text \<open>The frames of a stream and the events they carry.\<close>

definition carries :: "(string \<Rightarrow> string + watch_event) \<Rightarrow> (string \<times> string) option list \<Rightarrow> watch_event list \<Rightarrow> bool" where
  "carries decode fs es \<longleftrightarrow>
     (\<forall>p. Some p \<in> set fs \<longrightarrow> good_frame p \<and> (\<exists>x. decode (snd p) = Inr x \<and> we_type x \<noteq> [])) \<and>
     map (\<lambda>p. decode (snd p)) (List.map_filter (\<lambda>f. f) fs) = map Inr es"

lemma carries_snoc:
  assumes "carries decode fs es"
  shows "carries decode (fs @ [None]) es"
    and "good_frame (ev, data) \<Longrightarrow> decode data = Inr x \<Longrightarrow> we_type x \<noteq> [] \<Longrightarrow> carries decode (fs @ [Some (ev, data)]) (es @ [x])"
  using assms by (auto simp: carries_def map_filter_def)

lemma stream_text_snoc:
  "stream_text (fs @ [Some (ev, data)]) = stream_text fs @ writeSSE ev data" "stream_text (fs @ [None]) = stream_text fs @ keepalive"
  by (simp_all add: stream_text_def)

lemma send_sse_sent:
  assumes "stream_link io decode sent" and "send_sse io w ev p = (w', None)" and "ev \<in> {''snapshot'', ''updated'', ''deleted''}"
    and "fits_line io p"
  shows "\<exists>s. sent w' = sent w @ writeSSE ev s \<and> good_frame (ev, s) \<and> decode s = Inr (wire_event p) \<and> we_type (wire_event p) \<noteq> []"
proof -
  obtain s where s: "si_marshal io p = Inr s" "si_write io w (writeSSE ev s) = (w', None)"
    using assms(2) by (auto simp: send_sse_def split: sum.splits)
  then have "sent w' = sent w @ writeSSE ev s" "good_frame (ev, s)" "decode s = Inr (wire_event p)"
    using assms(1,3,4) s(1) unfolding stream_link_def by (auto simp: good_frame_def newline_def max_token_def fits_line_def)
  moreover have "we_type (wire_event p) \<noteq> []" by (cases p) simp_all
  ultimately show ?thesis by blast
qed

lemma streamPayload_type: "streamPayload e = (p, ev) \<Longrightarrow> ev \<in> {''snapshot'', ''updated'', ''deleted''}"
  by (auto simp: streamPayload_def split: stream_event.splits)

text \<open>What others did to the hub while the handler ran.\<close>

definition others_of :: "stream_tick list \<Rightarrow> hub_event list" where
  "others_of ticks = concat (map (\<lambda>t. case t of TickOther e \<Rightarrow> [e] | _ \<Rightarrow> []) ticks)"

lemma others_of_simps [simp]:
  "others_of [] = []" "others_of (TickDone # ts) = others_of ts" "others_of (TickKeepAlive # ts) = others_of ts"
  "others_of (TickEvent # ts) = others_of ts" "others_of (TickOther e # ts) = e # others_of ts"
  by (simp_all add: others_of_def)

lemma published_Cons: "published ns (e # es) = published ns [e] @ published ns es"
  by (simp add: published_def)

lemma received_kept:
  assumes "subscribed_since h ns ch pub" and "e \<noteq> HubTake ch"
  shows "sh_received (hub_step h e) ch = sh_received h ch"
proof -
  have "ch < sh_next h" using assms(1) by (auto simp: subscribed_since_def hub_wf_def)
  then show ?thesis using assms
    by (cases e) (auto simp: hub_Subscribe_def hub_cancel_def hub_take_def hub_Publish_simps subscribed_since_def Let_def split: list.split)
qed

definition sent_so_far ::
  "(string \<Rightarrow> string + watch_event) \<Rightarrow> string \<Rightarrow> nat \<Rightarrow> watch_event list \<Rightarrow> string \<Rightarrow> stream_hub \<Rightarrow> stream_event list \<Rightarrow> bool" where
  "sent_so_far decode ns ch first text h pub \<longleftrightarrow> subscribed_since h ns ch pub \<and>
     (\<exists>fs. text = stream_text fs \<and> carries decode fs (first @ map event_wire (sh_received h ch)))"

lemma sent_keepalive:
  "sent_so_far decode ns ch first text h pub \<Longrightarrow> sent_so_far decode ns ch first (text @ keepalive) h pub"
  unfolding sent_so_far_def using carries_snoc(1) stream_text_snoc(2) by metis

lemma sent_event:
  assumes s: "sent_so_far decode ns ch first text h pub" and q: "sh_queue h ch = e # q" and p: "streamPayload e = (p, ev)"
    and d: "good_frame (ev, data)" "decode data = Inr (wire_event p)" "we_type (wire_event p) \<noteq> []"
  shows "sent_so_far decode ns ch first (text @ writeSSE ev data) (hub_take h ch) pub"
proof -
  obtain fs where fs: "text = stream_text fs" "carries decode fs (first @ map event_wire (sh_received h ch))"
    using s by (auto simp: sent_so_far_def)
  have r: "sh_received (hub_take h ch) ch = sh_received h ch @ [e]" using q by (simp add: hub_take_def)
  have "event_wire e = wire_event p" using p by (simp add: event_wire_def)
  then have "carries decode (fs @ [Some (ev, data)]) (first @ map event_wire (sh_received (hub_take h ch) ch))"
    using carries_snoc(2) [OF fs(2) d] by (simp add: r)
  moreover have "subscribed_since (hub_take h ch) ns ch pub"
    using subscribed_step [of h ns ch pub "HubTake ch"] s by (simp add: sent_so_far_def published_def)
  ultimately show ?thesis using fs(1) stream_text_snoc(1) unfolding sent_so_far_def by metis
qed

lemma stream_loop_sends:
  assumes "stream_link io decode sent"
  shows "stream_loop io ns ch w h ticks = (w', h', False) \<Longrightarrow> sent_so_far decode ns ch first (sent w) h pub \<Longrightarrow>
    \<forall>e \<in> set (others_of ticks). e \<noteq> HubTake ch \<and> e \<noteq> HubCancel ns ch \<Longrightarrow>
    list_all (event_fits io) (pub @ published ns (others_of ticks)) \<Longrightarrow>
    sent_so_far decode ns ch first (sent w') h' (pub @ published ns (others_of ticks))"
proof (induction ticks arbitrary: w h pub)
  case Nil
  then show ?case by (simp add: published_def)
next
  case (Cons t ts)
  show ?case
  proof (cases t)
    case TickDone
    then show ?thesis using Cons.prems(1) by simp
  next
    case TickKeepAlive
    then obtain w1 where w1: "si_write io w keepalive = (w1, None)" "stream_loop io ns ch w1 h ts = (w', h', False)"
      using Cons.prems(1) by (auto split: prod.splits option.splits)
    have "sent w1 = sent w @ keepalive" using assms w1(1) by (simp add: stream_link_def)
    then have "sent_so_far decode ns ch first (sent w1) h pub" using sent_keepalive Cons.prems(2) by metis
    from Cons.IH [OF w1(2) this] Cons.prems(3,4) TickKeepAlive show ?thesis by simp
  next
    case TickEvent
    show ?thesis
    proof (cases "sh_queue h ch")
      case Nil
      then have "stream_loop io ns ch w h ts = (w', h', False)" using Cons.prems(1) TickEvent by simp
      from Cons.IH [OF this Cons.prems(2)] Cons.prems(3,4) TickEvent show ?thesis by simp
    next
      case q: (Cons e q)
      obtain p ev where p: "streamPayload e = (p, ev)" by fastforce
      obtain w1 where w1: "send_sse io w ev p = (w1, None)" "stream_loop io ns ch w1 (hub_take h ch) ts = (w', h', False)"
        using Cons.prems(1) TickEvent q p by (auto split: prod.splits option.splits)
      have "e \<in> set pub"
        using Cons.prems(2) q list_emb_set [of "(=)" "sh_received h ch @ sh_queue h ch" pub e]
        by (auto simp: sent_so_far_def subscribed_since_def)
      then have fit: "fits_line io p" using Cons.prems(4) p unfolding list_all_iff event_fits_def by (metis UnCI fst_conv set_append)
      from send_sse_sent [OF assms w1(1) streamPayload_type [OF p] fit] obtain data where
        data: "sent w1 = sent w @ writeSSE ev data" "good_frame (ev, data)" "decode data = Inr (wire_event p)" "we_type (wire_event p) \<noteq> []"
        by (elim exE conjE)
      have "sent_so_far decode ns ch first (sent w1) (hub_take h ch) pub"
        unfolding data(1) by (rule sent_event [OF Cons.prems(2) q p data(2-4)])
      from Cons.IH [OF w1(2) this] Cons.prems(3,4) TickEvent show ?thesis by simp
    qed
  next
    case (TickOther e)
    have e: "e \<noteq> HubTake ch" "e \<noteq> HubCancel ns ch" using Cons.prems(3) TickOther by simp_all
    have l: "stream_loop io ns ch w (hub_step h e) ts = (w', h', False)" using Cons.prems(1) TickOther by simp
    have s: "subscribed_since h ns ch pub" using Cons.prems(2) by (simp add: sent_so_far_def)
    have "sent_so_far decode ns ch first (sent w) (hub_step h e) (pub @ published ns [e])"
      using Cons.prems(2) subscribed_step [OF s e(2)] received_kept [OF s e(1)] by (simp add: sent_so_far_def)
    from Cons.IH [OF l this] Cons.prems(3,4) TickOther published_Cons [of ns e "others_of ts"] show ?thesis by simp
  qed
qed

lemma deliver_total: "deliver (\<lambda>x e. (f x e, None)) es s = (run_events f s es, None)"
  by (induction es arbitrary: s) simp_all

lemma read_sent:
  assumes "carries decode fs es"
  shows "readSSE decode (\<lambda>x e. (f x e, None)) (stream_text fs) s = (run_events f s es, None)"
proof -
  let ?g = "\<lambda>p. projr (decode (snd p))"
  have c: "\<forall>p. Some p \<in> set fs \<longrightarrow> good_frame p" "\<forall>p. Some p \<in> set fs \<longrightarrow> decode (snd p) = Inr (?g p) \<and> we_type (?g p) \<noteq> []"
    using assms by (fastforce simp: carries_def)+
  have "map ?g (List.map_filter (\<lambda>f. f) fs) = map projr (map (\<lambda>p. decode (snd p)) (List.map_filter (\<lambda>f. f) fs))" by simp
  also have "\<dots> = map projr (map (Inr :: watch_event \<Rightarrow> string + watch_event) es)" using assms unfolding carries_def by simp
  also have "\<dots> = es" by (simp add: comp_def)
  finally show ?thesis unfolding readSSE_stream [where decode = decode and g = ?g, OF c] by (simp add: deliver_total)
qed

lemma subscribed_new:
  assumes "hub_wf h"
  shows "subscribed_since (fst (hub_Subscribe h ns)) ns (snd (hub_Subscribe h ns)) [] \<and>
    sh_received (fst (hub_Subscribe h ns)) (snd (hub_Subscribe h ns)) = []"
  using hub_step_wf [OF assms, of "HubSubscribe ns"] by (auto simp: subscribed_since_def hub_Subscribe_def Let_def)

lemma streamDevices_running:
  assumes "streamDevices c io flusher ns w (Some h) ticks = (w', hub', resp, False)"
  shows "\<exists>items w1 h'. handler_List c w ns = Inr items \<and> send_sse io w ''snapshot'' (snapshotPayload items) = (w1, None) \<and>
    stream_loop io ns (snd (hub_Subscribe h ns)) w1 (fst (hub_Subscribe h ns)) ticks = (w', h', False) \<and> hub' = Some h' \<and> resp = None"
  using assms by (auto simp: streamDevices_def split: if_splits sum.splits prod.splits option.splits)

section \<open>Properties\<close>

lemma shown_devices:
  "shows_device ns name w l \<Longrightarrow> devicesFromMap (ww_by_name w) = (case l of None \<Rightarrow> [] | Some d \<Rightarrow> [d])"
  by (simp add: shows_device_def devicesFromMap_def split: option.splits)

lemma shows_new: "shows_device ns name newDeviceWatchWriter None"
  by (simp add: shows_device_def newDeviceWatchWriter_def)

lemma wire_namespace:
  "(\<forall>d. e = DeviceUpdated d \<longrightarrow> ad_namespace d = ns) \<Longrightarrow> in_namespace ns (event_wire e)"
  by (cases e) (simp_all add: event_wire_def streamPayload_def in_namespace_def)

lemma published_in: "e \<in> set (published ns es) \<longleftrightarrow> HubPublish ns e \<in> set es"
  by (force simp: published_def split: hub_event.splits if_splits)

text \<open>
  The table on the text received so far, once everything published since the listing has been taken and no
  more than 32 events were published.
\<close>

lemma stream_watch_shows:
  assumes "stream_link io decode sent" and "sent w = []"
    and "streamDevices c io True ns w (Some (run_events hub_step NewStreamHub es0)) ticks = (w', Some h', resp, False)"
    and "handler_List c w ns = Inr items" and "\<forall>d \<in> set items. ad_namespace d = ns"
    and "ch = sh_next (run_events hub_step NewStreamHub es0)"
    and "\<forall>e \<in> set (others_of ticks). e \<noteq> HubTake ch \<and> e \<noteq> HubCancel ns ch \<and>
           (\<forall>d. e = HubPublish ns (DeviceUpdated d) \<longrightarrow> ad_namespace d = ns)"
    and "sh_queue h' ch = []" and "length (published ns (others_of ticks)) \<le> 32"
    and "\<And>m. mset (order m) = mset m"
    and "fits_line io (snapshotPayload items)" and "list_all (event_fits io) (published ns (others_of ticks))"
  shows "\<exists>wr. readSSE decode (\<lambda>x e. (handleDeviceWatchEvent False tty order name x e, None)) (sent w') newDeviceWatchWriter = (wr, None) \<and>
    devicesFromMap (ww_by_name wr) =
      (case latest_state name (wire_event (snapshotPayload items) # map event_wire (published ns (others_of ticks))) None of
         None \<Rightarrow> [] | Some d \<Rightarrow> [d])"
proof -
  let ?h = "run_events hub_step NewStreamHub es0" and ?f = "handleDeviceWatchEvent False tty order name"
  let ?first = "[wire_event (snapshotPayload items)]"
  have wf: "hub_wf ?h" by (rule hub_machine.run_inv [OF hub_wf_new])
  have ch: "snd (hub_Subscribe ?h ns) = ch" by (simp add: hub_Subscribe_def Let_def assms(6))
  obtain w1 where w1: "send_sse io w ''snapshot'' (snapshotPayload items) = (w1, None)"
    "stream_loop io ns ch w1 (fst (hub_Subscribe ?h ns)) ticks = (w', h', False)"
    using streamDevices_running [OF assms(3)] assms(4) ch by auto
  from send_sse_sent [OF assms(1) w1(1) _ assms(11)] assms(2) obtain s where s: "sent w1 = writeSSE ''snapshot'' s" "good_frame (''snapshot'', s)"
    "decode s = Inr (wire_event (snapshotPayload items))" "we_type (wire_event (snapshotPayload items)) \<noteq> []" by auto
  have "carries decode [Some (''snapshot'', s)] ?first" using s by (auto simp: carries_def map_filter_simps)
  moreover have "sent w1 = stream_text [Some (''snapshot'', s)]" by (simp add: s(1) stream_text_def)
  moreover note sub = subscribed_new [OF wf, of ns, unfolded ch]
  ultimately have "sent_so_far decode ns ch ?first (sent w1) (fst (hub_Subscribe ?h ns)) []"
    unfolding sent_so_far_def by fastforce
  from stream_loop_sends [OF assms(1) w1(2) this] assms(7,12)
  have "sent_so_far decode ns ch ?first (sent w') h' (published ns (others_of ticks))" by simp
  then obtain fs where fs0: "sent w' = stream_text fs" "carries decode fs (?first @ map event_wire (sh_received h' ch))"
    and sub': "subscribed_since h' ns ch (published ns (others_of ticks))"
    unfolding sent_so_far_def by (elim conjE exE)
  have "sh_received h' ch = published ns (others_of ticks)"
    using sub' assms(8,9) by (simp add: subscribed_since_def stream_capacity_def)
  then have fs: "sent w' = stream_text fs" "carries decode fs (?first @ map event_wire (published ns (others_of ticks)))"
    using fs0 by simp_all
  let ?es = "?first @ map event_wire (published ns (others_of ticks))"
  have "in_namespace ns (event_wire e)" if "e \<in> set (published ns (others_of ticks))" for e
  proof (rule wire_namespace, intro allI impI)
    fix d assume "e = DeviceUpdated d"
    then have "HubPublish ns (DeviceUpdated d) \<in> set (others_of ticks)" using that unfolding published_in by simp
    from bspec [OF assms(7) this] show "ad_namespace d = ns" by simp
  qed
  moreover have "in_namespace ns (wire_event (snapshotPayload items))" using assms(5) by (simp add: in_namespace_def snapshotPayload_def)
  ultimately have "\<forall>e \<in> set ?es. in_namespace ns e" by simp
  from watch_run [OF assms(10) this shows_new, where tty = tty and name = name]
  have shown: "devicesFromMap (ww_by_name (run_events ?f newDeviceWatchWriter ?es)) =
      (case latest_state name ?es None of None \<Rightarrow> [] | Some d \<Rightarrow> [d])" by (rule shown_devices)
  have "readSSE decode (\<lambda>x e. (?f x e, None)) (sent w') newDeviceWatchWriter = (run_events ?f newDeviceWatchWriter ?es, None)"
    unfolding fs(1) by (rule read_sent [OF fs(2)])
  from conjI [OF this shown] show ?thesis unfolding append_Cons append_Nil by (rule exI)
qed

text \<open>
  A connection that only keeps what is sent, with a text form for deletions of short names: enough to
  run a stream whose listing is empty.
\<close>

definition plain_text :: "string \<Rightarrow> bool" where
  "plain_text s \<longleftrightarrow> newline \<notin> set s \<and> CHR 0x0D \<notin> set s \<and> length s < 100"

definition yard_device :: z21device where
  "yard_device = example_hardware\<lparr>dev_meta := empty_object_meta ''elp'' ''z1''\<rparr>"

definition text_io :: "string stream_io" where
  "text_io =
     \<lparr>si_marshal = (\<lambda>p. case p of PayloadSnapshot items \<Rightarrow> if items = [] then Inr ''S'' else Inl ''too long''
        | PayloadUpdated d \<Rightarrow> if d = DeviceFromCR yard_device then Inr ''U'' else Inl ''too long''
        | PayloadDeleted n \<Rightarrow> if plain_text n then Inr (CHR ''D'' # n) else Inl ''too long''),
      si_write = (\<lambda>w s. (w @ s, None))\<rparr>"

definition text_decode :: "string \<Rightarrow> string + watch_event" where
  "text_decode s =
     (if s = ''S'' then Inr (wire_event (PayloadSnapshot []))
      else if s = ''U'' then Inr (wire_event (PayloadUpdated (DeviceFromCR yard_device)))
      else Inr (wire_event (PayloadDeleted (tl s))))"

lemma text_link: "stream_link text_io text_decode (\<lambda>w. w)"
  by (auto simp: stream_link_def text_io_def text_decode_def plain_text_def newline_def max_token_def
      split: stream_payload.splits if_splits dest: last_in_set)

definition no_devices :: "string rest_client" where
  "no_devices =
     \<lparr>ra_list = (\<lambda>w ns. Inr []), ra_get = (\<lambda>w k. Inl (KubeNotFound [])), ra_create = (\<lambda>w d. (w, Inr d)),
      ra_patch = (\<lambda>w a b. (w, Inr b)), ra_delete = (\<lambda>w d. (w, None)), ra_get_simulation = (\<lambda>w k. Inl (KubeNotFound [])),
      ra_create_simulation = (\<lambda>w s. (w, Inr s)), ra_patch_simulation = (\<lambda>w a b. (w, Inr b)), PublishFlags = (\<lambda>w d. (w, None))\<rparr>"

section \<open>The watch of elpctl on the cluster\<close>

text \<open>The event of the hub that a change in the cluster leads to, and the change itself.\<close>

fun informer_publishes :: "informer_event \<Rightarrow> hub_event option" where
  "informer_publishes (InformerAdd obj) =
     map_option (\<lambda>d. HubPublish (om_namespace (dev_meta d)) (DeviceUpdated (DeviceFromCR d))) obj"
| "informer_publishes (InformerUpdate obj) =
     map_option (\<lambda>d. HubPublish (om_namespace (dev_meta d)) (DeviceUpdated (DeviceFromCR d))) obj"
| "informer_publishes (InformerDelete obj) =
     map_option (\<lambda>d. HubPublish (om_namespace (dev_meta d)) (DeviceDeleted (om_name (dev_meta d)))) obj"

lemma device_watch_step: "device_watch h e = (case informer_publishes e of None \<Rightarrow> h | Some p \<Rightarrow> hub_step h p)"
  by (cases e) (auto simp: publishDevice_def publishDeleted_def split: option.split)

type_synonym cluster_devices = "string \<times> string \<Rightarrow> z21device option"

fun cluster_step :: "cluster_devices \<Rightarrow> informer_event \<Rightarrow> cluster_devices" where
  "cluster_step m (InformerAdd (Some d)) = m((om_namespace (dev_meta d), om_name (dev_meta d)) \<mapsto> d)"
| "cluster_step m (InformerUpdate (Some d)) = m((om_namespace (dev_meta d), om_name (dev_meta d)) \<mapsto> d)"
| "cluster_step m (InformerDelete (Some d)) = m((om_namespace (dev_meta d), om_name (dev_meta d)) := None)"
| "cluster_step m _ = m"

definition publications :: "hub_event list \<Rightarrow> hub_event list" where
  "publications es = filter (\<lambda>e. case e of HubPublish n ev \<Rightarrow> True | _ \<Rightarrow> False) es"

lemma published_publications: "published ns (publications es) = published ns es"
  by (induction es) (auto simp: published_def publications_def split: hub_event.split)

lemma latest_append: "latest_state name (es @ fs) l = latest_state name fs (latest_state name es l)"
  by (induction es arbitrary: l) simp_all

lemma device_view [simp]: "ad_name (DeviceFromCR d) = om_name (dev_meta d)" "ad_namespace (DeviceFromCR d) = om_namespace (dev_meta d)"
  by (simp_all add: DeviceFromCR_def Let_def)

lemma informer_tracks:
  "latest_state name (map event_wire (published ns (List.map_filter informer_publishes es))) (map_option DeviceFromCR (m (ns, name))) =
     map_option DeviceFromCR (run_events cluster_step m es (ns, name))"
proof (induction es arbitrary: m)
  case Nil
  then show ?case by (simp add: published_def map_filter_simps)
next
  case (Cons e es)
  have one: "latest_state name (map event_wire (published ns (List.map_filter informer_publishes [e]))) (map_option DeviceFromCR (m (ns, name))) =
      map_option DeviceFromCR (cluster_step m e (ns, name))"
    by (cases "(m, e)" rule: cluster_step.cases)
      (auto simp: published_def map_filter_simps event_wire_def streamPayload_def)
  have two: "published ns (List.map_filter informer_publishes (e # es)) =
      published ns (List.map_filter informer_publishes [e]) @ published ns (List.map_filter informer_publishes es)"
    by (simp add: published_def map_filter_simps split: option.split)
  show ?case unfolding two map_append latest_append one run_events_Cons by (rule Cons.IH)
qed

lemma find_distinct:
  "distinct (map f xs) \<Longrightarrow> x \<in> set xs \<Longrightarrow> f x = n \<Longrightarrow> find (\<lambda>x. f x = n) xs = Some x"
  by (induction xs) auto

lemma find_rev:
  assumes "distinct (map f xs)"
  shows "find (\<lambda>x. f x = n) (rev xs) = find (\<lambda>x. f x = n) xs"
proof (cases "n \<in> f ` set xs")
  case True
  then obtain x where x: "x \<in> set xs" "f x = n" by auto
  have "distinct (map f (rev xs))" "x \<in> set (rev xs)" using assms x(1) by (simp_all add: rev_map [symmetric])
  then show ?thesis using find_distinct [OF assms x] find_distinct [of f "rev xs" x n] x(2) by simp
next
  case False
  then show ?thesis by (metis (mono_tags, lifting) find_None_iff image_eqI set_rev)
qed

lemma find_of_map: "find P (map f xs) = map_option f (find (\<lambda>x. P (f x)) xs)"
  by (induction xs) auto

lemma find_views:
  assumes "distinct (map (\<lambda>d. om_name (dev_meta d)) items)"
  shows "find (\<lambda>d. ad_name d = n) (rev (map DeviceFromCR items)) = map_option DeviceFromCR (find (\<lambda>d. om_name (dev_meta d) = n) items)"
proof -
  have "distinct (map ad_name (map DeviceFromCR items))" using assms by (simp add: comp_def)
  from find_rev [OF this, of n] show ?thesis by (simp add: find_of_map comp_def)
qed

lemma publications_fine:
  assumes "publications es = List.map_filter informer_publishes ievs" and "HubPublish ns (DeviceUpdated d) \<in> set es"
  shows "ad_namespace d = ns"
proof -
  have "HubPublish ns (DeviceUpdated d) \<in> set (publications es)" using assms(2) by (simp add: publications_def)
  then obtain i where "informer_publishes i = Some (HubPublish ns (DeviceUpdated d))"
    unfolding assms(1) by (auto simp: List.map_filter_def)
  then show ?thesis by (cases i) auto
qed


text \<open>
  C12: The watch shows the cluster. While the stream of a namespace runs, whatever writes, keep-alives, other
  subscribers and other namespaces interleave, \<^verbatim>\<open>get --watch\<close> on the text received so far shows the device of
  the given name exactly as the cluster has it, or nothing if it has none: provided that the informer reported
  every change since the listing as a device, at most 32 in the namespace, that they have been taken, and that the
  text of the listing and of each of these changes fits the megabyte that elpctl reads as one line.
\<close>

theorem watch_shows_cluster:
  assumes "stream_link io decode sent" and "sent w = []"
    and "streamDevices c io True ns w (Some (run_events hub_step NewStreamHub es0)) ticks = (w', Some h', resp, False)"
    and "ra_list c w ns = Inr items" and "distinct (map (\<lambda>d. om_name (dev_meta d)) items)"
    and "\<forall>d \<in> set items. om_namespace (dev_meta d) = ns"
    and "\<forall>n. cluster (ns, n) = find (\<lambda>d. om_name (dev_meta d) = n) items"
    and "publications (others_of ticks) = List.map_filter informer_publishes changes"
    and "ch = sh_next (run_events hub_step NewStreamHub es0)"
    and "\<forall>e \<in> set (others_of ticks). e \<noteq> HubTake ch \<and> e \<noteq> HubCancel ns ch"
    and "sh_queue h' ch = []" and "length (published ns (others_of ticks)) \<le> 32"
    and "\<And>m. mset (order m) = mset m"
    and "fits_line io (snapshotPayload (map DeviceFromCR items))" and "list_all (event_fits io) (published ns (others_of ticks))"
  shows "\<exists>wr. readSSE decode (\<lambda>x e. (handleDeviceWatchEvent False tty order name x e, None)) (sent w') newDeviceWatchWriter = (wr, None) \<and>
    devicesFromMap (ww_by_name wr) =
      (case run_events cluster_step cluster changes (ns, name) of None \<Rightarrow> [] | Some d \<Rightarrow> [DeviceFromCR d])"
proof -
  let ?views = "map DeviceFromCR items"
  have list: "handler_List c w ns = Inr ?views" by (simp add: handler_List_def assms(4))
  have mine: "\<forall>d \<in> set ?views. ad_namespace d = ns" using assms(6) by simp
  have others: "\<forall>e \<in> set (others_of ticks). e \<noteq> HubTake ch \<and> e \<noteq> HubCancel ns ch \<and>
      (\<forall>d. e = HubPublish ns (DeviceUpdated d) \<longrightarrow> ad_namespace d = ns)"
    using assms(10) publications_fine [OF assms(8)] by blast
  have first: "latest_state name [wire_event (snapshotPayload ?views)] None = map_option DeviceFromCR (cluster (ns, name))"
    using assms(5,7) by (simp add: snapshotPayload_def find_views)
  have "latest_state name ([wire_event (snapshotPayload ?views)] @ map event_wire (published ns (others_of ticks))) None =
      map_option DeviceFromCR (run_events cluster_step cluster changes (ns, name))"
    using informer_tracks [of name ns changes cluster]
    unfolding latest_append first assms(8) [symmetric] published_publications .
  then have state: "latest_state name (wire_event (snapshotPayload ?views) # map event_wire (published ns (others_of ticks))) None =
      map_option DeviceFromCR (run_events cluster_step cluster changes (ns, name))" by (simp only: append_Cons append_Nil)
  from stream_watch_shows [OF assms(1,2,3) list mine assms(9) others assms(11,12,13,14,15), of tty name]
  show ?thesis unfolding state by (auto split: option.splits)
qed

theorem watch_shows_cluster_witness:
  "\<exists>w' h' wr. streamDevices no_devices text_io True ''elp'' [] (Some NewStreamHub)
       [TickOther (HubPublish ''elp'' (DeviceUpdated (DeviceFromCR yard_device))), TickKeepAlive, TickEvent] = (w', Some h', None, False) \<and>
     readSSE text_decode (\<lambda>x e. (handleDeviceWatchEvent False True (\<lambda>m. m) ''z1'' x e, None)) w' newDeviceWatchWriter = (wr, None) \<and>
     devicesFromMap (ww_by_name wr) = [DeviceFromCR yard_device]"
proof -
  let ?ticks = "[TickOther (HubPublish ''elp'' (DeviceUpdated (DeviceFromCR yard_device))), TickKeepAlive, TickEvent]"
  let ?changes = "[InformerAdd (Some yard_device)]"
  let ?r = "streamDevices no_devices text_io True ''elp'' [] (Some (run_events hub_step NewStreamHub [])) ?ticks"
  have meta: "om_namespace (dev_meta yard_device) = ''elp''" "om_name (dev_meta yard_device) = ''z1''"
    by (simp_all add: yard_device_def empty_object_meta_def)
  have l: "ra_list no_devices ([] :: string) ''elp'' = Inr []" by (simp add: no_devices_def)
  obtain w' h' where r: "?r = (w', Some h', None, False)" "sh_queue h' 0 = []"
    by (simp add: streamDevices_def handler_List_def no_devices_def send_sse_def text_io_def snapshotPayload_def hub_Subscribe_def
        NewStreamHub_def hub_Publish_def hub_send_def stream_capacity_def hub_take_def streamPayload_def)
  have pub: "publications (others_of ?ticks) = List.map_filter informer_publishes ?changes"
    by (simp add: publications_def map_filter_simps meta)
  have p: "published ''elp'' (others_of ?ticks) = [DeviceUpdated (DeviceFromCR yard_device)]" by (simp add: published_def)
  have e: "\<forall>e \<in> set (others_of ?ticks). e \<noteq> HubTake 0 \<and> e \<noteq> HubCancel ''elp'' 0" by simp
  have n: "(0 :: nat) = sh_next (run_events hub_step NewStreamHub [])" by (simp add: NewStreamHub_def)
  have k: "length (published ''elp'' (others_of ?ticks)) \<le> 32" unfolding p by simp
  have d: "distinct (map (\<lambda>d. om_name (dev_meta d)) [])" "\<forall>d \<in> set []. om_namespace (dev_meta d) = ''elp''" by simp_all
  have m: "\<forall>n. (\<lambda>k. None) (''elp'', n) = find (\<lambda>d. om_name (dev_meta d) = n) []" by simp
  have fit: "fits_line text_io (snapshotPayload (map DeviceFromCR []))" "list_all (event_fits text_io) (published ''elp'' (others_of ?ticks))"
    unfolding p by (simp_all add: fits_line_def event_fits_def text_io_def snapshotPayload_def streamPayload_def max_token_def)
  from watch_shows_cluster [OF text_link refl r(1) l d m pub n e r(2) k, of "\<lambda>m. m", OF refl fit, of True "''z1''"]
  obtain wr where wr: "readSSE text_decode (\<lambda>x e. (handleDeviceWatchEvent False True (\<lambda>m. m) ''z1'' x e, None)) w' newDeviceWatchWriter = (wr, None)"
    "devicesFromMap (ww_by_name wr) = (case run_events cluster_step (\<lambda>k. None) ?changes (''elp'', ''z1'') of
       None \<Rightarrow> [] | Some d \<Rightarrow> [DeviceFromCR d])" by (elim exE conjE) simp
  then have "devicesFromMap (ww_by_name wr) = [DeviceFromCR yard_device]" by (simp add: meta)
  then show ?thesis using r(1) wr(1) by auto
qed

end
