(* ===== verification/Processes.thy ===== *)
theory Processes
  imports Sim_Server Gateway Device_Controller
begin

text \<open>
  The processes around the components: the socket loop of the simulator and the life of its control
  server (\<^verbatim>\<open>apps/z21-sim/internal/server/server.go\<close>, \<^verbatim>\<open>internal/control\<close>), the probe server and the
  message log of the gateway (\<^verbatim>\<open>apps/z21-gateway/internal/health\<close>, \<^verbatim>\<open>gateway/z21trace.go\<close>), and the
  errors of the command line (\<^verbatim>\<open>apps/elpctl/cmd/usage.go\<close>, \<^verbatim>\<open>root.go\<close>, \<^verbatim>\<open>main.go\<close>).
\<close>

section \<open>The socket loop of the simulator\<close>

text \<open>
  What one turn of the loop meets: \<^verbatim>\<open>SetReadDeadline\<close> fails, a datagram arrives, or the read fails,
  with a timeout or otherwise, while the context has ended or not. Between two turns the control
  plane may be called.
\<close>

datatype serve_tick =
    DeadlineFailed string
  | Datagram string bytes
  | SocketTimeout bool
  | SocketFailed bool string
  | ControlCall sim_event

definition read_buffer :: nat where "read_buffer = 4096"

text \<open>The last result is \<open>None\<close> while the loop goes on, otherwise the error \<^verbatim>\<open>Serve\<close> returns, if any.\<close>

fun serve_loop ::
  "z21_protocol \<Rightarrow> sim_env \<Rightarrow> sim_server \<Rightarrow> serve_tick list \<Rightarrow> sim_server \<times> string option option" where
  "serve_loop P E s [] = (s, None)"
| "serve_loop P E s (DeadlineFailed e # ts) = (s, Some (Some (''z21-sim: set read deadline: '' @ e)))"
| "serve_loop P E s (Datagram remote payload # ts) = serve_loop P E (handlePacket P E s remote (take read_buffer payload)) ts"
| "serve_loop P E s (SocketTimeout ended # ts) = (if ended then (s, Some None) else serve_loop P E s ts)"
| "serve_loop P E s (SocketFailed ended e # ts) = (s, Some (if ended then None else Some (''z21-sim: read: '' @ e)))"
| "serve_loop P E s (ControlCall e # ts) = serve_loop P E (sim_step P E s e) ts"

text \<open>\<open>None\<close> is a server without a socket.\<close>

definition sim_Serve ::
  "z21_protocol \<Rightarrow> sim_env \<Rightarrow> sim_server option \<Rightarrow> serve_tick list \<Rightarrow> sim_server option \<times> string option option" where
  "sim_Serve P E s ticks =
     (case s of
        None \<Rightarrow> (None, Some (Some ''z21-sim: not listening''))
      | Some sv \<Rightarrow> (case serve_loop P E sv ticks of (sv', r) \<Rightarrow> (Some sv', r)))"

text \<open>The deadline of a read: that of the context, or 200 milliseconds from now, in nanoseconds.\<close>

definition readDeadline :: "int option \<Rightarrow> int \<Rightarrow> int" where
  "readDeadline deadline now = (case deadline of Some t \<Rightarrow> t | None \<Rightarrow> now + 200000000)"

text \<open>\<^verbatim>\<open>New\<close>: resolving the address and binding the socket may fail.\<close>

definition sim_New :: "(string \<Rightarrow> string + 'a) \<Rightarrow> ('a \<Rightarrow> string option) \<Rightarrow> int \<Rightarrow> string \<Rightarrow> string + sim_server" where
  "sim_New resolve bind now addr =
     (case resolve addr of
        Inl e \<Rightarrow> Inl (''z21-sim: resolve addr: '' @ e)
      | Inr udp \<Rightarrow>
          (case bind udp of Some e \<Rightarrow> Inl (''z21-sim: listen: '' @ e) | None \<Rightarrow> Inr (new_server now)))"

text \<open>What a turn is for the server, when the loop survives it.\<close>

fun tick_event :: "serve_tick \<Rightarrow> sim_event option" where
  "tick_event (Datagram remote payload) = Some (Packet remote (take read_buffer payload))"
| "tick_event (ControlCall e) = Some e"
| "tick_event _ = None"

fun tick_ends :: "serve_tick \<Rightarrow> bool" where
  "tick_ends (DeadlineFailed e) = True"
| "tick_ends (SocketTimeout ended) = ended"
| "tick_ends (SocketFailed ended e) = True"
| "tick_ends _ = False"

fun tick_result :: "serve_tick \<Rightarrow> string option" where
  "tick_result (DeadlineFailed e) = Some (''z21-sim: set read deadline: '' @ e)"
| "tick_result (SocketFailed ended e) = (if ended then None else Some (''z21-sim: read: '' @ e))"
| "tick_result _ = None"

lemma serve_loop_run:
  "serve_loop P E s ticks =
     (run_events (sim_step P E) s (List.map_filter tick_event (takeWhile (\<lambda>t. \<not> tick_ends t) ticks)),
      case dropWhile (\<lambda>t. \<not> tick_ends t) ticks of [] \<Rightarrow> None | t # ts \<Rightarrow> Some (tick_result t))"
  by (induction P E s ticks rule: serve_loop.induct) (simp_all add: map_filter_simps)

section \<open>The control server\<close>

text \<open>
  The parts a control server may lack: the simulator, the gRPC server and its listener. Tracing is an
  option; it adds the interceptor that logs a request before it is handled.
\<close>

record control_server =
  cs_sim :: bool
  cs_traced :: bool
  cs_server :: bool
  cs_listener :: bool

type_synonym control_option = "control_server \<Rightarrow> control_server"

definition control_WithTrace :: control_option where
  "control_WithTrace g = g\<lparr>cs_traced := True\<rparr>"

definition control_applyOptions :: "control_server \<Rightarrow> control_option option list \<Rightarrow> control_server" where
  "control_applyOptions g opts = fold (\<lambda>opt g. case opt of None \<Rightarrow> g | Some f \<Rightarrow> f g) opts g"

definition NewGRPCServer ::
  "(string \<Rightarrow> string option) \<Rightarrow> bool \<Rightarrow> string \<Rightarrow> control_option option list \<Rightarrow> string + control_server" where
  "NewGRPCServer listen sim addr opts =
     (if \<not> sim then Inl ''control: nil simulator''
      else (case listen addr of
        Some e \<Rightarrow> Inl (''control: listen '' @ addr @ '': '' @ e)
      | None \<Rightarrow>
          Inr ((control_applyOptions \<lparr>cs_sim = True, cs_traced = False, cs_server = False, cs_listener = True\<rparr> opts)
                 \<lparr>cs_server := True\<rparr>)))"

text \<open>\<open>run\<close> is the \<^verbatim>\<open>Serve\<close> of the gRPC package, \<open>stop\<close> its \<^verbatim>\<open>GracefulStop\<close>.\<close>

definition control_Serve :: "('w \<Rightarrow> 'w \<times> string option) \<Rightarrow> 'w \<Rightarrow> control_server option \<Rightarrow> 'w \<times> string option" where
  "control_Serve run w g =
     (case g of
        None \<Rightarrow> (w, Some ''control: not configured'')
      | Some cs \<Rightarrow> if \<not> cs_server cs \<or> \<not> cs_listener cs then (w, Some ''control: not configured'') else run w)"

definition control_Stop :: "('w \<Rightarrow> 'w) \<Rightarrow> 'w \<Rightarrow> control_server option \<Rightarrow> 'w" where
  "control_Stop stop w g = (case g of None \<Rightarrow> w | Some cs \<Rightarrow> if cs_server cs then stop w else w)"

text \<open>\<open>log\<close> is \<^verbatim>\<open>LogGRPC\<close>, which also takes a request that is no message of protobuf as none.\<close>

definition grpcTraceInterceptor ::
  "('w \<Rightarrow> string \<Rightarrow> 'm option \<Rightarrow> 'w) option \<Rightarrow> ('r \<Rightarrow> 'm option) \<Rightarrow> ('w \<Rightarrow> 'r \<Rightarrow> 'w \<times> 'a) \<Rightarrow> string \<Rightarrow> 'w \<Rightarrow> 'r \<Rightarrow> 'w \<times> 'a" where
  "grpcTraceInterceptor log as_message handler fullMethod w req =
     (case log of None \<Rightarrow> handler w req | Some f \<Rightarrow> handler (f w fullMethod (as_message req)) req)"

section \<open>The probe server of the gateway\<close>

text \<open>The endpoints: status code and body. A path without a handler is answered by the mux.\<close>

definition health_get :: "bool \<Rightarrow> string \<Rightarrow> int \<times> string" where
  "health_get ready path =
     (if path = ''/healthz'' then (200, ''ok'')
      else if path = ''/readyz'' then (if ready then (200, ''ok'') else (503, ''not ready'' @ [CHR 0x0A]))
      else (404, ''404 page not found'' @ [CHR 0x0A]))"

text \<open>How \<^verbatim>\<open>Start\<close> ends: with the context, whose shutdown may fail, or because the server stopped listening.\<close>

datatype health_end = ContextDone "string option" | ServerClosed | ListenFailed string

fun health_Start :: "health_end \<Rightarrow> string option" where
  "health_Start (ContextDone e) = e"
| "health_Start ServerClosed = None"
| "health_Start (ListenFailed e) = Some (''health server: '' @ e)"

text \<open>\<^verbatim>\<open>loadInClusterConfig\<close> refuses a process outside a cluster before it asks client-go.\<close>

definition loadInClusterConfig :: "(string \<Rightarrow> string) \<Rightarrow> 'c \<Rightarrow> (unit \<Rightarrow> 'c + 'r) \<Rightarrow> 'c + 'r" where
  "loadInClusterConfig env not_in_cluster in_cluster =
     (if env ''KUBERNETES_SERVICE_HOST'' = [] then Inl not_in_cluster else in_cluster ())"

section \<open>The message log of the gateway\<close>

record log_entry =
  le_direction :: string
  le_message :: string
  le_header :: string
  le_header_hex :: string
  le_data_len :: nat
  le_data_hex :: "string option"

definition formatHeaderHex :: "u16 \<Rightarrow> string" where
  "formatHeaderHex header = ''0x'' @ hex_pad False 4 (unat header)"

definition hex_bytes :: "bytes \<Rightarrow> string" where
  "hex_bytes bs = concat (map (\<lambda>b. hex_pad False 2 (unat b)) bs)"

text \<open>The tracer may be absent; \<open>name\<close> and \<open>header_name\<close> come from the protocol package.\<close>

definition tracer_log ::
  "(message \<Rightarrow> string) \<Rightarrow> (u16 \<Rightarrow> string) \<Rightarrow> bool option \<Rightarrow> string \<Rightarrow> message list \<Rightarrow> log_entry list" where
  "tracer_log name header_name enabled direction msgs =
     (if enabled \<noteq> Some True then []
      else map (\<lambda>m. \<lparr>le_direction = direction, le_message = name m, le_header = header_name (msg_header m),
                     le_header_hex = formatHeaderHex (msg_header m), le_data_len = length (msg_data m),
                     le_data_hex = (if msg_data m = [] then None else Some (hex_bytes (msg_data m)))\<rparr>) msgs)"

definition tracer_tx :: "(message \<Rightarrow> string) \<Rightarrow> (u16 \<Rightarrow> string) \<Rightarrow> bool option \<Rightarrow> message list \<Rightarrow> log_entry list" where
  "tracer_tx name header_name enabled msgs = tracer_log name header_name enabled ''tx'' msgs"

definition tracer_rx :: "(message \<Rightarrow> string) \<Rightarrow> (u16 \<Rightarrow> string) \<Rightarrow> bool option \<Rightarrow> message list \<Rightarrow> log_entry list" where
  "tracer_rx name header_name enabled msgs = tracer_log name header_name enabled ''rx'' msgs"

text \<open>The calls to a station, with what they log; the timeout of a call shows as its error.\<close>

definition callWithTimeout ::
  "'w gateway_runtime \<Rightarrow> (message \<Rightarrow> string) \<Rightarrow> (u16 \<Rightarrow> string) \<Rightarrow> bool option \<Rightarrow> 'w \<Rightarrow> nat \<Rightarrow> message
     \<Rightarrow> 'w \<times> (string + message list) \<times> log_entry list" where
  "callWithTimeout G name header_name trace w c req =
     (case ge_call G w c req of
        (w1, Inl e) \<Rightarrow> (w1, Inl e, tracer_tx name header_name trace [req])
      | (w1, Inr msgs) \<Rightarrow> (w1, Inr msgs, tracer_tx name header_name trace [req] @ tracer_rx name header_name trace msgs))"

definition sendWithTimeout ::
  "'w gateway_runtime \<Rightarrow> (message \<Rightarrow> string) \<Rightarrow> (u16 \<Rightarrow> string) \<Rightarrow> bool option \<Rightarrow> 'w \<Rightarrow> nat \<Rightarrow> message
     \<Rightarrow> 'w \<times> string option \<times> log_entry list" where
  "sendWithTimeout G name header_name trace w c req =
     (case ge_send G w c req of (w1, e) \<Rightarrow> (w1, e, tracer_tx name header_name trace [req]))"

text \<open>The probe of the health loop: a connection of its own, closed on every path.\<close>

definition DefaultProbe :: "'w gateway_runtime \<Rightarrow> 'w \<Rightarrow> string \<Rightarrow> 'w \<times> string option" where
  "DefaultProbe G w address =
     (case ge_dial G w address of
        (w1, Inl e) \<Rightarrow> (w1, Some e)
      | (w1, Inr z21) \<Rightarrow>
          (case ge_call G w1 z21 (gp_get_hwinfo (ge_protocol G)) of
             (w2, r) \<Rightarrow> (ge_close G w2 z21, case r of Inl e \<Rightarrow> Some e | Inr msgs \<Rightarrow> None)))"

section \<open>Errors of the command line\<close>

text \<open>A wrong use of a command carries the command; every other error is its text.\<close>

datatype cli_error = UsageError string string | OtherError string

fun cli_error_text :: "cli_error \<Rightarrow> string" where
  "cli_error_text (UsageError cmd reason) = (if reason \<noteq> [] then reason else ''invalid command usage'')"
| "cli_error_text (OtherError e) = e"

definition usageErr :: "string \<Rightarrow> string \<Rightarrow> cli_error" where
  "usageErr cmd reason = UsageError cmd reason"

definition wrapArgs ::
  "(string \<Rightarrow> string list \<Rightarrow> string option) option \<Rightarrow> (string \<Rightarrow> string list \<Rightarrow> cli_error option) option" where
  "wrapArgs validator =
     (case validator of
        None \<Rightarrow> None
      | Some v \<Rightarrow> Some (\<lambda>cmd args. map_option (UsageError cmd) (v cmd args)))"

text \<open>A command with the function for its flag errors and its subcommands.\<close>

datatype command_tree = CommandTree (tree_name: string) (tree_flag_error: "string \<Rightarrow> cli_error") (tree_commands: "command_tree list")

fun setUsageOnError :: "command_tree \<Rightarrow> command_tree" where
  "setUsageOnError (CommandTree name f subs) = CommandTree name (UsageError name) (map setUsageOnError subs)"

text \<open>\<open>help\<close> is what cobra prints for a command. The result tells whether it was a usage error.\<close>

definition printUsageError :: "(string \<Rightarrow> string) \<Rightarrow> cli_error \<Rightarrow> (string \<times> string) option" where
  "printUsageError help e =
     (case e of
        UsageError cmd reason \<Rightarrow> Some (''error: '' @ cli_error_text e @ [CHR 0x0A, CHR 0x0A], help cmd)
      | OtherError t \<Rightarrow> None)"

text \<open>What is written to standard error, the help, and the exit code.\<close>

definition elpctl_Execute :: "(string \<Rightarrow> string) \<Rightarrow> cli_error option \<Rightarrow> string \<times> string \<times> int" where
  "elpctl_Execute help result =
     (case result of
        None \<Rightarrow> ([], [], 0)
      | Some e \<Rightarrow>
          (case printUsageError help e of
             Some (text, shown) \<Rightarrow> (text, shown, 1)
           | None \<Rightarrow> (''Error: '' @ cli_error_text e @ [CHR 0x0A], [], 1)))"

section \<open>Properties\<close>

lemma serve_loop_append:
  "\<forall>t \<in> set ts1. \<not> tick_ends t \<Longrightarrow>
   serve_loop P E s (ts1 @ ts2) = serve_loop P E (run_events (sim_step P E) s (List.map_filter tick_event ts1)) ts2"
  by (induction P E s ts1 rule: serve_loop.induct) (auto simp: map_filter_simps)

lemma serve_loop_result:
  assumes "serve_loop P E s ts = (s', r)"
  shows "\<exists>es. s' = run_events (sim_step P E) s es \<and> (\<forall>e \<in> set es. \<exists>t \<in> set ts. tick_event t = Some e)"
    and "r = Some None \<Longrightarrow> \<exists>t \<in> set ts. t = SocketTimeout True \<or> (\<exists>e. t = SocketFailed True e)"
    and "r = None \<longleftrightarrow> (\<forall>t \<in> set ts. \<not> tick_ends t)"
proof -
  let ?run = "takeWhile (\<lambda>t. \<not> tick_ends t) ts" and ?rest = "dropWhile (\<lambda>t. \<not> tick_ends t) ts"
  have e: "s' = run_events (sim_step P E) s (List.map_filter tick_event ?run)"
    "r = (case ?rest of [] \<Rightarrow> None | t # ts \<Rightarrow> Some (tick_result t))"
    using assms unfolding serve_loop_run by simp_all
  have "s' = run_events (sim_step P E) s (List.map_filter tick_event ?run)" by (rule e(1))
  moreover have "\<exists>t \<in> set ts. tick_event t = Some x" if "x \<in> set (List.map_filter tick_event ?run)" for x
    using that by (auto simp: List.map_filter_def dest!: set_takeWhileD)
  ultimately show "\<exists>es. s' = run_events (sim_step P E) s es \<and> (\<forall>x \<in> set es. \<exists>t \<in> set ts. tick_event t = Some x)" by blast
  show "\<exists>t \<in> set ts. t = SocketTimeout True \<or> (\<exists>e. t = SocketFailed True e)" if "r = Some None"
  proof (cases ?rest)
    case Nil
    then have "r = None" by (simp only: e(2) list.case)
    then show ?thesis using that by simp
  next
    case (Cons t rest)
    then have t: "tick_ends t" "t \<in> set ts" by (metis dropWhile_eq_Cons_conv, metis set_dropWhileD list.set_intros(1))
    have "tick_result t = None" using e(2) that Cons by simp
    then show ?thesis using t by (cases t) (auto split: if_splits)
  qed
  have "r = None \<longleftrightarrow> ?rest = []" unfolding e(2) by (simp split: list.split del: dropWhile_eq_Nil_conv)
  then show "r = None \<longleftrightarrow> (\<forall>t \<in> set ts. \<not> tick_ends t)" by (simp add: dropWhile_eq_Nil_conv)
qed

text \<open>
  C23: A running simulator serves a subscriber until the subscriber ends it. Once a client has set its broadcast
  flags by a datagram that fits the buffer, it is subscribed with exactly these flags however long the
  simulator goes on, through timeouts, control calls, datagrams of other clients and its own further datagrams, as long
  as none of these has a message that logs off or sets flags again; it is still subscribed when the simulator stops.
  The simulator returns without error only when its context has ended, and it is still running exactly when no read
  failed but by a timeout in a living context.
\<close>

theorem serving_keeps_subscription:
  assumes "sim_Serve P E (Some (new_server now)) (ts1 @ Datagram remote payload # ts2) = (Some s', r)"
    and "\<forall>t \<in> set ts1. \<not> tick_ends t" and "length payload \<le> 4096" and "distinct (request_headers P)"
    and "ParseAll P payload = Inr [\<lparr>msg_header = HeaderLANSetBroadcastFlags P, msg_data = le32 f\<rparr>]"
    and "\<forall>t \<in> set ts2. \<forall>p. tick_event t = Some (Packet remote p) \<longrightarrow> keeps_subscription P p"
  shows "client_flags s' remote = Some f \<and>
    (r = None \<longleftrightarrow> (\<forall>t \<in> set ts2. \<not> tick_ends t)) \<and>
    (r = Some None \<longrightarrow> (\<exists>t \<in> set ts2. t = SocketTimeout True \<or> (\<exists>e. t = SocketFailed True e)))"
proof -
  define s1 where "s1 = run_events (sim_step P E) (new_server now) (List.map_filter tick_event ts1)"
  let ?s2 = "handlePacket P E s1 remote payload"
  have loop: "serve_loop P E ?s2 ts2 = (s', r)"
    using assms(1,3) by (simp add: sim_Serve_def serve_loop_append [OF assms(2)] s1_def read_buffer_def split: prod.splits)
  note res = serve_loop_result [OF loop]
  have i: "sim_inv s1" unfolding s1_def by (rule sim_machine.run_inv [OF sim_inv_new])
  have f: "client_flags ?s2 remote = Some f" by (rule set_flags_packet [OF i assms(4,5)]) simp_all
  obtain es where es: "s' = run_events (sim_step P E) ?s2 es" "\<forall>e \<in> set es. \<exists>t \<in> set ts2. tick_event t = Some e"
    using res(1) by blast
  have "\<forall>e \<in> set es. \<forall>p. e = Packet remote p \<longrightarrow> keeps_subscription P p" using es(2) assms(6) by blast
  from run_subscribed [OF handlePacket_inv [OF i] f this] es(1) res(2,3) show ?thesis by simp
qed

theorem serving_keeps_subscription_witness:
  "\<exists>s'. sim_Serve example_protocol example_env (Some (new_server 0))
       [SocketTimeout False, Datagram ''1.2.3.4:5'' [8, 0, 0x50, 0, 1, 1, 8, 0], SocketTimeout False,
        Datagram ''1.2.3.4:5'' [4, 0, 0x51, 0], SocketTimeout True] =
       (Some s', Some None) \<and> client_flags s' ''1.2.3.4:5'' = Some 0x80101"
proof -
  let ?P = example_protocol and ?E = example_env
  let ?ts2 = "[SocketTimeout False, Datagram ''1.2.3.4:5'' [4, 0, 0x51, 0], SocketTimeout True]"
  let ?ts = "[SocketTimeout False] @ Datagram ''1.2.3.4:5'' [8, 0, 0x50, 0, 1, 1, 8, 0] # ?ts2"
  have p: "ParseAll ?P [8, 0, 0x50, 0, 1, 1, 8, 0] =
      Inr [\<lparr>msg_header = HeaderLANSetBroadcastFlags ?P, msg_data = le32 0x80101\<rparr>]"
    "keeps_subscription ?P [4, 0, 0x51, 0]" by code_simp+
  have k: "\<forall>t \<in> set ?ts2. \<forall>p. tick_event t = Some (Packet ''1.2.3.4:5'' p) \<longrightarrow> keeps_subscription ?P p"
    using p(2) by (simp add: read_buffer_def)
  obtain s' where r: "sim_Serve ?P ?E (Some (new_server 0)) ?ts = (Some s', Some None)"
    by (simp add: sim_Serve_def)
  from serving_keeps_subscription [OF r _ _ example_headers p(1) k] have "client_flags s' ''1.2.3.4:5'' = Some 0x80101" by simp
  with r show ?thesis by auto
qed

end
