(* ===== verification/Elpctl_Commands.thy ===== *)
theory Elpctl_Commands
  imports Stream_Watch Processes
begin

text \<open>
  The commands of \<^verbatim>\<open>elpctl\<close> (\<^verbatim>\<open>apps/elpctl/cmd\<close>): what each \<^verbatim>\<open>RunE\<close> function does with its parsed
  flags and arguments, what it prints, and the two \<^verbatim>\<open>config\<close> commands that write and show the
  configuration file. The commands and their flags are in \<open>Elpctl_Cli\<close>.

  Lemmas: a configuration that \<^verbatim>\<open>config init\<close> has written is the one later commands use, and the requests
  that \<^verbatim>\<open>device create\<close> sends are requests the API accepts.
\<close>

section \<open>Output\<close>

text \<open>Text, or a value that is printed as JSON.\<close>

datatype cmd_output =
  CmdText string | CmdDevices "api_device list" | CmdDevice api_device | CmdDeleted string | CmdSimulation api_simulation

definition printDeviceTable :: "api_device list \<Rightarrow> cmd_output" where
  "printDeviceTable items = CmdText (formatDeviceTable items)"

definition printDeviceList :: "string \<Rightarrow> api_device list \<Rightarrow> cmd_output" where
  "printDeviceList format items = (if format = ''json'' then CmdDevices items else printDeviceTable items)"

definition printDevice :: "string \<Rightarrow> api_device \<Rightarrow> cmd_output" where
  "printDevice format device = (if format = ''json'' then CmdDevice device else printDeviceTable [device])"

definition printDeviceDeleted :: "string \<Rightarrow> string \<Rightarrow> cmd_output" where
  "printDeviceDeleted format name =
     (if format = ''json'' then CmdDeleted name else CmdText (''device '' @ quote name @ '' deleted'' @ [newline]))"

definition printSimulation :: "string \<Rightarrow> api_simulation \<Rightarrow> cmd_output" where
  "printSimulation format sim =
     (if format = ''json'' then CmdSimulation sim
      else
        (let phase = (case asm_status sim of None \<Rightarrow> ''-'' | Some st \<Rightarrow> if ass_phase st = [] then ''-'' else ass_phase st);
             applied = (case asm_status sim of None \<Rightarrow> ''-'' | Some st \<Rightarrow> i32_dec (ass_applied st))
         in CmdText (''simulation '' @ quote (asm_name sim) @ '' applied for device '' @ quote (asm_device_ref sim) @ '' ('' @
              nat_dec (length (asm_detectors sim)) @ '' can detector(s), phase='' @ phase @ '', applied='' @ applied @ '')'' @ [newline])))"

section \<open>Device and simulate commands\<close>

text \<open>
  A failed command is an error: \<open>cmd\<close> is the command itself, which a wrong use of it carries, and every
  error of the client stays what it is.
\<close>

definition newAPIClient :: "string \<times> string \<Rightarrow> elp_client" where
  "newAPIClient target = (case target of (server, ns) \<Rightarrow> client_New server ns)"

definition run_device_create ::
  "'w http_lib \<Rightarrow> string \<times> string \<Rightarrow> string \<Rightarrow> string \<Rightarrow> 'w \<Rightarrow> string \<Rightarrow> create_flags \<Rightarrow> 'w \<times> (cli_error + cmd_output)" where
  "run_device_create H target format cmd w name flags =
     (case create_request name flags of
        Inl e \<Rightarrow> (w, Inl (usageErr cmd e))
      | Inr req \<Rightarrow>
          (case client_CreateDevice H (newAPIClient target) w req of
             (w1, Inl e) \<Rightarrow> (w1, Inl (OtherError e))
           | (w1, Inr device) \<Rightarrow> (w1, Inr (printDevice format device))))"

definition run_device_get ::
  "'w http_lib \<Rightarrow> string \<times> string \<Rightarrow> string \<Rightarrow> 'w \<Rightarrow> string \<Rightarrow> 'w \<times> (cli_error + cmd_output)" where
  "run_device_get H target format w name =
     (case client_GetDevice H (newAPIClient target) w name of
        (w1, Inl e) \<Rightarrow> (w1, Inl (OtherError e))
      | (w1, Inr device) \<Rightarrow> (w1, Inr (printDevice format device)))"

text \<open>\<^verbatim>\<open>device get --watch\<close>; \<open>tty\<close> tells whether standard output is a terminal.\<close>

definition runDeviceWatch ::
  "'w http_lib \<Rightarrow> (string \<Rightarrow> string + watch_event) \<Rightarrow> bool \<Rightarrow> ((string \<times> api_device) list \<Rightarrow> (string \<times> api_device) list) \<Rightarrow>
     string \<times> string \<Rightarrow> string \<Rightarrow> 'w \<Rightarrow> string \<Rightarrow> 'w \<times> watch_writer \<times> string option" where
  "runDeviceWatch H decode tty order target format w name =
     client_WatchDevices H decode (\<lambda>out e. (handleDeviceWatchEvent (format = ''json'') tty order name out e, None))
       (newAPIClient target) w newDeviceWatchWriter"

definition run_device_list :: "'w http_lib \<Rightarrow> string \<times> string \<Rightarrow> string \<Rightarrow> 'w \<Rightarrow> 'w \<times> (cli_error + cmd_output)" where
  "run_device_list H target format w =
     (case client_ListDevices H (newAPIClient target) w of
        (w1, Inl e) \<Rightarrow> (w1, Inl (OtherError e))
      | (w1, Inr items) \<Rightarrow> (w1, Inr (printDeviceList format items)))"

definition run_device_delete ::
  "'w http_lib \<Rightarrow> string \<times> string \<Rightarrow> string \<Rightarrow> 'w \<Rightarrow> string \<Rightarrow> 'w \<times> (cli_error + cmd_output)" where
  "run_device_delete H target format w name =
     (case client_DeleteDevice H (newAPIClient target) w name of
        (w1, Inl e) \<Rightarrow> (w1, Inl (OtherError e))
      | (w1, Inr _) \<Rightarrow> (w1, Inr (printDeviceDeleted format name)))"

definition run_simulate_can ::
  "'w http_lib \<Rightarrow> string \<times> string \<Rightarrow> string \<Rightarrow> string \<Rightarrow> 'w \<Rightarrow> string \<Rightarrow> string \<Rightarrow> string list \<Rightarrow> string \<Rightarrow> u16 option \<Rightarrow> u16 option
     \<Rightarrow> 'w \<times> (cli_error + cmd_output)" where
  "run_simulate_can H target format cmd w deviceName simulationName netIDs detectorName' moduleAddress portCount =
     (case simulate_can_request simulationName netIDs detectorName' moduleAddress portCount of
        Inl e \<Rightarrow> (w, Inl (usageErr cmd e))
      | Inr req \<Rightarrow>
          (case client_SimulateCAN H (newAPIClient target) w deviceName req of
             (w1, Inl e) \<Rightarrow> (w1, Inl (OtherError e))
           | (w1, Inr sim) \<Rightarrow> (w1, Inr (printSimulation format sim))))"

text \<open>
  The names of a command and its parents, innermost first; the defaults are applied unless it is
  \<^verbatim>\<open>help\<close> or belongs to \<^verbatim>\<open>config\<close>.
\<close>

definition isConfigCommand :: "string list \<Rightarrow> bool" where
  "isConfigCommand names \<longleftrightarrow> ''config'' \<in> set names"

definition command_target ::
  "'w elp_files \<Rightarrow> (string \<Rightarrow> string) \<Rightarrow> 'w \<Rightarrow> string list \<Rightarrow> string option \<Rightarrow> string option \<Rightarrow> string \<Rightarrow> string + string \<times> string" where
  "command_target F env w names serverFlag nsFlag configPath =
     (if names \<noteq> [] \<and> hd names = ''help'' \<or> isConfigCommand names
      then Inr (case serverFlag of Some s \<Rightarrow> s | None \<Rightarrow> [], case nsFlag of Some n \<Rightarrow> n | None \<Rightarrow> [])
      else applyConfigDefaults F env w serverFlag nsFlag configPath)"

section \<open>Config commands\<close>

definition config_view :: "'w elp_files \<Rightarrow> (string \<Rightarrow> string) \<Rightarrow> 'w \<Rightarrow> string \<Rightarrow> string + string" where
  "config_view F env w rawPath =
     (case ResolvePath F env rawPath of
        Inl e \<Rightarrow> Inl e
      | Inr path \<Rightarrow>
      (case elpconfig_Load F w path of
        Inl e \<Rightarrow> Inl e
      | Inr None \<Rightarrow> Inl (''elpconfig not found at '' @ path @ '' (run elpctl config init)'')
      | Inr (Some cfg) \<Rightarrow> ef_marshal F cfg))"

record init_flags =
  if_path :: string
  if_context :: string
  if_service :: string
  if_service_namespace :: string
  if_device_namespace :: string
  if_dry_run :: bool

text \<open>The result is what is printed: the configuration in a dry run, else three lines on standard error.\<close>

definition init_context_name :: "string \<Rightarrow> string \<Rightarrow> string" where
  "init_context_name ctxName deviceNamespace = ctxName @ ''@'' @ deviceNamespace"

definition config_init ::
  "'w elp_files \<Rightarrow> (string \<Rightarrow> string) \<Rightarrow> (string \<Rightarrow> string list \<Rightarrow> string \<times> string option) \<Rightarrow> (string \<Rightarrow> string + service_json)
     \<Rightarrow> 'w \<Rightarrow> init_flags \<Rightarrow> 'w \<times> (string + string)" where
  "config_init F env exec decode w fl =
     (case DiscoverFromCluster (kubectlOutput exec) decode (if_context fl) (if_service fl) (if_service_namespace fl) [] of
        Inl e \<Rightarrow> (w, Inl e)
      | Inr (server, ctxName) \<Rightarrow>
      (let contextName = init_context_name ctxName (if_device_namespace fl) in
       case (if if_dry_run fl then Inr empty_elp_config
             else (case ResolvePath F env (if_path fl) of
                     Inl e \<Rightarrow> Inl e
                   | Inr path \<Rightarrow>
                       (case elpconfig_Load F w path of
                          Inl e \<Rightarrow> Inl e
                        | Inr None \<Rightarrow> Inr empty_elp_config
                        | Inr (Some existing) \<Rightarrow> Inr existing))) of
         Inl e \<Rightarrow> (w, Inl e)
       | Inr cfg0 \<Rightarrow>
       (let cfg = UpsertClusterContext ctxName server contextName (if_device_namespace fl) cfg0 in
        if if_dry_run fl then (w, ef_marshal F cfg)
        else (case ResolvePath F env (if_path fl) of
          Inl e \<Rightarrow> (w, Inl e)
        | Inr path \<Rightarrow>
            (case elpconfig_Write F w path cfg of
               (w1, Some e) \<Rightarrow> (w1, Inl e)
             | (w1, None) \<Rightarrow>
                 (w1, Inr (''elpconfig written to '' @ path @ [newline] @ ''current-context: '' @ contextName @ [newline] @
                           ''server: '' @ server @ [newline])))))))"

section \<open>What init leaves behind\<close>

text \<open>Documented behaviour of the file system and of YAML: what was written is read back.\<close>

definition file_laws :: "'w elp_files \<Rightarrow> bool" where
  "file_laws F \<longleftrightarrow>
     (\<forall>w path data w'. ef_write F w path data = (w', None) \<longrightarrow> ef_read F w' path = ReadText data) \<and>
     (\<forall>cfg data. ef_marshal F cfg = Inr data \<longrightarrow> ef_unmarshal F data = Inr cfg)"

lemma written_config_loads:
  assumes "file_laws F" and "elpconfig_Write F w path cfg = (w', None)"
  shows "elpconfig_Load F w' path = Inr (Some (config_defaults cfg))"
  using assms by (auto simp: elpconfig_Write_def elpconfig_Load_def file_laws_def split: sum.splits prod.splits option.splits)

lemma discovered_nonempty:
  "DiscoverFromCluster kubectl decode ctx svc sns bin = Inr (server, ctxName) \<Longrightarrow> server \<noteq> [] \<and> ctxName \<noteq> []"
  by (clarsimp simp: DiscoverFromCluster_def Let_def split: sum.splits if_split_asm)

lemma config_defaults_lookups [simp]:
  "contextByName (config_defaults cfg) n = contextByName cfg n" "clusterByName (config_defaults cfg) n = clusterByName cfg n"
  "config_Current (Some (config_defaults cfg)) = config_Current (Some cfg)"
  by (auto simp: contextByName_def clusterByName_def config_defaults_def config_Current_def Let_def split: option.splits)

lemma config_init_wrote:
  assumes "config_init F env exec decode w fl = (w', Inr out)" and "\<not> if_dry_run fl"
  shows "\<exists>server ctx path cfg0. DiscoverFromCluster (kubectlOutput exec) decode (if_context fl) (if_service fl) (if_service_namespace fl) [] = Inr (server, ctx) \<and>
    ResolvePath F env (if_path fl) = Inr path \<and> (elpconfig_Load F w path = Inr None \<and> cfg0 = empty_elp_config \<or> elpconfig_Load F w path = Inr (Some cfg0)) \<and>
    elpconfig_Write F w path (UpsertClusterContext ctx server (init_context_name ctx (if_device_namespace fl)) (if_device_namespace fl) cfg0) = (w', None)"
  using assms by (auto simp: config_init_def Let_def split: sum.splits prod.splits option.splits)

section \<open>What the API makes of a request\<close>

lemma create_request_fields:
  assumes "create_request name fl = Inr req"
  shows "dc_name req = name" "an_url (dc_nats req) = cf_nats_url fl"
    "dc_broadcast_flags req = (if cf_set_broadcast fl then Some (cf_broadcast_flags fl) else None)"
    "cf_backend fl = ''hardware'' \<and> dc_backend req = None \<and> dc_address req = cf_address fl \<and> cf_address fl \<noteq> [] \<or>
     cf_backend fl = ''simulator'' \<and> dc_address req = [] \<and>
       dc_backend req = Some \<lparr>bc_type = ''simulator'', bc_hardware = None, bc_simulator = Some \<lparr>scr_image = cf_simulator_image fl\<rparr>\<rparr>"
  using assms by (auto simp: create_request_def Let_def split: if_splits)

lemma create_request_valid:
  assumes "create_request name fl = Inr req" and "name \<noteq> []" and "cf_nats_url fl \<noteq> []"
  shows "validateDeviceCreate req = None"
  using create_request_fields [OF assms(1)] assms(2,3)
  by (auto simp: validateDeviceCreate_def BackendHardware_def BackendSimulator_def)

definition bad_port :: "string \<Rightarrow> bool" where
  "bad_port address =
     (case split_host_port address of
        Inl e \<Rightarrow> False
      | Inr (host, port) \<Rightarrow> (case parse_int 32 port of Inl e \<Rightarrow> True | Inr n \<Rightarrow> n < 1 \<or> 65535 < n))"

lemma parse_bad_port: "(\<exists>e. parseHardwareAddress a = Inl e) \<longleftrightarrow> bad_port a"
  by (auto simp: parseHardwareAddress_def bad_port_def split: sum.splits)

lemma create_request_backend:
  assumes "create_request name fl = Inr req"
  shows "case backendFromCreate req of
      Inl e \<Rightarrow> cf_backend fl = ''hardware'' \<and> bad_port (cf_address fl)
    | Inr be \<Rightarrow> be_type be = cf_backend fl \<and> \<not> (cf_backend fl = ''hardware'' \<and> bad_port (cf_address fl))"
  using create_request_fields(4) [OF assms]
proof
  assume h: "cf_backend fl = ''hardware'' \<and> dc_backend req = None \<and> dc_address req = cf_address fl \<and> cf_address fl \<noteq> []"
  then show ?thesis using parse_bad_port [of "cf_address fl"]
    by (cases "parseHardwareAddress (cf_address fl)") (simp_all add: backendFromCreate_def BackendHardware_def)
next
  assume "cf_backend fl = ''simulator'' \<and> dc_address req = [] \<and>
    dc_backend req = Some \<lparr>bc_type = ''simulator'', bc_hardware = None, bc_simulator = Some \<lparr>scr_image = cf_simulator_image fl\<rparr>\<rparr>"
  then show ?thesis by (simp add: backendFromCreate_def BackendHardware_def BackendSimulator_def)
qed

lemma create_request_spec:
  assumes "create_request name fl = Inr req"
  shows "(\<exists>e. specFromCreate req = Inl e) \<longleftrightarrow> cf_backend fl = ''hardware'' \<and> bad_port (cf_address fl)"
    and "specFromCreate req = Inr spec \<Longrightarrow> be_type (ds_backend spec) = cf_backend fl \<and>
      ds_broadcast_flags spec = Some (if cf_set_broadcast fl then cf_broadcast_flags fl else DefaultBroadcastFlags)"
  using create_request_backend [OF assms] create_request_fields(3) [OF assms]
  by (cases "backendFromCreate req"; auto simp: specFromCreate_def)+

section \<open>Properties\<close>

text \<open>
  C17: A configuration made by \<^verbatim>\<open>config init\<close> is the one later commands use. Without flags and
  environment variables they talk to the server that was discovered, in the namespace given to init or the
  default one; contexts and clusters of other names are kept.
\<close>

theorem init_then_used:
  assumes "config_init F env exec decode w fl = (w', Inr out)" and "\<not> if_dry_run fl" and "file_laws F"
    and "env ''ELP_SERVER'' = []" and "env ''ELP_NAMESPACE'' = []"
    and "\<not> isConfigCommand names" and "names \<noteq> [] \<longrightarrow> hd names \<noteq> ''help''"
  shows "\<exists>server ctx path cfg.
    DiscoverFromCluster (kubectlOutput exec) decode (if_context fl) (if_service fl) (if_service_namespace fl) [] = Inr (server, ctx) \<and>
    command_target F env w' names None None (if_path fl) =
      Inr (server, if if_device_namespace fl = [] then ''elp'' else if_device_namespace fl) \<and>
    ResolvePath F env (if_path fl) = Inr path \<and> elpconfig_Load F w' path = Inr (Some cfg) \<and>
    (\<forall>old n. elpconfig_Load F w path = Inr (Some old) \<longrightarrow>
       (n \<noteq> init_context_name ctx (if_device_namespace fl) \<longrightarrow> contextByName cfg n = contextByName old n) \<and>
       (n \<noteq> ctx \<longrightarrow> clusterByName cfg n = clusterByName old n))"
proof -
  let ?ns = "if_device_namespace fl"
  obtain server ctx path cfg0 where d: "DiscoverFromCluster (kubectlOutput exec) decode (if_context fl) (if_service fl) (if_service_namespace fl) [] = Inr (server, ctx)"
    and p: "ResolvePath F env (if_path fl) = Inr path"
    and old: "elpconfig_Load F w path = Inr None \<and> cfg0 = empty_elp_config \<or> elpconfig_Load F w path = Inr (Some cfg0)"
    and w: "elpconfig_Write F w path (UpsertClusterContext ctx server (init_context_name ctx ?ns) ?ns cfg0) = (w', None)"
    using config_init_wrote [OF assms(1,2)] by blast
  let ?cfg = "UpsertClusterContext ctx server (init_context_name ctx ?ns) ?ns cfg0"
  have l: "elpconfig_Load F w' path = Inr (Some (config_defaults ?cfg))" by (rule written_config_loads [OF assms(3) w])
  have ne: "server \<noteq> []" "init_context_name ctx ?ns \<noteq> []" using discovered_nonempty [OF d] by (simp_all add: init_context_name_def)
  then have cur: "config_Current (Some (config_defaults ?cfg)) = Inr (server, if ?ns = [] then ''elp'' else ?ns)"
    by (simp add: config_Current_def Upsert_lookups DefaultDeviceNamespace_def)
  have "command_target F env w' names None None (if_path fl) = Inr (server, if ?ns = [] then ''elp'' else ?ns)"
    using assms(4-7) ne p l cur by (cases "names = []") (simp_all add: command_target_def applyConfigDefaults_def Let_def)
  then show ?thesis using d p l old by (intro exI conjI) (auto simp: Upsert_lookups)
qed

text \<open>
  What \<^verbatim>\<open>device create\<close> sends the API accepts. For a name and a NATS URL the API answers 400 only when a hardware address
  has a port that is no number from 1 to 65535; otherwise it creates the device with the backend asked for
  and the flags given, the default ones without \<^verbatim>\<open>--set-broadcast-flags\<close>.
\<close>

theorem elpctl_create_accepted:
  assumes "create_request name fl = Inr req" and "name \<noteq> []" and "cf_nats_url fl \<noteq> []"
    and "createDevice c w ns name (Inr req) = (w', code, body)"
  shows "(code = 400 \<longleftrightarrow> cf_backend fl = ''hardware'' \<and> bad_port (cf_address fl)) \<and>
    (code \<noteq> 400 \<longrightarrow> (\<exists>spec r. be_type (ds_backend spec) = cf_backend fl \<and>
       ds_broadcast_flags spec = Some (if cf_set_broadcast fl then cf_broadcast_flags fl else DefaultBroadcastFlags) \<and>
       ra_create c w \<lparr>dev_meta = empty_object_meta ns name, dev_spec = spec, dev_status = zero_status\<rparr> = (w', r) \<and>
       (code = 201 \<longleftrightarrow> (\<exists>d. r = Inr d))))"
proof -
  have v: "validateDeviceCreate req = None" "dc_name req = name"
    using create_request_valid [OF assms(1-3)] create_request_fields [OF assms(1)] by simp_all
  show ?thesis
  proof (cases "specFromCreate req")
    case (Inl e)
    then show ?thesis using create_request_spec(1) [OF assms(1)] assms(2,4) v by (auto simp: createDevice_def writeError_def)
  next
    case (Inr spec)
    obtain w1 r where r: "ra_create c w \<lparr>dev_meta = empty_object_meta ns name, dev_spec = spec, dev_status = zero_status\<rparr> = (w1, r)" by fastforce
    have "w' = w1 \<and> code = (case r of Inl (KubeAlreadyExists m) \<Rightarrow> 409 | Inl e \<Rightarrow> 500 | Inr d \<Rightarrow> 201)"
      using assms(2,4) v Inr r by (auto simp: createDevice_def writeError_def split: sum.splits kube_error.splits)
    then show ?thesis
      using create_request_spec(1) [OF assms(1)] create_request_spec(2) [OF assms(1) Inr] Inr r
      by (intro conjI impI exI [of _ spec] exI [of _ r]) (auto split: sum.splits kube_error.splits)
  qed
qed

text \<open>A home directory with one file, and a cluster whose API has an address.\<close>

definition kind_config :: elp_config where
  "kind_config = config_defaults (UpsertClusterContext ''kind'' ''http://10.0.0.9:80'' ''kind@elp'' ''elp'' empty_elp_config)"

definition home_files :: "string option elp_files" where
  "home_files =
     \<lparr>ef_read = (\<lambda>w p. case w of None \<Rightarrow> ReadMissing | Some s \<Rightarrow> ReadText s), ef_mkdir = (\<lambda>w d. (w, None)),
      ef_write = (\<lambda>w p s. (Some s, None)), ef_dir = (\<lambda>p. p), ef_join = concat, ef_home = Inr ''/root'',
      ef_unmarshal = (\<lambda>s. Inr kind_config), ef_marshal = (\<lambda>c. if c = kind_config then Inr ''kind'' else Inl ''other'')\<rparr>"

definition kind_kubectl :: "string \<Rightarrow> string list \<Rightarrow> string \<times> string option" where
  "kind_kubectl binary args = (if hd args = ''config'' then ''kind'' else [], None)"

definition kind_service :: "string \<Rightarrow> string + service_json" where
  "kind_service raw = Inr \<lparr>sj_ports = [80], sj_ingress = [\<lparr>ig_ip = ''10.0.0.9'', ig_hostname = []\<rparr>]\<rparr>"

definition plain_init :: init_flags where
  "plain_init = \<lparr>if_path = [], if_context = ''kind'', if_service = [], if_service_namespace = [], if_device_namespace = ''elp'', if_dry_run = False\<rparr>"

lemma home_file_laws: "file_laws home_files"
  by (auto simp: file_laws_def home_files_def split: if_splits)

lemma kind_init:
  "\<exists>w' out. config_init home_files (\<lambda>k. []) kind_kubectl kind_service None plain_init = (w', Inr out)"
proof -
  have p: "int_dec 80 = ''80''" by (simp add: int_dec_def nat_dec.simps digit_chars_def)
  have d: "DiscoverFromCluster (kubectlOutput kind_kubectl) kind_service ''kind'' [] [] [] = Inr (''http://10.0.0.9:80'', ''kind'')"
    by (simp add: DiscoverFromCluster_def kubectlOutput_def kind_kubectl_def kind_service_def p)
  have k: "config_defaults (UpsertClusterContext ''kind'' ''http://10.0.0.9:80'' ''kind@elp'' ''elp'' empty_elp_config) = kind_config"
    by (simp add: kind_config_def)
  show ?thesis
    by (simp add: config_init_def plain_init_def d init_context_name_def elpconfig_Load_def elpconfig_Write_def
        ResolvePath_def DefaultPath_def home_files_def k)
qed

theorem init_then_used_witness:
  "\<exists>w' server. command_target home_files (\<lambda>k. []) w' [''list'', ''device'', ''elpctl''] None None [] = Inr (server, ''elp'')"
proof -
  obtain w' out where i: "config_init home_files (\<lambda>k. []) kind_kubectl kind_service None plain_init = (w', Inr out)"
    using kind_init by blast
  have f: "\<not> if_dry_run plain_init" "if_path plain_init = []" "if_device_namespace plain_init = ''elp''" by (simp_all add: plain_init_def)
  have n: "\<not> isConfigCommand [''list'', ''device'', ''elpctl'']" "[''list'', ''device'', ''elpctl''] \<noteq> [] \<longrightarrow> hd [''list'', ''device'', ''elpctl''] \<noteq> ''help''"
    by (simp_all add: isConfigCommand_def)
  from init_then_used [OF i f(1) home_file_laws refl refl n] f show ?thesis by auto
qed

definition sim_flags :: create_flags where
  "sim_flags =
     \<lparr>cf_backend = ''simulator'', cf_address = [], cf_nats_url = ''nats://nats:4222'', cf_subject_prefix = [], cf_host_network = False,
      cf_gateway_image = [], cf_simulator_image = [], cf_node_selector = [], cf_broadcast_flags = 0, cf_set_broadcast = False\<rparr>"

theorem elpctl_create_accepted_witness:
  "\<exists>req. create_request ''z1'' sim_flags = Inr req \<and> fst (snd (createDevice no_devices [] ''elp'' ''z1'' (Inr req))) \<noteq> 400"
proof -
  obtain req where r: "create_request ''z1'' sim_flags = Inr req" by (simp add: create_request_def sim_flags_def Let_def)
  obtain w' code body where c: "createDevice no_devices [] ''elp'' ''z1'' (Inr req) = (w', code, body)" by (metis prod_cases3)
  have "''z1'' \<noteq> []" "cf_nats_url sim_flags \<noteq> []" "cf_backend sim_flags \<noteq> ''hardware''" by (simp_all add: sim_flags_def)
  from elpctl_create_accepted [OF r this(1,2) c] this(3) c r show ?thesis by auto
qed

end
