(* ===== verification/Api_Routes.thy ===== *)
theory Api_Routes
  imports Elpctl
begin

text \<open>
  The routes of the API server (\<^verbatim>\<open>apps/api/internal/api/server.go\<close> and \<^verbatim>\<open>Routes\<close> in
  \<^verbatim>\<open>devices.go\<close>) and what the client of \<^verbatim>\<open>elpctl\<close> gets through them: each of its calls has the effect
  and the result of one handler. The router of the chi package is a parameter; its law says that it
  finds a pattern that matches, and among several the one that is literal where they first differ.
\<close>

section \<open>The table of routes\<close>

datatype path_segment = Literal string | Variable string

datatype endpoint = EndHealthz | EndStream | EndList | EndCreate | EndSimulate | EndGet | EndPatch | EndDelete

type_synonym route = "string \<times> path_segment list \<times> endpoint"

definition Routes :: "route list" where
  "Routes =
     [(''GET'', [Literal ''stream''], EndStream),
      (''GET'', [], EndList),
      (''POST'', [], EndCreate),
      (''POST'', [Variable ''name''], EndCreate),
      (''POST'', [Variable ''name'', Literal ''simulate'', Literal ''can''], EndSimulate),
      (''GET'', [Variable ''name''], EndGet),
      (''PATCH'', [Variable ''name''], EndPatch),
      (''DELETE'', [Variable ''name''], EndDelete)]"

definition mount :: "path_segment list \<Rightarrow> route list \<Rightarrow> route list" where
  "mount front rs = map (\<lambda>(verb, pat, e). (verb, front @ pat, e)) rs"

definition server_routes :: "route list" where
  "server_routes = (''GET'', [Literal ''healthz''], EndHealthz) #
     mount [Literal ''api'', Literal ''v1''] (mount [Literal ''namespaces'', Variable ''namespace'', Literal ''devices''] Routes)"

section \<open>Matching a path\<close>

fun match_path :: "path_segment list \<Rightarrow> string list \<Rightarrow> (string \<times> string) list option" where
  "match_path [] [] = Some []"
| "match_path (Literal a # pat) (s # segs) = (if a = s then match_path pat segs else None)"
| "match_path (Variable v # pat) (s # segs) = map_option (\<lambda>ps. (v, s) # ps) (match_path pat segs)"
| "match_path _ _ = None"

text \<open>The binary digits tell where a pattern has variables; the first is the most significant.\<close>

fun variable_rank :: "path_segment list \<Rightarrow> nat" where
  "variable_rank [] = 0"
| "variable_rank (Literal a # pat) = variable_rank pat"
| "variable_rank (Variable v # pat) = 2 ^ length pat + variable_rank pat"

type_synonym router = "route list \<Rightarrow> string \<Rightarrow> string list \<Rightarrow> (endpoint \<times> (string \<times> string) list) option"

definition routed :: "route list \<Rightarrow> string \<Rightarrow> string list \<Rightarrow> (endpoint \<times> (string \<times> string) list) option \<Rightarrow> bool" where
  "routed table verb segs r =
     (case r of
        None \<Rightarrow> \<forall>(v, pat, e) \<in> set table. v = verb \<longrightarrow> match_path pat segs = None
      | Some (e, ps) \<Rightarrow> \<exists>pat. (verb, pat, e) \<in> set table \<and> match_path pat segs = Some ps \<and>
          (\<forall>(v, pat', e') \<in> set table. v = verb \<longrightarrow> match_path pat' segs \<noteq> None \<longrightarrow> variable_rank pat \<le> variable_rank pat'))"

definition router_law :: "router \<Rightarrow> bool" where
  "router_law R \<longleftrightarrow> (\<forall>table verb segs. [] \<notin> set segs \<longrightarrow> routed table verb segs (R table verb segs))"

lemma router_picks:
  assumes "router_law R" and "[] \<notin> set segs" and "(verb, pat, e) \<in> set table" and "match_path pat segs = Some ps"
    and "\<forall>(v, pat', e') \<in> set table. v = verb \<longrightarrow> match_path pat' segs \<noteq> None \<longrightarrow>
      (pat' = pat \<and> e' = e) \<or> variable_rank pat < variable_rank pat'"
  shows "R table verb segs = Some (e, ps)"
proof -
  have law: "routed table verb segs (R table verb segs)" using assms(1,2) unfolding router_law_def by blast
  show ?thesis
  proof (cases "R table verb segs")
    case None
    with law assms(3,4) show ?thesis unfolding routed_def by fastforce
  next
    case (Some r)
    obtain e1 ps1 where r: "r = (e1, ps1)" by fastforce
    with law Some obtain pat1 where p1: "(verb, pat1, e1) \<in> set table" "match_path pat1 segs = Some ps1"
      "\<forall>(v, pat', e') \<in> set table. v = verb \<longrightarrow> match_path pat' segs \<noteq> None \<longrightarrow> variable_rank pat1 \<le> variable_rank pat'"
      by (auto simp: routed_def)
    have "variable_rank pat1 \<le> variable_rank pat" using p1(3) assms(3,4) by fastforce
    then have "pat1 = pat \<and> e1 = e" using assms(5) p1(1,2) by fastforce
    then show ?thesis using p1(2) assms(4) Some r by simp
  qed
qed

text \<open>A router that keeps the law: the matching route of the least rank.\<close>

definition route_fits :: "string \<Rightarrow> string list \<Rightarrow> route \<Rightarrow> bool" where
  "route_fits verb segs rt \<longleftrightarrow> fst rt = verb \<and> match_path (fst (snd rt)) segs \<noteq> None"

definition route_rank :: "route \<Rightarrow> nat" where
  "route_rank rt = variable_rank (fst (snd rt))"

definition least_router :: router where
  "least_router table verb segs =
     (let found = filter (route_fits verb segs) table in
      if found = [] then None
      else (let rt = arg_min_list route_rank found in Some (snd (snd rt), the (match_path (fst (snd rt)) segs))))"

lemma arg_min_list_le: "x \<in> set xs \<Longrightarrow> f (arg_min_list f xs) \<le> (f x :: nat)"
  by (cases "xs = []") (auto simp: f_arg_min_list_f)

lemma least_router_law: "router_law least_router"
  unfolding router_law_def
proof (intro allI impI)
  fix table :: "route list" and verb :: string and segs :: "string list"
  let ?found = "filter (route_fits verb segs) table"
  show "routed table verb segs (least_router table verb segs)"
  proof (cases "?found = []")
    case True
    then show ?thesis by (auto simp: least_router_def filter_empty_conv routed_def route_fits_def)
  next
    case False
    let ?rt = "arg_min_list route_rank ?found"
    have "?rt \<in> set table" "route_fits verb segs ?rt" using arg_min_list_in [OF False, of route_rank] by auto
    moreover obtain v pat e where vpe: "?rt = (v, pat, e)" using prod_cases3 by blast
    ultimately have rt: "?rt = (verb, pat, e)" "(verb, pat, e) \<in> set table" "match_path pat segs \<noteq> None"
      unfolding vpe route_fits_def by auto
    have "variable_rank pat \<le> variable_rank pat'"
      if "(verb, pat', e') \<in> set table" "match_path pat' segs \<noteq> None" for pat' e'
      using arg_min_list_le [of "(verb, pat', e')" ?found route_rank] that unfolding rt(1)
      by (simp add: route_rank_def route_fits_def)
    then have "routed table verb segs (Some (e, the (match_path pat segs)))"
      using rt(2,3) unfolding routed_def by auto
    moreover have "least_router table verb segs = Some (e, the (match_path pat segs))"
      using False unfolding least_router_def Let_def rt(1) by simp
    ultimately show ?thesis by simp
  qed
qed

section \<open>Serving a request\<close>

text \<open>
  What JSON makes of the bodies, the text of an error, and what the router answers when it finds no
  route. \<^verbatim>\<open>writeJSON\<close> ignores an error of the encoder, which then has written nothing. \<open>stream\<close> below is
  the answer of the event stream.
\<close>

record rest_json =
  rj_encode :: "api_body \<Rightarrow> string option"
  rj_error :: "api_error \<Rightarrow> string"
  rj_status :: "int \<Rightarrow> string"
  rj_create :: "string \<Rightarrow> string + device_create"
  rj_update :: "string \<Rightarrow> string + device_update"
  rj_simulate :: "string \<Rightarrow> string + simulate_request"
  rj_unrouted :: http_response

definition writeJSON :: "rest_json \<Rightarrow> response \<Rightarrow> http_response" where
  "writeJSON J r =
     \<lparr>hr_code = fst r, hr_status = rj_status J (fst r), 
      hr_body = (if snd r = NoBody then [] else (case rj_encode J (snd r) of None \<Rightarrow> [] | Some data \<Rightarrow> data))\<rparr>"

definition encoded :: "rest_json \<Rightarrow> response \<Rightarrow> bool" where
  "encoded J r \<longleftrightarrow> snd r = NoBody \<or> rj_encode J (snd r) \<noteq> None"

definition URLParam :: "(string \<times> string) list \<Rightarrow> string \<Rightarrow> string" where
  "URLParam ps k = (case map_of ps k of None \<Rightarrow> [] | Some v \<Rightarrow> v)"

definition serve_endpoint ::
  "'w rest_client \<Rightarrow> rest_json \<Rightarrow> ('w \<Rightarrow> string \<Rightarrow> 'w \<times> http_response) \<Rightarrow> 'w \<Rightarrow> endpoint \<Rightarrow> (string \<times> string) list
     \<Rightarrow> string \<Rightarrow> 'w \<times> http_response" where
  "serve_endpoint c J stream w e ps body =
     (let ns = URLParam ps ''namespace''; name = URLParam ps ''name'' in
      case e of
        EndHealthz \<Rightarrow> (w, \<lparr>hr_code = 200, hr_status = rj_status J 200, hr_body = ''ok''\<rparr>)
      | EndStream \<Rightarrow> stream w ns
      | EndList \<Rightarrow> (w, writeJSON J (listDevices c w ns))
      | EndGet \<Rightarrow> (w, writeJSON J (getDevice c w ns name))
      | EndCreate \<Rightarrow> apsnd (writeJSON J) (createDevice c w ns name (rj_create J body))
      | EndPatch \<Rightarrow> apsnd (writeJSON J) (patchDevice c w ns name (rj_update J body))
      | EndDelete \<Rightarrow> apsnd (writeJSON J) (deleteDevice c w ns name)
      | EndSimulate \<Rightarrow> apsnd (writeJSON J) (simulateCAN c w ns name (rj_simulate J body)))"

definition path_segments :: "string \<Rightarrow> string list" where
  "path_segments path = tl (split_on (CHR ''/'') path)"

definition api_serve ::
  "'w rest_client \<Rightarrow> rest_json \<Rightarrow> router \<Rightarrow> ('w \<Rightarrow> string \<Rightarrow> 'w \<times> http_response) \<Rightarrow> 'w \<Rightarrow> string \<Rightarrow> string \<Rightarrow> string option
     \<Rightarrow> 'w \<times> http_response" where
  "api_serve c J R stream w verb path body =
     (case R server_routes verb (path_segments path) of
        None \<Rightarrow> (w, rj_unrouted J)
      | Some (e, ps) \<Rightarrow> serve_endpoint c J stream w e ps (case body of None \<Rightarrow> [] | Some data \<Rightarrow> data))"

section \<open>The client on top of the server\<close>

text \<open>
  The transport carries a request to the server at \<open>base\<close> and its response back, and each side decodes
  what the other one has encoded.
\<close>

definition api_link ::
  "'w http_lib \<Rightarrow> string \<Rightarrow> 'w rest_client \<Rightarrow> rest_json \<Rightarrow> router \<Rightarrow> ('w \<Rightarrow> string \<Rightarrow> 'w \<times> http_response) \<Rightarrow> bool" where
  "api_link H base c J R stream \<longleftrightarrow>
     router_law R \<and>
     (\<forall>w verb path body. hl_do H w verb (base @ CHR ''/'' # path) body =
        apsnd Inr (api_serve c J R stream w verb (CHR ''/'' # path) body)) \<and>
     (\<forall>d t. rj_encode J (BodyDevice d) = Some t \<longrightarrow> hl_decode_device H t = Inr d) \<and>
     (\<forall>ds t. rj_encode J (BodyDevices ds) = Some t \<longrightarrow> hl_decode_devices H t = Inr ds) \<and>
     (\<forall>s t. rj_encode J (BodySimulation s) = Some t \<longrightarrow> hl_decode_simulation H t = Inr s) \<and>
     (\<forall>e t. rj_encode J (BodyError e) = Some t \<longrightarrow> hl_decode_error H t = Inr (rj_error J e)) \<and>
     (\<forall>req data. hl_marshal_create H req = Inr data \<longrightarrow> rj_create J data = Inr req) \<and>
     (\<forall>req data. hl_marshal_simulate H req = Inr data \<longrightarrow> rj_simulate J data = Inr req)"

text \<open>What a client is told by a response: what \<open>read\<close> finds in it, or its error.\<close>

definition told :: "rest_json \<Rightarrow> (response \<Rightarrow> 'a option) \<Rightarrow> response \<Rightarrow> string + 'a" where
  "told J read r =
     (case read r of
        Some x \<Rightarrow> Inr x
      | None \<Rightarrow> Inl (case snd r of
          BodyError e \<Rightarrow> if rj_error J e = [] then ''api request failed: '' @ rj_status J (fst r) else rj_error J e
        | _ \<Rightarrow> []))"

fun a_device :: "int \<Rightarrow> response \<Rightarrow> api_device option" where
  "a_device code (n, BodyDevice d) = (if n = code then Some d else None)"
| "a_device code _ = None"

fun all_devices :: "response \<Rightarrow> api_device list option" where
  "all_devices (n, BodyDevices ds) = (if n = 200 then Some ds else None)"
| "all_devices _ = None"

fun a_simulation :: "response \<Rightarrow> api_simulation option" where
  "a_simulation (n, BodySimulation s) = (if n = 200 then Some s else None)"
| "a_simulation _ = None"

fun deleted :: "response \<Rightarrow> unit option" where
  "deleted (n, NoBody) = (if n = 204 then Some () else None)"
| "deleted _ = None"

text \<open>A name that needs no escaping in a path.\<close>

definition plain_name :: "string \<Rightarrow> bool" where
  "plain_name s \<longleftrightarrow> s \<noteq> [] \<and> list_all path_plain s"

lemma plain_name_facts:
  assumes "plain_name s"
  shows "PathEscape s = s" "CHR ''/'' \<notin> set s" "s \<noteq> []"
proof -
  have p: "\<forall>c \<in> set s. path_plain c" "s \<noteq> []" using assms by (simp_all add: plain_name_def list_all_iff)
  have "concat (map (\<lambda>c. if path_plain c then [c] else CHR ''%'' # hex_pad True 2 (of_char c)) s) = s"
    using p(1) by (induction s) auto
  then show "PathEscape s = s" by (simp add: PathEscape_def)
  have "\<not> path_plain (CHR ''/'')" by (simp add: path_plain_def)
  then show "CHR ''/'' \<notin> set s" using p(1) by blast
  show "s \<noteq> []" by (rule p(2))
qed

lemma split_on_none: "c \<notin> set s \<Longrightarrow> split_on c s = [s]"
  by (induction s) auto

lemma client_paths:
  assumes "plain_name ns" and "plain_name name" and "cl = \<lparr>el_base_url = base, el_namespace = ns\<rparr>"
  shows "\<exists>p. devicesPath cl = base @ CHR ''/'' # p \<and> path_segments (CHR ''/'' # p) = [''api'', ''v1'', ''namespaces'', ns, ''devices'']"
    and "\<exists>p. devicePath cl name = base @ CHR ''/'' # p \<and>
      path_segments (CHR ''/'' # p) = [''api'', ''v1'', ''namespaces'', ns, ''devices'', name]"
    and "\<exists>p. simulateCANPath cl name = base @ CHR ''/'' # p \<and>
      path_segments (CHR ''/'' # p) = [''api'', ''v1'', ''namespaces'', ns, ''devices'', name, ''simulate'', ''can'']"
  using assms(3)
  by (simp_all add: devicesPath_def devicePath_def simulateCANPath_def path_segments_def plain_name_facts [OF assms(1)]
      plain_name_facts [OF assms(2)] split_on_line split_on_none)

lemma server_routed:
  assumes "router_law R" and "ns \<noteq> []" and "name \<noteq> []"
  shows "R server_routes ''GET'' [''api'', ''v1'', ''namespaces'', ns, ''devices''] = Some (EndList, [(''namespace'', ns)])"
    and "R server_routes ''GET'' [''api'', ''v1'', ''namespaces'', ns, ''devices'', ''stream''] = Some (EndStream, [(''namespace'', ns)])"
    and "name \<noteq> ''stream'' \<Longrightarrow> R server_routes ''GET'' [''api'', ''v1'', ''namespaces'', ns, ''devices'', name] =
      Some (EndGet, [(''namespace'', ns), (''name'', name)])"
    and "R server_routes ''POST'' [''api'', ''v1'', ''namespaces'', ns, ''devices'', name] =
      Some (EndCreate, [(''namespace'', ns), (''name'', name)])"
    and "R server_routes ''DELETE'' [''api'', ''v1'', ''namespaces'', ns, ''devices'', name] =
      Some (EndDelete, [(''namespace'', ns), (''name'', name)])"
    and "R server_routes ''POST'' [''api'', ''v1'', ''namespaces'', ns, ''devices'', name, ''simulate'', ''can''] =
      Some (EndSimulate, [(''namespace'', ns), (''name'', name)])"
proof -
  have ne: "[] \<noteq> ns" "[] \<noteq> name" using assms(2,3) by auto
  let ?front = "[Literal ''api'', Literal ''v1'', Literal ''namespaces'', Variable ''namespace'', Literal ''devices'']"
  note picks = router_picks [OF assms(1)]
  have table: "server_routes = (''GET'', [Literal ''healthz''], EndHealthz) # mount ?front Routes"
    by (simp add: server_routes_def mount_def Routes_def)
  note defs = table mount_def Routes_def
  show "R server_routes ''GET'' [''api'', ''v1'', ''namespaces'', ns, ''devices''] = Some (EndList, [(''namespace'', ns)])"
    by (rule picks [where pat = ?front]) (simp_all add: defs ne)
  show "R server_routes ''GET'' [''api'', ''v1'', ''namespaces'', ns, ''devices'', ''stream''] = Some (EndStream, [(''namespace'', ns)])"
    by (rule picks [where pat = "?front @ [Literal ''stream'']"]) (simp_all add: defs ne)
  show "R server_routes ''GET'' [''api'', ''v1'', ''namespaces'', ns, ''devices'', name] =
      Some (EndGet, [(''namespace'', ns), (''name'', name)])" if "name \<noteq> ''stream''"
    by (rule picks [where pat = "?front @ [Variable ''name'']"]) (use that in \<open>simp_all add: defs ne\<close>)
  show "R server_routes ''POST'' [''api'', ''v1'', ''namespaces'', ns, ''devices'', name] =
      Some (EndCreate, [(''namespace'', ns), (''name'', name)])"
    by (rule picks [where pat = "?front @ [Variable ''name'']"]) (simp_all add: defs ne)
  show "R server_routes ''DELETE'' [''api'', ''v1'', ''namespaces'', ns, ''devices'', name] =
      Some (EndDelete, [(''namespace'', ns), (''name'', name)])"
    by (rule picks [where pat = "?front @ [Variable ''name'']"]) (simp_all add: defs ne)
  show "R server_routes ''POST'' [''api'', ''v1'', ''namespaces'', ns, ''devices'', name, ''simulate'', ''can''] =
      Some (EndSimulate, [(''namespace'', ns), (''name'', name)])"
    by (rule picks [where pat = "?front @ [Variable ''name'', Literal ''simulate'', Literal ''can'']"])
      (simp_all add: defs ne)
qed

text \<open>Every handler answers with what its caller waits for, or with an error.\<close>

definition answered :: "(api_body \<Rightarrow> bool) \<Rightarrow> int \<Rightarrow> response \<Rightarrow> bool" where
  "answered P code r \<longleftrightarrow> (fst r = code \<and> P (snd r)) \<or> (400 \<le> fst r \<and> (\<exists>e. snd r = BodyError e))"

lemma answered_error [simp]: "400 \<le> n \<Longrightarrow> answered P code (writeError n e)"
  by (simp add: answered_def writeError_def)

lemma answered_body [simp]: "P b \<Longrightarrow> answered P code (code, b)"
  by (simp add: answered_def)

lemma fetchDevice_error: "fetchDevice c w ns name = Inl r \<Longrightarrow> answered P code r"
  by (auto simp: fetchDevice_def split: sum.splits kube_error.splits)

lemma handler_answers:
  "answered (\<lambda>b. \<exists>ds. b = BodyDevices ds) 200 (listDevices c w ns)"
  "answered (\<lambda>b. \<exists>d. b = BodyDevice d) 200 (getDevice c w ns name)"
  "answered (\<lambda>b. \<exists>d. b = BodyDevice d) 201 (snd (createDevice c w ns name body1))"
  "answered (\<lambda>b. b = NoBody) 204 (snd (deleteDevice c w ns name))"
  "answered (\<lambda>b. \<exists>s. b = BodySimulation s) 200 (snd (simulateCAN c w ns name body2))"
      apply (simp add: listDevices_def split: sum.split)
     apply (simp add: getDevice_def fetchDevice_error split: sum.split)
    apply (unfold createDevice_def Let_def)
    apply (intro allI impI conjI | split sum.split if_split option.split prod.split kube_error.split | simp)+
   apply (simp add: deleteDevice_def fetchDevice_error split: sum.split option.split prod.split)
  apply (unfold simulateCAN_def Let_def)
  apply (intro allI impI conjI | split sum.split if_split option.split prod.split kube_error.split | simp)+
  done

lemma doJSON_told:
  assumes "body = None \<and> sent = None \<or> body = Some (Inr data) \<and> sent = Some data"
    and "hl_do H w verb path sent = (w', Inr (writeJSON J r))"
    and "(\<exists>x. read r = Some x \<and> fst r = code \<and> decode (hr_body (writeJSON J r)) = Inr x) \<or>
      (\<exists>e. read r = None \<and> fst r \<noteq> code \<and> snd r = BodyError e)"
    and "\<forall>e t. rj_encode J (BodyError e) = Some t \<longrightarrow> hl_decode_error H t = Inr (rj_error J e)"
    and "encoded J r"
  shows "doJSON H w verb path body code decode = (w', told J read r)"
proof -
  have d: "doJSON H w verb path body code decode =
      (if hr_code (writeJSON J r) \<noteq> code then (w', Inl (decodeAPIError H (writeJSON J r)))
       else (case decode (hr_body (writeJSON J r)) of Inl e \<Rightarrow> (w', Inl (''decode response: '' @ e)) | Inr x \<Rightarrow> (w', Inr x)))"
    using assms(1,2) by (auto simp: doJSON_def)
  from assms(3) show ?thesis
    unfolding d by (elim disjE exE conjE) (use assms(4,5) in \<open>auto simp: told_def decodeAPIError_def writeJSON_def encoded_def\<close>)
qed

lemma api_link_facts:
  assumes "api_link H base c J R stream"
  shows "router_law R"
    and "hl_do H w verb (base @ CHR ''/'' # p) body = apsnd Inr (api_serve c J R stream w verb (CHR ''/'' # p) body)"
    and "rj_encode J (BodyDevice d) = Some t \<Longrightarrow> hl_decode_device H t = Inr d"
    and "rj_encode J (BodyDevices ds) = Some t \<Longrightarrow> hl_decode_devices H t = Inr ds"
    and "rj_encode J (BodySimulation s) = Some t \<Longrightarrow> hl_decode_simulation H t = Inr s"
    and "\<forall>e t. rj_encode J (BodyError e) = Some t \<longrightarrow> hl_decode_error H t = Inr (rj_error J e)"
    and "hl_marshal_create H req = Inr data \<Longrightarrow> rj_create J data = Inr req"
    and "hl_marshal_simulate H sreq = Inr data \<Longrightarrow> rj_simulate J data = Inr sreq"
  using assms unfolding api_link_def by blast+

lemma client_reaches:
  assumes "api_link H base c J R stream" and "path = base @ CHR ''/'' # p"
    and "R server_routes verb (path_segments (CHR ''/'' # p)) = Some (e, ps)"
  shows "hl_do H w verb path body = apsnd Inr (serve_endpoint c J stream w e ps (case body of None \<Rightarrow> [] | Some data \<Rightarrow> data))"
  by (simp add: assms(2) api_link_facts(2) [OF assms(1)] api_serve_def assms(3))

lemma answered_read:
  assumes "answered P code r" and "encoded J r" and "code < 400"
    and "\<And>b. P b \<Longrightarrow> encoded J (code, b) \<Longrightarrow> \<exists>x. read (code, b) = Some x \<and> decode (hr_body (writeJSON J (code, b))) = Inr x"
    and "\<And>n e. 400 \<le> n \<Longrightarrow> read (n, BodyError e) = None"
  shows "(\<exists>x. read r = Some x \<and> fst r = code \<and> decode (hr_body (writeJSON J r)) = Inr x) \<or>
      (\<exists>e. read r = None \<and> fst r \<noteq> code \<and> snd r = BodyError e)"
  using assms by (cases r) (fastforce simp: answered_def)

lemma surj_pair_told: "(apsnd f r) = (fst r, f (snd r))"
  by (simp add: apsnd_def map_prod_def split: prod.split)

lemma apsnd_twice: "apsnd f (apsnd g r) = (fst r, f (g (snd r)))"
  by (simp add: surj_pair_told)

lemma plain_stream: "plain_name ''stream''"
  by (simp add: plain_name_def path_plain_def)

lemma client_calls:
  assumes "api_link H base c J R stream" and "cl = \<lparr>el_base_url = base, el_namespace = ns\<rparr>"
    and "plain_name ns" and "plain_name name"
  shows "encoded J (listDevices c w ns) \<Longrightarrow> client_ListDevices H cl w = (w, told J all_devices (listDevices c w ns))"
    and "encoded J (getDevice c w ns name) \<Longrightarrow> name \<noteq> ''stream'' \<Longrightarrow> client_GetDevice H cl w name = (w, told J (a_device 200) (getDevice c w ns name))"
    and "encoded J (snd (createDevice c w ns name (Inr req))) \<Longrightarrow> dc_name req = name \<Longrightarrow> hl_marshal_create H req = Inr data \<Longrightarrow> client_CreateDevice H cl w req =
      apsnd (told J (a_device 201)) (createDevice c w ns name (Inr req))"
    and "encoded J (snd (deleteDevice c w ns name)) \<Longrightarrow> client_DeleteDevice H cl w name = apsnd (told J deleted) (deleteDevice c w ns name)"
    and "encoded J (snd (simulateCAN c w ns name (Inr sreq))) \<Longrightarrow> hl_marshal_simulate H sreq = Inr sdata \<Longrightarrow> client_SimulateCAN H cl w name sreq =
      apsnd (told J a_simulation) (simulateCAN c w ns name (Inr sreq))"
    and "hl_do H w ''GET'' (devicePath cl ''stream'') None = apsnd Inr (stream w ns)"
proof -
  note L = api_link_facts [OF assms(1)] and P = plain_name_facts [OF assms(4)] plain_name_facts [OF assms(3)]
  note paths = client_paths [OF assms(3,4,2)] and routed = server_routed [OF L(1) P(6) P(3)]
  have params: "URLParam [(''namespace'', ns)] ''namespace'' = ns"
    "URLParam [(''namespace'', ns), (''name'', name)] ''namespace'' = ns"
    "URLParam [(''namespace'', ns), (''name'', name)] ''name'' = name" by (simp_all add: URLParam_def)
  note serve = serve_endpoint_def Let_def params
  obtain pl pd ps where p: "devicesPath cl = base @ CHR ''/'' # pl" "path_segments (CHR ''/'' # pl) = [''api'', ''v1'', ''namespaces'', ns, ''devices'']"
    "devicePath cl name = base @ CHR ''/'' # pd" "path_segments (CHR ''/'' # pd) = [''api'', ''v1'', ''namespaces'', ns, ''devices'', name]"
    "simulateCANPath cl name = base @ CHR ''/'' # ps"
    "path_segments (CHR ''/'' # ps) = [''api'', ''v1'', ''namespaces'', ns, ''devices'', name, ''simulate'', ''can'']"
    using paths by (elim exE conjE)
  show "client_ListDevices H cl w = (w, told J all_devices (listDevices c w ns))"
    if "encoded J (listDevices c w ns)"
    unfolding client_ListDevices_def
    by (rule doJSON_told [where sent = None, OF _ _ answered_read [OF handler_answers(1) that] L(6) that])
      (auto simp: client_reaches [OF assms(1) p(1)] p(2) routed(1) serve writeJSON_def encoded_def L(4))
  show "client_GetDevice H cl w name = (w, told J (a_device 200) (getDevice c w ns name))" if "encoded J (getDevice c w ns name)" "name \<noteq> ''stream''"
    unfolding client_GetDevice_def
    by (rule doJSON_told [where sent = None, OF _ _ answered_read [OF handler_answers(2) that(1)] L(6) that(1)])
      (auto simp: client_reaches [OF assms(1) p(3)] p(4) routed(3) [OF that(2)] serve writeJSON_def encoded_def L(3))
  show "client_DeleteDevice H cl w name = apsnd (told J deleted) (deleteDevice c w ns name)"
    if "encoded J (snd (deleteDevice c w ns name))"
    unfolding client_DeleteDevice_def apsnd_conv [symmetric]
    by (subst surj_pair_told, rule doJSON_told [where sent = None, OF _ _ answered_read [OF handler_answers(4) that] L(6) that])
      (auto simp: client_reaches [OF assms(1) p(3)] p(4) routed(5) serve apsnd_twice)
  show "client_CreateDevice H cl w req = apsnd (told J (a_device 201)) (createDevice c w ns name (Inr req))"
    if "encoded J (snd (createDevice c w ns name (Inr req)))" "dc_name req = name" "hl_marshal_create H req = Inr data"
    unfolding client_CreateDevice_def that(2,3) if_not_P [OF P(3)]
    by (subst surj_pair_told, rule doJSON_told [where sent = "Some data", OF _ _ answered_read [OF handler_answers(3) that(1)] L(6) that(1)])
      (auto simp: client_reaches [OF assms(1) p(3)] p(4) routed(4) serve apsnd_twice writeJSON_def encoded_def L(3) L(7) [OF that(3)])
  show "client_SimulateCAN H cl w name sreq = apsnd (told J a_simulation) (simulateCAN c w ns name (Inr sreq))"
    if "encoded J (snd (simulateCAN c w ns name (Inr sreq)))" "hl_marshal_simulate H sreq = Inr sdata"
    unfolding client_SimulateCAN_def that(2) if_not_P [OF P(3)]
    by (subst surj_pair_told, rule doJSON_told [where sent = "Some sdata", OF _ _ answered_read [OF handler_answers(5) that(1)] L(6) that(1)])
      (auto simp: client_reaches [OF assms(1) p(5)] p(6) routed(6) serve apsnd_twice writeJSON_def encoded_def L(5) L(8) [OF that(2)])
  obtain q where q: "devicePath cl ''stream'' = base @ CHR ''/'' # q"
    "path_segments (CHR ''/'' # q) = [''api'', ''v1'', ''namespaces'', ns, ''devices'', ''stream'']"
    using client_paths(2) [OF assms(3) plain_stream assms(2)] by (elim exE conjE)
  show "hl_do H w ''GET'' (devicePath cl ''stream'') None = apsnd Inr (stream w ns)"
    unfolding client_reaches [OF assms(1) q(1), unfolded q(2), OF routed(2)] by (simp add: serve)
qed

text \<open>
  C13: Every call of the client of elpctl is one call of a handler. Against an API server reached by any
  transport, for a namespace and a name that need no escaping and answers that JSON can encode, the client's list, get, create,
  delete and simulate have exactly the effect of the handler of that name on the cluster, in this namespace
  and for this device, and return what it answers: its devices or simulation, or the text of its error.
  A device called stream is the exception: reading it is answered by the event stream.
\<close>

theorem elpctl_calls_handlers:
  assumes "api_link H base c J R stream" and "cl = \<lparr>el_base_url = base, el_namespace = ns\<rparr>"
    and "plain_name ns" and "plain_name name"
  shows "(encoded J (listDevices c w ns) \<longrightarrow> client_ListDevices H cl w = (w, told J all_devices (listDevices c w ns))) \<and>
    (encoded J (getDevice c w ns name) \<longrightarrow> name \<noteq> ''stream'' \<longrightarrow> client_GetDevice H cl w name = (w, told J (a_device 200) (getDevice c w ns name))) \<and>
    (\<forall>req data. encoded J (snd (createDevice c w ns name (Inr req))) \<longrightarrow> dc_name req = name \<longrightarrow> hl_marshal_create H req = Inr data \<longrightarrow> client_CreateDevice H cl w req =
      apsnd (told J (a_device 201)) (createDevice c w ns name (Inr req))) \<and>
    (encoded J (snd (deleteDevice c w ns name)) \<longrightarrow> client_DeleteDevice H cl w name = apsnd (told J deleted) (deleteDevice c w ns name)) \<and>
    (\<forall>req data. encoded J (snd (simulateCAN c w ns name (Inr req))) \<longrightarrow> hl_marshal_simulate H req = Inr data \<longrightarrow> client_SimulateCAN H cl w name req =
      apsnd (told J a_simulation) (simulateCAN c w ns name (Inr req))) \<and>
    hl_do H w ''GET'' (devicePath cl ''stream'') None = apsnd Inr (stream w ns)"
  by (intro conjI impI allI client_calls [OF assms])

text \<open>A cluster with at most one device, whose state is whether it is there.\<close>

definition depot_api :: "bool rest_client" where
  "depot_api =
     \<lparr>ra_list = (\<lambda>w ns. Inr (if w then [example_simulator] else [])),
      ra_get = (\<lambda>w k. if w then Inr example_simulator else Inl (KubeNotFound ''gone'')),
      ra_create = (\<lambda>w d. (True, Inr d)), ra_patch = (\<lambda>w a b. (w, Inr b)), ra_delete = (\<lambda>w d. (False, None)),
      ra_get_simulation = (\<lambda>w k. Inl (KubeNotFound ''none'')), ra_create_simulation = (\<lambda>w s. (w, Inr s)),
      ra_patch_simulation = (\<lambda>w a b. (w, Inr b)), PublishFlags = (\<lambda>w d. (w, None))\<rparr>"

definition depot_json :: rest_json where
  "depot_json =
     \<lparr>rj_encode = (\<lambda>b. case b of
          BodyError e \<Rightarrow> Some ''error''
        | BodyDevice d \<Rightarrow> if d = DeviceFromCR example_simulator then Some ''device'' else None
        | _ \<Rightarrow> None),
      rj_error = (\<lambda>e. ''not found''), rj_status = (\<lambda>n. ''status''), rj_create = (\<lambda>t. Inl ''syntax''), rj_update = (\<lambda>t. Inl ''syntax''),
      rj_simulate = (\<lambda>t. Inl ''syntax''), rj_unrouted = \<lparr>hr_code = 404, hr_status = ''404'', hr_body = []\<rparr>\<rparr>"

definition depot_stream :: "bool \<Rightarrow> string \<Rightarrow> bool \<times> http_response" where
  "depot_stream w ns = (w, \<lparr>hr_code = 200, hr_status = ''200 OK'', hr_body = ''event: snapshot''\<rparr>)"

definition depot_http :: "bool http_lib" where
  "depot_http =
     \<lparr>hl_do = (\<lambda>w verb url body. apsnd Inr (api_serve depot_api depot_json least_router depot_stream w verb (drop 12 url) body)),
      hl_decode_error = (\<lambda>t. Inr ''not found''), hl_decode_device = (\<lambda>t. Inr (DeviceFromCR example_simulator)),
      hl_decode_devices = (\<lambda>t. Inl ''syntax''), hl_decode_simulation = (\<lambda>t. Inl ''syntax''),
      hl_marshal_create = (\<lambda>r. Inl ''no''), hl_marshal_simulate = (\<lambda>r. Inl ''no'')\<rparr>"

lemma depot_link: "api_link depot_http ''http://depot'' depot_api depot_json least_router depot_stream"
  unfolding api_link_def
  by (intro conjI least_router_law) (auto simp: depot_http_def depot_json_def split: api_body.splits if_splits)

theorem elpctl_calls_handlers_witness:
  "client_GetDevice depot_http \<lparr>el_base_url = ''http://depot'', el_namespace = ''layout''\<rparr> True ''sim1'' =
      (True, Inr (DeviceFromCR example_simulator)) \<and>
   client_DeleteDevice depot_http \<lparr>el_base_url = ''http://depot'', el_namespace = ''layout''\<rparr> True ''sim1'' = (False, Inr ()) \<and>
   client_DeleteDevice depot_http \<lparr>el_base_url = ''http://depot'', el_namespace = ''layout''\<rparr> False ''sim1'' = (False, Inl ''not found'')"
proof -
  let ?cl = "\<lparr>el_base_url = ''http://depot'', el_namespace = ''layout''\<rparr>"
  have plain: "plain_name ''layout''" "plain_name ''sim1''" by (simp_all add: plain_name_def path_plain_def)
  note use_it = elpctl_calls_handlers [OF depot_link refl plain]
  have g: "getDevice depot_api True ''layout'' ''sim1'' = (200, BodyDevice (DeviceFromCR example_simulator))"
    by (simp add: getDevice_def fetchDevice_def depot_api_def)
  have d: "deleteDevice depot_api True ''layout'' ''sim1'' = (False, 204, NoBody)"
    "deleteDevice depot_api False ''layout'' ''sim1'' = (False, 404, BodyError (ApiKube (KubeNotFound ''gone'')))"
    by (simp_all add: deleteDevice_def fetchDevice_def depot_api_def writeError_def)
  have "client_GetDevice depot_http ?cl True ''sim1'' = (True, Inr (DeviceFromCR example_simulator))"
    using use_it [of True] by (simp add: g encoded_def depot_json_def told_def)
  moreover have "client_DeleteDevice depot_http ?cl True ''sim1'' = (False, Inr ())"
    using use_it [of True] by (simp add: d encoded_def told_def)
  moreover have "client_DeleteDevice depot_http ?cl False ''sim1'' = (False, Inl ''not found'')"
    using use_it [of False] by (simp add: d encoded_def depot_json_def told_def)
  ultimately show ?thesis by blast
qed

end
