(* ===== verification/Sim_Trace.thy ===== *)
theory Sim_Trace
  imports Wire_Bytes Elp_Prelude
begin

text \<open>
  The tracer of the simulator (\<^verbatim>\<open>apps/z21-sim/internal/trace/trace.go\<close>): the split of a datagram into
  its datasets, the hex dump, and the text of a LAN datagram, a broadcast and a gRPC request. The
  protocol package and the JSON form of protobuf messages are parameters. A tracer without output
  does nothing and is left out.

  Lemmas: the datasets tile the datagram, so the loop over them ends; the dump of any bytes reads back as
  these bytes.
\<close>

section \<open>The protocol package\<close>

record trace_protocol =
  tp_parse_all :: "bytes \<Rightarrow> string + message list"
  tp_unmarshal :: "bytes \<Rightarrow> string + message \<times> bytes"
  tp_message_name :: "message \<Rightarrow> string"
  tp_known_flags :: "(string \<times> u32) list"
  tp_format_flags :: "u32 \<Rightarrow> string"

definition DirectionRX :: string where "DirectionRX = ''<<''"
definition DirectionTX :: string where "DirectionTX = ''>>''"

section \<open>Datasets\<close>

record wire_dataset =
  wd_msg :: message
  wd_offset :: nat
  wd_wire :: bytes

text \<open>
  The loop as the code has it, \<open>None\<close> when it never ends; \<open>tail\<close> is a slice of \<open>rest\<close>, so it is not
  longer.
\<close>

partial_function (option) wire_loop ::
  "trace_protocol \<Rightarrow> bytes \<Rightarrow> nat \<Rightarrow> wire_dataset list \<Rightarrow> (string + wire_dataset list) option" where
  "wire_loop T rest offset out =
     (if rest = [] then Some (Inr out)
      else (case tp_unmarshal T rest of
        Inl e \<Rightarrow> Some (Inl e)
      | Inr (msg, tail) \<Rightarrow>
          (let consumed = length rest - length tail
           in wire_loop T tail (offset + consumed)
                (out @ [\<lparr>wd_msg = msg, wd_offset = offset, wd_wire = take consumed rest\<rparr>]))))"

definition wireDatasets :: "trace_protocol \<Rightarrow> bytes \<Rightarrow> (string + wire_dataset list) option" where
  "wireDatasets T raw = wire_loop T raw 0 []"

definition datasetSummary :: "trace_protocol \<Rightarrow> message \<Rightarrow> nat \<Rightarrow> string" where
  "datasetSummary T msg wireLen =
     (if 0 < wireLen then tp_message_name T msg @ '' ('' @ nat_dec wireLen @ '' bytes)'' else tp_message_name T msg)"

section \<open>The hex dump\<close>

definition line_end :: char where "line_end = CHR 0x0A"

definition hex_cell :: "bytes \<Rightarrow> nat \<Rightarrow> string" where
  "hex_cell chunk i =
     (if i < length chunk then hex_pad False 2 (unat (chunk ! i)) @ '' '' else ''   '') @ (if i = 7 then '' '' else [])"

definition ascii_cell :: "u8 \<Rightarrow> char" where
  "ascii_cell b = (if 32 \<le> b \<and> b < 127 then byte_char b else CHR ''.'')"

text \<open>Offsets are below \<open>16 ^ 8\<close>, as a datagram has at most 65535 bytes.\<close>

definition hexdump_line :: "string \<Rightarrow> nat \<Rightarrow> bytes \<Rightarrow> string" where
  "hexdump_line indent offset chunk =
     indent @ hex_pad False 8 offset @ ''  '' @ concat (map (hex_cell chunk) [0..<16]) @ '' |'' @
     map ascii_cell chunk @ ''|''"

function hexdump_loop :: "nat \<Rightarrow> bytes \<Rightarrow> string \<Rightarrow> nat \<Rightarrow> string" where
  "hexdump_loop baseOffset data indent offset =
     (if offset < length data
      then hexdump_line indent (baseOffset + offset) (take (min (offset + 16) (length data) - offset) (drop offset data)) @
        [line_end] @ hexdump_loop baseOffset data indent (offset + 16)
      else [])"
  by pat_completeness auto

termination by (relation "measure (\<lambda>(b, data, s, offset). length data - offset)") auto

declare hexdump_loop.simps [simp del]

definition writeHexdumpAt :: "nat \<Rightarrow> bytes \<Rightarrow> string \<Rightarrow> string" where
  "writeHexdumpAt baseOffset data indent = hexdump_loop baseOffset data indent 0"

definition writeHexdump :: "bytes \<Rightarrow> string" where
  "writeHexdump data = writeHexdumpAt 0 data []"

definition writeIndentedHexdump :: "nat \<Rightarrow> bytes \<Rightarrow> string" where
  "writeIndentedHexdump baseOffset data = writeHexdumpAt baseOffset data ''       ''"

section \<open>Traces\<close>

definition plain_dump :: "string \<Rightarrow> string \<Rightarrow> bytes \<Rightarrow> string" where
  "plain_dump direction endpoint raw =
     ''LAN '' @ direction @ '' '' @ endpoint @ '' ('' @ nat_dec (length raw) @ '' bytes)'' @ [line_end] @ writeHexdump raw"

fun dump_datasets :: "trace_protocol \<Rightarrow> nat \<Rightarrow> nat \<Rightarrow> wire_dataset list \<Rightarrow> string" where
  "dump_datasets T n i [] = []"
| "dump_datasets T n i (ds # dss) =
     ''   ['' @ nat_dec (i + 1) @ ''/'' @ nat_dec n @ ''] '' @ datasetSummary T (wd_msg ds) (length (wd_wire ds)) @ [line_end] @
     writeIndentedHexdump (wd_offset ds) (wd_wire ds) @ dump_datasets T n (i + 1) dss"

text \<open>What is written for a datagram; \<open>None\<close> when the split into datasets does not end.\<close>

definition LogLAN :: "trace_protocol \<Rightarrow> string \<Rightarrow> string \<Rightarrow> bytes \<Rightarrow> string option" where
  "LogLAN T direction endpoint raw =
     (if raw = [] then Some []
      else if (case tp_parse_all T raw of Inl e \<Rightarrow> True | Inr msgs \<Rightarrow> msgs = []) then Some (plain_dump direction endpoint raw)
      else (case wireDatasets T raw of
        None \<Rightarrow> None
      | Some (Inl e) \<Rightarrow> Some (plain_dump direction endpoint raw)
      | Some (Inr []) \<Rightarrow> Some (plain_dump direction endpoint raw)
      | Some (Inr [ds]) \<Rightarrow> Some
          (''LAN '' @ direction @ '' '' @ endpoint @ '' ('' @ nat_dec (length raw) @ '' bytes)'' @ [line_end] @
           ''   '' @ datasetSummary T (wd_msg ds) (length (wd_wire ds)) @ [line_end] @ writeHexdump (wd_wire ds))
      | Some (Inr dss) \<Rightarrow> Some
          (''LAN '' @ direction @ '' '' @ endpoint @ '' ('' @ nat_dec (length raw) @ '' bytes, '' @ nat_dec (length dss) @
           '' datasets)'' @ [line_end] @ dump_datasets T (length dss) 0 dss)))"

definition broadcastFlagName :: "trace_protocol \<Rightarrow> u32 \<Rightarrow> string" where
  "broadcastFlagName T flag =
     (case find (\<lambda>(name, value). value = flag) (tp_known_flags T) of
        Some (name, value) \<Rightarrow> name | None \<Rightarrow> tp_format_flags T flag)"

definition formatBroadcastEndpoint :: "trace_protocol \<Rightarrow> u32 \<Rightarrow> string list \<Rightarrow> string" where
  "formatBroadcastEndpoint T flag recipients =
     (case recipients of
        [] \<Rightarrow> ''broadcast '' @ broadcastFlagName T flag @ '' (0 recipients)''
      | [r] \<Rightarrow> ''broadcast '' @ broadcastFlagName T flag @ '' -> '' @ r
      | rs \<Rightarrow> ''broadcast '' @ broadcastFlagName T flag @ '' -> '' @ join_with '', '' rs)"

text \<open>\<^verbatim>\<open>LogLANBroadcast\<close> repeats the body of \<^verbatim>\<open>LogLAN\<close> for the formatted endpoint.\<close>

definition LogLANBroadcast :: "trace_protocol \<Rightarrow> u32 \<Rightarrow> string list \<Rightarrow> bytes \<Rightarrow> string option" where
  "LogLANBroadcast T flag recipients raw = LogLAN T DirectionTX (formatBroadcastEndpoint T flag recipients) raw"

text \<open>\<open>marshal\<close> is protojson, \<open>show\<close> the format \<^verbatim>\<open>%v\<close>; a request may be absent.\<close>

definition LogGRPC :: "('r \<Rightarrow> string + string) \<Rightarrow> ('r \<Rightarrow> string) \<Rightarrow> string \<Rightarrow> 'r option \<Rightarrow> string" where
  "LogGRPC marshal show_request verb req =
     ''gRPC << '' @ verb @ [line_end] @
     (case req of
        None \<Rightarrow> []
      | Some r \<Rightarrow> ''   '' @ (case marshal r of Inr b \<Rightarrow> b | Inl e \<Rightarrow> show_request r) @ [line_end])"

section \<open>Datasets tile the datagram\<close>

text \<open>The protocol package takes at least the four bytes of length and header from the front.\<close>

definition unmarshal_law :: "trace_protocol \<Rightarrow> bool" where
  "unmarshal_law T \<longleftrightarrow>
     (\<forall>rest msg tail. tp_unmarshal T rest = Inr (msg, tail) \<longrightarrow> (\<exists>c. c \<noteq> [] \<and> rest = c @ tail))"

fun tiles :: "nat \<Rightarrow> wire_dataset list \<Rightarrow> bytes \<Rightarrow> bool" where
  "tiles offset [] raw \<longleftrightarrow> raw = []"
| "tiles offset (d # ds) raw \<longleftrightarrow>
     wd_offset d = offset \<and> wd_wire d \<noteq> [] \<and> raw = wd_wire d @ drop (length (wd_wire d)) raw \<and>
     tiles (offset + length (wd_wire d)) ds (drop (length (wd_wire d)) raw)"

lemma wire_loop_tiles:
  assumes "unmarshal_law T"
  shows "\<exists>r. wire_loop T rest offset out = Some r \<and>
    (case r of Inl e \<Rightarrow> True | Inr ds \<Rightarrow> \<exists>new. ds = out @ new \<and> tiles offset new rest)"
proof (induction "length rest" arbitrary: rest offset out rule: less_induct)
  case less
  show ?case
  proof (cases "rest = []")
    case True
    then show ?thesis by (subst wire_loop.simps) (auto intro!: exI [of _ "[]"])
  next
    case False
    show ?thesis
    proof (cases "tp_unmarshal T rest")
      case (Inl e)
      then show ?thesis using False by (subst wire_loop.simps) simp
    next
      case (Inr mt)
      obtain msg tail where mt: "mt = (msg, tail)" by fastforce
      then obtain c where c: "c \<noteq> []" "rest = c @ tail" using assms Inr unfolding unmarshal_law_def by blast
      let ?d = "\<lparr>wd_msg = msg, wd_offset = offset, wd_wire = c\<rparr>"
      have step: "wire_loop T rest offset out = wire_loop T tail (offset + length c) (out @ [?d])"
        using False Inr mt c by (subst wire_loop.simps) (simp add: Let_def)
      have "length tail < length rest" using c by simp
      from less.hyps [OF this, of "offset + length c" "out @ [?d]"] obtain r where
        r: "wire_loop T tail (offset + length c) (out @ [?d]) = Some r"
        "case r of Inl e \<Rightarrow> True | Inr ds \<Rightarrow> \<exists>new. ds = (out @ [?d]) @ new \<and> tiles (offset + length c) new tail" by blast
      show ?thesis
      proof (cases r)
        case (Inr ds)
        then obtain new where "ds = (out @ [?d]) @ new" "tiles (offset + length c) new tail" using r(2) by auto
        then have "ds = out @ (?d # new) \<and> tiles offset (?d # new) rest" using c by simp
        then show ?thesis using step r(1) Inr by auto
      qed (use step r(1) in auto)
    qed
  qed
qed

lemma tiles_concat: "tiles offset ds raw \<Longrightarrow> concat (map wd_wire ds) = raw"
  by (induction ds arbitrary: offset raw) (simp, metis concat.simps(2) list.simps(9) tiles.simps(2))

section \<open>Reading a dump back\<close>

text \<open>
  The bytes of a dump: of every line the words between the offset, which starts after the indent
  and has ten characters, and the bar.
\<close>

definition words_of :: "string \<Rightarrow> string list" where
  "words_of s = filter (\<lambda>w. w \<noteq> []) (split_on (CHR '' '') s)"

definition read_byte :: "string \<Rightarrow> u8" where
  "read_byte w = (case parse_uint 16 8 w of Inl e \<Rightarrow> 0 | Inr v \<Rightarrow> word_of_nat v)"

definition read_line :: "nat \<Rightarrow> string \<Rightarrow> bytes" where
  "read_line n l = map read_byte (words_of (takeWhile (\<lambda>c. c \<noteq> CHR ''|'') (drop (n + 10) l)))"

definition read_dump :: "nat \<Rightarrow> string \<Rightarrow> bytes" where
  "read_dump n s = concat (map (read_line n) (butlast (split_on line_end s)))"

lemma words_of_simps [simp]:
  "words_of [] = []" "words_of (CHR '' '' # s) = words_of s"
  by (simp_all add: words_of_def)

lemma words_of_word:
  "CHR '' '' \<notin> set w \<Longrightarrow> w \<noteq> [] \<Longrightarrow> words_of (w @ CHR '' '' # s) = w # words_of s"
  by (simp add: words_of_def split_on_line)

lemma hex_digits_plain:
  "CHR '' '' \<notin> set (hex_pad False n k)" "CHR ''|'' \<notin> set (hex_pad False n k)" "line_end \<notin> set (hex_pad False n k)"
proof -
  have "\<forall>d \<in> set [0..<16]. digit_chars False ! d \<notin> {CHR '' '', CHR ''|'', line_end}" unfolding line_end_def by code_simp
  then have "digit_chars False ! (k mod 16) \<notin> {CHR '' '', CHR ''|'', line_end}" for k by simp
  then have "x \<in> {CHR '' '', CHR ''|'', line_end} \<Longrightarrow> x \<notin> set (hex_pad False n k)" for x
    by (induction n arbitrary: k) (simp, metis Un_iff empty_iff hex_pad.simps(2) insert_iff list.set set_append)
  then show "CHR '' '' \<notin> set (hex_pad False n k)" "CHR ''|'' \<notin> set (hex_pad False n k)" "line_end \<notin> set (hex_pad False n k)"
    by simp_all
qed

lemma filter_upt_below: "m \<le> n \<Longrightarrow> filter (\<lambda>i. i < m) [0..<n] = [0..<m]"
  using upt_add_eq_append [of 0 m "n - m"] by (auto simp: filter_empty_conv)

lemma length_hex_pad [simp]: "length (hex_pad u n k) = n"
  by (induction n arbitrary: k) simp_all

lemma read_byte_hex: "read_byte (hex_pad False 2 (unat b)) = b"
proof -
  have "unat b < 2 ^ 8" using unsigned_less [of b, where ?'a = nat] by simp
  then show ?thesis using parse_uint_hex_pad [of "unat b" 2 8 False] by (simp add: read_byte_def)
qed

lemma words_of_cell:
  "words_of (hex_cell chunk i @ s) = (if i < length chunk then [hex_pad False 2 (unat (chunk ! i))] else []) @ words_of s"
proof -
  have "CHR '' '' \<notin> set (hex_pad False 2 k)" "hex_pad False 2 k \<noteq> []" for k
    using hex_digits_plain(1) length_hex_pad [of False 2 k] by (auto simp del: length_hex_pad)
  then show ?thesis using words_of_word by (simp add: hex_cell_def)
qed

lemma words_of_cells:
  "words_of (concat (map (hex_cell chunk) is) @ s) =
     map (\<lambda>i. hex_pad False 2 (unat (chunk ! i))) (filter (\<lambda>i. i < length chunk) is) @ words_of s"
  by (induction "is") (simp_all add: words_of_cell)

lemma before_char: "c \<notin> set xs \<Longrightarrow> takeWhile (\<lambda>x. x \<noteq> c) (xs @ c # ys) = xs"
  by (induction xs) auto

lemma read_line_parts:
  assumes "length pre = n + 10" and "CHR ''|'' \<notin> set cells"
  shows "read_line n (pre @ cells @ CHR ''|'' # rest) = map read_byte (words_of cells)"
proof -
  have "drop (n + 10) (pre @ cells @ CHR ''|'' # rest) = cells @ CHR ''|'' # rest" using assms(1) by simp
  then show ?thesis by (simp only: read_line_def before_char [OF assms(2)])
qed

lemma hex_cells_plain:
  "CHR ''|'' \<notin> set (concat (map (hex_cell chunk) is))" "line_end \<notin> set (concat (map (hex_cell chunk) is))"
  using hex_digits_plain(2,3) by (auto simp: hex_cell_def line_end_def split: if_splits)

lemma read_hexdump_line:
  assumes "length chunk \<le> 16"
  shows "read_line (length indent) (hexdump_line indent offset chunk) = chunk"
proof -
  define cells where "cells = concat (map (hex_cell chunk) [0..<16]) @ '' ''"
  define pre where "pre = indent @ hex_pad False 8 offset @ ''  ''"
  have l: "hexdump_line indent offset chunk = pre @ cells @ CHR ''|'' # map ascii_cell chunk @ ''|''"
    by (simp only: hexdump_line_def cells_def pre_def append_assoc append_Cons append_Nil)
  have bar: "CHR ''|'' \<notin> set cells" unfolding cells_def set_append Un_iff using hex_cells_plain(1) [of chunk "[0..<16]"] by simp
  have len: "length pre = length indent + 10" by (simp add: pre_def)
  have "words_of cells = map (\<lambda>i. hex_pad False 2 (unat (chunk ! i))) [0..<length chunk]"
    unfolding cells_def words_of_cells filter_upt_below [OF assms] by simp
  then show ?thesis unfolding l read_line_parts [OF len bar] by (simp add: comp_def read_byte_hex map_nth)
qed

lemma ascii_cell_plain: "ascii_cell b \<noteq> line_end"
proof (cases "32 \<le> b \<and> b < 127")
  case True
  have "of_char (byte_char b) = unat b" using unsigned_less [of b, where ?'a = nat] by (simp add: byte_char_def)
  moreover have "of_char line_end = (10 :: nat)" by (simp add: line_end_def)
  moreover have "32 \<le> unat b" using True by (simp add: word_le_nat_alt)
  ultimately have "byte_char b \<noteq> line_end" by auto
  then show ?thesis using True by (simp add: ascii_cell_def)
qed (auto simp: ascii_cell_def line_end_def)

lemma hexdump_line_plain:
  assumes "line_end \<notin> set indent"
  shows "line_end \<notin> set (hexdump_line indent offset chunk)"
proof -
  have "line_end \<notin> set (map ascii_cell chunk)" using ascii_cell_plain by (metis ex_map_conv)
  moreover have "line_end \<notin> set ''  ''" "line_end \<notin> set '' |''" "line_end \<notin> set ''|''" by (simp_all add: line_end_def)
  ultimately show ?thesis
    using assms hex_digits_plain(3) hex_cells_plain(2) unfolding hexdump_line_def set_append Un_iff by blast
qed

lemma read_dump_line:
  "line_end \<notin> set l \<Longrightarrow> read_dump n (l @ [line_end] @ s) = read_line n l @ read_dump n s"
  by (simp add: read_dump_def split_on_line)

lemma read_hexdump:
  assumes "line_end \<notin> set indent"
  shows "read_dump (length indent) (hexdump_loop base data indent offset) = drop offset data"
  using assms
proof (induction base data indent offset rule: hexdump_loop.induct)
  case (1 base data indent offset)
  show ?case
  proof (cases "offset < length data")
    case True
    let ?chunk = "take (min (offset + 16) (length data) - offset) (drop offset data)"
    have c: "?chunk = take 16 (drop offset data)" using True by (auto simp: min_def)
    have "read_line (length indent) (hexdump_line indent (base + offset) ?chunk) = ?chunk"
      by (rule read_hexdump_line) (simp add: c)
    then have "read_dump (length indent) (hexdump_loop base data indent offset) = ?chunk @ drop (offset + 16) data"
      using 1(1) [OF True 1(2)] read_dump_line [OF hexdump_line_plain [OF 1(2)]] True by (subst hexdump_loop.simps) simp
    then show ?thesis unfolding c by (metis append_take_drop_id drop_drop add.commute)
  qed (subst hexdump_loop.simps, simp add: read_dump_def)
qed

section \<open>Properties\<close>

text \<open>
  C22: A trace loses no byte. The split of a datagram returns, without an error into nonempty datasets at
  their offsets that together are the datagram; and the hex dump of any bytes, at any offset and
  with any indent of blanks, reads back as exactly these bytes.
\<close>

theorem trace_loses_nothing:
  assumes "unmarshal_law T" and "set indent \<subseteq> {CHR '' ''}"
  shows "(\<exists>r. wireDatasets T raw = Some r \<and>
      (case r of Inl e \<Rightarrow> True | Inr ds \<Rightarrow> tiles 0 ds raw \<and> concat (map wd_wire ds) = raw)) \<and>
    read_dump (length indent) (writeHexdumpAt base data indent) = data"
proof -
  have "line_end \<notin> set indent" using assms(2) by (auto simp: line_end_def)
  then have "read_dump (length indent) (writeHexdumpAt base data indent) = data"
    unfolding writeHexdumpAt_def by (simp add: read_hexdump)
  moreover have "\<exists>r. wireDatasets T raw = Some r \<and> (case r of Inl e \<Rightarrow> True | Inr ds \<Rightarrow> tiles 0 ds raw \<and> concat (map wd_wire ds) = raw)"
    using wire_loop_tiles [OF assms(1), of raw 0 "[]"] tiles_concat by (fastforce simp: wireDatasets_def split: sum.splits)
  ultimately show ?thesis by blast
qed

text \<open>A protocol with datasets of four bytes.\<close>

definition four_bytes :: trace_protocol where
  "four_bytes =
     \<lparr>tp_parse_all = (\<lambda>raw. Inr []), tp_unmarshal = (\<lambda>rest. if length rest < 4 then Inl ''short''
        else Inr (\<lparr>msg_header = get_le16 (drop 2 rest), msg_data = []\<rparr>, drop 4 rest)),
      tp_message_name = (\<lambda>m. ''message''), tp_known_flags = [], tp_format_flags = (\<lambda>f. [])\<rparr>"

lemma four_bytes_law: "unmarshal_law four_bytes"
  unfolding unmarshal_law_def
proof (intro allI impI)
  fix rest msg tail assume "tp_unmarshal four_bytes rest = Inr (msg, tail)"
  then have "\<not> length rest < 4" "tail = drop 4 rest" by (auto simp: four_bytes_def split: if_splits)
  then have "take 4 rest \<noteq> [] \<and> rest = take 4 rest @ tail" by auto
  then show "\<exists>c. c \<noteq> [] \<and> rest = c @ tail" by blast
qed

theorem trace_loses_nothing_witness:
  "\<exists>r. wireDatasets four_bytes [4, 0, 0x10, 0, 4, 0, 0x1A, 0] = Some r \<and>
     (case r of Inl e \<Rightarrow> True | Inr ds \<Rightarrow> concat (map wd_wire ds) = [4, 0, 0x10, 0, 4, 0, 0x1A, 0]) \<and>
     read_dump 0 (writeHexdumpAt 0 [4, 0, 0x10, 0x7C] []) = [4, 0, 0x10, 0x7C]"
proof -
  have e: "set [] \<subseteq> {CHR '' ''}" by simp
  from trace_loses_nothing [OF four_bytes_law e, of "[4, 0, 0x10, 0, 4, 0, 0x1A, 0]" 0 "[4, 0, 0x10, 0x7C]"]
  show ?thesis by (auto split: sum.splits)
qed

end
