(* ===== verification/Go_Flag.thy ===== *)
theory Go_Flag
  imports Go_Text
begin

text \<open>
  What the main functions use of Go's \<^verbatim>\<open>flag\<close> package: a set of flags with string and boolean
  values, and the parser of an argument list, which stops at the first argument that is no flag. A flag of
  another package is given by its own setter.
\<close>

section \<open>Flags\<close>

text \<open>A setter changes the state that holds the values of all flags, or refuses a text.\<close>

datatype 's go_flag =
    StringFlag "string \<Rightarrow> 's \<Rightarrow> 's"
  | BoolFlag "bool \<Rightarrow> 's \<Rightarrow> 's"
  | OtherFlag bool "string \<Rightarrow> 's \<Rightarrow> string + 's"

type_synonym 's flag_set = "string \<Rightarrow> 's go_flag option"

datatype flag_error =
    FlagHelp
  | FlagSyntax string
  | FlagUndefined string
  | FlagNeedsArgument string
  | FlagInvalid string string string
  | FlagInvalidBool string string string
  | FlagInvalidSwitch string string

text \<open>The text before the usage, which is printed in every case.\<close>

fun flag_error_text :: "flag_error \<Rightarrow> string" where
  "flag_error_text FlagHelp = []"
| "flag_error_text (FlagSyntax s) = ''bad flag syntax: '' @ s"
| "flag_error_text (FlagUndefined n) = ''flag provided but not defined: -'' @ n"
| "flag_error_text (FlagNeedsArgument n) = ''flag needs an argument: -'' @ n"
| "flag_error_text (FlagInvalid n v e) = ''invalid value '' @ quote v @ '' for flag -'' @ n @ '': '' @ e"
| "flag_error_text (FlagInvalidBool n v e) = ''invalid boolean value '' @ quote v @ '' for -'' @ n @ '': '' @ e"
| "flag_error_text (FlagInvalidSwitch n e) = ''invalid boolean flag '' @ n @ '': '' @ e"

text \<open>The exit code of a program whose command line is refused.\<close>

fun flag_exit :: "flag_error \<Rightarrow> int" where
  "flag_exit FlagHelp = 0"
| "flag_exit _ = 2"

section \<open>The parser\<close>

text \<open>How one argument is read: not a flag, the end of the flags, malformed, or a flag with the value after \<open>=\<close>.\<close>

datatype flag_token = NoFlag | FlagsEnd | BadFlag | Flag string "string option"

definition flag_token_of :: "string \<Rightarrow> flag_token" where
  "flag_token_of s =
     (if length s < 2 \<or> hd s \<noteq> CHR ''-'' then NoFlag
      else if s = ''--'' then FlagsEnd
      else (let name = (if s ! 1 = CHR ''-'' then drop 2 s else drop 1 s)
            in if name = [] \<or> hd name = CHR ''-'' \<or> hd name = CHR ''='' then BadFlag
               else case cut_at (CHR ''='') name of
                      None \<Rightarrow> Flag name None
                    | Some (n, v) \<Rightarrow> Flag n (Some v)))"

fun is_bool_flag :: "'s go_flag \<Rightarrow> bool" where
  "is_bool_flag (StringFlag f) = False"
| "is_bool_flag (BoolFlag f) = True"
| "is_bool_flag (OtherFlag b f) = b"

fun set_flag :: "'s go_flag \<Rightarrow> string \<Rightarrow> 's \<Rightarrow> string + 's" where
  "set_flag (StringFlag f) v s = Inr (f v s)"
| "set_flag (BoolFlag f) v s = (case parse_bool_str v of None \<Rightarrow> Inl ''parse error'' | Some b \<Rightarrow> Inr (f b s))"
| "set_flag (OtherFlag b f) v s = f v s"

text \<open>The values after parsing, and the arguments that are left.\<close>

fun parse_flags :: "'s flag_set \<Rightarrow> 's \<Rightarrow> string list \<Rightarrow> flag_error + 's \<times> string list" where
  "parse_flags F s [] = Inr (s, [])"
| "parse_flags F s (a # args) =
     (case flag_token_of a of
        NoFlag \<Rightarrow> Inr (s, a # args)
      | FlagsEnd \<Rightarrow> Inr (s, args)
      | BadFlag \<Rightarrow> Inl (FlagSyntax a)
      | Flag name v \<Rightarrow>
          (case F name of
             None \<Rightarrow> Inl (if name = ''help'' \<or> name = ''h'' then FlagHelp else FlagUndefined name)
           | Some f \<Rightarrow>
               if is_bool_flag f then
                 (case set_flag f (case v of None \<Rightarrow> ''true'' | Some x \<Rightarrow> x) s of
                    Inl e \<Rightarrow> Inl (case v of None \<Rightarrow> FlagInvalidSwitch name e | Some x \<Rightarrow> FlagInvalidBool name x e)
                  | Inr s' \<Rightarrow> parse_flags F s' args)
               else
                 (case v of
                    Some x \<Rightarrow>
                      (case set_flag f x s of
                         Inl e \<Rightarrow> Inl (FlagInvalid name x e)
                       | Inr s' \<Rightarrow> parse_flags F s' args)
                  | None \<Rightarrow>
                      (case args of
                         [] \<Rightarrow> Inl (FlagNeedsArgument name)
                       | x # rest \<Rightarrow>
                           (case set_flag f x s of
                              Inl e \<Rightarrow> Inl (FlagInvalid name x e)
                            | Inr s' \<Rightarrow> parse_flags F s' rest)))))"

section \<open>A command line that was written for its program\<close>

text \<open>A name that can be given on a command line, and the two ways to give it a value.\<close>

definition flag_name :: "string \<Rightarrow> bool" where
  "flag_name n \<longleftrightarrow> n \<noteq> [] \<and> hd n \<noteq> CHR ''-'' \<and> CHR ''='' \<notin> set n"

definition separate_arg :: "string \<times> string \<Rightarrow> string list" where
  "separate_arg p = [CHR ''-'' # fst p, snd p]"

definition joined_arg :: "string \<times> string \<Rightarrow> string list" where
  "joined_arg p = [''--'' @ fst p @ ''='' @ snd p]"

lemma cut_at_none: "cut_at c s = None \<longleftrightarrow> c \<notin> set s"
  by (induction s) (auto split: option.split)

lemma cut_at_append: "c \<notin> set n \<Longrightarrow> cut_at c (n @ c # v) = Some (n, v)"
  by (induction n) auto

lemma flag_token_separate: "flag_name n \<Longrightarrow> flag_token_of (CHR ''-'' # n) = Flag n None"
  by (cases n) (auto simp: flag_name_def flag_token_of_def cut_at_none [THEN iffD2] Let_def)

lemma flag_token_joined: "flag_name n \<Longrightarrow> flag_token_of (''--'' @ n @ ''='' @ v) = Flag n (Some v)"
  using cut_at_append [of "CHR ''=''" n v]
  by (cases n) (auto simp: flag_name_def flag_token_of_def Let_def)

lemma parse_separate:
  assumes "flag_name n" and "F n = Some (StringFlag f)"
  shows "parse_flags F s (separate_arg (n, v) @ args) = parse_flags F (f v s) args"
  using assms by (simp add: separate_arg_def flag_token_separate)

lemma parse_joined:
  assumes "flag_name n" and "F n = Some (StringFlag f)"
  shows "parse_flags F s (joined_arg (n, v) @ args) = parse_flags F (f v s) args"
  using assms flag_token_joined [OF assms(1), of v] by (simp add: joined_arg_def)

lemma parse_switch:
  assumes "flag_name n" and "F n = Some (BoolFlag f)"
  shows "parse_flags F s ((CHR ''-'' # n) # args) = parse_flags F (f True s) args"
  using assms by (simp add: flag_token_separate parse_bool_str_def)

end
