(* ===== verification/Mains.thy ===== *)
theory Mains
  imports Go_Flag Processes Rest_Api
begin

text \<open>
  The main functions: the command lines and environments of the processes, how each of them starts
  and what ends it (\<^verbatim>\<open>apps/z21-sim/cmd/z21-sim/main.go\<close>, \<^verbatim>\<open>operators/*/cmd/main.go\<close>, \<^verbatim>\<open>apps/api/main.go\<close> with
  its configuration, \<^verbatim>\<open>apps/z21-gateway/main.go\<close>, \<^verbatim>\<open>apps/elpctl/main.go\<close>).
\<close>

section \<open>Processes in a cluster\<close>

text \<open>The environment of a container as its process sees it.\<close>

definition process_env :: "(string \<times> string) list \<Rightarrow> string \<Rightarrow> string" where
  "process_env vars k = (case map_of vars k of None \<Rightarrow> [] | Some v \<Rightarrow> v)"

section \<open>The simulator\<close>

record sim_options =
  so_addr :: string
  so_grpc_addr :: string
  so_trace :: bool

definition sim_flag_defaults :: sim_options where
  "sim_flag_defaults = \<lparr>so_addr = ''0.0.0.0:21105'', so_grpc_addr = ''127.0.0.1:50051'', so_trace = False\<rparr>"

definition sim_flag_set :: "sim_options flag_set" where
  "sim_flag_set n =
     (if n = ''addr'' then Some (StringFlag (\<lambda>v s. s\<lparr>so_addr := v\<rparr>))
      else if n = ''grpc-addr'' then Some (StringFlag (\<lambda>v s. s\<lparr>so_grpc_addr := v\<rparr>))
      else if n = ''trace'' then Some (BoolFlag (\<lambda>b s. s\<lparr>so_trace := b\<rparr>))
      else None)"

definition sim_envBool :: "(string \<Rightarrow> string) \<Rightarrow> string \<Rightarrow> bool" where
  "sim_envBool env k = (case parse_bool_str (env k) of None \<Rightarrow> False | Some v \<Rightarrow> v)"

text \<open>
  The process: the simulator with or without a tracer, the control server if there is one, which of the
  two goroutines still run, whether the context has ended and the control server was told to stop, and
  how the process has ended.
\<close>

record sim_process =
  sp_server :: sim_server
  sp_traced :: bool
  sp_control :: "control_server option"
  sp_udp :: bool
  sp_grpc :: bool
  sp_done :: bool
  sp_stopping :: bool
  sp_exit :: "int option"
  sp_stderr :: string

text \<open>The start, or the exit code and what is written to standard error (without the usage text).\<close>

definition sim_fail :: "string \<Rightarrow> int \<times> string" where
  "sim_fail e = (1, ''z21-sim: '' @ e @ [CHR 0x0A])"

definition sim_main_start ::
  "(string \<Rightarrow> string + 'a) \<Rightarrow> ('a \<Rightarrow> string option) \<Rightarrow> (string \<Rightarrow> string option) \<Rightarrow> int
     \<Rightarrow> (string \<Rightarrow> string) \<Rightarrow> string list \<Rightarrow> (int \<times> string) + sim_process" where
  "sim_main_start resolve bind listen now env args =
     (case parse_flags sim_flag_set sim_flag_defaults args of
        Inl e \<Rightarrow> Inl (flag_exit e, flag_error_text e)
      | Inr (opts, _) \<Rightarrow>
      (let trace = so_trace opts \<or> sim_envBool env ''Z21_SIM_TRACE'';
           grpcTraceOpts = (if trace then [Some control_WithTrace] else []) in
       case sim_New resolve bind now (so_addr opts) of
         Inl e \<Rightarrow> Inl (sim_fail e)
       | Inr srv \<Rightarrow>
       (let p = \<lparr>sp_server = srv, sp_traced = trace, sp_control = None, sp_udp = True, sp_grpc = False,
                 sp_done = False, sp_stopping = False, sp_exit = None, sp_stderr = []\<rparr> in
        if so_grpc_addr opts = [] then Inr p
        else (case NewGRPCServer listen True (so_grpc_addr opts) grpcTraceOpts of
                Inl e \<Rightarrow> Inl (sim_fail e)
              | Inr g \<Rightarrow> Inr (p\<lparr>sp_control := Some g, sp_grpc := True\<rparr>)))))"

text \<open>
  What happens to the running process: the signal that ends its context, the return of the control server, and
  a turn of the socket loop or a control call.
\<close>

datatype control_end = ControlDone | ControlListenerClosed | ControlFailed string

datatype process_event = Signalled | ControlReturned control_end | Turn serve_tick

definition sim_exit_on_error :: "string \<Rightarrow> sim_process \<Rightarrow> sim_process" where
  "sim_exit_on_error e p =
     (if sp_done p then p else p\<lparr>sp_exit := Some (fst (sim_fail e)), sp_stderr := snd (sim_fail e)\<rparr>)"

text \<open>The select has left by the context and both goroutines are done: the process returns.\<close>

definition sim_wait :: "sim_process \<Rightarrow> sim_process" where
  "sim_wait p = (if sp_exit p = None \<and> sp_done p \<and> \<not> sp_udp p \<and> \<not> sp_grpc p then p\<lparr>sp_exit := Some 0\<rparr> else p)"

definition turn_enabled :: "sim_process \<Rightarrow> serve_tick \<Rightarrow> bool" where
  "turn_enabled p t = (case t of ControlCall e \<Rightarrow> sp_grpc p | _ \<Rightarrow> sp_udp p)"

definition sim_process_step :: "z21_protocol \<Rightarrow> sim_env \<Rightarrow> sim_process \<Rightarrow> process_event \<Rightarrow> sim_process" where
  "sim_process_step P E p ev =
     (if sp_exit p \<noteq> None then p
      else sim_wait
        (case ev of
           Signalled \<Rightarrow> p\<lparr>sp_done := True, sp_stopping := sp_control p \<noteq> None\<rparr>
         | ControlReturned r \<Rightarrow>
             if \<not> sp_grpc p then p
             else (let p1 = p\<lparr>sp_grpc := False\<rparr> in
                   case r of ControlFailed e \<Rightarrow> sim_exit_on_error (''gRPC: '' @ e) p1 | _ \<Rightarrow> p1)
         | Turn t \<Rightarrow>
             if \<not> turn_enabled p t then p
             else (case serve_loop P E (sp_server p) [t] of
                     (s', None) \<Rightarrow> p\<lparr>sp_server := s'\<rparr>
                   | (s', Some None) \<Rightarrow> p\<lparr>sp_server := s', sp_udp := False\<rparr>
                   | (s', Some (Some e)) \<Rightarrow> sim_exit_on_error (''UDP: '' @ e) (p\<lparr>sp_server := s', sp_udp := False\<rparr>))))"

section \<open>The operators\<close>

text \<open>
  The calls a main function makes on the manager of controller-runtime and the other libraries, each of
  which may fail; \<open>call\<close> is that library.
\<close>

record manager_options =
  mo_metrics :: string
  mo_probe :: string
  mo_leader_election :: bool
  mo_leader_id :: string

datatype manager_call =
    GetConfig
  | CreateManager manager_options
  | SetupDevices operator_config
  | SetupDetectors
  | SetupSimulations string
  | AddHealthzCheck
  | AddReadyzCheck
  | StartManager
  | ClosePool

text \<open>The calls one after the other, up to the first that fails, whose text is logged before the exit.\<close>

fun run_calls ::
  "('w \<Rightarrow> manager_call \<Rightarrow> 'w \<times> string option) \<Rightarrow> 'w \<Rightarrow> (manager_call \<times> string) list \<Rightarrow> 'w \<times> (string \<times> string) option" where
  "run_calls call w [] = (w, None)"
| "run_calls call w ((c, text) # cs) =
     (case call w c of
        (w1, None) \<Rightarrow> run_calls call w1 cs
      | (w1, Some e) \<Rightarrow> (w1, Some (text, e)))"

record 'o operator_flags =
  of_metrics :: string
  of_probe :: string
  of_image :: string
  of_namespace :: string
  of_leader :: bool
  of_other :: 'o

text \<open>The values of the flags that zap and controller-runtime register are \<open>of_other\<close>.\<close>

fun lift_flag :: "'o go_flag \<Rightarrow> 'o operator_flags go_flag" where
  "lift_flag (StringFlag f) = StringFlag (\<lambda>v s. s\<lparr>of_other := f v (of_other s)\<rparr>)"
| "lift_flag (BoolFlag f) = BoolFlag (\<lambda>b s. s\<lparr>of_other := f b (of_other s)\<rparr>)"
| "lift_flag (OtherFlag b f) = OtherFlag b (\<lambda>v s. map_sum id (\<lambda>x. s\<lparr>of_other := x\<rparr>) (f v (of_other s)))"

definition operator_flag_defaults :: "'o \<Rightarrow> 'o operator_flags" where
  "operator_flag_defaults other =
     \<lparr>of_metrics = ''0'', of_probe = '':8081'', of_image = [], of_namespace = ''elp'', of_leader = False, of_other = other\<rparr>"

definition sim_operator_flags :: "'o flag_set \<Rightarrow> 'o operator_flags flag_set" where
  "sim_operator_flags other n =
     (if n = ''metrics-bind-address'' then Some (StringFlag (\<lambda>v s. s\<lparr>of_metrics := v\<rparr>))
      else if n = ''health-probe-bind-address'' then Some (StringFlag (\<lambda>v s. s\<lparr>of_probe := v\<rparr>))
      else if n = ''workload-namespace'' then Some (StringFlag (\<lambda>v s. s\<lparr>of_namespace := v\<rparr>))
      else if n = ''leader-elect'' then Some (BoolFlag (\<lambda>b s. s\<lparr>of_leader := b\<rparr>))
      else map_option lift_flag (other n))"

definition device_operator_flags :: "'o flag_set \<Rightarrow> 'o operator_flags flag_set" where
  "device_operator_flags other n =
     (if n = ''gateway-image'' then Some (StringFlag (\<lambda>v s. s\<lparr>of_image := v\<rparr>))
      else sim_operator_flags other n)"

definition manager_options_of :: "'o operator_flags \<Rightarrow> string \<Rightarrow> manager_options" where
  "manager_options_of opts leader_id =
     \<lparr>mo_metrics = of_metrics opts, mo_probe = of_probe opts, mo_leader_election = of_leader opts, mo_leader_id = leader_id\<rparr>"

definition device_operator_calls :: "'o operator_flags \<Rightarrow> (manager_call \<times> string) list" where
  "device_operator_calls opts =
     [(GetConfig, ''unable to get kubeconfig''),
      (CreateManager (manager_options_of opts ''z21.trains.io''), ''unable to start manager''),
      (SetupDevices \<lparr>GatewayImage = of_image opts, WorkloadNamespace = of_namespace opts\<rparr>, ''unable to create controller''),
      (SetupDetectors, ''unable to create controller''),
      (AddHealthzCheck, ''unable to set up health check''),
      (AddReadyzCheck, ''unable to set up ready check''),
      (StartManager, ''problem running manager'')]"

definition sim_operator_calls :: "'o operator_flags \<Rightarrow> (manager_call \<times> string) list" where
  "sim_operator_calls opts =
     [(GetConfig, ''unable to get kubeconfig''),
      (CreateManager (manager_options_of opts ''z21.trains.io-sim-controller''), ''unable to start manager''),
      (SetupSimulations (of_namespace opts), ''unable to create controller''),
      (AddHealthzCheck, ''unable to set up health check''),
      (AddReadyzCheck, ''unable to set up ready check''),
      (StartManager, ''problem running manager'')]"

text \<open>The world, the logged errors and the exit code.\<close>

definition device_operator_main ::
  "('w \<Rightarrow> manager_call \<Rightarrow> 'w \<times> string option) \<Rightarrow> 'o flag_set \<Rightarrow> 'o \<Rightarrow> 'w \<Rightarrow> string list
     \<Rightarrow> 'w \<times> (string \<times> string) list \<times> int" where
  "device_operator_main call other other0 w args =
     (case parse_flags (device_operator_flags other) (operator_flag_defaults other0) args of
        Inl e \<Rightarrow> (w, [], flag_exit e)
      | Inr (opts, _) \<Rightarrow>
          (case run_calls call w (device_operator_calls opts) of
             (w1, Some e) \<Rightarrow> (w1, [e], 1)
           | (w1, None) \<Rightarrow> (w1, [], 0)))"

text \<open>The pool of simulator clients is closed when the manager returns, but not when the process exits with an error.\<close>

definition sim_operator_main ::
  "('w \<Rightarrow> manager_call \<Rightarrow> 'w \<times> string option) \<Rightarrow> 'o flag_set \<Rightarrow> 'o \<Rightarrow> 'w \<Rightarrow> string list
     \<Rightarrow> 'w \<times> (string \<times> string) list \<times> int" where
  "sim_operator_main call other other0 w args =
     (case parse_flags (sim_operator_flags other) (operator_flag_defaults other0) args of
        Inl e \<Rightarrow> (w, [], flag_exit e)
      | Inr (opts, _) \<Rightarrow>
          (case run_calls call w (sim_operator_calls opts) of
             (w1, Some e) \<Rightarrow> (w1, [e], 1)
           | (w1, None) \<Rightarrow>
               (case call w1 ClosePool of
                  (w2, None) \<Rightarrow> (w2, [], 0)
                | (w2, Some e) \<Rightarrow> (w2, [(''failed to close simulator gRPC client pool'', e)], 0))))"

section \<open>The API server, the gateway and elpctl\<close>

record api_config =
  ac_addr :: string
  ac_nats_url :: string

definition api_Load :: "(string \<Rightarrow> string) \<Rightarrow> api_config" where
  "api_Load env =
     (let addr = env ''API_ADDR'' in
      \<lparr>ac_addr = (if addr = [] then '':8080'' else addr), ac_nats_url = env ''NATS_URL''\<rparr>)"

text \<open>
  The API process: its configuration, its hub and publisher, whether its context has ended, and its exit code.
  It is told of the end of the device watch, of its listener, and of the signal; then the server is shut down,
  within ten seconds, and the connections of the publisher are closed.
\<close>

record api_process =
  ap_config :: api_config
  ap_hub :: stream_hub
  ap_publisher :: publisher
  ap_closed :: bool
  ap_exit :: "int option"
  ap_log :: "(string \<times> string) list"

definition k8s_NewClient :: "string + 'r \<Rightarrow> ('r \<Rightarrow> string + 'c) \<Rightarrow> string + 'c" where
  "k8s_NewClient getConfig new =
     (case getConfig of Inl e \<Rightarrow> Inl (''kubernetes config: '' @ e) | Inr cfg \<Rightarrow> new cfg)"

definition api_main_start ::
  "string + 'r \<Rightarrow> ('r \<Rightarrow> string + 'c) \<Rightarrow> (string \<Rightarrow> string) \<Rightarrow> (int \<times> (string \<times> string)) + api_process" where
  "api_main_start getConfig new env =
     (let cfg = api_Load env in
      case k8s_NewClient getConfig new of
        Inl e \<Rightarrow> Inl (1, (''kubernetes client'', e))
      | Inr client \<Rightarrow> Inr \<lparr>ap_config = cfg, ap_hub = NewStreamHub, ap_publisher = NewPublisher (ac_nats_url cfg),
                     ap_closed = False, ap_exit = None, ap_log = []\<rparr>)"

datatype api_main_event =
    WatchReturned "string option" bool
  | ListenReturned "string option" bool
  | ApiSignalled "string option"

definition api_main_step :: "api_process \<Rightarrow> api_main_event \<Rightarrow> api_process" where
  "api_main_step p ev =
     (if ap_exit p \<noteq> None then p
      else (case ev of
        WatchReturned r ended \<Rightarrow>
          (case r of Some e \<Rightarrow> if ended then p else p\<lparr>ap_log := ap_log p @ [(''device watch'', e)]\<rparr> | None \<Rightarrow> p)
      | ListenReturned r closed \<Rightarrow>
          (case r of
             Some e \<Rightarrow> if closed then p else p\<lparr>ap_exit := Some 1, ap_log := ap_log p @ [(''server stopped'', e)]\<rparr>
           | None \<Rightarrow> p)
      | ApiSignalled shutdown \<Rightarrow>
          (case shutdown of
             Some e \<Rightarrow> p\<lparr>ap_exit := Some 1, ap_log := ap_log p @ [(''shutdown'', e)]\<rparr>
           | None \<Rightarrow> p\<lparr>ap_closed := True, ap_exit := Some 0\<rparr>)))"

text \<open>
  The gateway: its health server runs beside \<^verbatim>\<open>Run\<close> and ends the context when it fails, which is an event of
  the world. The result is \<open>None\<close> while it runs.
\<close>

definition gateway_main ::
  "nat \<Rightarrow> nat \<Rightarrow> 'w gateway_runtime \<Rightarrow> (string \<Rightarrow> string) \<Rightarrow> 'w \<Rightarrow> 'w \<times> int option" where
  "gateway_main k n G env w =
     (case Load env of
        Inl e \<Rightarrow> (w, Some 1)
      | Inr cfg \<Rightarrow>
          (case Run k n G cfg w of
             (w1, None) \<Rightarrow> (w1, None)
           | (w1, Some None) \<Rightarrow> (w1, Some 0)
           | (w1, Some (Some e)) \<Rightarrow> (w1, Some 1)))"

definition gateway_health_failed :: "('w \<Rightarrow> 'w) \<Rightarrow> health_end \<Rightarrow> 'w \<Rightarrow> 'w" where
  "gateway_health_failed stop ended w = (case health_Start ended of Some e \<Rightarrow> stop w | None \<Rightarrow> w)"

definition elpctl_main :: "cli_error option \<Rightarrow> int" where
  "elpctl_main result = (case result of None \<Rightarrow> 0 | Some e \<Rightarrow> 1)"

section \<open>The simulator starts as it is deployed\<close>

lemma sim_flag_names: "flag_name ''addr''" "flag_name ''grpc-addr''" "flag_name ''trace''"
  by (simp_all add: flag_name_def)

lemma parse_sim_args:
  "parse_flags sim_flag_set s (separate_arg (''addr'', a) @ separate_arg (''grpc-addr'', g)) =
     Inr (s\<lparr>so_addr := a, so_grpc_addr := g\<rparr>, [])"
  using flag_token_separate [OF sim_flag_names(1)] flag_token_separate [OF sim_flag_names(2)]
  by (simp add: separate_arg_def sim_flag_set_def)

lemma traced_control:
  "NewGRPCServer listen True a (if b then [Some control_WithTrace] else []) =
     (case listen a of
        Some e \<Rightarrow> Inl (''control: listen '' @ a @ '': '' @ e)
      | None \<Rightarrow> Inr \<lparr>cs_sim = True, cs_traced = b, cs_server = True, cs_listener = True\<rparr>)"
  by (simp add: NewGRPCServer_def control_applyOptions_def control_WithTrace_def split: option.split)

lemma port_text: "i32_dec DefaultZ21Port = ''21105''" "nat_dec DefaultSimulatorGRPCPort = ''50051''"
  by (simp_all add: i32_dec_def int_dec_def nat_dec.simps digit_chars_def elp_consts)

lemma trace_env:
  "sim_envBool (process_env [(''Z21_SIM_TRACE'', ''true'')]) ''Z21_SIM_TRACE''"
  "\<not> sim_envBool (process_env []) ''Z21_SIM_TRACE''"
  by (simp_all add: sim_envBool_def process_env_def parse_bool_str_def)

lemma split_simulator_address:
  assumes "no_brackets ns" and "no_brackets n"
  shows "split_host_port (join_host_port (SimulatorServiceFQDN ns n) ''21105'') = Inr (SimulatorServiceFQDN ns n, ''21105'')"
    "split_host_port (join_host_port (SimulatorServiceFQDN ns n) ''50051'') = Inr (SimulatorServiceFQDN ns n, ''50051'')"
  using split_join_host_port [of "SimulatorServiceFQDN ns n"] no_brackets_FQDN [OF assms] by (simp_all add: no_brackets_def)

text \<open>
  C9: A simulator starts as its operator deploys it. The command line and the environment of the container are
  accepted; if the two sockets can be bound the process serves a new simulator and its control server, both
  traced exactly when the runtime options say so. The ports it binds are the ports of the address the gateway
  dials and of the address the Simulation controller dials.
\<close>

theorem simulator_accepts_deployment:
  assumes "pod_containers (dp_pod (dep_spec (desiredSimulatorDeployment d cfg))) = [c]"
    and "be_type (ds_backend (dev_spec d)) = BackendSimulator" and "Z21Address d = Inr z21"
    and "no_brackets (om_name (dev_meta d))" and "no_brackets ns"
    and "resolve ''0.0.0.0:21105'' = Inr udp" and "bind udp = None" and "listen ''0.0.0.0:50051'' = None"
  shows "\<exists>p g host1 host2 addr grpc.
    sim_main_start resolve bind listen now (process_env (ct_env c)) (ct_args c) = Inr p \<and>
    sp_server p = new_server now \<and> sp_udp p \<and> sp_grpc p \<and> sp_control p = Some g \<and>
    cs_listener g \<and> cs_server g \<and> sp_traced p = rc_simulator_trace cfg \<and> cs_traced g = rc_simulator_trace cfg \<and>
    split_host_port z21 = Inr (host1, addr) \<and> resolve (''0.0.0.0:'' @ addr) = Inr udp \<and>
    split_host_port (SimulatorGRPCAddress ns (om_name (dev_meta d))) = Inr (host2, grpc) \<and> listen (''0.0.0.0:'' @ grpc) = None"
proof -
  have c: "ct_args c = separate_arg (''addr'', ''0.0.0.0:21105'') @ separate_arg (''grpc-addr'', ''0.0.0.0:50051'')"
    "sim_envBool (process_env (ct_env c)) ''Z21_SIM_TRACE'' = rc_simulator_trace cfg"
    using assms(1) by (cases "rc_simulator_trace cfg"; auto simp: desiredSimulatorDeployment_def port_text separate_arg_def trace_env)+
  have z: "z21 = join_host_port (SimulatorServiceFQDN DefaultWorkloadNamespace (om_name (dev_meta d))) ''21105''"
    using assms(2,3) by (simp add: Z21Address_def Let_def port_text BackendSimulator_def BackendHardware_def split: if_splits)
  have n: "no_brackets DefaultWorkloadNamespace" by (simp add: no_brackets_def DefaultWorkloadNamespace_def)
  have s1: "split_host_port z21 = Inr (SimulatorServiceFQDN DefaultWorkloadNamespace (om_name (dev_meta d)), ''21105'')"
    unfolding z by (rule split_simulator_address [OF n assms(4)])
  have s2: "split_host_port (SimulatorGRPCAddress ns (om_name (dev_meta d))) = Inr (SimulatorServiceFQDN ns (om_name (dev_meta d)), ''50051'')"
    unfolding SimulatorGRPCAddress_def port_text by (rule split_simulator_address [OF assms(5,4)])
  show ?thesis
    using assms(6-8) by (simp add: sim_main_start_def c parse_sim_args sim_flag_defaults_def Let_def sim_New_def traced_control s1 s2)
qed

theorem simulator_accepts_deployment_witness:
  "\<exists>p. sim_main_start (\<lambda>a. Inr a) (\<lambda>a. None) (\<lambda>a. None) 0 (process_env [(''Z21_SIM_TRACE'', ''true'')])
     [''-addr'', ''0.0.0.0:21105'', ''-grpc-addr'', ''0.0.0.0:50051''] = Inr p \<and>
     sp_server p = new_server 0 \<and> sp_udp p \<and> sp_grpc p \<and> sp_traced p"
proof -
  let ?dep = "desiredSimulatorDeployment example_simulator \<lparr>rc_gateway_trace = False, rc_simulator_trace = True\<rparr>"
  obtain c where c: "pod_containers (dp_pod (dep_spec ?dep)) = [c]"
    "ct_env c = [(''Z21_SIM_TRACE'', ''true'')]" "ct_args c = [''-addr'', ''0.0.0.0:21105'', ''-grpc-addr'', ''0.0.0.0:50051'']"
    by (simp add: desiredSimulatorDeployment_def port_text)
  have d: "be_type (ds_backend (dev_spec example_simulator)) = BackendSimulator"
    "Z21Address example_simulator = Inr (join_host_port (SimulatorServiceFQDN DefaultWorkloadNamespace ''sim1'') ''21105'')"
    "om_name (dev_meta example_simulator) = ''sim1''"
    by (simp_all add: example_device_defs Z21Address_def port_text BackendSimulator_def BackendHardware_def)
  have n: "no_brackets ''sim1''" "no_brackets ''elp''" by (simp_all add: no_brackets_def)
  from simulator_accepts_deployment [OF c(1) d(1,2), unfolded d(3), OF n, of "\<lambda>a. Inr a" _ "\<lambda>a. None" "\<lambda>a. None" 0]
  show ?thesis unfolding c(2,3) by auto
qed

section \<open>The signal ends the simulator\<close>

definition process_inv :: "sim_process \<Rightarrow> bool" where
  "process_inv p \<longleftrightarrow>
     (sp_exit p = Some 0 \<longleftrightarrow> sp_done p \<and> \<not> sp_udp p \<and> \<not> sp_grpc p) \<and>
     (sp_exit p = None \<or> sp_exit p = Some 0 \<or> sp_exit p = Some 1 \<and> \<not> sp_done p \<and> (\<exists>e. sp_stderr p = snd (sim_fail e)))"

lemma process_inv_start: "sim_main_start resolve bind listen now env args = Inr p \<Longrightarrow> process_inv p"
  by (auto simp: sim_main_start_def process_inv_def Let_def split: sum.splits prod.splits if_splits)

lemma process_inv_step:
  assumes "process_inv p"
  shows "process_inv (sim_process_step P E p ev)"
proof (cases "sp_exit p")
  case None
  then have n: "\<not> (sp_done p \<and> \<not> sp_udp p \<and> \<not> sp_grpc p)" using assms by (simp add: process_inv_def)
  show ?thesis
    by (cases ev) (use None n in \<open>auto simp: sim_process_step_def process_inv_def sim_wait_def sim_exit_on_error_def sim_fail_def Let_def
      split: prod.splits option.splits control_end.splits\<close>)
next
  case (Some x)
  then show ?thesis using assms by (simp add: sim_process_step_def)
qed

interpretation process_machine: invariant_machine "sim_process_step P E" process_inv for P E
  by unfold_locales (rule process_inv_step)


lemma waiting_step:
  assumes "sp_exit p = None" and "sp_done p" and "process_inv p"
  shows "sp_exit (sim_process_step P E p ev) \<noteq> Some 1 \<and> sp_done (sim_process_step P E p ev) \<and>
    (\<not> sp_udp p \<or> (\<exists>t. ev = Turn t \<and> tick_ends t) \<longrightarrow> \<not> sp_udp (sim_process_step P E p ev)) \<and>
    (\<not> sp_grpc p \<or> (\<exists>r. ev = ControlReturned r) \<longrightarrow> \<not> sp_grpc (sim_process_step P E p ev))"
proof (cases ev)
  case (Turn t)
  then show ?thesis using assms
    by (cases t) (auto simp: sim_process_step_def sim_wait_def sim_exit_on_error_def turn_enabled_def)
qed (use assms in \<open>auto simp: sim_process_step_def sim_wait_def sim_exit_on_error_def Let_def split: control_end.splits\<close>)

lemma ended_run: "sp_exit p \<noteq> None \<Longrightarrow> run_events (sim_process_step P E) p es = p"
  by (induction es) (simp_all add: sim_process_step_def)

lemma waiting_run:
  assumes "sp_exit p = None \<or> sp_exit p = Some 0" and "sp_done p" and "process_inv p"
    and "\<not> sp_udp p \<or> (\<exists>t. Turn t \<in> set es \<and> tick_ends t)" and "\<not> sp_grpc p \<or> (\<exists>r. ControlReturned r \<in> set es)"
  shows "sp_exit (run_events (sim_process_step P E) p es) = Some 0"
  using assms
proof (induction es arbitrary: p)
  case Nil
  then show ?case by (auto simp: process_inv_def)
next
  case (Cons ev es)
  show ?case
  proof (cases "sp_exit p")
    case None
    let ?p = "sim_process_step P E p ev"
    note w = waiting_step [OF None Cons.prems(2,3), of P E ev]
    have i: "process_inv ?p" by (rule process_inv_step [OF Cons.prems(3)])
    have x: "sp_exit ?p = None \<or> sp_exit ?p = Some 0" using i w by (auto simp: process_inv_def)
    have u: "\<not> sp_udp ?p \<or> (\<exists>t. Turn t \<in> set es \<and> tick_ends t)" using Cons.prems(4) w by auto
    have g: "\<not> sp_grpc ?p \<or> (\<exists>r. ControlReturned r \<in> set es)" using Cons.prems(5) w by auto
    show ?thesis using Cons.IH [OF x _ i u g] w by simp
  next
    case (Some y)
    then show ?thesis using Cons.prems(1) ended_run [of p P E "ev # es"] by simp
  qed
qed

lemma no_early_exit: "process_inv p \<Longrightarrow> \<not> sp_done p \<Longrightarrow> sp_exit p \<noteq> Some 0"
  by (simp add: process_inv_def)

lemma step_not_done: "\<not> sp_done p \<Longrightarrow> ev \<noteq> Signalled \<Longrightarrow> \<not> sp_done (sim_process_step P E p ev)"
  by (cases ev) (auto simp: sim_process_step_def sim_wait_def sim_exit_on_error_def Let_def
    split: prod.splits option.splits control_end.splits)

lemma run_not_done: "\<not> sp_done p \<Longrightarrow> Signalled \<notin> set es \<Longrightarrow> \<not> sp_done (run_events (sim_process_step P E) p es)"
proof (induction es arbitrary: p)
  case (Cons ev es)
  have "\<not> sp_done (sim_process_step P E p ev)" by (rule step_not_done) (use Cons.prems in auto)
  then show ?case using Cons.IH Cons.prems(2) by simp
qed simp

lemma start_reachable:
  "sim_main_start resolve bind listen now env args = Inr p \<Longrightarrow> sim_reachable P E (sp_server p)"
  by (auto simp: sim_main_start_def sim_New_def Let_def new_server_reachable split: sum.splits prod.splits if_splits option.splits)

lemma wait_server [simp]: "sp_server (sim_wait p) = sp_server p" "sp_server (sim_exit_on_error e p) = sp_server p"
  by (simp_all add: sim_wait_def sim_exit_on_error_def)

lemma reachable_run: "sim_reachable P E s \<Longrightarrow> sim_reachable P E (run_events (sim_step P E) s es)"
  by (induction es arbitrary: s) (simp_all add: sim_reachable_step)

lemma step_reachable:
  assumes "sim_reachable P E (sp_server p)"
  shows "sim_reachable P E (sp_server (sim_process_step P E p ev))"
proof -
  have t: "sim_reachable P E s'" if "serve_loop P E (sp_server p) [t] = (s', r)" for t s' r
    using serve_loop_result(1) [OF that] reachable_run [OF assms] by blast
  show ?thesis
    using assms by (cases ev) (auto simp: sim_process_step_def Let_def split: prod.splits option.splits control_end.splits dest: t)
qed

interpretation served_machine: invariant_machine "sim_process_step P E" "\<lambda>p. sim_reachable P E (sp_server p)" for P E
  by unfold_locales (rule step_reachable)

text \<open>Neither goroutine is done before it has returned, and only the signal stops the control server.\<close>

lemma step_running:
  "sp_udp p \<Longrightarrow> \<not> (\<exists>t. ev = Turn t \<and> tick_ends t) \<Longrightarrow> sp_udp (sim_process_step P E p ev)"
  "sp_grpc p \<Longrightarrow> \<not> (\<exists>r. ev = ControlReturned r) \<Longrightarrow> sp_grpc (sim_process_step P E p ev)"
proof -
  have t: "serve_loop P E s [t] = (s', Some x) \<Longrightarrow> tick_ends t" for s s' t x
    using serve_loop_result(3) [of P E s "[t]" s' "Some x"] by simp
  have x: "sp_udp (sim_exit_on_error e q) = sp_udp q" "sp_udp (sim_wait q) = sp_udp q"
    "sp_grpc (sim_exit_on_error e q) = sp_grpc q" "sp_grpc (sim_wait q) = sp_grpc q" for e q
    by (simp_all add: sim_wait_def sim_exit_on_error_def)
  show "sp_udp p \<Longrightarrow> \<not> (\<exists>t. ev = Turn t \<and> tick_ends t) \<Longrightarrow> sp_udp (sim_process_step P E p ev)"
    by (cases ev) (auto simp: sim_process_step_def x Let_def split: prod.split option.split control_end.split dest: t)
  show "sp_grpc p \<Longrightarrow> \<not> (\<exists>r. ev = ControlReturned r) \<Longrightarrow> sp_grpc (sim_process_step P E p ev)"
    by (cases ev) (auto simp: sim_process_step_def x Let_def split: prod.split option.split)
qed

lemma run_running:
  "sp_udp p \<Longrightarrow> \<not> (\<exists>t. Turn t \<in> set es \<and> tick_ends t) \<Longrightarrow> sp_udp (run_events (sim_process_step P E) p es)"
  "sp_grpc p \<Longrightarrow> \<not> (\<exists>r. ControlReturned r \<in> set es) \<Longrightarrow> sp_grpc (run_events (sim_process_step P E) p es)"
proof (induction es arbitrary: p)
  case (Cons ev es)
  { case 1
    have "sp_udp (sim_process_step P E p ev)" by (rule step_running(1)) (use 1 in auto)
    then show ?case using Cons.IH(1) [of "sim_process_step P E p ev"] 1(2) by auto }
  { case 2
    have "sp_grpc (sim_process_step P E p ev)" by (rule step_running(2)) (use 2 in auto)
    then show ?case using Cons.IH(2) [of "sim_process_step P E p ev"] 2(2) by auto }
qed simp_all

definition stop_inv :: "bool \<Rightarrow> sim_process \<Rightarrow> bool" where
  "stop_inv control p \<longleftrightarrow> (sp_control p \<noteq> None \<longleftrightarrow> control) \<and> (sp_stopping p \<longleftrightarrow> sp_done p \<and> control)"

lemma stop_inv_step: "stop_inv control p \<Longrightarrow> stop_inv control (sim_process_step P E p ev)"
  by (cases ev) (auto simp: sim_process_step_def stop_inv_def sim_wait_def sim_exit_on_error_def Let_def
    split: prod.splits option.splits control_end.splits)

interpretation stop_machine: invariant_machine "sim_process_step P E" "stop_inv control" for P E control
  by unfold_locales (rule stop_inv_step)

lemma step_done: "sp_done p \<Longrightarrow> sp_done (sim_process_step P E p ev)"
  by (cases ev) (auto simp: sim_process_step_def sim_wait_def sim_exit_on_error_def Let_def
    split: prod.splits option.splits control_end.splits)

interpretation done_machine: invariant_machine "sim_process_step P E" sp_done for P E
  by unfold_locales (rule step_done)

text \<open>From the signal on.\<close>

lemma signalled_run:
  assumes "process_inv p" and "\<not> sp_done p" and "stop_inv control p" and "sp_exit p = None"
    and "q = run_events (sim_process_step P E) p (Signalled # es)"
  shows "\<not> sp_stopping p \<and> (sp_stopping q \<longleftrightarrow> control) \<and> sp_exit q \<in> {None, Some 0} \<and>
    (sp_exit q = Some 0 \<longleftrightarrow>
       (sp_udp p \<longrightarrow> (\<exists>t. Turn t \<in> set es \<and> tick_ends t)) \<and> (sp_grpc p \<longrightarrow> (\<exists>r. ControlReturned r \<in> set es)))"
proof -
  let ?p = "sim_process_step P E p Signalled"
  have q: "q = run_events (sim_process_step P E) ?p es" using assms(5) by simp
  have p: "sp_done ?p" "sp_udp ?p = sp_udp p" "sp_grpc ?p = sp_grpc p" "sp_exit ?p = None \<or> sp_exit ?p = Some 0"
    using assms(4) by (auto simp: sim_process_step_def sim_wait_def)
  have i: "process_inv ?p" by (rule process_inv_step [OF assms(1)])
  have iq: "process_inv q" "sp_done q" "stop_inv control q"
    unfolding q using process_machine.run_inv [OF i] done_machine.run_inv [OF p(1)] stop_machine.run_inv [OF stop_inv_step [OF assms(3)]]
    by blast+
  let ?u = "\<exists>t. Turn t \<in> set es \<and> tick_ends t" and ?g = "\<exists>r. ControlReturned r \<in> set es"
  have ends: "sp_exit q = Some 0" if "sp_udp p \<longrightarrow> ?u" "sp_grpc p \<longrightarrow> ?g"
    unfolding q by (rule waiting_run [OF p(4,1) i]) (use that p(2,3) in blast)+
  have still: "sp_udp p \<Longrightarrow> \<not> ?u \<Longrightarrow> sp_udp q" "sp_grpc p \<Longrightarrow> \<not> ?g \<Longrightarrow> sp_grpc q"
    unfolding q using run_running [of ?p] p(2,3) by blast+
  have x: "sp_exit q = Some 0 \<longleftrightarrow> \<not> sp_udp q \<and> \<not> sp_grpc q" "sp_exit q \<in> {None, Some 0}"
    using iq(1,2) by (auto simp: process_inv_def)
  show ?thesis
  proof (intro conjI)
    show "sp_exit q = Some 0 \<longleftrightarrow> (sp_udp p \<longrightarrow> ?u) \<and> (sp_grpc p \<longrightarrow> ?g)" using ends still x(1) by blast
    show "\<not> sp_stopping p" "sp_stopping q \<longleftrightarrow> control" using assms(2,3) iq(2,3) by (simp_all add: stop_inv_def)
  qed (rule x(2))
qed

text \<open>
  C32: The simulator process ends with its signal, and not before its servers. Whatever it meets before the signal, its
  server is one that datagrams and calls have led to, the control server has not been told to stop, and the process has
  not exited, except with code 1 and a text on standard error. If it is still running when the signal comes, the control
  server, if there is one, is told to stop; from then on the process has not exited until its socket loop has
  returned, with or without an error, and the control server has too, and then it has exited with code 0.
\<close>

theorem signal_ends_simulator:
  assumes "sim_main_start resolve bind listen now env args = Inr p0" and "Signalled \<notin> set before"
    and "p = run_events (sim_process_step P E) p0 before"
    and "q = run_events (sim_process_step P E) p (Signalled # es)"
  shows "sim_reachable P E (sp_server p) \<and>
    (sp_exit p = None \<or> sp_exit p = Some 1 \<and> sp_stderr p \<noteq> []) \<and>
    (sp_exit p = None \<longrightarrow>
       \<not> sp_stopping p \<and> (sp_stopping q \<longleftrightarrow> sp_control p0 \<noteq> None) \<and> sp_exit q \<in> {None, Some 0} \<and>
       (sp_exit q = Some 0 \<longleftrightarrow>
          (sp_udp p \<longrightarrow> (\<exists>t. Turn t \<in> set es \<and> tick_ends t)) \<and> (sp_grpc p \<longrightarrow> (\<exists>r. ControlReturned r \<in> set es))))"
proof -
  have s: "\<not> sp_done p0" "stop_inv (sp_control p0 \<noteq> None) p0"
    using assms(1) by (auto simp: sim_main_start_def stop_inv_def Let_def split: sum.splits prod.splits if_splits)
  have d: "\<not> sp_done p" unfolding assms(3) by (rule run_not_done [OF s(1) assms(2)])
  have i: "process_inv p" unfolding assms(3) by (rule process_machine.run_inv [OF process_inv_start [OF assms(1)]])
  have c: "stop_inv (sp_control p0 \<noteq> None) p" unfolding assms(3) by (rule stop_machine.run_inv [OF s(2)])
  have "sim_reachable P E (sp_server p)"
    unfolding assms(3) by (rule served_machine.run_inv [OF start_reachable [OF assms(1)]])
  moreover have "sp_exit p = None \<or> sp_exit p = Some 1 \<and> sp_stderr p \<noteq> []"
    using i no_early_exit [OF i d] by (auto simp: process_inv_def sim_fail_def)
  ultimately show ?thesis using signalled_run [OF i d c _ assms(4)] by blast
qed

theorem signal_ends_simulator_witness:
  "\<exists>p. sim_main_start (\<lambda>a. Inr a) (\<lambda>a. None) (\<lambda>a. None) 0 (\<lambda>k. []) [] = Inr p \<and>
     map (\<lambda>es. sp_exit (run_events (sim_process_step example_protocol example_env) p (Turn (SocketTimeout False) # Signalled # es)))
       [[], [Turn (SocketTimeout True)], [Turn (SocketTimeout True), ControlReturned ControlDone]] = [None, None, Some 0]"
proof -
  obtain p where p: "sim_main_start (\<lambda>a. Inr a) (\<lambda>a. None) (\<lambda>a. None) 0 (\<lambda>k. []) [] = Inr p" "sp_exit p = None" "sp_udp p" "sp_grpc p"
    by (simp add: sim_main_start_def sim_New_def sim_flag_defaults_def traced_control Let_def)
  let ?step = "sim_process_step example_protocol example_env"
  let ?p = "run_events ?step p [Turn (SocketTimeout False)]"
  have n: "Signalled \<notin> set [Turn (SocketTimeout False)]" by simp
  have x: "sp_exit ?p = None" "sp_udp ?p" "sp_grpc ?p"
    using p by (simp_all add: sim_process_step_def sim_wait_def turn_enabled_def)
  note ends = signal_ends_simulator [OF p(1) n refl refl, of example_protocol example_env, THEN conjunct2, THEN conjunct2,
      THEN mp, OF x(1), THEN conjunct2, THEN conjunct2]
  have "sp_exit (run_events ?step ?p (Signalled # es)) =
      (if (\<exists>t. Turn t \<in> set es \<and> tick_ends t) \<and> (\<exists>r. ControlReturned r \<in> set es) then Some 0 else None)" for es
    using ends [of es] x(2,3) by auto
  then have "map (\<lambda>es. sp_exit (run_events ?step ?p (Signalled # es)))
       [[], [Turn (SocketTimeout True)], [Turn (SocketTimeout True), ControlReturned ControlDone]] = [None, None, Some 0]"
    by (simp only: list.map) auto
  moreover have "run_events ?step p (Turn (SocketTimeout False) # Signalled # es) = run_events ?step ?p (Signalled # es)" for es
    by simp
  ultimately show ?thesis using p(1) by (intro exI [of _ p]) (simp only: simp_thms)
qed

section \<open>The probes of the gateway\<close>

text \<open>
  C39: Kubernetes sees the state of the gateway process. The probes the controller writes into the
  gateway deployment ask the one port of its container, which is the port that the gateway listens at for them with
  the configuration it loads from the environment of that container, and the paths it answers: liveness is always answered with
  200, and readiness with 200 exactly when the start of the gateway has succeeded and with 503 before, after
  a failed start, and when the gateway has returned.
\<close>

theorem probes_tell_process:
  assumes "pod_containers (dp_pod (dep_spec (desiredGatewayDeployment U d img sa addr rc))) = [c]"
    and "Load (process_env (ct_env c)) = Inr cfg"
    and "\<forall>w b. up (ge_set_ready G w b) = b" and "\<forall>w t. up (markZ21Disconnected G cfg w t) = up w"
    and "\<not> up w" and "run_start G cfg w = (w1, started)" and "Run k n G cfg w = (w2, result)"
  shows "\<exists>live ready port. ct_liveness c = Some live \<and> ct_readiness c = Some ready \<and> ct_ports c = [port] \<and>
    hp_port live = cp_name port \<and> hp_port ready = cp_name port \<and>
    gc_health_addr cfg = '':'' @ int_dec (sint (cp_port port)) \<and>
    (\<forall>b. fst (health_get b (hp_path live)) = 200) \<and>
    fst (health_get (up w) (hp_path ready)) = 503 \<and>
    fst (health_get (up w1) (hp_path ready)) = (case started of Inl e \<Rightarrow> 503 | Inr s \<Rightarrow> 200) \<and>
    (\<forall>e. result = Some e \<longrightarrow> fst (health_get (up w2) (hp_path ready)) = 503)"
proof -
  have start: "up w1 = (case started of Inl e \<Rightarrow> False | Inr s \<Rightarrow> True)"
    using assms(3-6) by (auto simp: run_start_def Let_def split: option.splits sum.splits if_splits)
  have ended: "\<not> up w2" if "result = Some e" for e
    using assms(3,6,7) start that by (auto simp: Run_def split: sum.splits prod.splits bool.splits)
  have c: "c = hd (pod_containers (dp_pod (dep_spec (desiredGatewayDeployment U d img sa addr rc))))" by (simp add: assms(1))
  have "process_env (ct_env c) ''HEALTH_ADDR'' = []"
    unfolding c by (simp add: desiredGatewayDeployment_def Let_def process_env_def gateway_env_def)
  then have "gc_health_addr cfg = '':8080''"
    using assms(2) by (auto simp: Load_def Let_def envOr_def split: if_splits)
  moreover have "int_dec 8080 = ''8080''" by (simp add: int_dec_def nat_dec.simps digit_chars_def)
  ultimately show ?thesis
    unfolding c by (simp add: desiredGatewayDeployment_def Let_def health_get_def start assms(5) ended split: sum.split)
qed

text \<open>A gateway that is ready as long as it has a wait left.\<close>

definition ready_gateway :: "gate_world gateway_runtime" where
  "ready_gateway = example_gateway\<lparr>ge_set_ready := (\<lambda>w b. w\<lparr>gw_waits := (if b then 1 else 0)\<rparr>)\<rparr>"

lemma ready_calls:
  "ge_set_ready ready_gateway w b = w\<lparr>gw_waits := (if b then 1 else 0)\<rparr>"
  "ge_dial ready_gateway w a = (w, Inl ''refused'')" "ge_alive ready_gateway w = (0 < gw_waits w)"
  "ge_wait ready_gateway w t = (w\<lparr>gw_waits := gw_waits w - 1\<rparr>, 1 < gw_waits w)"
  "ge_connect_nats ready_gateway w u = None" "ge_subscribe ready_gateway w s = None" "ge_new_reporter ready_gateway w ns nm = None"
  "gc_get (ge_reporter ready_gateway) w key = Inr (gw_device w)"
  "gc_patch_status (ge_reporter ready_gateway) w old new = (w\<lparr>gw_device := (gw_device w)\<lparr>dev_status := dev_status new\<rparr>\<rparr>, None)"
  by (simp_all add: ready_gateway_def example_gateway_def)

lemma ready_mark: "gw_waits (markZ21Disconnected ready_gateway cfg w t) = gw_waits w"
  by (simp add: markZ21Disconnected_def patchSession_def gateway_reporter_def UpdateSession_def ready_calls)

lemma ready_start: "\<exists>w1 s. run_start ready_gateway cfg w = (w1, Inr s) \<and> gw_waits w1 = 1"
  by (simp add: run_start_def Let_def gateway_reporter_def reporter_BroadcastFlags_def ready_calls ready_mark)

lemma ready_run: "\<exists>w2. Run 1 0 ready_gateway cfg w = (w2, Some None)"
proof -
  obtain w1 s where "run_start ready_gateway cfg w = (w1, Inr s)" "gw_waits w1 = 1" using ready_start by blast
  moreover from this have "\<exists>w2. run_round 0 ready_gateway cfg s w1 = (w2, s, Some False)"
    by (simp add: run_round_def retry_def ready_calls ready_mark split_beta)
  ultimately show ?thesis by (auto simp: Run_def)
qed

theorem probes_tell_process_witness:
  "\<exists>(c :: container) cfg w1 w2 s. Load (process_env (ct_env c)) = Inr cfg \<and> gc_health_addr cfg = '':8080'' \<and> map cp_port (ct_ports c) = [8080] \<and>
     run_start ready_gateway cfg (gate_world_with 0) = (w1, Inr s) \<and> Run 1 0 ready_gateway cfg (gate_world_with 0) = (w2, Some None) \<and>
     map (\<lambda>w. fst (health_get (0 < gw_waits w) ''/readyz'')) [gate_world_with 0, w1, w2] = [503, 200, 503]"
proof -
  let ?up = "\<lambda>w. 0 < gw_waits w"
  let ?d = "desiredGatewayDeployment example_url example_hardware [] [] ''192.168.0.111:21105'' quiet_config"
  define c where "c = hd (pod_containers (dp_pod (dep_spec ?d)))"
  have c: "pod_containers (dp_pod (dep_spec ?d)) = [c]" "ct_env c = gateway_env example_url example_hardware ''192.168.0.111:21105'' quiet_config"
    "map cp_port (ct_ports c) = [8080]" "\<And>r. ct_readiness c = Some r \<Longrightarrow> hp_path r = ''/readyz''"
    by (auto simp: c_def desiredGatewayDeployment_def Let_def)
  obtain cfg where cfg: "Load (process_env (ct_env c)) = Inr cfg" "gc_health_addr cfg = '':8080''"
    unfolding c(2) by (simp add: Load_def Let_def process_env_def gateway_env_def envOr_def envBool_def parse_bool_str_def
        SubjectPrefix_def EnsureNATSURLClusterDNS_def example_url_def example_device_defs elp_consts quiet_config_def)
  have set: "\<forall>w b. ?up (ge_set_ready ready_gateway w b) = b" and mark: "\<forall>w t. ?up (markZ21Disconnected ready_gateway cfg w t) = ?up w"
    and off: "\<not> ?up (gate_world_with 0)" by (simp_all add: ready_calls ready_mark gate_world_with_def)
  obtain w1 s where s: "run_start ready_gateway cfg (gate_world_with 0) = (w1, Inr s)" using ready_start by blast
  obtain w2 where w2: "Run 1 0 ready_gateway cfg (gate_world_with 0) = (w2, Some None)" using ready_run by blast
  from probes_tell_process [OF c(1) cfg(1) set mark off s w2]
  have "map (\<lambda>w. fst (health_get (?up w) ''/readyz'')) [gate_world_with 0, w1, w2] = [503, 200, 503]"
    by (auto dest: c(4))
  then show ?thesis using cfg c(3) s w2 by (intro exI conjI) assumption+
qed

section \<open>The operators share their namespace\<close>

lemma operator_flag_names:
  "flag_name ''gateway-image''" "flag_name ''workload-namespace''"
  by (simp_all add: flag_name_def)

lemma operator_flag_lookup:
  "device_operator_flags other ''gateway-image'' = Some (StringFlag (\<lambda>v s. s\<lparr>of_image := v\<rparr>))"
  "device_operator_flags other ''workload-namespace'' = Some (StringFlag (\<lambda>v s. s\<lparr>of_namespace := v\<rparr>))"
  "sim_operator_flags other ''workload-namespace'' = Some (StringFlag (\<lambda>v s. s\<lparr>of_namespace := v\<rparr>))"
  by (simp_all add: device_operator_flags_def sim_operator_flags_def)

lemma parse_operator_args:
  "parse_flags (device_operator_flags other) s (joined_arg (''gateway-image'', img) @ joined_arg (''workload-namespace'', ns)) =
     Inr (s\<lparr>of_image := img, of_namespace := ns\<rparr>, [])"
  "parse_flags (sim_operator_flags other) s (joined_arg (''workload-namespace'', ns)) = Inr (s\<lparr>of_namespace := ns\<rparr>, [])"
  using flag_token_joined [OF operator_flag_names(1)] flag_token_joined [OF operator_flag_names(2)]
  by (simp_all add: joined_arg_def operator_flag_lookup)

text \<open>Calls that all succeed, as the list of them.\<close>

lemma run_calls_recorded:
  "run_calls (\<lambda>w c. (w @ [c], None)) w cs = (w @ map fst cs, None)"
  by (induction cs arbitrary: w) auto

text \<open>
  With the command lines of their manifests, for any image and namespace, both operators run, and the
  Simulation controller dials the service that the device controller creates for the same device.
\<close>

theorem operators_share_namespace:
  assumes "device_operator_main (\<lambda>w c. (w @ [c], None)) other1 o1 []
      (joined_arg (''gateway-image'', img) @ joined_arg (''workload-namespace'', ns)) = (calls1, log1, code1)"
    and "sim_operator_main (\<lambda>w c. (w @ [c], None)) other2 o2 [] (joined_arg (''workload-namespace'', ns)) = (calls2, log2, code2)"
  shows "\<exists>r n. SetupDevices r \<in> set calls1 \<and> SetupSimulations n \<in> set calls2 \<and>
    (img \<noteq> [] \<longrightarrow> gatewayImage r = img) \<and> (log1, code1, log2, code2) = ([], 0, [], 0) \<and>
    SimulatorGRPCAddress (sim_workloadNamespace n) name =
      join_host_port (SimulatorServiceFQDN (workloadNamespace r) name) (nat_dec DefaultSimulatorGRPCPort)"
proof -
  have "SetupDevices \<lparr>GatewayImage = img, WorkloadNamespace = ns\<rparr> \<in> set calls1" "SetupSimulations ns \<in> set calls2"
    "(log1, code1, log2, code2) = ([], 0, [], 0)"
    using assms by (auto simp: device_operator_main_def sim_operator_main_def parse_operator_args run_calls_recorded
      device_operator_calls_def sim_operator_calls_def operator_flag_defaults_def)
  then show ?thesis
    by (intro exI [of _ "\<lparr>GatewayImage = img, WorkloadNamespace = ns\<rparr>"] exI [of _ ns])
      (simp add: gatewayImage_def workloadNamespace_def sim_workloadNamespace_def SimulatorGRPCAddress_def)
qed

section \<open>Exit codes\<close>

lemma run_start_detached: "run_start G cfg w = (w1, Inr s) \<Longrightarrow> ss_client s = None"
  by (auto simp: run_start_def Let_def newZ21Session_def setFlags_def split: option.splits sum.splits if_splits)

text \<open>
  C31: The gateway process leaves its loops only with its context. It exits with code 1 exactly when its environment or one
  of its first steps is refused; after that every failure leads to another round, and when it exits, with code
  0, its context has ended.
\<close>

theorem gateway_exit_codes:
  assumes "context_laws G" and "\<forall>w b. \<not> ge_alive G w \<longrightarrow> \<not> ge_alive G (ge_set_ready G w b)"
    and "gateway_main k n G env w = (w', code)"
  shows "(code = Some 1 \<longleftrightarrow> (case Load env of Inl e \<Rightarrow> True | Inr cfg \<Rightarrow> \<exists>w1 e. run_start G cfg w = (w1, Inl e))) \<and>
    (code = Some 0 \<longrightarrow> \<not> ge_alive G w') \<and> code \<in> {None, Some 0, Some 1}"
proof (cases "Load env")
  case (Inl e)
  then show ?thesis using assms(3) by (auto simp: gateway_main_def)
next
  case (Inr cfg)
  obtain w1 r where s: "run_start G cfg w = (w1, r)" by fastforce
  show ?thesis
  proof (cases r)
    case e: (Inl e)
    then show ?thesis using assms(3) Inr s by (auto simp: gateway_main_def Run_def)
  next
    case (Inr s1)
    obtain w2 s2 b where l: "run_loop k n G cfg s1 w1 = (w2, s2, b)" using prod_cases3 by blast
    have "\<not> ge_alive G w2" if b
    proof -
      have "ss_client s1 = None" by (rule run_start_detached) (use s Inr in simp)
      moreover have "run_loop k n G cfg s1 w1 = (w2, s2, True)" using l that by simp
      ultimately show ?thesis using run_loop_ends [OF assms(1)] by blast
    qed
    then show ?thesis using assms(2,3) \<open>Load env = Inr cfg\<close> s Inr l by (cases b) (auto simp: gateway_main_def Run_def)
  qed
qed

definition skipping_env :: "string \<Rightarrow> string" where
  "skipping_env = process_env
     [(''Z21_ADDRESS'', ''10.0.0.5:21105''), (''NATS_URL'', ''nats://nats:4222''), (''NATS_SUBJECT_PREFIX'', ''z21.layout.z1''),
      (''Z21_DEVICE_NAME'', ''z1''), (''Z21_DEVICE_NAMESPACE'', ''layout''), (''Z21_GATEWAY_SKIP_STATUS'', ''true'')]"

theorem gateway_exit_codes_witness:
  "\<exists>w'. gateway_main 1 0 example_gateway skipping_env (gate_world_with 1) = (w', Some 0) \<and> \<not> ge_alive example_gateway w'"
proof -
  obtain cfg where cfg: "Load skipping_env = Inr cfg" "gc_skip_status cfg"
    by (simp add: Load_def Let_def skipping_env_def process_env_def envOr_def envBool_def parse_bool_str_def)
  have m: "markZ21Disconnected G cfg w t = w" for G :: "gate_world gateway_runtime" and w t
    using cfg(2) by (simp add: markZ21Disconnected_def patchSession_def gateway_reporter_def)
  have s: "\<exists>s. run_start example_gateway cfg w = (w, Inr s)" for w
  proof -
    have c: "ge_connect_nats example_gateway w u = None" "ge_subscribe example_gateway w u = None" "ge_set_ready example_gateway w b = w" for u b
      by (simp_all add: example_gateway_def)
    show ?thesis using cfg(2) by (simp add: run_start_def Let_def gateway_reporter_def m c)
  qed
  have r: "run_round 0 example_gateway cfg s (gate_world_with 1) = ((gate_world_with 1)\<lparr>gw_waits := 0\<rparr>, s, Some False)" for s
    by (simp add: run_round_def retry_def example_calls m gate_world_with_def)
  obtain w' where g: "gateway_main 1 0 example_gateway skipping_env (gate_world_with 1) = (w', Some 0)"
    using s [of "gate_world_with 1"] r by (auto simp: gateway_main_def cfg(1) Run_def)
  have k: "\<forall>w b. \<not> ge_alive example_gateway w \<longrightarrow> \<not> ge_alive example_gateway (ge_set_ready example_gateway w b)"
    by (simp add: example_gateway_def)
  from gateway_exit_codes [OF example_context_laws k g] g show ?thesis by auto
qed

text \<open>The publisher of the API uses the NATS URL of its environment, where there is one, else that of the device.\<close>

lemma api_nats_override:
  assumes "api_main_start getConfig new env = Inr p"
  shows "natsURL (ap_publisher p) d = (if env ''NATS_URL'' = [] then nats_url (ds_nats (dev_spec d)) else env ''NATS_URL'')"
  using assms by (auto simp: api_main_start_def api_Load_def NewPublisher_def natsURL_def Let_def split: sum.splits)

definition api_process_inv :: "api_process \<Rightarrow> bool" where
  "api_process_inv p \<longleftrightarrow>
     (ap_closed p \<longleftrightarrow> ap_exit p = Some 0) \<and> (ap_exit p = Some 1 \<longrightarrow> ap_log p \<noteq> []) \<and> ap_exit p \<in> {None, Some 0, Some 1}"

interpretation api_machine: invariant_machine api_main_step api_process_inv
  by unfold_locales (auto simp: api_main_step_def api_process_inv_def split: api_main_event.splits option.splits)

text \<open>The API process exits with code 0 exactly when it has closed its publisher, and with code 1 only after a log line.\<close>

lemma api_exit_codes:
  assumes "api_main_start getConfig new env = Inr p"
  shows "api_process_inv (run_events api_main_step p es)"
  using assms by (intro api_machine.run_inv) (auto simp: api_main_start_def api_process_inv_def Let_def split: sum.splits)

end
