(* ===== verification/Sim_Bus.thy ===== *)
theory Sim_Bus
  imports Gateway_Detector Sim_Server Device_Controller
begin

text \<open>
  The gateway's manager of CAN detectors (\<^verbatim>\<open>apps/z21-gateway/internal/detector/manager.go\<close>) on a bus that is the
  simulator (\<^verbatim>\<open>apps/z21-sim/internal/server\<close>): its datagrams are handled by the simulator that listens at one
  address, and what it reads are the replies. The way of a module address from the specification of a detector to the
  module is followed through both programs.
\<close>

section \<open>The modules of a simulator\<close>

text \<open>The module addresses on the simulated bus.\<close>

definition bus_address :: "sim_server \<Rightarrow> u16 \<Rightarrow> u16 option" where
  "bus_address s n =
     (case canDevice s n of
        Some d \<Rightarrow> if cd_kind d = CANDeviceDetector then Some (cd_module_addr d) else None
      | None \<Rightarrow> None)"

lemma bus_address_devices: "sv_devices s = sv_devices s' \<Longrightarrow> bus_address s = bus_address s'"
  by (simp add: bus_address_def canDevice_def fun_eq_iff)

lemma detectorDevices_iff:
  assumes "sim_reachable P E s" and "env_laws E"
  shows "d \<in> set (detectorDevices E s) \<longleftrightarrow> canDevice s (cd_net_id d) = Some d \<and> cd_kind d = CANDeviceDetector"
    and "canDevice s n = Some d \<Longrightarrow> cd_net_id d = n"
    and "canDevice s n = Some d \<Longrightarrow> cd_kind d = CANDeviceDetector \<Longrightarrow> cd_ports d \<noteq> []"
proof -
  have ok: "devices_ok s" using sim_reachable_inv [OF assms(1)] by (simp add: sim_inv_def)
  then have wf: "gm_wf (sv_devices s)" by (simp add: devices_ok_def)
  show n: "canDevice s n = Some d \<Longrightarrow> cd_net_id d = n" for n d
    using ok by (simp add: devices_ok_def device_ok_def canDevice_def)
  show "canDevice s n = Some d \<Longrightarrow> cd_kind d = CANDeviceDetector \<Longrightarrow> cd_ports d \<noteq> []"
    using ok by (simp add: devices_ok_def device_ok_def canDevice_def)
  have "set (DeviceOrder E (sv_devices s)) = set (sv_devices s)"
    using assms(2) by (metis env_laws_def mset_eq_setD)
  then have "d \<in> set (detectorDevices E s) \<longleftrightarrow> cd_kind d = CANDeviceDetector \<and> (\<exists>n. canDevice s n = Some d)"
    by (force simp: detectorDevices_def canDevice_def gm_get_in [OF wf] image_iff)
  then show "d \<in> set (detectorDevices E s) \<longleftrightarrow> canDevice s (cd_net_id d) = Some d \<and> cd_kind d = CANDeviceDetector"
    using n by blast
qed

text \<open>A datagram with one message.\<close>

definition reply_packet :: "z21_protocol \<Rightarrow> string \<Rightarrow> message list \<Rightarrow> (string \<times> bytes) list" where
  "reply_packet P remote rs =
     (if rs = [] then [] else case MarshalAll P rs of Inl e \<Rightarrow> [] | Inr out \<Rightarrow> [(remote, out)])"

lemma single_packet:
  assumes "ParseAll P bs = Inr [m]" and "handle_message P E remote (snd (sessionFor s remote)) (fst (sessionFor s remote), []) m = (s2, rs)"
  shows "sv_devices (handlePacket P E s remote bs) = sv_devices s2 \<and>
    sv_sent (handlePacket P E s remote bs) = sv_sent s2 @ reply_packet P remote rs"
  using assms
  by (cases "sessionFor s remote") (auto simp: handlePacket_def writeMessages_def sendUDP_def reply_packet_def split: sum.split)

lemma sessionFor_keeps: "sv_devices (fst (sessionFor s remote)) = sv_devices s \<and> sv_sent (fst (sessionFor s remote)) = sv_sent s"
  by (auto simp: sessionFor_def Let_def split: option.split)

lemma can_headers_differ:
  assumes "distinct (request_headers P)"
  shows "HeaderLANCANDetector P \<notin> {HeaderLANCANDeviceGetDescription P, HeaderLANCANDeviceSetDescription P}"
    "HeaderLANCANMaintenance P \<notin> {HeaderLANCANDeviceGetDescription P, HeaderLANCANDeviceSetDescription P, HeaderLANCANDetector P}"
    "h \<in> {HeaderLANCANDetector P, HeaderLANCANMaintenance P} \<Longrightarrow>
       h \<notin> {HeaderLANGetHWInfo P, HeaderLANGetSerialNumber P, HeaderLANGetCode P, HeaderLANLogoff P,
         HeaderLANSetBroadcastFlags P, HeaderLANGetBroadcastFlags P, HeaderLANSystemStateGetData P, HeaderLANX P}"
proof -
  let ?lan = "[HeaderLANGetHWInfo P, HeaderLANGetSerialNumber P, HeaderLANGetCode P, HeaderLANLogoff P,
      HeaderLANSetBroadcastFlags P, HeaderLANGetBroadcastFlags P, HeaderLANSystemStateGetData P, HeaderLANX P]"
  let ?can = "[HeaderLANCANDeviceGetDescription P, HeaderLANCANDeviceSetDescription P,
      HeaderLANCANDetector P, HeaderLANCANMaintenance P, HeaderLANCANBoosterSetTrackPower P]"
  have "request_headers P = ?lan @ ?can" by (simp add: request_headers_def)
  then have "distinct (?lan @ ?can)" using assms by metis
  then have d: "distinct ?can" "set ?lan \<inter> set ?can = {}" by (simp_all only: distinct_append)
  show "HeaderLANCANDetector P \<notin> {HeaderLANCANDeviceGetDescription P, HeaderLANCANDeviceSetDescription P}"
    "HeaderLANCANMaintenance P \<notin> {HeaderLANCANDeviceGetDescription P, HeaderLANCANDeviceSetDescription P, HeaderLANCANDetector P}"
    using d(1) by auto
  assume "h \<in> {HeaderLANCANDetector P, HeaderLANCANMaintenance P}"
  then have "h \<in> set ?can" by auto
  then have "h \<notin> set ?lan" using d(2) by blast
  then show "h \<notin> {HeaderLANGetHWInfo P, HeaderLANGetSerialNumber P, HeaderLANGetCode P, HeaderLANLogoff P,
         HeaderLANSetBroadcastFlags P, HeaderLANGetBroadcastFlags P, HeaderLANSystemStateGetData P, HeaderLANX P}" by simp
qed

lemma can_headers:
  assumes "distinct (request_headers P)" and "msg_header m \<in> {HeaderLANCANDetector P, HeaderLANCANMaintenance P}"
  shows "handle_message P E remote c (s, rs) m =
    (case handleCAN P E s m of (s1, Some r) \<Rightarrow> (s1, rs @ r) | (s1, None) \<Rightarrow> (s1, rs))"
proof -
  have "msg_header m \<in> {HeaderLANCANDeviceGetDescription P, HeaderLANCANDeviceSetDescription P,
      HeaderLANCANDetector P, HeaderLANCANMaintenance P, HeaderLANCANBoosterSetTrackPower P}" using assms(2) by auto
  moreover note can_headers_differ(3) [OF assms, unfolded insert_iff empty_iff de_Morgan_disj]
  ultimately show ?thesis unfolding handle_message_def prod.case Let_def by (simp only: if_False if_True)
qed

text \<open>A request to change an address changes the address of that module, if it is a detector of the simulator.\<close>

lemma maintenance_packet:
  assumes "ParseAll P bs = Inr [m]" and "distinct (request_headers P)"
    and "msg_header m = HeaderLANCANMaintenance P" and "ParseCANMaintenanceSetAddress P (msg_data m) = Inr (n, a)"
  shows "canDevice (handlePacket P E s remote bs) =
      (canDevice s)(n := map_option (\<lambda>d. if cd_kind d = CANDeviceDetector then d\<lparr>cd_module_addr := a\<rparr> else d) (canDevice s n))"
    and "bus_address (handlePacket P E s remote bs) = (bus_address s)(n := map_option (\<lambda>_. a) (bus_address s n))"
proof -
  define s1 where "s1 = fst (sessionFor s remote)"
  have d: "sv_devices s1 = sv_devices s" using sessionFor_keeps by (simp add: s1_def)
  have "handleCAN P E s1 m = (handleCANMaintenance P s1 (msg_data m), Some [])"
    using can_headers_differ(2) [OF assms(2)] assms(3) by (simp add: handleCAN_def)
  then have "handle_message P E remote c (s1, []) m = (handleCANMaintenance P s1 (msg_data m), [])" for c
    using can_headers [OF assms(2), of m] assms(3) by simp
  from single_packet [OF assms(1) this [unfolded s1_def]]
  have "sv_devices (handlePacket P E s remote bs) = sv_devices (handleCANMaintenance P s1 (msg_data m))" by (simp add: s1_def)
  then have "canDevice (handlePacket P E s remote bs) = canDevice (handleCANMaintenance P s1 (msg_data m))"
    by (simp add: canDevice_def fun_eq_iff)
  also have "\<dots> = (canDevice s)(n := map_option (\<lambda>d. if cd_kind d = CANDeviceDetector then d\<lparr>cd_module_addr := a\<rparr> else d) (canDevice s n))"
    using assms(4) d by (auto simp: handleCANMaintenance_def canDevice_def put_device_def fun_eq_iff split: option.split)
  finally show dev: "canDevice (handlePacket P E s remote bs) =
      (canDevice s)(n := map_option (\<lambda>d. if cd_kind d = CANDeviceDetector then d\<lparr>cd_module_addr := a\<rparr> else d) (canDevice s n))" .
  show "bus_address (handlePacket P E s remote bs) = (bus_address s)(n := map_option (\<lambda>_. a) (bus_address s n))"
    by (auto simp: bus_address_def dev fun_eq_iff split: option.split)
qed

text \<open>A poll changes no module, and whatever is sent back are the reports of modules of the bus.\<close>

lemma poll_packet:
  assumes "ParseAll P bs = Inr [m]" and "distinct (request_headers P)"
    and "msg_header m = HeaderLANCANDetector P" and "handleCANDetectorPoll P E s (msg_data m) = Some rs"
  shows "bus_address (handlePacket P E s remote bs) = bus_address s"
    and "sv_sent (handlePacket P E s remote bs) = sv_sent s @ reply_packet P remote rs"
proof -
  define s1 where "s1 = fst (sessionFor s remote)"
  have d: "sv_devices s1 = sv_devices s" "sv_sent s1 = sv_sent s" using sessionFor_keeps by (simp_all add: s1_def)
  have p: "handleCANDetectorPoll P E s1 (msg_data m) = Some rs"
  proof -
    have "detectorDevices E s1 = detectorDevices E s" "canDevice s1 = canDevice s"
      using d by (simp_all add: detectorDevices_def canDevice_def fun_eq_iff)
    then have "handleCANDetectorPoll P E s1 (msg_data m) = handleCANDetectorPoll P E s (msg_data m)"
      by (simp add: handleCANDetectorPoll_def Let_def)
    then show ?thesis using assms(4) by simp
  qed
  have "handleCAN P E s1 m = (s1, Some rs)"
    using can_headers_differ(1) [OF assms(2)] assms(3) p by (simp add: handleCAN_def)
  then have "handle_message P E remote c (s1, []) m = (s1, rs)" for c
    using can_headers [OF assms(2), of m] assms(3) by simp
  note h = single_packet [OF assms(1) this [unfolded s1_def]]
  show "bus_address (handlePacket P E s remote bs) = bus_address s"
    by (rule bus_address_devices) (use h d in \<open>simp add: s1_def\<close>)
  show "sv_sent (handlePacket P E s remote bs) = sv_sent s @ reply_packet P remote rs"
    using h d by (simp add: s1_def)
qed

lemma polled_reports:
  assumes "sim_reachable P E s" and "env_laws E" and "handleCANDetectorPoll P E s (0 # le16 n) = Some rs"
    and "m \<in> set rs"
  shows "\<exists>k a p t v. bus_address s k = Some a \<and> msg_data m = encodeCANDetectorReport k a p t v 0"
proof -
  note dev = detectorDevices_iff [OF assms(1,2)]
  have n: "get_le16 (le16 n) = n" using get_le16_le16 [of n "[]"] by simp
  obtain d where d: "m \<in> set (detectorReports P d)" "d \<in> set (detectorDevices E s)"
    using assms(3,4) dev(1,2)
    by (auto simp: handleCANDetectorPoll_def Let_def n split: if_splits option.splits)
  then have "canDevice s (cd_net_id d) = Some d" "cd_kind d = CANDeviceDetector" using dev(1) by simp_all
  then have "bus_address s (cd_net_id d) = Some (cd_module_addr d)" by (simp add: bus_address_def)
  moreover obtain p v where "msg_data m = encodeCANDetectorReport (cd_net_id d) (cd_module_addr d) p (CANDetectorTypeOccupancy P) v 0"
    using d(1) by (auto simp: detectorReports_def)
  ultimately show ?thesis by blast
qed

section \<open>The link over the simulator\<close>

text \<open>
  The two programs speak one protocol, whose encoder and parser agree: what one message or the reply to a poll is
  encoded to is parsed to the same messages, and the reports are those of the report messages.
\<close>

definition wire_protocol :: "z21_protocol \<Rightarrow> 'w detector_link \<Rightarrow> bool" where
  "wire_protocol P L \<longleftrightarrow>
     distinct (request_headers P) \<and>
     (\<forall>ms bs. MarshalAll P ms = Inr bs \<longrightarrow> ParseAll P bs = Inr ms) \<and>
     (\<forall>n. dl_get_one L n = \<lparr>msg_header = HeaderLANCANDetector P, msg_data = 0 # le16 n\<rparr>) \<and>
     (\<forall>n a msg. dl_set_address L n a True = Inr msg \<longrightarrow>
        msg_header msg = HeaderLANCANMaintenance P \<and> ParseCANMaintenanceSetAddress P (msg_data msg) = Inr (n, a)) \<and>
     (\<forall>n a p t v1 v2. dl_parse L (encodeCANDetectorReport n a p t v1 v2) = Inr \<lparr>rp_net_id = n, rp_addr = a, rp_port = p\<rparr>) \<and>
     (\<forall>ms rs rep. dl_reports L ms = Inr rs \<longrightarrow> rep \<in> set rs \<longrightarrow> (\<exists>m \<in> set ms. dl_parse L (msg_data m) = Inr rep))"

text \<open>A datagram with this message has come from \<open>me\<close> to the simulator, which handled it.\<close>

definition delivered :: "z21_protocol \<Rightarrow> sim_env \<Rightarrow> string \<Rightarrow> sim_server \<Rightarrow> message \<Rightarrow> sim_server \<Rightarrow> bool" where
  "delivered P E me s msg s' \<longleftrightarrow> (\<exists>bs. MarshalAll P [msg] = Inr bs \<and> s' = handlePacket P E s me bs)"

text \<open>
  The network: the simulator listens at \<open>lan\<close> and nowhere else. A datagram that is sent there without an error is
  delivered; one that is sent to another address changes nothing. A call delivers its request or fails, and what it
  collects are messages of datagrams the simulator has sent to the gateway since. Some datagrams may get lost on the
  way back. The objects of the cluster are not touched by datagrams.
\<close>

definition simulator_link ::
  "z21_protocol \<Rightarrow> sim_env \<Rightarrow> string \<Rightarrow> string \<Rightarrow> ('w \<Rightarrow> sim_server) \<Rightarrow> ('w \<Rightarrow> string \<times> string \<Rightarrow> can_detector option)
     \<Rightarrow> 'w detector_link \<Rightarrow> bool" where
  "simulator_link P E me lan sim view L \<longleftrightarrow>
     (\<forall>w. sim_reachable P E (sim w)) \<and>
     (\<forall>w maint msg. let (w', r) = dl_send L w maint msg in view w' = view w \<and>
        (if maint = lan \<and> r = None then delivered P E me (sim w) msg (sim w') else sim w' = sim w)) \<and>
     (\<forall>w n. let (w', r) = dl_collect L w (dl_get_one L n) in view w' = view w \<and>
        (case r of
           Inl e \<Rightarrow> sim w' = sim w \<or> delivered P E me (sim w) (dl_get_one L n) (sim w')
         | Inr msgs \<Rightarrow> delivered P E me (sim w) (dl_get_one L n) (sim w') \<and>
             (\<forall>m \<in> set msgs. \<exists>out ms. (me, out) \<in> set (drop (length (sv_sent (sim w))) (sv_sent (sim w'))) \<and>
                ParseAll P out = Inr ms \<and> m \<in> set ms)))"

lemma delivered_address:
  assumes "wire_protocol P L" and "dl_set_address L n a True = Inr msg" and "delivered P E me s msg s'"
  shows "bus_address s' = (bus_address s)(n := map_option (\<lambda>_. a) (bus_address s n))"
proof -
  obtain bs where bs: "MarshalAll P [msg] = Inr bs" "s' = handlePacket P E s me bs" using assms(3) by (auto simp: delivered_def)
  have "ParseAll P bs = Inr [msg]" using assms(1) bs(1) by (simp add: wire_protocol_def)
  moreover have "distinct (request_headers P)" "msg_header msg = HeaderLANCANMaintenance P"
    "ParseCANMaintenanceSetAddress P (msg_data msg) = Inr (n, a)"
    using assms(1,2) unfolding wire_protocol_def by blast+
  ultimately show ?thesis unfolding bs(2) by (rule maintenance_packet(2))
qed

lemma delivered_poll:
  assumes "wire_protocol P L" and "delivered P E me s (dl_get_one L n) s'"
  obtains rs where "handleCANDetectorPoll P E s (0 # le16 n) = Some rs" "bus_address s' = bus_address s"
    "sv_sent s' = sv_sent s @ reply_packet P me rs"
proof -
  let ?m = "dl_get_one L n"
  obtain bs where bs: "MarshalAll P [?m] = Inr bs" "s' = handlePacket P E s me bs" using assms(2) by (auto simp: delivered_def)
  have p: "ParseAll P bs = Inr [?m]" "distinct (request_headers P)" "msg_header ?m = HeaderLANCANDetector P" "msg_data ?m = 0 # le16 n"
    using assms(1) bs(1) by (simp_all add: wire_protocol_def)
  have "handleCANDetectorPoll P E s (0 # le16 n) \<noteq> None" by (simp add: handleCANDetectorPoll_def Let_def)
  then obtain rs where rs: "handleCANDetectorPoll P E s (0 # le16 n) = Some rs" by blast
  note q = poll_packet [OF p(1,2,3), unfolded p(4), OF rs]
  show thesis using that [OF rs] q bs(2) by simp
qed

text \<open>So the simulator is a bus of modules as the manager expects it.\<close>

lemma simulator_link_bus:
  assumes "wire_protocol P L" and "env_laws E" and "simulator_link P E me lan sim view L"
  shows "link_bus L view (\<lambda>w. bus_address (sim w))"
  unfolding link_bus_def
proof (intro conjI allI impI)
  fix w maint n a msg assume set: "dl_set_address L n a True = Inr msg"
  obtain w' r where s: "dl_send L w maint msg = (w', r)" by fastforce
  have "let (w', r) = dl_send L w maint msg in view w' = view w \<and>
        (if maint = lan \<and> r = None then delivered P E me (sim w) msg (sim w') else sim w' = sim w)"
    using assms(3) unfolding simulator_link_def by blast
  then have "view w' = view w" "sim w' = sim w \<or> delivered P E me (sim w) msg (sim w')"
    unfolding s by (auto split: if_splits)
  moreover from this(2) have "\<exists>x. bus_address (sim w') = (bus_address (sim w))(n := x)"
    using delivered_address [OF assms(1) set] by (metis fun_upd_triv)
  ultimately show "let w' = fst (dl_send L w maint msg) in view w' = view w \<and> (\<exists>x. bus_address (sim w') = (bus_address (sim w))(n := x))"
    by (simp add: s Let_def)
next
  fix w n
  obtain w' r where c: "dl_collect L w (dl_get_one L n) = (w', r)" by fastforce
  have l: "let (w', r) = dl_collect L w (dl_get_one L n) in view w' = view w \<and>
        (case r of
           Inl e \<Rightarrow> sim w' = sim w \<or> delivered P E me (sim w) (dl_get_one L n) (sim w')
         | Inr msgs \<Rightarrow> delivered P E me (sim w) (dl_get_one L n) (sim w') \<and>
             (\<forall>m \<in> set msgs. \<exists>out ms. (me, out) \<in> set (drop (length (sv_sent (sim w))) (sv_sent (sim w'))) \<and>
                ParseAll P out = Inr ms \<and> m \<in> set ms))"
    using assms(3) unfolding simulator_link_def by blast
  have v: "view w' = view w" using l unfolding c by simp
  have "sim w' = sim w \<or> delivered P E me (sim w) (dl_get_one L n) (sim w')" using l unfolding c by (auto split: sum.splits)
  then have b: "bus_address (sim w') = bus_address (sim w)" by (metis delivered_poll [OF assms(1)])
  have "bus_address (sim w) (rp_net_id rep) = Some (rp_addr rep)"
    if r: "r = Inr msgs" "dl_reports L msgs = Inr reps" "rep \<in> set reps" for msgs reps rep
  proof -
    obtain m where m: "m \<in> set msgs" "dl_parse L (msg_data m) = Inr rep"
      using assms(1) r(2,3) unfolding wire_protocol_def by blast
    have d: "delivered P E me (sim w) (dl_get_one L n) (sim w')"
      and ms: "\<exists>out ms. (me, out) \<in> set (drop (length (sv_sent (sim w))) (sv_sent (sim w'))) \<and> ParseAll P out = Inr ms \<and> m \<in> set ms"
      using l m(1) unfolding c r(1) by auto
    obtain rs where q: "handleCANDetectorPoll P E (sim w) (0 # le16 n) = Some rs"
      "sv_sent (sim w') = sv_sent (sim w) @ reply_packet P me rs"
      using delivered_poll [OF assms(1) d] by metis
    obtain p ms where p: "(me, p) \<in> set (reply_packet P me rs)" "ParseAll P p = Inr ms" "m \<in> set ms" using ms q(2) by auto
    have "MarshalAll P rs = Inr p" using p(1) by (auto simp: reply_packet_def split: if_splits sum.splits)
    then have "ParseAll P p = Inr rs" using assms(1) by (simp add: wire_protocol_def)
    then have "m \<in> set rs" using p(2,3) by simp
    moreover have "sim_reachable P E (sim w)" using assms(3) by (simp add: simulator_link_def)
    ultimately obtain k a pt ty v where e: "bus_address (sim w) k = Some a" "msg_data m = encodeCANDetectorReport k a pt ty v 0"
      using polled_reports [OF _ assms(2) q(1)] by blast
    have "dl_parse L (encodeCANDetectorReport k a pt ty v 0) = Inr \<lparr>rp_net_id = k, rp_addr = a, rp_port = pt\<rparr>"
      using assms(1) unfolding wire_protocol_def by blast
    then have "rep = \<lparr>rp_net_id = k, rp_addr = a, rp_port = pt\<rparr>" using m(2) e(2) by simp
    then show ?thesis using e(1) by simp
  qed
  then show "let (w', r) = dl_collect L w (dl_get_one L n) in view w' = view w \<and> bus_address (sim w') = bus_address (sim w) \<and>
        (\<forall>msgs rs rep. r = Inr msgs \<longrightarrow> dl_reports L msgs = Inr rs \<longrightarrow> rep \<in> set rs \<longrightarrow>
           bus_address (sim w) (rp_net_id rep) = Some (rp_addr rep))"
    unfolding c using v b by simp
qed

section \<open>The way of an address to its module\<close>

definition wants :: "can_detector \<Rightarrow> u16 option" where
  "wants det = (case det_desired (det_spec det) of
     Some a \<Rightarrow> if det_observed (det_status det) = Some a then None else Some a | None \<Rightarrow> None)"

definition maintenance_address :: "manager \<Rightarrow> string" where
  "maintenance_address m = join_host_port (mg_host m) (int_dec (mg_port m))"

text \<open>What one detector of the device does to the bus, when nothing fails.\<close>

definition bus_after :: "bool \<Rightarrow> can_detector \<Rightarrow> (u16 \<Rightarrow> u16 option) \<Rightarrow> u16 \<Rightarrow> u16 option" where
  "bus_after heard det bus =
     (case wants det of
        Some a \<Rightarrow> if heard then bus(det_net_id (det_spec det) := map_option (\<lambda>_. a) (bus (det_net_id (det_spec det)))) else bus
      | None \<Rightarrow> bus)"

lemma sent_address:
  assumes "wire_protocol P L" and "simulator_link P E me lan sim view L" and "dl_set_address L n a True = Inr msg"
    and "dl_send L w maint msg = (w1, None)"
  shows "bus_address (sim w1) =
    (if maint = lan then (bus_address (sim w))(n := map_option (\<lambda>_. a) (bus_address (sim w) n)) else bus_address (sim w))"
proof -
  have "let (w', r) = dl_send L w maint msg in view w' = view w \<and>
        (if maint = lan \<and> r = None then delivered P E me (sim w) msg (sim w') else sim w' = sim w)"
    using assms(2) unfolding simulator_link_def by blast
  then show ?thesis unfolding assms(4) using delivered_address [OF assms(1,3)] by (auto split: if_splits)
qed

lemma reconcileOne_bus:
  assumes "link_kube L view (\<lambda>w. bus_address (sim w))" and "wire_protocol P L" and "env_laws E"
    and "simulator_link P E me lan sim view L" and "reconcileOne L m w det = (w', None)"
  shows "bus_address (sim w') = bus_after (maintenance_address m = lan) det (bus_address (sim w))"
proof (cases "wants det")
  case None
  have key: "gateway_key det = gateway_key (det\<lparr>det_status := st\<rparr>)" for st by simp
  from None consider "det_desired (det_spec det) = None" | a where "det_desired (det_spec det) = Some a" "det_observed (det_status det) = Some a"
    by (auto simp: wants_def split: option.splits if_splits)
  then have "bus_address (sim w') = bus_address (sim w)"
  proof cases
    case 1
    then show ?thesis using assms(5) by (simp add: reconcileOne_def)
  next
    case 2
    then have "markApplied L w det = (w', None)" using assms(5) by (simp add: reconcileOne_def)
    then show ?thesis
      using link_patch_statusD [OF assms(1) key] by (auto simp: markApplied_def split: if_splits prod.splits option.splits)
  qed
  then show ?thesis using None by (simp add: bus_after_def)
next
  case (Some a)
  let ?n = "det_net_id (det_spec det)"
  obtain msg w1 w2 x where st: "dl_set_address L ?n a True = Inr msg" "dl_send L w (maintenance_address m) msg = (w1, None)"
    "pollModuleAddress L w1 ?n = (w2, Inr x)" "dl_patch_status L w2 det (applied_object x a det) = (w', None)"
    using assms(5) Some
    by (auto simp: wants_def reconcileOne_def maintenance_address_def Let_def split: option.splits sum.splits prod.splits if_splits)
  have "bus_address (sim w') = bus_address (sim w2)" using link_patch_statusD [OF assms(1) _ st(4)] by simp
  also have "\<dots> = bus_address (sim w1)"
    using pollModuleAddress_bus [OF simulator_link_bus [OF assms(2-4)] st(3)] by simp
  finally show ?thesis using sent_address [OF assms(2,4) st(1,2)] Some by (simp add: bus_after_def)
qed

lemma reconcile_each_bus:
  assumes "link_kube L view (\<lambda>w. bus_address (sim w))" and "wire_protocol P L" and "env_laws E"
    and "simulator_link P E me lan sim view L" and "reconcile_each L m w dets = (w', None)"
  shows "bus_address (sim w') = fold (bus_after (maintenance_address m = lan)) (mine m dets) (bus_address (sim w))"
  using assms(5)
proof (induction dets arbitrary: w)
  case (Cons det dets)
  show ?case
  proof (cases "det_device_ref (det_spec det) = mg_device m")
    case True
    then obtain w1 where "reconcileOne L m w det = (w1, None)" "reconcile_each L m w1 dets = (w', None)"
      using Cons.prems by (auto split: prod.splits option.splits)
    then show ?thesis using Cons.IH reconcileOne_bus [OF assms(1-4)] True by simp
  qed (use Cons in simp)
qed simp

lemma bus_after_other: "det_net_id (det_spec det) \<noteq> n \<Longrightarrow> bus_after h det bus n = bus n"
  by (simp add: bus_after_def split: option.split)

lemma fold_bus_other: "n \<notin> (\<lambda>d. det_net_id (det_spec d)) ` set dets \<Longrightarrow> fold (bus_after h) dets bus n = bus n"
  by (induction dets arbitrary: bus) (auto simp: bus_after_other)

lemma fold_bus_after:
  assumes "distinct (map (\<lambda>d. det_net_id (det_spec d)) dets)" and "det \<in> set dets" and "wants det = Some a"
  shows "fold (bus_after h) dets bus (det_net_id (det_spec det)) =
    (if h then map_option (\<lambda>_. a) (bus (det_net_id (det_spec det))) else bus (det_net_id (det_spec det)))"
  using assms(1,2)
proof (induction dets arbitrary: bus)
  case (Cons e dets)
  show ?case
  proof (cases "e = det")
    case True
    then have "fold (bus_after h) dets (bus_after h e bus) (det_net_id (det_spec det)) = bus_after h e bus (det_net_id (det_spec det))"
      using Cons.prems(1) by (intro fold_bus_other) simp
    moreover have "bus_after h det bus (det_net_id (det_spec det)) =
        (if h then map_option (\<lambda>_. a) (bus (det_net_id (det_spec det))) else bus (det_net_id (det_spec det)))"
      using assms(3) by (simp add: bus_after_def)
    ultimately show ?thesis using True by simp
  next
    case False
    then have "det \<in> set dets" "det_net_id (det_spec e) \<noteq> det_net_id (det_spec det)" using Cons.prems by force+
    then show ?thesis using Cons.IH Cons.prems(1) by (simp add: bus_after_other)
  qed
qed simp

lemma nat_dec_inj: "nat_dec n = nat_dec k \<longleftrightarrow> n = k"
proof
  assume eq: "nat_dec n = nat_dec k"
  have "Inr n = parse_digits 10 (max n k) 0 (nat_dec n)" by (rule parse_digits_nat_dec [symmetric]) (rule max.cobounded1)
  also have "\<dots> = Inr k" unfolding eq by (rule parse_digits_nat_dec) (rule max.cobounded2)
  finally show "n = k" by (rule sum.inject(2) [THEN iffD1])
qed (rule arg_cong)

lemma int_dec_inj: "int_dec p = int_dec q \<longleftrightarrow> p = q"
proof
  have minus: "CHR ''-'' # s \<noteq> nat_dec n" for s n
  proof
    assume "CHR ''-'' # s = nat_dec n"
    then have "CHR ''-'' \<in> set (nat_dec n)" by (metis list.set_intros(1))
    from nat_dec_plain [OF this] show False by simp
  qed
  assume eq: "int_dec p = int_dec q"
  consider "p < 0" "q < 0" | "p < 0" "\<not> q < 0" | "\<not> p < 0" "q < 0" | "\<not> p < 0" "\<not> q < 0" by blast
  then show "p = q"
  proof cases
    case 1
    then have "nat_dec (nat (- p)) = nat_dec (nat (- q))" using eq unfolding int_dec_def if_P [OF 1(1)] if_P [OF 1(2)] by (simp only: list.inject)
    then have "nat (- p) = nat (- q)" by (simp only: nat_dec_inj)
    then show ?thesis using 1 by linarith
  next
    case 2
    then show ?thesis using eq minus unfolding int_dec_def if_P [OF 2(1)] if_not_P [OF 2(2)] by (elim notE [rotated]) blast
  next
    case 3
    then show ?thesis using eq [symmetric] minus unfolding int_dec_def if_not_P [OF 3(1)] if_P [OF 3(2)] by (elim notE [rotated]) blast
  next
    case 4
    then have "nat p = nat q" using eq unfolding int_dec_def if_not_P [OF 4(1)] if_not_P [OF 4(2)] by (simp only: nat_dec_inj)
    then show ?thesis using 4 by linarith
  qed
qed (rule arg_cong)

text \<open>The manager for a simulator talks to the address the simulator listens at exactly when the maintenance port is the LAN port.\<close>

lemma maintenance_reaches:
  assumes "Z21Address device = Inr z21" and "be_type (ds_backend (dev_spec device)) = BackendSimulator"
    and "no_brackets (om_name (dev_meta device))" and "NewManager L ns name z21 0 = Inr m"
  shows "maintenance_address m = z21 \<longleftrightarrow> dl_maintenance_port L = sint DefaultZ21Port"
proof -
  let ?host = "SimulatorServiceFQDN DefaultWorkloadNamespace (om_name (dev_meta device))"
  have z: "z21 = join_host_port ?host (int_dec (sint DefaultZ21Port))"
    using assms(1,2) by (simp add: Z21Address_def Let_def i32_dec_def BackendSimulator_def BackendHardware_def split: if_splits)
  have b: "no_brackets ?host"
    by (rule no_brackets_FQDN) (use assms(3) in \<open>simp_all add: no_brackets_def DefaultWorkloadNamespace_def\<close>)
  have m: "mg_host m = ?host" "mg_port m = dl_maintenance_port L"
    using assms(4) by (auto simp: NewManager_def z split_join_int_dec [OF b])
  have "join_host_port h p = join_host_port h q \<longleftrightarrow> p = q" for h p q by (simp add: join_host_port_def)
  then show ?thesis by (simp add: maintenance_address_def m z int_dec_inj)
qed

text \<open>
  C6: An allocated module address reaches its simulated module only through the LAN port. When the manager of a simulator's
  gateway has gone over the wanted addresses without an error, every detector of the device that was not at its wanted address
  has the address its module has now as observed one, and the phase Applied exactly if that is the wanted one. The module
  has taken it if the maintenance port of the client package, which the manager dials, is the port the simulator listens at;
  if it is any other port, the module has the address it had before.
\<close>

theorem address_reaches_module:
  assumes "Z21Address device = Inr z21" and "be_type (ds_backend (dev_spec device)) = BackendSimulator"
    and "no_brackets (om_name (dev_meta device))" and "NewManager L ns name z21 0 = Inr m"
    and "link_kube L view (\<lambda>w. bus_address (sim w))" and "wire_protocol P L" and "env_laws E"
    and "simulator_link P E me z21 sim view L"
    and "dl_list L w (mg_namespace m) = Inr dets" and "distinct (map gateway_key dets)"
    and "\<forall>d \<in> set dets. view w (gateway_key d) = Some d" and "distinct (map (\<lambda>d. det_net_id (det_spec d)) (mine m dets))"
    and "ReconcileAddresses L m w = (w', None)" and "det \<in> set (mine m dets)" and "wants det = Some a"
  shows "\<exists>d before now. view w' (gateway_key det) = Some d \<and>
    bus_address (sim w) (det_net_id (det_spec det)) = Some before \<and> bus_address (sim w') (det_net_id (det_spec det)) = Some now \<and>
    det_observed (det_status d) = Some now \<and> (det_phase (det_status d) = CANDetectorPhaseApplied \<longleftrightarrow> now = a) \<and>
    now = (if dl_maintenance_port L = 21105 then a else before)"
proof -
  let ?n = "det_net_id (det_spec det)"
  have each: "reconcile_each L m w dets = (w', None)" using assms(9,13) by (simp add: ReconcileAddresses_def)
  obtain d where d: "view w' (gateway_key det) = Some d" "applied_as det d (bus_address (sim w'))"
    using reconcile_each_stores [OF assms(5) simulator_link_bus [OF assms(6-8)] assms(10-12) each] assms(14) by blast
  have det: "det_desired (det_spec det) = Some a" "det_observed (det_status det) \<noteq> Some a"
    using assms(15) by (auto simp: wants_def split: option.splits if_splits)
  obtain now where now: "bus_address (sim w') ?n = Some now" "d = applied_object now a det"
    using d(2) det by (auto simp: applied_as_def)
  have "bus_address (sim w') ?n =
      (if dl_maintenance_port L = 21105 then map_option (\<lambda>_. a) (bus_address (sim w) ?n) else bus_address (sim w) ?n)"
    using fold_bus_after [OF assms(12,14,15), of "maintenance_address m = z21"] reconcile_each_bus [OF assms(5-8) each]
    by (simp add: maintenance_reaches [OF assms(1-4)] DefaultZ21Port_def)
  then have "\<exists>before. bus_address (sim w) ?n = Some before \<and> now = (if dl_maintenance_port L = 21105 then a else before)"
    using now(1) by (auto split: if_splits simp: map_option_case split: option.splits)
  moreover have "CANDetectorPhaseAllocated \<noteq> CANDetectorPhaseApplied" by (simp add: CANDetectorPhaseAllocated_def CANDetectorPhaseApplied_def)
  ultimately show ?thesis using d(1) now by (auto simp: applied_object_def Let_def)
qed

section \<open>A gateway and a simulator in memory\<close>

text \<open>The cluster of the examples, and what the simulator has been sent.\<close>

type_synonym bus_world = "mem_world \<times> sim_event list"

definition bus_protocol :: z21_protocol where
  "bus_protocol = example_protocol\<lparr>MarshalAll := (\<lambda>ms.
     if list_all (\<lambda>m. length (msg_data m) < 1000) ms then Inr (concat (map frame ms)) else Inl ''too long'')\<rparr>"

definition bus_sim :: "bus_world \<Rightarrow> sim_server" where
  "bus_sim w = run_events (sim_step bus_protocol example_env) (new_server 0) (snd w)"

definition bus_view :: "bus_world \<Rightarrow> string \<times> string \<Rightarrow> can_detector option" where
  "bus_view w = mw_view (fst w)"

definition bus_me :: string where "bus_me = ''10.0.0.9:40000''"

definition bus_sent :: "message \<Rightarrow> bus_world \<Rightarrow> string + bus_world" where
  "bus_sent msg w = map_sum id (\<lambda>bs. (fst w, snd w @ [Packet bus_me bs])) (MarshalAll bus_protocol [msg])"

fun bus_received :: "(string \<times> bytes) list \<Rightarrow> message list" where
  "bus_received [] = []"
| "bus_received ((to, out) # rest) =
     (if to = bus_me then (case ParseAll bus_protocol out of Inl e \<Rightarrow> [] | Inr ms \<Rightarrow> ms) else []) @ bus_received rest"

definition bus_collect :: "bus_world \<Rightarrow> message \<Rightarrow> bus_world \<times> (string + message list)" where
  "bus_collect w msg = (case bus_sent msg w of
     Inl e \<Rightarrow> (w, Inl e)
   | Inr w' \<Rightarrow> (w', Inr (bus_received (drop (length (sv_sent (bus_sim w))) (sv_sent (bus_sim w'))))))"

definition bus_link :: "string \<Rightarrow> int \<Rightarrow> bus_world detector_link" where
  "bus_link lan port =
     \<lparr>dl_header_detector = 0xC4, dl_poll_all = 0xD000, dl_maintenance_port = port, dl_parse = mw_parse,
      dl_reports = mw_reports, dl_get_all = \<lparr>msg_header = 0xC4, msg_data = 0 # le16 0xD000\<rparr>,
      dl_get_one = (\<lambda>n. \<lparr>msg_header = 0xC4, msg_data = 0 # le16 n\<rparr>),
      dl_set_address = (\<lambda>n a store. Inr \<lparr>msg_header = 0xCC, msg_data = le16 n @ le16 a\<rparr>),
      dl_order = (\<lambda>m. m), dl_collect = bus_collect, dl_dial = (\<lambda>w maint. None),
      dl_send = (\<lambda>w maint msg. if maint \<noteq> lan then (w, None)
        else (case bus_sent msg w of Inl e \<Rightarrow> (w, Some e) | Inr w' \<Rightarrow> (w', None))),
      dl_list = (\<lambda>w ns. dl_list mw_link (fst w) ns),
      dl_get = (\<lambda>w k. dl_get mw_link (fst w) k),
      dl_create = (\<lambda>w d. map_prod (\<lambda>x. (x, snd w)) id (dl_create mw_link (fst w) d)),
      dl_patch = (\<lambda>w old new. map_prod (\<lambda>x. (x, snd w)) id (dl_patch mw_link (fst w) old new)),
      dl_patch_status = (\<lambda>w base new. map_prod (\<lambda>x. (x, snd w)) id (dl_patch_status mw_link (fst w) base new))\<rparr>"

lemma bus_link_kube: "link_kube (bus_link lan port) bus_view (\<lambda>w. bus_address (bus_sim w))"
proof -
  have b: "bus_sim (x, snd w) = bus_sim w" for x w by (simp add: bus_sim_def)
  have c: "link_writes bus_view (\<lambda>w. bus_address (bus_sim w)) w d (x, snd w) r"
    if "link_writes mw_view mw_bus (fst w) d x r" for w d x r
    using that b by (auto simp: link_writes_def bus_view_def split: sum.splits)
  show ?thesis
    unfolding link_kube_def
  proof (intro conjI allI impI)
    show "case dl_get (bus_link lan port) w k of
        Inr d \<Rightarrow> bus_view w k = Some d \<and> gateway_key d = k | Inl e \<Rightarrow> (\<exists>m. e = KubeNotFound m) \<longrightarrow> bus_view w k = None" for w k
      using link_getD [OF mw_link_kube, of "fst w" k] by (auto simp: bus_link_def bus_view_def split: sum.split)
    show "link_writes bus_view (\<lambda>w. bus_address (bus_sim w)) w d (fst (dl_create (bus_link lan port) w d)) (snd (dl_create (bus_link lan port) w d))"
      if "det_status d = unset_detector_status" for w d
      using c link_createD [OF mw_link_kube that] by (cases "dl_create mw_link (fst w) d") (simp add: bus_link_def)
    show "link_writes bus_view (\<lambda>w. bus_address (bus_sim w)) w new
        (fst (dl_patch (bus_link lan port) w old new)) (snd (dl_patch (bus_link lan port) w old new))"
      if "bus_view w (gateway_key new) = Some old \<and> det_status new = det_status old" for w old new
      using c link_patchD [OF mw_link_kube] that
      by (cases "dl_patch mw_link (fst w) old new") (simp add: bus_link_def bus_view_def)
  next
    fix w :: bus_world and base new :: can_detector
    assume "gateway_key base = gateway_key new"
    note p = link_patch_statusD [OF mw_link_kube this, of "fst w"]
    show "let (w', r) = dl_patch_status (bus_link lan port) w base new; k = gateway_key new in
         bus_address (bus_sim w') = bus_address (bus_sim w) \<and>
         (case r of
            Some e \<Rightarrow> \<exists>x. bus_view w' = (bus_view w)(k := x)
          | None \<Rightarrow> \<exists>old x. bus_view w k = Some old \<and> bus_view w' = (bus_view w)(k := x) \<and>
              (det_status old = det_status base \<longrightarrow> x = Some (old\<lparr>det_status := det_status new\<rparr>)))"
      using p by (cases "dl_patch_status mw_link (fst w) base new") (auto simp: bus_link_def bus_view_def b Let_def split: option.splits)
  qed
qed

lemma parse_frames_frame:
  assumes "length (msg_data m) < 1000" and "length rest \<le> k" and "parse_frames k rest = Inr ms"
  shows "parse_frames (Suc k) (frame m @ rest) = Inr (m # ms)"
proof -
  let ?l = "length (msg_data m) + 4"
  have l: "unat (word_of_nat ?l :: u16) = ?l" using assms(1) by (simp only: unat_of_nat take_bit_nat_eq_self_iff) simp
  have d: "frame m @ rest = le16 (word_of_nat ?l) @ le16 (msg_header m) @ msg_data m @ rest" by (simp add: frame_def)
  have g: "unat (get_le16 (frame m @ rest)) = ?l" unfolding d by (simp only: get_le16_le16 l)
  have h: "get_le16 (drop 2 (frame m @ rest)) = msg_header m" unfolding d by simp
  have n: "length (frame m) = ?l" by (simp add: frame_def)
  have t: "drop ?l (frame m @ rest) = rest" "drop 4 (take ?l (frame m @ rest)) = msg_data m"
    using n by (simp_all add: frame_def)
  have "frame m @ rest \<noteq> []" "\<not> length (frame m @ rest) < 4" "\<not> (?l < 4 \<or> length (frame m @ rest) < ?l)" using n by auto
  then show ?thesis unfolding parse_frames.simps(2) Let_def g h t assms(3) by simp
qed

lemma frames_roundtrip:
  "list_all (\<lambda>m. length (msg_data m) < 1000) ms \<Longrightarrow> length (concat (map frame ms)) \<le> k \<Longrightarrow>
   parse_frames k (concat (map frame ms)) = Inr ms"
proof (induction ms arbitrary: k)
  case Nil
  then show ?case by (cases k) simp_all
next
  case (Cons m ms)
  obtain k' where k: "k = Suc k'" using Cons.prems(2) by (cases k) (simp_all add: frame_def)
  have "length (concat (map frame ms)) \<le> k'" using Cons.prems(2) by (simp add: k) (simp add: frame_def)
  then show ?case using parse_frames_frame [OF _ _ Cons.IH] Cons.prems(1) by (simp add: k)
qed

lemma bus_roundtrip: "MarshalAll bus_protocol ms = Inr bs \<Longrightarrow> ParseAll bus_protocol bs = Inr ms"
  using frames_roundtrip [of ms "length (concat (map frame ms))"]
  by (auto simp: bus_protocol_def example_protocol_def split: if_splits)

lemma mw_reports_from: "mw_reports ms = Inr rs \<Longrightarrow> rep \<in> set rs \<Longrightarrow> \<exists>m \<in> set ms. mw_parse (msg_data m) = Inr rep"
  by (induction ms arbitrary: rs) (auto split: sum.splits)

lemma bus_wire: "wire_protocol bus_protocol (bus_link lan port)"
  unfolding wire_protocol_def
proof (intro conjI allI impI)
  show "distinct (request_headers bus_protocol)" by code_simp
  show "ParseAll bus_protocol bs = Inr ms" if "MarshalAll bus_protocol ms = Inr bs" for ms bs using bus_roundtrip [OF that] .
  show "dl_get_one (bus_link lan port) n = \<lparr>msg_header = HeaderLANCANDetector bus_protocol, msg_data = 0 # le16 n\<rparr>" for n
    by (simp add: bus_link_def bus_protocol_def example_protocol_def)
  show "msg_header msg = HeaderLANCANMaintenance bus_protocol" "ParseCANMaintenanceSetAddress bus_protocol (msg_data msg) = Inr (n, a)"
    if "dl_set_address (bus_link lan port) n a True = Inr msg" for n a msg
    using that get_le16_le16 [of a "[]"] by (auto simp: bus_link_def bus_protocol_def example_protocol_def)
  show "dl_parse (bus_link lan port) (encodeCANDetectorReport n a p t v1 v2) = Inr \<lparr>rp_net_id = n, rp_addr = a, rp_port = p\<rparr>" for n a p t v1 v2
    by (simp add: bus_link_def encodeCANDetectorReport_def mw_parse_def nth_append)
  show "\<exists>m \<in> set ms. dl_parse (bus_link lan port) (msg_data m) = Inr rep"
    if "dl_reports (bus_link lan port) ms = Inr rs" "rep \<in> set rs" for ms rs rep
    using that mw_reports_from by (simp add: bus_link_def)
qed

lemma bus_received_from: "m \<in> set (bus_received xs) \<Longrightarrow> \<exists>out ms. (bus_me, out) \<in> set xs \<and> ParseAll bus_protocol out = Inr ms \<and> m \<in> set ms"
proof (induction xs rule: bus_received.induct)
  case (2 to out rest)
  then show ?case by (cases "ParseAll bus_protocol out"; cases "to = bus_me") auto
qed simp

lemma bus_sent_delivered:
  assumes "bus_sent msg w = Inr w'"
  shows "bus_view w' = bus_view w \<and> delivered bus_protocol example_env bus_me (bus_sim w) msg (bus_sim w')"
  using assms
  by (cases "MarshalAll bus_protocol [msg]") (auto simp: bus_sent_def bus_view_def bus_sim_def delivered_def run_events_snoc)

lemma bus_simulator_link: "simulator_link bus_protocol example_env bus_me lan bus_sim bus_view (bus_link lan port)"
  unfolding simulator_link_def
proof (intro conjI allI)
  show "sim_reachable bus_protocol example_env (bus_sim w)" for w unfolding bus_sim_def sim_reachable_def by blast
  show "let (w', r) = dl_send (bus_link lan port) w maint msg in bus_view w' = bus_view w \<and>
      (if maint = lan \<and> r = None then delivered bus_protocol example_env bus_me (bus_sim w) msg (bus_sim w') else bus_sim w' = bus_sim w)"
    for w maint msg using bus_sent_delivered [of msg w] by (auto simp: bus_link_def split: sum.split)
next
  fix w n
  let ?m = "dl_get_one (bus_link lan port) n"
  have "dl_collect (bus_link lan port) w ?m = bus_collect w ?m" by (simp add: bus_link_def)
  then show "let (w', r) = dl_collect (bus_link lan port) w ?m in bus_view w' = bus_view w \<and>
        (case r of
           Inl e \<Rightarrow> bus_sim w' = bus_sim w \<or> delivered bus_protocol example_env bus_me (bus_sim w) ?m (bus_sim w')
         | Inr msgs \<Rightarrow> delivered bus_protocol example_env bus_me (bus_sim w) ?m (bus_sim w') \<and>
             (\<forall>m \<in> set msgs. \<exists>out ms. (bus_me, out) \<in> set (drop (length (sv_sent (bus_sim w))) (sv_sent (bus_sim w'))) \<and>
                ParseAll bus_protocol out = Inr ms \<and> m \<in> set ms))"
    using bus_sent_delivered [of ?m w] bus_received_from by (simp add: bus_collect_def split: sum.split)
qed

lemma bus_poll:
  assumes "canDevice (bus_sim w) n = Some d" and "cd_kind d = CANDeviceDetector" and "n \<noteq> 0xD000"
    and "cd_net_id d = n" and "cd_ports d \<noteq> []"
  shows "\<exists>w'. pollModuleAddress (bus_link lan port) w n = (w', Inr (cd_module_addr d)) \<and> fst w' = fst w"
proof -
  let ?m = "\<lparr>msg_header = 0xC4, msg_data = 0 # le16 n\<rparr>"
  define rs where "rs = detectorReports bus_protocol d"
  have n: "get_le16 (le16 n) = n" using get_le16_le16 [of n "[]"] by simp
  have ne: "rs \<noteq> []" using assms(5) by (simp add: rs_def detectorReports_def enumerate_eq_zip)
  have short: "list_all (\<lambda>m. length (msg_data m) < 1000) rs"
    by (auto simp: rs_def detectorReports_def encodeCANDetectorReport_def list_all_iff)
  obtain bs where bs: "MarshalAll bus_protocol [?m] = Inr bs" by (simp add: bus_protocol_def)
  obtain out where out: "MarshalAll bus_protocol rs = Inr out" using short by (simp add: bus_protocol_def)
  have poll: "handleCANDetectorPoll bus_protocol E (bus_sim w) (msg_data ?m) = Some rs" for E
    using assms(1-3) ne by (simp add: handleCANDetectorPoll_def Let_def n bus_protocol_def example_protocol_def rs_def)
  have h: "msg_header ?m = HeaderLANCANDetector bus_protocol" "distinct (request_headers bus_protocol)" by code_simp+
  have sent: "sv_sent (bus_sim (fst w, snd w @ [Packet bus_me bs])) = sv_sent (bus_sim w) @ [(bus_me, out)]"
    using poll_packet(2) [OF bus_roundtrip [OF bs] h(2,1) poll, where remote = bus_me and E = example_env] ne out
    by (simp add: bus_sim_def run_events_snoc reply_packet_def)
  have c: "bus_collect w ?m = ((fst w, snd w @ [Packet bus_me bs]), Inr rs)"
    using sent bus_roundtrip [OF out] by (simp add: bus_collect_def bus_sent_def bs)
  obtain v vs where v: "cd_ports d = v # vs" using assms(5) by (cases "cd_ports d") auto
  have p: "mw_parse (encodeCANDetectorReport k a p t v1 v2) = Inr \<lparr>rp_net_id = k, rp_addr = a, rp_port = p\<rparr>" for k a p t v1 v2
    by (simp add: encodeCANDetectorReport_def mw_parse_def nth_append)
  have "mw_reports (map (\<lambda>(port, value). \<lparr>msg_header = h, msg_data = encodeCANDetectorReport k a (word_of_nat port) t value 0\<rparr>) xs) =
      Inr (map (\<lambda>(port, value). \<lparr>rp_net_id = k, rp_addr = a, rp_port = word_of_nat port\<rparr>) xs)" for h k a t and xs :: "(nat \<times> u16) list"
    by (induction xs) (auto simp: p)
  then have "mw_reports rs = Inr (map (\<lambda>(port, value). \<lparr>rp_net_id = n, rp_addr = cd_module_addr d, rp_port = word_of_nat port\<rparr>) (enumerate 0 (cd_ports d)))"
    using assms(4) by (simp add: rs_def detectorReports_def)
  then show ?thesis using c v by (simp add: pollModuleAddress_def bus_link_def)
qed

lemma bus_set:
  "\<exists>w'. dl_send (bus_link lan port) w lan \<lparr>msg_header = 0xCC, msg_data = le16 n @ le16 a\<rparr> = (w', None) \<and> fst w' = fst w \<and>
    canDevice (bus_sim w') =
      (canDevice (bus_sim w))(n := map_option (\<lambda>d. if cd_kind d = CANDeviceDetector then d\<lparr>cd_module_addr := a\<rparr> else d) (canDevice (bus_sim w) n))"
proof -
  let ?m = "\<lparr>msg_header = 0xCC, msg_data = le16 n @ le16 a\<rparr>"
  obtain bs where bs: "MarshalAll bus_protocol [?m] = Inr bs" by (simp add: bus_protocol_def)
  have h: "distinct (request_headers bus_protocol)" "msg_header ?m = HeaderLANCANMaintenance bus_protocol" by code_simp+
  have "ParseCANMaintenanceSetAddress bus_protocol (msg_data ?m) = Inr (n, a)"
    using get_le16_le16 [of a "[]"] by (simp add: bus_protocol_def example_protocol_def)
  from maintenance_packet(1) [OF bus_roundtrip [OF bs] h this, where E = example_env and remote = bus_me]
  show ?thesis by (simp add: bus_link_def bus_sent_def bs bus_sim_def run_events_snoc)
qed

text \<open>A simulator with one module at address 7, and a detector that wants address 12.\<close>

definition bus_module :: notify_request where
  "bus_module = \<lparr>nr_net_id = 0xDB04, nr_kind = 1, nr_name = ''d'', nr_module_addr = 7, nr_port_count = 2, nr_output_port = 0\<rparr>"

definition bus_start :: bus_world where
  "bus_start = (\<lparr>mw_objects = [((''layout'', detectorName 0xDB04), apply_detector)], mw_modules = []\<rparr>, [CallNotify (Some bus_module)])"

definition bus_lan :: string where
  "bus_lan = join_host_port (SimulatorServiceFQDN DefaultWorkloadNamespace ''sim1'') (int_dec 21105)"

definition bus_manager :: manager where
  "bus_manager = \<lparr>mg_namespace = ''layout'', mg_device = ''sim1'',
     mg_host = SimulatorServiceFQDN DefaultWorkloadNamespace ''sim1'', mg_port = 21105\<rparr>"

lemma bus_start_device: "canDevice (bus_sim bus_start) 0xDB04 = Some (newDetectorDevice 0xDB04 ''d'' 7 2)"
proof -
  have "bus_sim bus_start = sim_step bus_protocol example_env (new_server 0) (CallNotify (Some bus_module))"
    by (simp add: bus_sim_def bus_start_def)
  moreover have "canDevice (sim_step bus_protocol example_env (new_server 0) (CallNotify (Some bus_module))) 0xDB04 =
      Some (newDetectorDevice 0xDB04 ''d'' 7 2)" by code_simp
  ultimately show ?thesis by simp
qed

lemma bus_start_apply:
  "\<exists>w'. ReconcileAddresses (bus_link bus_lan 21105) bus_manager bus_start = (w', None)"
proof -
  let ?L = "bus_link bus_lan 21105"
  let ?msg = "\<lparr>msg_header = 0xCC, msg_data = le16 (0xDB04 :: u16) @ le16 (12 :: u16)\<rparr>"
  have h: "dl_list ?L bus_start ''layout'' = Inr [apply_detector]"
    "mw_view (fst bus_start) (gateway_key apply_detector) = Some apply_detector"
    "det_device_ref (det_spec apply_detector) = ''sim1''" "det_desired (det_spec apply_detector) = Some 12"
    "det_observed (det_status apply_detector) = None" "det_net_id (det_spec apply_detector) = 0xDB04"
    by (simp_all add: bus_link_def mw_link_def bus_start_def apply_detector_def discovered_object_def example_manager_def mw_view_def
        gateway_key_def gm_get_def)
  obtain w1 where w1: "dl_send ?L bus_start bus_lan ?msg = (w1, None)" "fst w1 = fst bus_start"
    "canDevice (bus_sim w1) 0xDB04 = Some ((newDetectorDevice 0xDB04 ''d'' 7 2)\<lparr>cd_module_addr := 12\<rparr>)"
    using bus_set [of bus_lan 21105 bus_start "0xDB04" 12] bus_start_device by (auto simp: newDetectorDevice_def Let_def)
  obtain w2 where w2: "pollModuleAddress ?L w1 0xDB04 = (w2, Inr 12)" "fst w2 = fst w1"
    using bus_poll [OF w1(3), of bus_lan 21105] by (auto simp: newDetectorDevice_def Let_def)
  have patch: "\<exists>w3. dl_patch_status ?L w2 apply_detector (applied_object 12 12 apply_detector) = (w3, None)"
    using h(2) w1(2) w2(2) by (simp add: bus_link_def mw_calls)
  show ?thesis
    using h w1(1) w2(1) patch
    by (auto simp: ReconcileAddresses_def reconcileOne_def bus_manager_def bus_lan_def [symmetric] Let_def
      bus_link_def [of bus_lan 21105, THEN arg_cong [of _ _ dl_dial]] bus_link_def [of bus_lan 21105, THEN arg_cong [of _ _ dl_set_address]])
qed

theorem address_reaches_module_witness:
  "\<exists>w' d. ReconcileAddresses (bus_link bus_lan 21105) bus_manager bus_start = (w', None) \<and>
     bus_view w' (''layout'', detectorName 0xDB04) = Some d \<and> det_phase (det_status d) = CANDetectorPhaseApplied \<and>
     bus_address (bus_sim w') 0xDB04 = Some 12"
proof -
  obtain w' where w': "ReconcileAddresses (bus_link bus_lan 21105) bus_manager bus_start = (w', None)" using bus_start_apply by blast
  have z: "Z21Address example_simulator = Inr bus_lan" "be_type (ds_backend (dev_spec example_simulator)) = BackendSimulator"
    "no_brackets (om_name (dev_meta example_simulator))" "om_name (dev_meta example_simulator) = ''sim1''"
    by (simp_all add: Z21Address_def example_device_defs i32_dec_def bus_lan_def no_brackets_def elp_consts)
  have host: "no_brackets (SimulatorServiceFQDN DefaultWorkloadNamespace ''sim1'')"
    by (rule no_brackets_FQDN) (simp_all add: no_brackets_def DefaultWorkloadNamespace_def)
  have m: "NewManager (bus_link bus_lan 21105) ''layout'' ''sim1'' bus_lan 0 = Inr bus_manager"
    by (simp add: NewManager_def bus_lan_def split_join_int_dec [OF host] bus_manager_def) (simp add: bus_link_def)
  have h: "dl_list (bus_link bus_lan 21105) bus_start (mg_namespace bus_manager) = Inr [apply_detector]"
    "gateway_key apply_detector = (''layout'', detectorName 0xDB04)" "det_net_id (det_spec apply_detector) = 0xDB04"
    "mine bus_manager [apply_detector] = [apply_detector]" "wants apply_detector = Some 12"
    by (simp_all add: bus_link_def mw_link_def bus_start_def apply_detector_def discovered_object_def example_manager_def
        gateway_key_def mine_def bus_manager_def wants_def)
  have v: "\<forall>d \<in> set [apply_detector]. bus_view bus_start (gateway_key d) = Some d"
    by (simp add: h(2) bus_view_def bus_start_def mw_view_def gm_get_def)
  have d: "distinct (map gateway_key [apply_detector])"
    "distinct (map (\<lambda>d. det_net_id (det_spec d)) (mine bus_manager [apply_detector]))" "apply_detector \<in> set (mine bus_manager [apply_detector])"
    unfolding h(4) by simp_all
  have p: "dl_maintenance_port (bus_link bus_lan 21105) = 21105" by (simp add: bus_link_def)
  from address_reaches_module [OF z(1-3) m bus_link_kube bus_wire example_env_laws bus_simulator_link h(1) d(1) v d(2) w' d(3) h(5)]
  show ?thesis using w' by (auto simp: h(2,3) p)
qed

end
