(* ===== verification/Elpctl_Cli.thy ===== *)
theory Elpctl_Cli
  imports Mains Elpctl_Commands Api_Routes
begin

text \<open>
  The command line of \<^verbatim>\<open>elpctl\<close> (\<^verbatim>\<open>apps/elpctl/cmd\<close>): the tree of commands, the flags each of them
  registers, their validators of arguments and what runs when a line is accepted. Cobra and pflag, which
  find the command and split the line into flags and arguments, are parameters: a line is given by its
  command, the flags with the text of their values, and the arguments. Of what cobra adds by itself, the
  \<^verbatim>\<open>--help\<close> flag of every command is there; its commands \<^verbatim>\<open>help\<close> and \<^verbatim>\<open>completion\<close> are not.

  Lemmas: which lines are refused as a wrong use, without any effect; and what \<^verbatim>\<open>device create\<close> leaves
  in the cluster when it exits with 0.
\<close>

section \<open>The commands\<close>

datatype ctl_command =
    RootCmd
  | DeviceCmd | DeviceCreateCmd | DeviceGetCmd | DeviceListCmd | DeviceDeleteCmd
  | SimulateCmd | SimulateCANCmd
  | ConfigCmd | ConfigViewCmd | ConfigInitCmd

text \<open>The first word of \<^verbatim>\<open>Use\<close>, and the commands that are added to a command.\<close>

fun command_name :: "ctl_command \<Rightarrow> string" where
  "command_name RootCmd = ''elpctl''"
| "command_name DeviceCmd = ''device''"
| "command_name DeviceCreateCmd = ''create''"
| "command_name DeviceGetCmd = ''get''"
| "command_name DeviceListCmd = ''list''"
| "command_name DeviceDeleteCmd = ''delete''"
| "command_name SimulateCmd = ''simulate''"
| "command_name SimulateCANCmd = ''can''"
| "command_name ConfigCmd = ''config''"
| "command_name ConfigViewCmd = ''view''"
| "command_name ConfigInitCmd = ''init''"

fun subcommands :: "ctl_command \<Rightarrow> ctl_command list" where
  "subcommands RootCmd = [DeviceCmd, ConfigCmd, SimulateCmd]"
| "subcommands DeviceCmd = [DeviceCreateCmd, DeviceGetCmd, DeviceListCmd, DeviceDeleteCmd]"
| "subcommands ConfigCmd = [ConfigViewCmd, ConfigInitCmd]"
| "subcommands SimulateCmd = [SimulateCANCmd]"
| "subcommands _ = []"

text \<open>
  The names of a command and its parents, innermost first, and the path that tells the command; commands
  lie at most two below the root.
\<close>

definition command_names :: "ctl_command \<Rightarrow> string list" where
  "command_names c =
     (if c = RootCmd then [command_name RootCmd]
      else case find (\<lambda>p. c \<in> set (subcommands p)) (subcommands RootCmd) of
             None \<Rightarrow> [command_name c, command_name RootCmd]
           | Some p \<Rightarrow> [command_name c, command_name p, command_name RootCmd])"

definition command_path :: "ctl_command \<Rightarrow> string" where
  "command_path c = join_with '' '' (rev (command_names c))"

text \<open>Without \<^verbatim>\<open>RunE\<close> a command only prints its help.\<close>

definition runnable :: "ctl_command \<Rightarrow> bool" where
  "runnable c \<longleftrightarrow> subcommands c = []"

text \<open>The tree with cobra's own handling of flag errors, then with that of \<^verbatim>\<open>setUsageOnError\<close>.\<close>

definition leaf_commands :: "ctl_command list \<Rightarrow> command_tree list" where
  "leaf_commands cs = map (\<lambda>c. CommandTree (command_path c) OtherError []) cs"

definition rootCmd :: command_tree where
  "rootCmd = CommandTree (command_path RootCmd) OtherError
     (map (\<lambda>c. CommandTree (command_path c) OtherError (leaf_commands (subcommands c))) (subcommands RootCmd))"

fun tree_nodes :: "command_tree \<Rightarrow> command_tree list" where
  "tree_nodes (CommandTree name f subs) = CommandTree name f subs # concat (map tree_nodes subs)"

definition flag_error :: "ctl_command \<Rightarrow> string \<Rightarrow> cli_error" where
  "flag_error c e =
     (case find (\<lambda>t. tree_name t = command_path c) (tree_nodes (setUsageOnError rootCmd)) of
        None \<Rightarrow> OtherError e | Some t \<Rightarrow> tree_flag_error t e)"

section \<open>Flags\<close>

text \<open>
  The variables that the flags set: whether help is asked for, those of the root command, then those of
  each command.
\<close>

record ctl_vars =
  cv_help :: bool
  cv_server :: string
  cv_namespace :: string
  cv_output :: string
  cv_elpconfig :: string
  cv_create :: create_flags
  cv_watch :: bool
  cv_simulation_name :: string
  cv_net_ids :: "string list"
  cv_detector_name :: string
  cv_module_address :: u16
  cv_port_count :: u16
  cv_view_path :: string
  cv_init :: init_flags

definition new_ctl_vars :: ctl_vars where
  "new_ctl_vars =
     \<lparr>cv_help = False, cv_server = [], cv_namespace = [], cv_output = ''table'', cv_elpconfig = [],
      cv_create = \<lparr>cf_backend = ''hardware'', cf_address = [], cf_nats_url = ''nats://nats.default.svc.cluster.local.:4222'',
        cf_subject_prefix = [], cf_host_network = False, cf_gateway_image = [], cf_simulator_image = [],
        cf_node_selector = [], cf_broadcast_flags = 0, cf_set_broadcast = False\<rparr>,
      cv_watch = False, cv_simulation_name = [], cv_net_ids = [], cv_detector_name = [], cv_module_address = 1,
      cv_port_count = 8, cv_view_path = [],
      cv_init = \<lparr>if_path = [], if_context = [], if_service = ''elp-api'', if_service_namespace = ''elp'',
        if_device_namespace = DefaultDeviceNamespace, if_dry_run = False\<rparr>\<rparr>"

datatype ctl_var =
    StringVar "string \<Rightarrow> ctl_vars \<Rightarrow> ctl_vars"
  | BoolVar "bool \<Rightarrow> ctl_vars \<Rightarrow> ctl_vars"
  | StringArrayVar "string \<Rightarrow> ctl_vars \<Rightarrow> ctl_vars"
  | Uint32Var "u32 \<Rightarrow> ctl_vars \<Rightarrow> ctl_vars"
  | Uint16Var "u16 \<Rightarrow> ctl_vars \<Rightarrow> ctl_vars"

text \<open>A flag is a name, a shorthand (empty if there is none) and a variable.\<close>

type_synonym ctl_flag = "string \<times> string \<times> ctl_var"

definition root_flags :: "ctl_flag list" where
  "root_flags =
     [(''server'', [], StringVar (\<lambda>x v. v\<lparr>cv_server := x\<rparr>)),
      (''namespace'', ''n'', StringVar (\<lambda>x v. v\<lparr>cv_namespace := x\<rparr>)),
      (''output'', ''o'', StringVar (\<lambda>x v. v\<lparr>cv_output := x\<rparr>)),
      (''elpconfig'', [], StringVar (\<lambda>x v. v\<lparr>cv_elpconfig := x\<rparr>))]"

definition on_create :: "(create_flags \<Rightarrow> create_flags) \<Rightarrow> ctl_vars \<Rightarrow> ctl_vars" where
  "on_create f v = v\<lparr>cv_create := f (cv_create v)\<rparr>"

definition device_create_flags :: "ctl_flag list" where
  "device_create_flags =
     [(''backend'', [], StringVar (\<lambda>x. on_create (\<lambda>c. c\<lparr>cf_backend := x\<rparr>))),
      (''address'', [], StringVar (\<lambda>x. on_create (\<lambda>c. c\<lparr>cf_address := x\<rparr>))),
      (''simulator-image'', [], StringVar (\<lambda>x. on_create (\<lambda>c. c\<lparr>cf_simulator_image := x\<rparr>))),
      (''nats-url'', [], StringVar (\<lambda>x. on_create (\<lambda>c. c\<lparr>cf_nats_url := x\<rparr>))),
      (''nats-subject-prefix'', [], StringVar (\<lambda>x. on_create (\<lambda>c. c\<lparr>cf_subject_prefix := x\<rparr>))),
      (''host-network'', [], BoolVar (\<lambda>x. on_create (\<lambda>c. c\<lparr>cf_host_network := x\<rparr>))),
      (''gateway-image'', [], StringVar (\<lambda>x. on_create (\<lambda>c. c\<lparr>cf_gateway_image := x\<rparr>))),
      (''node-selector'', [], StringArrayVar (\<lambda>x. on_create (\<lambda>c. c\<lparr>cf_node_selector := cf_node_selector c @ [x]\<rparr>))),
      (''broadcast-flags'', [], Uint32Var (\<lambda>x. on_create (\<lambda>c. c\<lparr>cf_broadcast_flags := x\<rparr>))),
      (''set-broadcast-flags'', [], BoolVar (\<lambda>x. on_create (\<lambda>c. c\<lparr>cf_set_broadcast := x\<rparr>)))]"

definition simulate_can_flags :: "ctl_flag list" where
  "simulate_can_flags =
     [(''simulation-name'', [], StringVar (\<lambda>x v. v\<lparr>cv_simulation_name := x\<rparr>)),
      (''net-id'', [], StringArrayVar (\<lambda>x v. v\<lparr>cv_net_ids := cv_net_ids v @ [x]\<rparr>)),
      (''detector-name'', [], StringVar (\<lambda>x v. v\<lparr>cv_detector_name := x\<rparr>)),
      (''module-address'', [], Uint16Var (\<lambda>x v. v\<lparr>cv_module_address := x\<rparr>)),
      (''port-count'', [], Uint16Var (\<lambda>x v. v\<lparr>cv_port_count := x\<rparr>))]"

definition on_init :: "(init_flags \<Rightarrow> init_flags) \<Rightarrow> ctl_vars \<Rightarrow> ctl_vars" where
  "on_init f v = v\<lparr>cv_init := f (cv_init v)\<rparr>"

definition config_init_flags :: "ctl_flag list" where
  "config_init_flags =
     [(''elpconfig'', [], StringVar (\<lambda>x. on_init (\<lambda>i. i\<lparr>if_path := x\<rparr>))),
      (''context'', [], StringVar (\<lambda>x. on_init (\<lambda>i. i\<lparr>if_context := x\<rparr>))),
      (''service'', [], StringVar (\<lambda>x. on_init (\<lambda>i. i\<lparr>if_service := x\<rparr>))),
      (''service-namespace'', [], StringVar (\<lambda>x. on_init (\<lambda>i. i\<lparr>if_service_namespace := x\<rparr>))),
      (''namespace'', [], StringVar (\<lambda>x. on_init (\<lambda>i. i\<lparr>if_device_namespace := x\<rparr>))),
      (''dry-run'', [], BoolVar (\<lambda>x. on_init (\<lambda>i. i\<lparr>if_dry_run := x\<rparr>)))]"

fun local_flags :: "ctl_command \<Rightarrow> ctl_flag list" where
  "local_flags DeviceCreateCmd = device_create_flags"
| "local_flags DeviceGetCmd = [(''watch'', ''w'', BoolVar (\<lambda>x v. v\<lparr>cv_watch := x\<rparr>))]"
| "local_flags SimulateCANCmd = simulate_can_flags"
| "local_flags ConfigViewCmd = [(''elpconfig'', [], StringVar (\<lambda>x v. v\<lparr>cv_view_path := x\<rparr>))]"
| "local_flags ConfigInitCmd = config_init_flags"
| "local_flags _ = []"

text \<open>
  Cobra gives every command a flag for its help. A flag of the root command holds for every command that
  has none of that name.
\<close>

definition help_flag :: ctl_flag where
  "help_flag = (''help'', ''h'', BoolVar (\<lambda>x v. v\<lparr>cv_help := x\<rparr>))"

definition command_flags :: "ctl_command \<Rightarrow> ctl_flag list" where
  "command_flags c = help_flag # local_flags c @ filter (\<lambda>f. fst f \<notin> fst ` set (local_flags c)) root_flags"

text \<open>
  What elpctl uses of cobra and pflag: the validators of arguments, which get the path of the command, the
  check of a command without \<^verbatim>\<open>RunE\<close>, the values of flags, and the texts of their errors.
\<close>

record cobra =
  cb_exact_args :: "nat \<Rightarrow> string \<Rightarrow> string list \<Rightarrow> string option"
  cb_no_args :: "string \<Rightarrow> string list \<Rightarrow> string option"
  cb_maximum_args :: "nat \<Rightarrow> string \<Rightarrow> string list \<Rightarrow> string option"
  cb_group_args :: "string \<Rightarrow> string list \<Rightarrow> string option"
  pf_bool :: "string \<Rightarrow> string + bool"
  pf_uint32 :: "string \<Rightarrow> string + u32"
  pf_uint16 :: "string \<Rightarrow> string + u16"
  pf_invalid :: "string \<Rightarrow> string \<Rightarrow> string \<Rightarrow> string"
  pf_unknown :: "string \<Rightarrow> string"

fun set_var :: "cobra \<Rightarrow> ctl_var \<Rightarrow> string \<Rightarrow> ctl_vars \<Rightarrow> string + ctl_vars" where
  "set_var C (StringVar f) x v = Inr (f x v)"
| "set_var C (StringArrayVar f) x v = Inr (f x v)"
| "set_var C (BoolVar f) x v = (case pf_bool C x of Inl e \<Rightarrow> Inl e | Inr b \<Rightarrow> Inr (f b v))"
| "set_var C (Uint32Var f) x v = (case pf_uint32 C x of Inl e \<Rightarrow> Inl e | Inr n \<Rightarrow> Inr (f n v))"
| "set_var C (Uint16Var f) x v = (case pf_uint16 C x of Inl e \<Rightarrow> Inl e | Inr n \<Rightarrow> Inr (f n v))"

text \<open>A flag as it is given, by its name or its shorthand, with the text of its value.\<close>

datatype given_flag = GivenLong string string | GivenShort string string

fun given_value :: "given_flag \<Rightarrow> string" where
  "given_value (GivenLong n x) = x"
| "given_value (GivenShort s x) = x"

fun find_flag :: "ctl_flag list \<Rightarrow> given_flag \<Rightarrow> ctl_flag option" where
  "find_flag fs (GivenLong n x) = find (\<lambda>(name, short, var). name = n) fs"
| "find_flag fs (GivenShort s x) = find (\<lambda>(name, short, var). short = s \<and> s \<noteq> []) fs"

text \<open>The variables after all flags, and the names of those that were given.\<close>

fun set_flags :: "cobra \<Rightarrow> ctl_flag list \<Rightarrow> given_flag list \<Rightarrow> ctl_vars \<times> string list \<Rightarrow> string + ctl_vars \<times> string list" where
  "set_flags C fs [] s = Inr s"
| "set_flags C fs (g # gs) (v, changed) =
     (case find_flag fs g of
        None \<Rightarrow> Inl (pf_unknown C (case g of GivenLong n x \<Rightarrow> n | GivenShort s x \<Rightarrow> s))
      | Some (name, short, var) \<Rightarrow>
          (case set_var C var (given_value g) v of
             Inl e \<Rightarrow> Inl (pf_invalid C (given_value g) name e)
           | Inr v' \<Rightarrow> set_flags C fs gs (v', name # changed)))"

section \<open>Running a line\<close>

definition ExactArgs :: "cobra \<Rightarrow> nat \<Rightarrow> (string \<Rightarrow> string list \<Rightarrow> cli_error option) option" where
  "ExactArgs C n = wrapArgs (Some (cb_exact_args C n))"

definition NoArgs :: "cobra \<Rightarrow> (string \<Rightarrow> string list \<Rightarrow> cli_error option) option" where
  "NoArgs C = wrapArgs (Some (cb_no_args C))"

definition MaximumNArgs :: "cobra \<Rightarrow> nat \<Rightarrow> (string \<Rightarrow> string list \<Rightarrow> cli_error option) option" where
  "MaximumNArgs C n = wrapArgs (Some (cb_maximum_args C n))"

text \<open>The field \<^verbatim>\<open>Args\<close> of the commands; the two config commands have cobra's own validator.\<close>

fun command_args :: "cobra \<Rightarrow> ctl_command \<Rightarrow> (string \<Rightarrow> string list \<Rightarrow> cli_error option) option" where
  "command_args C DeviceCreateCmd = ExactArgs C 1"
| "command_args C DeviceGetCmd = ExactArgs C 1"
| "command_args C DeviceListCmd = NoArgs C"
| "command_args C DeviceDeleteCmd = ExactArgs C 1"
| "command_args C SimulateCANCmd = ExactArgs C 1"
| "command_args C ConfigViewCmd = Some (\<lambda>cmd args. map_option OtherError (cb_no_args C cmd args))"
| "command_args C ConfigInitCmd = Some (\<lambda>cmd args. map_option OtherError (cb_no_args C cmd args))"
| "command_args C _ = None"

definition check_args :: "cobra \<Rightarrow> ctl_command \<Rightarrow> string list \<Rightarrow> cli_error option" where
  "check_args C c args =
     (case command_args C c of
        None \<Rightarrow> map_option OtherError (cb_group_args C (command_path c) args)
      | Some v \<Rightarrow> v (command_path c) args)"

text \<open>The process around a command: HTTP, files, environment, kubectl, the terminal.\<close>

record 'w ctl_env =
  ce_http :: "'w http_lib"
  ce_files :: "'w elp_files"
  ce_getenv :: "string \<Rightarrow> string"
  ce_exec :: "string \<Rightarrow> string list \<Rightarrow> string \<times> string option"
  ce_service :: "string \<Rightarrow> string + service_json"
  ce_event :: "string \<Rightarrow> string + watch_event"
  ce_tty :: bool
  ce_order :: "(string \<times> api_device) list \<Rightarrow> (string \<times> api_device) list"

datatype ctl_result = Printed cmd_output | Watched watch_writer | ConfigText string | HelpShown

text \<open>The field \<^verbatim>\<open>RunE\<close> of the commands; the arguments have passed the validator.\<close>

fun run_command ::
  "'w ctl_env \<Rightarrow> ctl_command \<Rightarrow> ctl_vars \<Rightarrow> string list \<Rightarrow> string list \<Rightarrow> string \<times> string \<Rightarrow> 'w \<Rightarrow> 'w \<times> (cli_error + ctl_result)" where
  "run_command E DeviceCreateCmd v changed args target w =
     apsnd (map_sum id Printed)
       (run_device_create (ce_http E) target (cv_output v) (command_path DeviceCreateCmd) w (hd args) (cv_create v))"
| "run_command E DeviceGetCmd v changed args target w =
     (if cv_watch v then
        (case runDeviceWatch (ce_http E) (ce_event E) (ce_tty E) (ce_order E) target (cv_output v) w (hd args) of
           (w1, out, Some e) \<Rightarrow> (w1, Inl (OtherError e))
         | (w1, out, None) \<Rightarrow> (w1, Inr (Watched out)))
      else apsnd (map_sum id Printed) (run_device_get (ce_http E) target (cv_output v) w (hd args)))"
| "run_command E DeviceListCmd v changed args target w =
     apsnd (map_sum id Printed) (run_device_list (ce_http E) target (cv_output v) w)"
| "run_command E DeviceDeleteCmd v changed args target w =
     apsnd (map_sum id Printed) (run_device_delete (ce_http E) target (cv_output v) w (hd args))"
| "run_command E SimulateCANCmd v changed args target w =
     apsnd (map_sum id Printed)
       (run_simulate_can (ce_http E) target (cv_output v) (command_path SimulateCANCmd) w (hd args) (cv_simulation_name v)
          (cv_net_ids v) (cv_detector_name v)
          (if ''module-address'' \<in> set changed then Some (cv_module_address v) else None)
          (if ''port-count'' \<in> set changed then Some (cv_port_count v) else None))"
| "run_command E ConfigViewCmd v changed args target w =
     (w, map_sum OtherError ConfigText (config_view (ce_files E) (ce_getenv E) w (cv_view_path v)))"
| "run_command E ConfigInitCmd v changed args target w =
     apsnd (map_sum OtherError ConfigText) (config_init (ce_files E) (ce_getenv E) (ce_exec E) (ce_service E) w (cv_init v))"
| "run_command E _ v changed args target w = (w, Inr HelpShown)"

record command_line =
  cl_command :: ctl_command
  cl_flags :: "given_flag list"
  cl_args :: "string list"

text \<open>
  The flags come first; when they ask for help it is shown, whatever the arguments, without an error. Then come the
  arguments, the defaults of \<^verbatim>\<open>PersistentPreRunE\<close> and the command. A command without \<^verbatim>\<open>RunE\<close> has its
  arguments checked before its flags, and stops there with its help.
\<close>

definition given_if :: "string \<Rightarrow> string list \<Rightarrow> string \<Rightarrow> string option" where
  "given_if name changed x = (if name \<in> set changed then Some x else None)"

definition line_target :: "'w ctl_env \<Rightarrow> 'w \<Rightarrow> ctl_command \<Rightarrow> ctl_vars \<Rightarrow> string list \<Rightarrow> string + string \<times> string" where
  "line_target E w c v changed =
     command_target (ce_files E) (ce_getenv E) w (command_names c) (given_if ''server'' changed (cv_server v))
       (given_if ''namespace'' changed (cv_namespace v)) (cv_elpconfig v)"

definition line_flags :: "cobra \<Rightarrow> command_line \<Rightarrow> string + ctl_vars \<times> string list" where
  "line_flags C line = set_flags C (command_flags (cl_command line)) (cl_flags line) (new_ctl_vars, [])"

definition run_line :: "'w ctl_env \<Rightarrow> cobra \<Rightarrow> command_line \<Rightarrow> 'w \<Rightarrow> 'w \<times> (cli_error + ctl_result)" where
  "run_line E C line w =
     (let c = cl_command line; refused = check_args C c (cl_args line) in
      if \<not> runnable c \<and> refused \<noteq> None then (w, Inl (the refused))
      else case line_flags C line of
        Inl e \<Rightarrow> (w, Inl (flag_error c e))
      | Inr (v, changed) \<Rightarrow>
      if cv_help v \<or> \<not> runnable c then (w, Inr HelpShown)
      else case refused of
        Some e \<Rightarrow> (w, Inl e)
      | None \<Rightarrow>
      case line_target E w c v changed of
        Inl e \<Rightarrow> (w, Inl (OtherError e))
      | Inr target \<Rightarrow> run_command E c v changed (cl_args line) target w)"

definition line_error :: "cli_error + 'a \<Rightarrow> cli_error option" where
  "line_error r = (case r of Inl e \<Rightarrow> Some e | Inr x \<Rightarrow> None)"

section \<open>Wrong use\<close>

text \<open>Documented behaviour of the validators of cobra.\<close>

definition cobra_laws :: "cobra \<Rightarrow> bool" where
  "cobra_laws C \<longleftrightarrow>
     (\<forall>n cmd args. cb_exact_args C n cmd args = None \<longleftrightarrow> length args = n) \<and>
     (\<forall>cmd args. cb_no_args C cmd args = None \<longleftrightarrow> args = [])"

definition bad_create :: "create_flags \<Rightarrow> bool" where
  "bad_create fl \<longleftrightarrow>
     cf_backend fl = ''hardware'' \<and> cf_address fl = [] \<or> cf_backend fl \<notin> {''hardware'', ''simulator''}"

definition bad_simulation :: "string list \<Rightarrow> bool" where
  "bad_simulation ids \<longleftrightarrow> (\<exists>x \<in> set ids. \<exists>e. ParseNetID x = Inl e)"

definition wanted_args :: "ctl_command \<Rightarrow> nat" where
  "wanted_args c = (if c \<in> {DeviceCreateCmd, DeviceGetCmd, DeviceDeleteCmd, SimulateCANCmd} then 1 else 0)"

text \<open>
  A line that is a wrong use of its command: a flag that it does not have or cannot read, or, if it does not
  ask for help, a wrong number of arguments unless the command belongs to \<^verbatim>\<open>config\<close>, or values that make no
  request.
\<close>

definition misused :: "'w ctl_env \<Rightarrow> cobra \<Rightarrow> command_line \<Rightarrow> 'w \<Rightarrow> bool" where
  "misused E C line w =
     (let c = cl_command line; n = length (cl_args line) in
      if \<not> runnable c then cb_group_args C (command_path c) (cl_args line) = None \<and> (\<exists>e. line_flags C line = Inl e)
      else case line_flags C line of
        Inl e \<Rightarrow> True
      | Inr (v, changed) \<Rightarrow>
          if cv_help v then False
          else if n \<noteq> wanted_args c then c \<notin> {ConfigViewCmd, ConfigInitCmd}
          else (\<exists>t. line_target E w c v changed = Inr t) \<and>
            (c = DeviceCreateCmd \<and> bad_create (cv_create v) \<or> c = SimulateCANCmd \<and> bad_simulation (cv_net_ids v)))"

lemma flag_error_usage: "flag_error c e = UsageError (command_path c) e"
  by (cases c)
    (simp_all add: flag_error_def rootCmd_def leaf_commands_def command_path_def command_names_def)

lemma create_request_error: "(\<exists>e. create_request name fl = Inl e) \<longleftrightarrow> bad_create fl"
  by (auto simp: create_request_def bad_create_def Let_def)

lemma parse_net_ids_error: "(\<exists>e. parse_net_ids ids = Inl e) \<longleftrightarrow> bad_simulation ids"
  by (induction ids) (auto simp: bad_simulation_def split: sum.splits)

lemma group_args: "\<not> runnable c \<Longrightarrow> check_args C c args = map_option OtherError (cb_group_args C (command_path c) args)"
  by (cases c) (simp_all add: check_args_def runnable_def)

lemma check_args_laws:
  assumes "cobra_laws C" and "runnable c"
  shows "check_args C c args = None \<longleftrightarrow> length args = wanted_args c"
    and "check_args C c args = Some e \<Longrightarrow>
      (\<exists>p r. e = UsageError p r) \<longleftrightarrow> c \<notin> {ConfigViewCmd, ConfigInitCmd}"
    and "check_args C c args = Some (UsageError p r) \<Longrightarrow> p = command_path c"
  using assms
  by (cases c; auto simp: cobra_laws_def check_args_def wanted_args_def runnable_def ExactArgs_def NoArgs_def wrapArgs_def)+

text \<open>The two commands that look at their values refuse them before anything is sent; no other is a wrong use.\<close>

lemma create_usage:
  assumes "run_device_create H target format cmd w name fl = (w', r)"
  shows "(\<exists>p e. r = Inl (UsageError p e)) \<longleftrightarrow> bad_create fl" and "r = Inl (UsageError p e) \<Longrightarrow> w' = w \<and> p = cmd"
  using assms create_request_error [of name fl]
  by (auto simp: run_device_create_def usageErr_def split: sum.splits prod.splits)

lemma simulate_usage:
  assumes "run_simulate_can H target format cmd w device name ids label a n = (w', r)"
  shows "(\<exists>p e. r = Inl (UsageError p e)) \<longleftrightarrow> bad_simulation ids" and "r = Inl (UsageError p e) \<Longrightarrow> w' = w \<and> p = cmd"
  using assms parse_net_ids_error [of ids]
  by (auto simp: run_simulate_can_def simulate_can_request_def Let_def usageErr_def split: sum.splits prod.splits)

lemma other_commands_usage:
  "run_device_get H target format w name = (w', Inl (UsageError p e)) \<longleftrightarrow> False"
  "run_device_list H target format w = (w', Inl (UsageError p e)) \<longleftrightarrow> False"
  "run_device_delete H target format w name = (w', Inl (UsageError p e)) \<longleftrightarrow> False"
  by (auto simp: run_device_get_def run_device_list_def run_device_delete_def split: sum.split prod.split)

lemma map_sum_Inl [simp]: "map_sum f g x = Inl y \<longleftrightarrow> (\<exists>z. x = Inl z \<and> y = f z)"
  by (cases x) auto

lemma run_command_usage:
  assumes "run_command E c v changed args target w = (w', r)" and "runnable c"
  shows "((\<exists>p e. r = Inl (UsageError p e)) \<longleftrightarrow>
      c = DeviceCreateCmd \<and> bad_create (cv_create v) \<or> c = SimulateCANCmd \<and> bad_simulation (cv_net_ids v)) \<and>
    (\<forall>p e. r = Inl (UsageError p e) \<longrightarrow> w' = w \<and> p = command_path c)"
proof (cases c)
  case DeviceCreateCmd
  obtain r1 where "run_device_create (ce_http E) target (cv_output v) (command_path DeviceCreateCmd) w (hd args) (cv_create v) = (w', r1)"
    "r = map_sum id Printed r1"
    using assms(1) DeviceCreateCmd by (auto simp: apsnd_def map_prod_def split: prod.splits)
  with create_usage [OF this(1)] show ?thesis by (auto simp: DeviceCreateCmd)
next
  case SimulateCANCmd
  obtain a n r1 where "run_simulate_can (ce_http E) target (cv_output v) (command_path SimulateCANCmd) w (hd args) (cv_simulation_name v)
      (cv_net_ids v) (cv_detector_name v) a n = (w', r1)" "r = map_sum id Printed r1"
    using assms(1) SimulateCANCmd by (auto simp: apsnd_def map_prod_def split: prod.splits)
  with simulate_usage [OF this(1)] show ?thesis by (auto simp: SimulateCANCmd)
qed (use assms in
    \<open>auto simp: other_commands_usage runnable_def apsnd_def map_prod_def split: prod.splits option.splits if_splits\<close>)

text \<open>
  C21: A wrong use of elpctl is told as one and has no effect. If cobra counts arguments as documented, a
  command line ends in a usage error exactly when it is a wrong use of its command: a flag that is unknown
  or unreadable, or, in a line that does not ask for help, a wrong number of arguments (but for the config commands,
  whose error is a plain one), or values of \<^verbatim>\<open>device create\<close> or \<^verbatim>\<open>simulate can\<close> that make no request. Then no file, server or cluster has
  changed, the help shown is that of this command, and the exit code is 1; an error that is no wrong use
  shows no help. A line that asks for help with flags that can be read shows it and exits with 0 without any
  effect, unless its words name no command of the group.
\<close>

theorem misuse_is_told:
  assumes "cobra_laws C" and "run_line E C line w = (w', r)"
  shows "((\<exists>p e. r = Inl (UsageError p e)) \<longleftrightarrow> misused E C line w) \<and>
    (case elpctl_Execute help (line_error r) of (err, shown, code) \<Rightarrow>
       (misused E C line w \<longrightarrow> w' = w \<and> shown = help (command_path (cl_command line)) \<and> code = 1) \<and>
       (\<not> misused E C line w \<longrightarrow> shown = [] \<and> (code = 0 \<longleftrightarrow> (\<exists>x. r = Inr x))) \<and> code = elpctl_main (line_error r) \<and>
       (\<forall>v changed. line_flags C line = Inr (v, changed) \<longrightarrow> cv_help v \<longrightarrow>
          runnable (cl_command line) \<or> cb_group_args C (command_path (cl_command line)) (cl_args line) = None \<longrightarrow>
          w' = w \<and> r = Inr HelpShown \<and> code = 0))"
proof -
  let ?c = "cl_command line"
  have told: "((\<exists>p e. r = Inl (UsageError p e)) \<longleftrightarrow> misused E C line w) \<and>
      (\<forall>p e. r = Inl (UsageError p e) \<longrightarrow> w' = w \<and> p = command_path ?c)"
  proof (cases "runnable ?c")
    case False
    then show ?thesis using assms(2) group_args [OF False, of C "cl_args line"]
      by (cases "cb_group_args C (command_path ?c) (cl_args line)")
        (auto simp: run_line_def misused_def Let_def flag_error_usage split: sum.splits prod.splits)
  next
    case True
    note laws = check_args_laws [OF assms(1) True]
    show ?thesis
    proof (cases "\<exists>v changed t. line_flags C line = Inr (v, changed) \<and> \<not> cv_help v \<and> check_args C ?c (cl_args line) = None \<and>
        line_target E w ?c v changed = Inr t")
      case False
      then show ?thesis using True assms(2) laws [of "cl_args line"]
        by (auto simp: run_line_def misused_def Let_def flag_error_usage split: sum.splits prod.splits option.splits if_splits)
    next
      case runs: True
      then obtain v changed t where f: "line_flags C line = Inr (v, changed)" "\<not> cv_help v" "check_args C ?c (cl_args line) = None"
        "line_target E w ?c v changed = Inr t" by blast
      then have "run_command E ?c v changed (cl_args line) t w = (w', r)" using True assms(2) by (simp add: run_line_def)
      from run_command_usage [OF this True] show ?thesis using True f laws(1) [of "cl_args line"]
        by (simp add: misused_def Let_def)
    qed
  qed
  moreover have "w' = w \<and> r = Inr HelpShown"
    if "line_flags C line = Inr (v, changed)" "cv_help v" "runnable ?c \<or> cb_group_args C (command_path ?c) (cl_args line) = None"
    for v changed
    using that assms(2) group_args [of ?c C "cl_args line"] by (auto simp: run_line_def Let_def split: if_splits)
  ultimately show ?thesis
    by (cases r; cases "projl r")
      (auto simp: elpctl_Execute_def printUsageError_def line_error_def elpctl_main_def)
qed

section \<open>Creating a device\<close>

text \<open>What the API does with the request of the command.\<close>

definition wanted_spec :: "create_flags \<Rightarrow> device_spec \<Rightarrow> bool" where
  "wanted_spec fl spec \<longleftrightarrow>
     be_type (ds_backend spec) = cf_backend fl \<and>
     ds_broadcast_flags spec = Some (if cf_set_broadcast fl then cf_broadcast_flags fl else DefaultBroadcastFlags)"

lemma sent_request_created:
  assumes "create_request name fl = Inr req" and "name \<noteq> []" and "cf_nats_url fl \<noteq> []"
  shows "if cf_backend fl = ''hardware'' \<and> bad_port (cf_address fl)
    then \<exists>e. createDevice c w ns name (Inr req) = (w, writeError 400 e)
    else \<exists>spec. wanted_spec fl spec \<and>
      (case ra_create c w \<lparr>dev_meta = empty_object_meta ns name, dev_spec = spec, dev_status = zero_status\<rparr> of
         (w1, Inl _) \<Rightarrow> \<exists>n e. createDevice c w ns name (Inr req) = (w1, writeError n e) \<and> n \<noteq> 201
       | (w1, Inr d) \<Rightarrow> createDevice c w ns name (Inr req) = (w1, 201, BodyDevice (DeviceFromCR d)))"
proof -
  have v: "validateDeviceCreate req = None" "dc_name req = name"
    using create_request_valid [OF assms] create_request_fields [OF assms(1)] by simp_all
  show ?thesis
  proof (cases "specFromCreate req")
    case (Inl e)
    then show ?thesis using create_request_spec(1) [OF assms(1)] assms(2) v by (auto simp: createDevice_def)
  next
    case (Inr spec)
    have "wanted_spec fl spec" using create_request_spec(2) [OF assms(1) Inr] by (simp add: wanted_spec_def)
    moreover have "\<not> (cf_backend fl = ''hardware'' \<and> bad_port (cf_address fl))"
      using create_request_spec(1) [OF assms(1)] Inr by simp
    ultimately show ?thesis using Inr v assms(2)
      by (auto simp: createDevice_def intro!: exI [of _ spec] split: prod.split sum.split kube_error.split)
  qed
qed

text \<open>A command line that gets as far as its command.\<close>

lemma run_line_create:
  assumes "cobra_laws C" and "cl_command line = DeviceCreateCmd" and "cl_args line = [name]"
    and "line_flags C line = Inr (v, changed)" and "\<not> cv_help v" and "line_target E w DeviceCreateCmd v changed = Inr target"
  shows "run_line E C line w = apsnd (map_sum id Printed)
    (run_device_create (ce_http E) target (cv_output v) (command_path DeviceCreateCmd) w name (cv_create v))"
proof -
  have r: "runnable DeviceCreateCmd" by (simp add: runnable_def)
  have "check_args C DeviceCreateCmd [name] = None" using check_args_laws(1) [OF assms(1) r] by (simp add: wanted_args_def)
  then show ?thesis using r assms(2-6) by (simp add: run_line_def)
qed

text \<open>What the command makes of the answer.\<close>

lemma told_creation:
  assumes "(w', r) = (case apsnd (told J (a_device 201)) answer of
        (w1, Inl e) \<Rightarrow> (w1, Inl (OtherError e))
      | (w1, Inr d) \<Rightarrow> (w1, Inr (Printed (printDevice format d))))"
  shows "answer = (w1, writeError n e) \<Longrightarrow> w' = w1 \<and> elpctl_main (line_error r) = 1"
    and "answer = (w1, 201, BodyDevice d) \<Longrightarrow>
      w' = w1 \<and> elpctl_main (line_error r) = 0 \<and> r = Inr (Printed (printDevice format d))"
  using assms by (auto simp: told_def writeError_def line_error_def elpctl_main_def)

text \<open>
  C18: \<^verbatim>\<open>elpctl device create\<close> exits with 0 exactly when the device it asks for is in the cluster.
  For a line that is accepted, an API server behind the chosen server URL, and a namespace and a name that need
  no escaping: a line that asks for help changes nothing and exits with 0. Of the others, without a backend that can be asked for, or with a bad port in the address, nothing changes
  and the exit code is 1. Otherwise the cluster is asked once, in the chosen namespace, for a device of this name with the
  backend and the broadcast flags of the line; if it creates it the device is printed in the chosen format
  and the exit code is 0, else it is 1.
\<close>

theorem create_command_stores:
  assumes "cobra_laws C" and "api_link (ce_http E) base c J R stream"
    and "cl_command line = DeviceCreateCmd" and "cl_args line = [name]" and "line_flags C line = Inr (v, changed)"
    and "line_target E w DeviceCreateCmd v changed = Inr (server, ns)" and "trim_right_char (CHR ''/'') server = base"
    and "plain_name ns" and "plain_name name" and "fl = cv_create v" and "cf_nats_url fl \<noteq> []"
    and "\<forall>req. create_request name fl = Inr req \<longrightarrow>
      (\<exists>data. hl_marshal_create (ce_http E) req = Inr data) \<and> encoded J (snd (createDevice c w ns name (Inr req)))"
    and "run_line E C line w = (w', r)"
  shows "if cv_help v then w' = w \<and> elpctl_main (line_error r) = 0 \<and> r = Inr HelpShown
    else if bad_create fl \<or> cf_backend fl = ''hardware'' \<and> bad_port (cf_address fl)
    then w' = w \<and> elpctl_main (line_error r) = 1
    else \<exists>spec. wanted_spec fl spec \<and>
      (case ra_create c w \<lparr>dev_meta = empty_object_meta ns name, dev_spec = spec, dev_status = zero_status\<rparr> of
         (w1, Inl _) \<Rightarrow> w' = w1 \<and> elpctl_main (line_error r) = 1
       | (w1, Inr d) \<Rightarrow> w' = w1 \<and> elpctl_main (line_error r) = 0 \<and> r = Inr (Printed (printDevice (cv_output v) (DeviceFromCR d))))"
proof (cases "cv_help v")
  case True
  then show ?thesis using assms(3,5,13) by (auto simp: run_line_def runnable_def line_error_def elpctl_main_def)
next
  case runs: False
  let ?H = "ce_http E"
  have run: "(w', r) = apsnd (map_sum id Printed)
      (run_device_create ?H (server, ns) (cv_output v) (command_path DeviceCreateCmd) w name fl)"
    using run_line_create [OF assms(1,3-5) runs assms(6)] assms(10,13) by simp
  show ?thesis
  proof (cases "create_request name fl")
    case (Inl e)
    then show ?thesis using run runs create_request_error [of name fl]
      by (auto simp: run_device_create_def line_error_def elpctl_main_def)
  next
    case (Inr req)
    let ?cl = "\<lparr>el_base_url = base, el_namespace = ns\<rparr>"
    obtain data where sent: "hl_marshal_create ?H req = Inr data" "encoded J (snd (createDevice c w ns name (Inr req)))"
      using assms(12) Inr by blast
    have "client_CreateDevice ?H ?cl w req = apsnd (told J (a_device 201)) (createDevice c w ns name (Inr req))"
      using client_calls(3) [OF assms(2) refl assms(8,9) sent(2) _ sent(1)] create_request_fields(1) [OF Inr] by simp
    then have run': "(w', r) = (case apsnd (told J (a_device 201)) (createDevice c w ns name (Inr req)) of
        (w1, Inl e) \<Rightarrow> (w1, Inl (OtherError e))
      | (w1, Inr d) \<Rightarrow> (w1, Inr (Printed (printDevice (cv_output v) d))))"
      using run assms(7) Inr by (simp add: run_device_create_def newAPIClient_def client_New_def split: prod.split sum.split)
    have nb: "\<not> bad_create fl" using create_request_error [of name fl] Inr by simp
    note created = sent_request_created [OF Inr plain_name_facts(3) [OF assms(9)] assms(11), of c w ns]
    show ?thesis
    proof (cases "cf_backend fl = ''hardware'' \<and> bad_port (cf_address fl)")
      case True
      then obtain e where "createDevice c w ns name (Inr req) = (w, writeError 400 e)" using created by (simp only: if_P) auto
      from told_creation(1) [OF run' this] True runs show ?thesis by simp
    next
      case False
      then obtain spec w1 x where s: "wanted_spec fl spec"
        "ra_create c w \<lparr>dev_meta = empty_object_meta ns name, dev_spec = spec, dev_status = zero_status\<rparr> = (w1, x)"
        and a: "case x of Inl _ \<Rightarrow> \<exists>n e. createDevice c w ns name (Inr req) = (w1, writeError n e) \<and> n \<noteq> 201
          | Inr d \<Rightarrow> createDevice c w ns name (Inr req) = (w1, 201, BodyDevice (DeviceFromCR d))"
        using created unfolding if_not_P [OF False] case_prod_beta by (elim exE conjE) (rule that, assumption, rule prod.collapse [symmetric])
      have "case x of Inl _ \<Rightarrow> w' = w1 \<and> elpctl_main (line_error r) = 1
          | Inr d \<Rightarrow> w' = w1 \<and> elpctl_main (line_error r) = 0 \<and> r = Inr (Printed (printDevice (cv_output v) (DeviceFromCR d)))"
        using a told_creation [OF run'] by (cases x) auto
      with s False nb runs show ?thesis by (auto intro!: exI [of _ spec])
    qed
  qed
qed

section \<open>A command line at work\<close>

text \<open>A cobra that counts arguments, a home without files, and the depot cluster behind its API.\<close>

definition counting_cobra :: cobra where
  "counting_cobra =
     \<lparr>cb_exact_args = (\<lambda>n cmd args. if length args = n then None else Some ''wrong number of args''),
      cb_no_args = (\<lambda>cmd args. if args = [] then None else Some ''unknown command''),
      cb_maximum_args = (\<lambda>n cmd args. if length args \<le> n then None else Some ''too many args''),
      cb_group_args = (\<lambda>cmd args. None),
      pf_bool = (\<lambda>x. if x = ''true'' then Inr True else Inl ''syntax''), pf_uint32 = (\<lambda>x. Inl ''syntax''),
      pf_uint16 = (\<lambda>x. Inl ''syntax''), pf_invalid = (\<lambda>x n e. e), pf_unknown = (\<lambda>n. ''unknown flag'')\<rparr>"

definition create_line :: command_line where
  "create_line =
     \<lparr>cl_command = DeviceCreateCmd,
      cl_flags = [GivenLong ''backend'' ''simulator'', GivenLong ''server'' ''http://depot/'', GivenShort ''n'' ''layout''],
      cl_args = [''sim1'']\<rparr>"

definition line_create_flags :: create_flags where
  "line_create_flags = cv_create new_ctl_vars\<lparr>cf_backend := ''simulator''\<rparr>"

definition line_request :: device_create where
  "line_request = projr (create_request ''sim1'' line_create_flags)"

definition line_device :: z21device where
  "line_device =
     \<lparr>dev_meta = empty_object_meta ''layout'' ''sim1'', dev_spec = projr (specFromCreate line_request), dev_status = zero_status\<rparr>"

definition desk_json :: rest_json where
  "desk_json = depot_json\<lparr>rj_create := (\<lambda>t. Inr line_request),
     rj_encode := (\<lambda>b. case b of
          BodyError e \<Rightarrow> Some ''error''
        | BodyDevice d \<Rightarrow> if d = DeviceFromCR line_device then Some ''device'' else None
        | _ \<Rightarrow> None)\<rparr>"

definition desk :: "bool ctl_env" where
  "desk =
     \<lparr>ce_http =
        \<lparr>hl_do = (\<lambda>w verb url body. apsnd Inr (api_serve depot_api desk_json least_router depot_stream w verb (drop 12 url) body)),
         hl_decode_error = (\<lambda>t. Inr ''not found''), hl_decode_device = (\<lambda>t. Inr (DeviceFromCR line_device)),
         hl_decode_devices = (\<lambda>t. Inl ''syntax''), hl_decode_simulation = (\<lambda>t. Inl ''syntax''),
         hl_marshal_create = (\<lambda>r. if r = line_request then Inr ''request'' else Inl ''no''), hl_marshal_simulate = (\<lambda>r. Inl ''no'')\<rparr>,
      ce_files = \<lparr>ef_read = (\<lambda>w p. ReadMissing), ef_mkdir = (\<lambda>w d. (w, None)), ef_write = (\<lambda>w p s. (w, None)), ef_dir = (\<lambda>p. p),
        ef_join = concat, ef_home = Inr ''/root'', ef_unmarshal = (\<lambda>s. Inl ''syntax''), ef_marshal = (\<lambda>c. Inl ''no'')\<rparr>,
      ce_getenv = (\<lambda>k. []), ce_exec = (\<lambda>b args. ([], None)), ce_service = (\<lambda>s. Inl ''syntax''), ce_event = (\<lambda>s. Inl ''syntax''),
      ce_tty = False, ce_order = (\<lambda>xs. xs)\<rparr>"

lemma counting_laws: "cobra_laws counting_cobra"
  by (simp add: cobra_laws_def counting_cobra_def)

theorem misuse_is_told_witness:
  "(\<exists>p e. run_line desk counting_cobra (create_line\<lparr>cl_args := []\<rparr>) False = (False, Inl (UsageError p e))) \<and>
   run_line desk counting_cobra (create_line\<lparr>cl_flags := [GivenShort ''h'' ''true''], cl_args := []\<rparr>) False = (False, Inr HelpShown)"
proof -
  let ?l = "create_line\<lparr>cl_args := []\<rparr>" and ?h = "create_line\<lparr>cl_flags := [GivenShort ''h'' ''true''], cl_args := []\<rparr>"
  obtain w' r where run: "run_line desk counting_cobra ?l False = (w', r)" by fastforce
  have "\<not> cv_help v" if "line_flags counting_cobra ?l = Inr (v, changed)" for v changed
    using that by (auto simp: line_flags_def create_line_def command_flags_def help_flag_def device_create_flags_def root_flags_def
        on_create_def new_ctl_vars_def)
  then have m: "misused desk counting_cobra ?l False"
    by (auto simp: misused_def create_line_def runnable_def wanted_args_def split: sum.split)
  obtain w2 r2 where run2: "run_line desk counting_cobra ?h False = (w2, r2)" by fastforce
  have h: "line_flags counting_cobra ?h = Inr (new_ctl_vars\<lparr>cv_help := True\<rparr>, [''help''])"
    by (simp add: line_flags_def create_line_def command_flags_def help_flag_def counting_cobra_def)
  have "runnable (cl_command ?h)" by (simp add: create_line_def runnable_def)
  then show ?thesis
    using misuse_is_told [OF counting_laws run, of "\<lambda>c. c"] misuse_is_told [OF counting_laws run2, of "\<lambda>c. c"] m h run run2
    by (auto split: prod.splits)
qed

lemma desk_link: "api_link (ce_http desk) ''http://depot'' depot_api desk_json least_router depot_stream"
  unfolding api_link_def
  by (intro conjI least_router_law) (auto simp: desk_def desk_json_def depot_json_def split: api_body.splits if_splits)

lemma create_line_flags:
  "\<exists>v changed. line_flags counting_cobra create_line = Inr (v, changed) \<and> \<not> cv_help v \<and> cv_create v = line_create_flags \<and> cv_output v = ''table'' \<and>
     line_target desk w DeviceCreateCmd v changed = Inr (''http://depot/'', ''layout'')"
proof -
  let ?v = "new_ctl_vars\<lparr>cv_create := line_create_flags, cv_server := ''http://depot/'', cv_namespace := ''layout''\<rparr>"
  let ?n = "[''namespace'', ''server'', ''backend'']"
  have "line_flags counting_cobra create_line = Inr (?v, ?n)"
    by (simp add: line_flags_def create_line_def command_flags_def help_flag_def device_create_flags_def root_flags_def on_create_def line_create_flags_def)
  moreover have "line_target desk w DeviceCreateCmd ?v ?n = Inr (''http://depot/'', ''layout'')"
    by (simp add: line_target_def command_target_def given_if_def command_names_def isConfigCommand_def applyConfigDefaults_def desk_def)
  ultimately show ?thesis by (intro exI [of _ ?v] exI [of _ ?n]) (simp add: new_ctl_vars_def)
qed

lemma line_request_made: "create_request ''sim1'' line_create_flags = Inr line_request"
  by (simp add: line_request_def line_create_flags_def create_request_def)

lemma line_flags_good: "\<not> bad_create line_create_flags" "cf_backend line_create_flags = ''simulator''" "cf_nats_url line_create_flags \<noteq> []"
  by (simp_all add: bad_create_def line_create_flags_def new_ctl_vars_def)

lemma line_request_stored: "createDevice depot_api False ''layout'' ''sim1'' (Inr line_request) = (True, 201, BodyDevice (DeviceFromCR line_device))"
proof -
  have "validateDeviceCreate line_request = None" "dc_name line_request = ''sim1''"
    using create_request_valid [OF line_request_made] create_request_fields [OF line_request_made] line_flags_good by simp_all
  moreover obtain spec where "specFromCreate line_request = Inr spec"
    using create_request_spec(1) [OF line_request_made] line_flags_good by (cases "specFromCreate line_request") simp_all
  ultimately show ?thesis by (simp add: createDevice_def depot_api_def line_device_def)
qed

theorem create_command_stores_witness:
  "\<exists>d. run_line desk counting_cobra create_line False = (True, Inr (Printed (printDevice ''table'' (DeviceFromCR d))))"
proof -
  obtain v changed where v: "line_flags counting_cobra create_line = Inr (v, changed)" "cv_create v = line_create_flags" "cv_output v = ''table''"
    "line_target desk False DeviceCreateCmd v changed = Inr (''http://depot/'', ''layout'')" "\<not> cv_help v" using create_line_flags by blast
  obtain w' r where run: "run_line desk counting_cobra create_line False = (w', r)" by fastforce
  have line: "cl_command create_line = DeviceCreateCmd" "cl_args create_line = [''sim1'']"
    "trim_right_char (CHR ''/'') ''http://depot/'' = ''http://depot''" by (simp_all add: create_line_def trim_right_char_def)
  have plain: "plain_name ''layout''" "plain_name ''sim1''" by (simp_all add: plain_name_def path_plain_def)
  have sent: "\<forall>req. create_request ''sim1'' line_create_flags = Inr req \<longrightarrow>
      (\<exists>data. hl_marshal_create (ce_http desk) req = Inr data) \<and> encoded desk_json (snd (createDevice depot_api False ''layout'' ''sim1'' (Inr req)))"
    by (simp add: line_request_made line_request_stored encoded_def desk_json_def desk_def)
  show ?thesis
    using create_command_stores [OF counting_laws desk_link line(1,2) v(1,4) line(3) plain v(2) [symmetric] line_flags_good(3) sent run]
      line_flags_good(1,2) v(3,5) run by (auto simp: depot_api_def)
qed

end
