(* ===== verification/Spec2Isabelle.thy ===== *)
theory Spec2Isabelle
  imports Detector_Controller Sim_Server Device_Controller Gateway Simulation_Controller Elpctl_Commands Api_Routes Sim_Trace Mains Sim_Bus Elpctl_Cli
begin

text \<open>
  A verification library for elp, the control plane of a model railway with Roco Z21 command stations:
  two Kubernetes operators, a gateway process per station, a simulator of a station, a REST API and the
  command line \<^verbatim>\<open>elpctl\<close>, all written in Go.

  \<^bold>\<open>How the parts interact.\<close> A \<^verbatim>\<open>Z21Device\<close> names a station, real or simulated. The device
  operator (\<^verbatim>\<open>operators/z21-device\<close>) turns it into a gateway deployment and, for a simulated one, a simulator
  deployment and Service, and writes its status. The gateway (\<^verbatim>\<open>apps/z21-gateway\<close>) dials the station over UDP,
  publishes what it hears on NATS, patches the status of its device and turns the detectors it discovers
  into \<^verbatim>\<open>CANDetector\<close> objects. The operator gives each of them a module address from a
  \<^verbatim>\<open>CANAddressPool\<close> (\<^verbatim>\<open>packages/canpool\<close>), and the gateway writes it to the bus. A
  \<^verbatim>\<open>Simulation\<close> lists modules; its operator (\<^verbatim>\<open>operators/z21-sim-controller\<close>) registers them in the
  simulator (\<^verbatim>\<open>apps/z21-sim\<close>) by gRPC. The API (\<^verbatim>\<open>apps/api\<close>) serves devices, simulations and an event stream
  from the cluster and publishes commands for the gateways; \<^verbatim>\<open>elpctl\<close> (\<^verbatim>\<open>apps/elpctl\<close>) is its client.

  \<^bold>\<open>Theories and sources.\<close> Definitions keep the names of the Go code; a prefix is added where a
  name occurs twice (\<^verbatim>\<open>pool_\<close>, \<^verbatim>\<open>client_\<close>, \<^verbatim>\<open>grpc_\<close>, \<^verbatim>\<open>api_\<close>), and a part of a long function has a name
  of its own.
    \<^item> \<open>Elp_Prelude\<close>: Go maps as association lists, runs of state machines and their invariants (locale
      \<open>invariant_machine\<close>). \<open>Go_Text\<close>: \<^verbatim>\<open>strconv\<close>, \<^verbatim>\<open>strings\<close>, \<^verbatim>\<open>net.SplitHostPort\<close> and their round trips.
      \<open>Wire_Bytes\<close>: byte slices and little-endian integers.
    \<^item> \<open>Can_Pool\<close>: \<^verbatim>\<open>packages/canpool\<close>. The state is the configuration and the two maps of the pool. The locale
      \<open>address_pool\<close> is the contract its clients use, interpreted on the pool.
    \<^item> \<open>Device_Api\<close>: the resources and their accessors (\<^verbatim>\<open>api/v1alpha1\<close>, \<^verbatim>\<open>internal/runtimeconfig\<close>).
    \<^item> \<open>Detector_Controller\<close>: \<^verbatim>\<open>candetector_controller.go\<close>, \<^verbatim>\<open>candetector_allocate.go\<close>, and a fleet of detectors under
      any sequence of reconciliations and changes by others, with a cache that has caught up and with one that lags behind.
    \<^item> \<open>Device_Controller\<close>: \<^verbatim>\<open>z21device_controller.go\<close>: the workloads, the status, deletion.
    \<^item> \<open>Sim_Server\<close>: \<^verbatim>\<open>apps/z21-sim/internal/server\<close> and \<^verbatim>\<open>internal/control/grpc.go\<close>. The state has the sessions in a
      store of their own, because a handler goes on with a session it has removed from the map.
      \<open>Sim_Trace\<close>: \<^verbatim>\<open>internal/trace\<close>.
    \<^item> \<open>Gateway_Health\<close>: \<^verbatim>\<open>apps/z21-gateway/internal/status\<close>; \<open>Gateway_Detector\<close>: \<^verbatim>\<open>internal/detector\<close>;
      \<open>Gateway\<close>: \<^verbatim>\<open>internal/config\<close> and \<^verbatim>\<open>internal/gateway\<close> with \<^verbatim>\<open>packages/events\<close>.
    \<^item> \<open>Simulation_Controller\<close>: \<^verbatim>\<open>operators/z21-sim-controller\<close> with its pool of gRPC clients.
    \<^item> \<open>Rest_Api\<close>: \<^verbatim>\<open>apps/api/internal/api\<close>, \<^verbatim>\<open>nats\<close>, \<^verbatim>\<open>k8s/watch.go\<close>: resources, handlers, the stream hub, the
      publisher. \<open>Stream_Watch\<close>: the stream handler, and the watch of elpctl at its other end.
      \<open>Api_Routes\<close>: the routes, and the client of elpctl on top of them.
    \<^item> \<open>Elpctl\<close>: configuration, discovery, HTTP client, event reader, tables (\<^verbatim>\<open>apps/elpctl/internal\<close>, \<^verbatim>\<open>cmd\<close>);
      \<open>Elpctl_Commands\<close>: what every command does; \<open>Elpctl_Cli\<close>: the tree of commands, their flags and arguments, and
      the run of a command line to its exit code.
    \<^item> \<open>Processes\<close>: the socket loop of the simulator, its control server, the probe server and message log of the
      gateway, the errors of the command line. \<open>Go_Flag\<close>: the \<^verbatim>\<open>flag\<close> package. \<open>Mains\<close>: the main functions of all
      processes: command lines, environments, starts, signals and exit codes.
    \<^item> \<open>Sim_Bus\<close>: the detector manager of the gateway over the simulator as its bus.
    \<^item> This theory: properties of components that talk to each other.

  \<^bold>\<open>What is proved.\<close> For the pool: which address is given, that the two maps agree and no address has
  two owners after any operations, that \<^verbatim>\<open>Rebuild\<close> accepts exactly consistent assignments, and that all loops
  over 16-bit addresses end. For the detector operator: its result on every branch, convergence, and no
  conflict of addresses over the whole fleet that others have not made, if the cache has caught up. For the device operator: an error-free reconciliation establishes the wanted
  workloads and a status that agrees with them; nothing is created before the finalizer is stored, and
  it is removed only after everything is gone. For the simulator: who gets a broadcast, how long a subscription
  lasts, names and reports of modules, a trace that loses no byte, and a process that ends with its signal once its servers have. For the gateway: the thresholds of the
  health tracker, upserts and addresses of detectors, what is offered to NATS, and that the process exits
  with code 0 only after its context has ended.
  For the API and elpctl: which command lines are refused without effect, well-formed devices, the merge of modules, the hub, the event stream read back, configuration
  round trips. Across components: the gateway accepts the environment its operator gives it, dials what the client
  asked for and answers the probes of its deployment; the simulator accepts its deployment and binds the ports the others
  dial; \<^verbatim>\<open>device create\<close> exits with 0 exactly when the cluster has the device, which, like
  flags given to the API, reaches the session; a module asked for on the
  command line is what the gateway discovers; a module address that was allocated reaches the module in the simulator exactly
  when the maintenance port is the LAN port; the client calls exactly the handlers; the watch shows what the
  stream said. Several theorems show a defect: two devices of one name take each other's gateway, the default pool is rejected, two
  reconciliations on a stale list give one address twice, after which every allocation of the pool fails, the
  phase Applied is undone, a simulator outside the default namespace is not dialled.

  \<^bold>\<open>Parameters and laws.\<close> What is not in the repository is an argument, mostly a record of functions over
  a world \<open>'w\<close>: the Kubernetes clients, the Z21 protocol package, NATS, gRPC, HTTP, JSON, YAML, the file
  system, kubectl, the router, clocks, and the order in which Go ranges over a map. Errors are values of sum or
  option types. Where a property relies on such code, the law is a named predicate of documented behaviour:
  \<open>env_laws\<close> (a map is ranged over once), \<open>context_laws\<close> (an ended context stays ended),
  \<open>api_laws\<close> (what a write of the operator's client stores, and what its answer leaves in the object in memory), \<open>caught_up\<close> (a cached read gives what
  is stored; a hypothesis about the moment a reconciliation starts, not about the client), \<open>file_laws\<close> (a file that was written
  is read), \<open>router_law\<close> (the more literal of two matching patterns wins), \<open>cobra_laws\<close> (arguments are counted), \<open>service_dns\<close> (the DNS name of a Service), \<open>stream_link\<close> and \<open>api_link\<close> (what was
  encoded decodes to itself), \<open>simulation_laws\<close>, \<open>unmarshal_law\<close>, \<open>publish_laws\<close> (a publish is one offer to NATS), \<open>wire_protocol\<close> (a marshalled packet parses to its messages),
  \<open>simulator_link\<close> (a datagram sent to the address the simulator listens at is handled by it), \<open>stores_devices\<close> and others; a witness satisfies
  each of them by a concrete instance.

  \<^bold>\<open>Integers and loops.\<close> \<^verbatim>\<open>uint16\<close>, \<^verbatim>\<open>uint32\<close> and \<^verbatim>\<open>int32\<close> are words with their wrap-around; counters and times
  are \<open>int\<close>. The loops over \<^verbatim>\<open>uint16\<close> addresses and the split of a datagram are \<open>partial_function (option)\<close>, and proved to
  return: the first for every valid pool, since its end is at most 255, the second because each dataset has at least
  one byte. The loops that run until a context ends are followed over rounds or events: \<open>bridge_loop\<close> and
  \<open>run_loop\<close> take the number of rounds, and their last result tells whether they returned; \<open>serve_loop\<close> and
  \<open>stream_loop\<close> take the sequence of what they meet. Properties of them hold for every number of rounds and every sequence,
  so no bound is chosen.

  \<^bold>\<open>Concurrency.\<close> Operations under a mutex are single steps; goroutines interleave as events of one sequence (the
  control calls of the simulator, the control messages of the gateway, the subscribers of the hub).

  \<^bold>\<open>Not modelled.\<close> The registration of watches, of schemes and of middleware, which only wire
  library calls; how cobra and pflag find the command of a line and split it into flags and arguments, and the commands
  \<^verbatim>\<open>help\<close> and \<^verbatim>\<open>completion\<close> that cobra adds by itself (its flag \<^verbatim>\<open>--help\<close> is modelled); the set-up of the Kubernetes informer; the generated deep copies, which are the identity on
  values, and the generated gRPC stubs; the text of log lines outside the two tracers; timeouts within a
  library call, which show as its error.
\<close>

section \<open>The operator configures the gateway\<close>

lemma Z21Address_nonempty: "Z21Address d = Inr a \<Longrightarrow> a \<noteq> []"
  by (auto simp: Z21Address_def join_host_port_def Let_def split: if_splits option.splits)

lemma SubjectPrefix_nonempty: "SubjectPrefix d \<noteq> []"
  by (simp add: SubjectPrefix_def Let_def)

lemma deployed_gateway_loads:
  assumes "Z21Address d = Inr addr" and "om_name (dev_meta d) \<noteq> []" and "om_namespace (dev_meta d) \<noteq> []"
    and "EnsureNATSURLClusterDNS U (nats_url (ds_nats (dev_spec d))) \<noteq> []"
    and "pod_containers (dp_pod (dep_spec (desiredGatewayDeployment U d img sa addr cfg))) = [c]"
  shows "\<exists>g. Load (process_env (ct_env c)) = Inr g \<and> gc_z21_address g = addr \<and>
    gc_nats_url g = EnsureNATSURLClusterDNS U (nats_url (ds_nats (dev_spec d))) \<and>
    gc_subject_prefix g = SubjectPrefix d \<and> gateway_device_key g = (om_namespace (dev_meta d), om_name (dev_meta d)) \<and>
    \<not> gc_skip_status g \<and> gc_log_messages g = rc_gateway_trace cfg \<and>
    map (\<lambda>p. '':'' @ int_dec (sint (cp_port p))) (ct_ports c) = [gc_health_addr g]"
proof -
  have c: "ct_env c = gateway_env U d addr cfg" "map cp_port (ct_ports c) = [8080]"
    using assms(5) by (auto simp: desiredGatewayDeployment_def Let_def)
  obtain p where p: "ct_ports c = [p]" "cp_port p = 8080" using c(2) by (cases "ct_ports c") auto
  have port: "int_dec 8080 = ''8080''" by (simp add: int_dec_def nat_dec.simps digit_chars_def)
  have env: "process_env (ct_env c) ''Z21_ADDRESS'' = addr"
    "process_env (ct_env c) ''NATS_URL'' = EnsureNATSURLClusterDNS U (nats_url (ds_nats (dev_spec d)))"
    "process_env (ct_env c) ''NATS_SUBJECT_PREFIX'' = SubjectPrefix d"
    "process_env (ct_env c) ''Z21_DEVICE_NAME'' = om_name (dev_meta d)"
    "process_env (ct_env c) ''Z21_DEVICE_NAMESPACE'' = om_namespace (dev_meta d)"
    "process_env (ct_env c) ''HEALTH_ADDR'' = []" "process_env (ct_env c) ''Z21_GATEWAY_SKIP_STATUS'' = []"
    "process_env (ct_env c) ''Z21_LOG_MESSAGES'' = (if rc_gateway_trace cfg then ''true'' else [])"
    by (simp_all add: process_env_def c gateway_env_def)
  show ?thesis
    using assms(2-4) Z21Address_nonempty [OF assms(1)] SubjectPrefix_nonempty [of d] p
    by (simp add: Load_def Let_def env envOr_def envBool_def gateway_device_key_def parse_bool_str_def port)
qed

text \<open>
  C8: The gateway accepts the environment its operator gives it. The container that the
  controller deploys for a device with a name and a namespace starts with a configuration that
  has the device's address, subject prefix, name and namespace and the NATS URL; it reports status, traces
  messages exactly when the runtime options say so, and listens for probes on the port the probes use.
\<close>

theorem gateway_accepts_deployment:
  assumes "Z21Address d = Inr addr" and "om_name (dev_meta d) \<noteq> []" and "om_namespace (dev_meta d) \<noteq> []"
    and "EnsureNATSURLClusterDNS U (nats_url (ds_nats (dev_spec d))) \<noteq> []"
    and "pod_containers (dp_pod (dep_spec (desiredGatewayDeployment U d img sa addr cfg))) = [c]"
  shows "\<exists>g. Load (process_env (ct_env c)) = Inr g \<and> gc_z21_address g = addr \<and>
    gc_nats_url g = EnsureNATSURLClusterDNS U (nats_url (ds_nats (dev_spec d))) \<and>
    gc_subject_prefix g = SubjectPrefix d \<and> gateway_device_key g = (om_namespace (dev_meta d), om_name (dev_meta d)) \<and>
    \<not> gc_skip_status g \<and> gc_log_messages g = rc_gateway_trace cfg \<and>
    map (\<lambda>p. '':'' @ int_dec (sint (cp_port p))) (ct_ports c) = [gc_health_addr g]"
  by (rule deployed_gateway_loads [OF assms])

theorem gateway_accepts_deployment_witness:
  "\<exists>c g. pod_containers (dp_pod (dep_spec (desiredGatewayDeployment example_url example_hardware [] [] ''192.168.0.111:21105'' quiet_config))) = [c] \<and>
     Load (process_env (ct_env c)) = Inr g \<and> gc_z21_address g = ''192.168.0.111:21105'' \<and> gc_health_addr g = '':8080''"
proof -
  have d: "int_dec 21105 = ''21105''" "int_dec 8080 = ''8080''" by (simp_all add: int_dec_def nat_dec.simps digit_chars_def)
  have a: "Z21Address example_hardware = Inr ''192.168.0.111:21105''" "om_name (dev_meta example_hardware) \<noteq> []"
    "om_namespace (dev_meta example_hardware) \<noteq> []"
    "EnsureNATSURLClusterDNS example_url (nats_url (ds_nats (dev_spec example_hardware))) \<noteq> []"
    by (simp_all add: Z21Address_def example_device_defs elp_consts join_host_port_def i32_dec_def d EnsureNATSURLClusterDNS_def example_url_def)
  obtain c where c: "pod_containers (dp_pod (dep_spec (desiredGatewayDeployment example_url example_hardware [] []
      ''192.168.0.111:21105'' quiet_config))) = [c]" "ct_ports c = [\<lparr>cp_name = ''health'', cp_port = 8080, cp_protocol = ''TCP''\<rparr>]"
    by (simp add: desiredGatewayDeployment_def Let_def)
  from gateway_accepts_deployment [OF a c(1)] c show ?thesis by (auto simp: d)
qed

text \<open>
  The name under which cluster DNS has a Service, as Kubernetes documents it: the name and the namespace of
  the Service, in the cluster domain that the code writes too.
\<close>

definition service_dns :: "key \<Rightarrow> string" where
  "service_dns k = snd k @ ''.'' @ fst k @ ''.svc.cluster.local.''"

lemma service_dns_simulator: "service_dns (ns, SimulatorServiceName n) = SimulatorServiceFQDN ns n"
  by (simp add: service_dns_def SimulatorServiceFQDN_def)

lemma join_host_port_inj: "join_host_port h p = join_host_port h' p \<longleftrightarrow> h = h'"
  by (auto simp: join_host_port_def split: if_splits)

lemma FQDN_namespace: "SimulatorServiceFQDN ns n = SimulatorServiceFQDN ns' n \<longleftrightarrow> ns = ns'"
  by (simp add: SimulatorServiceFQDN_def)

text \<open>What an error-free reconciliation of a simulated device leaves of its Service, its simulator and its gateway.\<close>

lemma workloads_of_simulator:
  assumes "workloads_ok U r d cfg cl" and "be_type (ds_backend (dev_spec d)) = BackendSimulator"
  obtains svc sim dep ct where
    "cl_services cl (workloadNamespace r, SimulatorServiceName (om_name (dev_meta d))) = Some svc"
    "service_obs svc = (simulatorLabels d, ''ClusterIP'', simulatorSelector d, simulator_ports)"
    "cl_deployments cl (workloadNamespace r, simulatorDeploymentName d) = Some sim"
    "dp_template_labels (dep_spec sim) = simulatorLabels d"
    "cl_deployments cl (workloadNamespace r, gatewayDeploymentName d) = Some dep"
    "pod_containers (dp_pod (dep_spec dep)) = [ct]" "ct_env ct = gateway_env U d
       (join_host_port (SimulatorServiceFQDN DefaultWorkloadNamespace (om_name (dev_meta d))) (i32_dec DefaultZ21Port)) cfg"
proof -
  obtain svc where s: "cl_services cl (workloadNamespace r, SimulatorServiceName (om_name (dev_meta d))) = Some svc"
    "service_obs svc = (simulatorLabels d, ''ClusterIP'', simulatorSelector d, simulator_ports)"
    using assms unfolding workloads_ok_def Let_def by auto
  obtain sim where q: "cl_deployments cl (workloadNamespace r, simulatorDeploymentName d) = Some sim"
    "spec_obs (dep_spec sim) = spec_obs (dep_spec (desiredSimulatorDeployment d cfg))"
    using assms unfolding workloads_ok_def Let_def by auto
  obtain dep addr where g: "cl_deployments cl (workloadNamespace r, gatewayDeploymentName d) = Some dep" "Z21Address d = Inr addr"
    "spec_obs (dep_spec dep) = spec_obs (dep_spec (desiredGatewayDeployment U d (gatewayImage r) (gatewayServiceAccountName d) addr cfg))"
    using assms(1) unfolding workloads_ok_def Let_def by blast
  have "map ct_env (pod_containers (dp_pod (dep_spec dep))) = [gateway_env U d addr cfg]"
    unfolding spec_obs_containers [OF g(3)] by (simp add: desiredGatewayDeployment_def Let_def)
  then obtain ct where "pod_containers (dp_pod (dep_spec dep)) = [ct]" "ct_env ct = gateway_env U d addr cfg"
    by (auto simp: map_eq_Cons_conv)
  moreover have "addr = join_host_port (SimulatorServiceFQDN DefaultWorkloadNamespace (om_name (dev_meta d))) (i32_dec DefaultZ21Port)"
    using g(2) assms(2) by (simp add: Z21Address_def Let_def BackendSimulator_def BackendHardware_def)
  moreover have "dp_template_labels (dep_spec sim) = simulatorLabels d"
    using q(2) by (simp add: spec_obs_def desiredSimulatorDeployment_def)
  ultimately show thesis using that s q(1) g(1) by blast
qed

lemma simulator_selected: "selects (simulatorSelector d) (simulatorLabels d)"
  by (simp add: simulatorSelector_def simulatorLabels_def gm_get_def)

text \<open>A network where nothing answers the gateway but the address \<open>a\<close>.\<close>

definition only_answers :: "'v gateway_runtime \<Rightarrow> string \<Rightarrow> bool" where
  "only_answers G a \<longleftrightarrow> (\<forall>w x. x \<noteq> a \<longrightarrow> (\<exists>w1 e. ge_dial G w x = (w1, Inl e)))"

lemma never_attached: "only_answers G a \<Longrightarrow> gc_z21_address g \<noteq> a \<Longrightarrow> fst (snd (run_round n G g s w)) = s"
proof (cases "ge_alive G w")
  case True
  assume "only_answers G a" "gc_z21_address g \<noteq> a"
  then obtain w1 e where "ge_dial G w (gc_z21_address g) = (w1, Inl e)" unfolding only_answers_def by blast
  then show ?thesis using True by (simp add: run_round_def split: prod.splits)
qed (simp add: run_round_def)

text \<open>
  C37: The gateway of a simulated device dials the Service its own controller creates iff the controller works in
  the default namespace. After a reconciliation of such a device that reports no error and no phase \<open>Failed\<close>, the
  Service named in its status is in the workload namespace and selects the pods of the simulator; the gateway
  deployment starts with a configuration, and the address it dials is the DNS name of that Service with its UDP port
  exactly when the workload namespace is \<open>elp\<close>, because the address always names \<open>elp\<close>. In another namespace,
  where only that Service answers, no round of the gateway ever attaches a connection to its session.
\<close>

theorem simulator_dialled_iff_default_namespace:
  assumes "operator_laws c view" and "cl_devices (view w) key = Some d"
    and "DeviceFinalizerName \<in> set (om_finalizers (dev_meta d))" and "\<not> om_deleting (dev_meta d)"
    and "be_type (ds_backend (dev_spec d)) = BackendSimulator"
    and "om_name (dev_meta d) \<noteq> []" and "om_namespace (dev_meta d) \<noteq> []"
    and "EnsureNATSURLClusterDNS (oc_url c) (nats_url (ds_nats (dev_spec d))) \<noteq> []"
    and "device_Reconcile c r w key = (w', None)"
    and "cl_devices (view w') key = Some d'" and "st_phase (dev_status d') \<noteq> PhaseFailed"
  shows "let k = (workloadNamespace r, st_simulator_service (dev_status d')) in
    \<exists>svc port sim dep ct g. cl_services (view w') k = Some svc \<and>
      [p \<leftarrow> svc_ports svc. sp_protocol p = ''UDP''] = [port] \<and> sp_port port = DefaultZ21Port \<and>
      cl_deployments (view w') (workloadNamespace r, st_simulator_deployment (dev_status d')) = Some sim \<and>
      selects (svc_selector svc) (dp_template_labels (dep_spec sim)) \<and>
      cl_deployments (view w') (workloadNamespace r, st_gateway_deployment (dev_status d')) = Some dep \<and>
      pod_containers (dp_pod (dep_spec dep)) = [ct] \<and> Load (process_env (ct_env ct)) = Inr g \<and>
      (gc_z21_address g = join_host_port (service_dns k) (i32_dec (sp_port port)) \<longleftrightarrow>
         workloadNamespace r = DefaultWorkloadNamespace) \<and>
      (workloadNamespace r \<noteq> DefaultWorkloadNamespace \<and> only_answers G (join_host_port (service_dns k) (i32_dec (sp_port port))) \<longrightarrow>
         (\<forall>n s v. fst (snd (run_round n G g s v)) = s))"
proof -
  let ?ns = "workloadNamespace r" and ?n = "om_name (dev_meta d)"
  let ?addr = "join_host_port (SimulatorServiceFQDN DefaultWorkloadNamespace ?n) (i32_dec DefaultZ21Port)"
  obtain ok: "workloads_ok (oc_url c) r d (loadRuntimeConfig c r w) (view w')"
    and names: "st_gateway_deployment (dev_status d') = gatewayDeploymentName d"
      "st_simulator_deployment (dev_status d') = (if cl_deployments (view w') (?ns, simulatorDeploymentName d) = None then [] else simulatorDeploymentName d)"
      "st_simulator_service (dev_status d') = (if cl_deployments (view w') (?ns, simulatorDeploymentName d) = None then [] else SimulatorServiceName ?n)"
    using Reconcile_live [OF assms(1-4,9)] assms(10,11) by (auto simp: Let_def)
  obtain svc sim dep ct where w: "cl_services (view w') (?ns, SimulatorServiceName ?n) = Some svc"
    "service_obs svc = (simulatorLabels d, ''ClusterIP'', simulatorSelector d, simulator_ports)"
    "cl_deployments (view w') (?ns, simulatorDeploymentName d) = Some sim" "dp_template_labels (dep_spec sim) = simulatorLabels d"
    "cl_deployments (view w') (?ns, gatewayDeploymentName d) = Some dep"
    "pod_containers (dp_pod (dep_spec dep)) = [ct]" "ct_env ct = gateway_env (oc_url c) d ?addr (loadRuntimeConfig c r w)"
    by (rule workloads_of_simulator [OF ok assms(5)])
  have z: "Z21Address d = Inr ?addr" using assms(5) by (simp add: Z21Address_def Let_def BackendSimulator_def BackendHardware_def)
  obtain c1 where c1: "pod_containers (dp_pod (dep_spec (desiredGatewayDeployment (oc_url c) d [] [] ?addr (loadRuntimeConfig c r w)))) = [c1]"
    "ct_env c1 = ct_env ct" by (simp add: w(7) desiredGatewayDeployment_def Let_def)
  obtain g where g: "Load (process_env (ct_env ct)) = Inr g" "gc_z21_address g = ?addr"
    using deployed_gateway_loads [OF z assms(6-8) c1(1)] c1(2) by auto
  obtain port where port: "[p \<leftarrow> svc_ports svc. sp_protocol p = ''UDP''] = [port]" "sp_port port = DefaultZ21Port"
    using w(2) by (simp add: service_obs_def simulator_ports_def)
  have sel: "selects (svc_selector svc) (dp_template_labels (dep_spec sim))"
    using w(2,4) simulator_selected [of d] by (simp add: service_obs_def)
  have "gc_z21_address g = join_host_port (service_dns (?ns, SimulatorServiceName ?n)) (i32_dec (sp_port port)) \<longleftrightarrow> ?ns = DefaultWorkloadNamespace"
    unfolding g(2) port(2) service_dns_simulator join_host_port_inj FQDN_namespace by (rule eq_commute)
  moreover have "\<forall>n s v. fst (snd (run_round n G g s v)) = s"
    if "?ns \<noteq> DefaultWorkloadNamespace" "only_answers G (join_host_port (service_dns (?ns, SimulatorServiceName ?n)) (i32_dec (sp_port port)))"
    using never_attached [OF that(2), of g] that(1) calculation by blast
  ultimately show ?thesis using names w(1,3,5,6) port sel g(1) unfolding Let_def
    by (intro exI [of _ svc] exI [of _ port] exI [of _ sim] exI [of _ dep] exI [of _ ct] exI [of _ g]) simp
qed

text \<open>An operator that works in the namespace \<open>trains\<close>, and a network where only the simulator's Service there answers.\<close>

definition trains_operator :: operator_config where
  "trains_operator = \<lparr>GatewayImage = [], WorkloadNamespace = ''trains''\<rparr>"

definition yard_simulator :: z21device where
  "yard_simulator = finalized False [DeviceFinalizerName] example_simulator"

definition network_of :: "string \<Rightarrow> gate_world gateway_runtime" where
  "network_of a = example_gateway\<lparr>ge_dial := (\<lambda>w x. if x = a then (w, Inr 0) else (w, Inl ''no such host''))\<rparr>"

theorem simulator_dialled_iff_default_namespace_witness:
  "\<exists>w' d' dep ct g. device_Reconcile mem_operator trains_operator (cluster_with [yard_simulator]) (device_key yard_simulator) = (w', None) \<and>
     cl_devices (mem_objects_view w') (device_key yard_simulator) = Some d' \<and>
     cl_deployments (mem_objects_view w') (''trains'', st_gateway_deployment (dev_status d')) = Some dep \<and>
     pod_containers (dp_pod (dep_spec dep)) = [ct] \<and> Load (process_env (ct_env ct)) = Inr g \<and>
     cl_services (mem_objects_view w') (''trains'', st_simulator_service (dev_status d')) \<noteq> None \<and>
     gc_z21_address g \<noteq> join_host_port (service_dns (''trains'', st_simulator_service (dev_status d'))) (i32_dec DefaultZ21Port) \<and>
     fst (snd (run_round 5 (network_of (join_host_port (service_dns (''trains'', st_simulator_service (dev_status d')))
       (i32_dec DefaultZ21Port))) g (newZ21Session gateway_z21 0) (gate_world_with 2))) = newZ21Session gateway_z21 0"
proof -
  let ?d = yard_simulator and ?r = trains_operator
  have d: "DeviceFinalizerName \<in> set (om_finalizers (dev_meta ?d))" "\<not> om_deleting (dev_meta ?d)"
    "be_type (ds_backend (dev_spec ?d)) = BackendSimulator" "om_name (dev_meta ?d) \<noteq> []" "om_namespace (dev_meta ?d) \<noteq> []"
    "EnsureNATSURLClusterDNS (oc_url mem_operator) (nats_url (ds_nats (dev_spec ?d))) \<noteq> []"
    by (simp_all add: yard_simulator_def finalized_def example_device_defs BackendSimulator_def mem_operator_def example_url_def
        EnsureNATSURLClusterDNS_def elp_consts)
  obtain addr where z: "Z21Address ?d = Inr addr" using d(3) by (simp add: Z21Address_def Let_def BackendSimulator_def BackendHardware_def)
  have kd: "keyed device_key (cl_devices (cluster_with [?d])) (device_key ?d) = Some ?d" using cluster_with_single [of ?d] by simp
  obtain w' where r: "device_Reconcile mem_operator ?r (cluster_with [?d]) (device_key ?d) = (w', None)"
    and run: "\<And>d'. cl_devices (mem_objects_view w') (device_key ?d) = Some d' \<Longrightarrow> st_phase (dev_status d') \<noteq> PhaseFailed"
    using mem_Reconcile [OF kd d(1,2) z no_deployments_fresh] by blast
  obtain d' where d': "cl_devices (mem_objects_view w') (device_key ?d) = Some d'"
    using Reconcile_live [OF mem_operator_laws cluster_with_single d(1,2) r] by (metis fun_upd_same)
  have ns: "workloadNamespace ?r = ''trains''" by (simp add: workloadNamespace_def trains_operator_def)
  have other: "''trains'' \<noteq> DefaultWorkloadNamespace" by (simp add: DefaultWorkloadNamespace_def)
  let ?a = "join_host_port (service_dns (''trains'', st_simulator_service (dev_status d'))) (i32_dec DefaultZ21Port)"
  have net: "only_answers (network_of ?a) ?a" by (simp add: only_answers_def network_of_def)
  from simulator_dialled_iff_default_namespace [OF mem_operator_laws cluster_with_single d r d' run [OF d'], where G = "network_of ?a"]
  obtain svc port sim dep ct g where all: "cl_services (mem_objects_view w') (''trains'', st_simulator_service (dev_status d')) = Some svc"
    "[p \<leftarrow> svc_ports svc. sp_protocol p = ''UDP''] = [port]" "sp_port port = DefaultZ21Port"
    "cl_deployments (mem_objects_view w') (''trains'', st_gateway_deployment (dev_status d')) = Some dep"
    "pod_containers (dp_pod (dep_spec dep)) = [ct]" "Load (process_env (ct_env ct)) = Inr g"
    "gc_z21_address g = join_host_port (service_dns (''trains'', st_simulator_service (dev_status d'))) (i32_dec (sp_port port)) \<longleftrightarrow>
       ''trains'' = DefaultWorkloadNamespace"
    "''trains'' \<noteq> DefaultWorkloadNamespace \<and>
       only_answers (network_of ?a) (join_host_port (service_dns (''trains'', st_simulator_service (dev_status d'))) (i32_dec (sp_port port))) \<longrightarrow>
       (\<forall>n s v. fst (snd (run_round n (network_of ?a) g s v)) = s)"
    unfolding ns Let_def by blast
  note dial = all(7,8) [unfolded all(3)]
  have "gc_z21_address g \<noteq> ?a" using dial(1) other by simp
  moreover have "fst (snd (run_round 5 (network_of ?a) g (newZ21Session gateway_z21 0) (gate_world_with 2))) = newZ21Session gateway_z21 0"
    using dial(2) other net by blast
  ultimately show ?thesis using all(1,4-6) r d' by blast
qed

section \<open>The gateway discovers the simulator's detectors\<close>

text \<open>The link of a gateway that speaks the protocol of the simulator.\<close>

definition same_protocol :: "z21_protocol \<Rightarrow> 'w detector_link \<Rightarrow> bool" where
  "same_protocol P L \<longleftrightarrow>
     dl_header_detector L = HeaderLANCANDetector P \<and> dl_poll_all L = CANDetectorPollAll P \<and>
     (\<forall>n a p t v1 v2. dl_parse L (encodeCANDetectorReport n a p t v1 v2) = Inr \<lparr>rp_net_id = n, rp_addr = a, rp_port = p\<rparr>) \<and>
     (\<forall>m. mset (dl_order L m) = mset m)"

definition port_reports :: "can_device \<Rightarrow> can_report list" where
  "port_reports d = map (\<lambda>(port, v). \<lparr>rp_net_id = cd_net_id d, rp_addr = cd_module_addr d, rp_port = word_of_nat port\<rparr>)
     (enumerate 0 (cd_ports d))"

lemma reports_of_device:
  assumes "same_protocol P L"
  shows "detector_reports L (detectorReports P d @ ms) =
    map_sum id (\<lambda>rs. (if cd_net_id d = CANDetectorPollAll P then [] else port_reports d) @ rs) (detector_reports L ms)"
proof -
  have "detector_reports L (map (\<lambda>(port, value).
            \<lparr>msg_header = HeaderLANCANDetector P,
             msg_data = encodeCANDetectorReport (cd_net_id d) (cd_module_addr d)
               (word_of_nat port) (CANDetectorTypeOccupancy P) value 0\<rparr>) ps @ ms) =
    map_sum id (\<lambda>rs. (if cd_net_id d = CANDetectorPollAll P then []
        else map (\<lambda>(port, v). \<lparr>rp_net_id = cd_net_id d, rp_addr = cd_module_addr d, rp_port = word_of_nat port\<rparr>) ps) @ rs)
      (detector_reports L ms)" for ps :: "(nat \<times> u16) list"
  proof (induction ps)
    case Nil
    then show ?case by (cases "detector_reports L ms") simp_all
  next
    case (Cons p ps)
    then show ?case using assms by (cases p; cases "detector_reports L ms") (simp_all add: same_protocol_def)
  qed
  then show ?thesis by (simp add: detectorReports_def port_reports_def)
qed

lemma reports_of_devices:
  assumes "same_protocol P L"
  shows "detector_reports L (concat (map (detectorReports P) ds)) =
    Inr (concat (map port_reports (filter (\<lambda>d. cd_net_id d \<noteq> CANDetectorPollAll P) ds)))"
  by (induction ds) (simp_all add: reports_of_device [OF assms])

lemma port_reports_of: "r \<in> set (port_reports d) \<Longrightarrow> rp_net_id r = cd_net_id d \<and> rp_addr r = cd_module_addr d"
  by (auto simp: port_reports_def)

lemma port_reports_empty: "port_reports d = [] \<longleftrightarrow> cd_ports d = []"
  by (simp add: port_reports_def enumerate_eq_zip)

lemma reported_addr_only:
  assumes "\<And>r. r \<in> set rs \<Longrightarrow> rp_net_id r = n \<Longrightarrow> rp_addr r = a" and "n \<in> rp_net_id ` set rs"
  shows "reported_addr rs n = a"
proof (cases "find (\<lambda>r. rp_net_id r = n \<and> rp_addr r \<noteq> 0) rs")
  case None
  then have "\<forall>r \<in> set rs. rp_net_id r = n \<longrightarrow> rp_addr r = 0" by (auto simp: find_None_iff)
  then show ?thesis using None assms by (auto simp: reported_addr_def)
next
  case (Some r)
  then have "r \<in> set rs \<and> rp_net_id r = n" by (auto simp: find_Some_iff)
  then show ?thesis using Some assms(1) by (simp add: reported_addr_def)
qed

lemma poll_all_reports:
  "handleCANDetectorPoll P E s (0 # le16 (CANDetectorPollAll P)) = Some (concat (map (detectorReports P) (detectorDevices E s)))"
  using get_le16_le16 [of "CANDetectorPollAll P" "[]"] by (simp add: handleCANDetectorPoll_def Let_def)

lemma summarized_reports:
  assumes "same_protocol P L" and "detector_reports L msgs = Inr rs"
  shows "\<exists>ds. summarizeDiscovery L msgs = Inr ds \<and> distinct (map dd_net_id ds) \<and> set (map dd_net_id ds) = rp_net_id ` set rs \<and>
    (\<forall>d \<in> set ds. dd_addr d = reported_addr rs (dd_net_id d))"
proof -
  have "\<And>m. mset (dl_order L m) = mset m" using assms(1) by (simp add: same_protocol_def)
  from summary_exact [OF this, of msgs] obtain ds where ds0: "summarizeDiscovery L msgs = Inr ds \<and> distinct (map dd_net_id ds) \<and>
      set (map dd_net_id ds) = rp_net_id ` set rs \<and>
      (\<forall>d \<in> set ds. dd_addr d = reported_addr rs (dd_net_id d) \<and>
         (\<forall>p. gm_has (dd_ports d) p \<longleftrightarrow> (\<exists>r \<in> set rs. rp_net_id r = dd_net_id d \<and> rp_port r = p)))"
    unfolding assms(2) sum.case by (rule exE)
  have ds: "summarizeDiscovery L msgs = Inr ds" "distinct (map dd_net_id ds)" "set (map dd_net_id ds) = rp_net_id ` set rs"
    "\<forall>d \<in> set ds. dd_addr d = reported_addr rs (dd_net_id d)"
    using ds0 by (blast, blast, blast, blast)
  then show ?thesis by blast
qed

lemma simulator_reports:
  assumes "sim_reachable P E s" and "env_laws E" and "same_protocol P L"
    and "handleCANDetectorPoll P E s (0 # le16 (CANDetectorPollAll P)) = Some msgs" and "detector_reports L msgs = Inr rs"
  shows "n \<in> rp_net_id ` set rs \<and> reported_addr rs n = a \<longleftrightarrow>
    n \<noteq> CANDetectorPollAll P \<and> (\<exists>c. canDevice s n = Some c \<and> cd_kind c = CANDeviceDetector \<and> cd_module_addr c = a)"
proof -
  note dev = detectorDevices_iff [OF assms(1,2)]
  define DS where "DS = filter (\<lambda>d. cd_net_id d \<noteq> CANDetectorPollAll P) (detectorDevices E s)"
  have rs: "rs = concat (map port_reports DS)"
    using assms(4,5) reports_of_devices [OF assms(3), of "detectorDevices E s"] by (simp add: poll_all_reports DS_def)
  have in_DS: "c \<in> set DS \<longleftrightarrow> cd_net_id c \<noteq> CANDetectorPollAll P \<and> canDevice s (cd_net_id c) = Some c \<and> cd_kind c = CANDeviceDetector" for c
    by (auto simp: DS_def dev(1))
  have only: "rp_addr x = cd_module_addr c" if x: "x \<in> set rs" "rp_net_id x = cd_net_id c" and c: "c \<in> set DS" for x c
  proof -
    obtain c' where c': "c' \<in> set DS" "x \<in> set (port_reports c')" using x(1) by (auto simp: rs)
    then have "Some c' = Some c" using x(2) c port_reports_of [of x c'] unfolding in_DS by metis
    then show ?thesis using c'(2) port_reports_of [of x c'] by simp
  qed
  have ids: "cd_net_id c \<in> rp_net_id ` set rs" if c: "c \<in> set DS" for c
  proof -
    have "port_reports c \<noteq> []" using c dev(3) [of "cd_net_id c" c] by (simp add: in_DS port_reports_empty)
    then obtain r where "r \<in> set (port_reports c)" by (meson list.set_sel(1))
    then have "r \<in> set rs" "rp_net_id r = cd_net_id c" using c port_reports_of [of r c] by (auto simp: rs)
    then show ?thesis by (metis imageI)
  qed
  have "n \<in> rp_net_id ` set rs \<Longrightarrow> \<exists>c \<in> set DS. cd_net_id c = n"
    using port_reports_of by (force simp: rs)
  moreover have "reported_addr rs (cd_net_id c) = cd_module_addr c" if "c \<in> set DS" for c
    using reported_addr_only [OF only ids] that by blast
  ultimately show ?thesis using ids dev(2) [of n] in_DS by (metis option.inject)
qed

text \<open>
  C7: The gateway discovers exactly the simulator's detectors. What a simulator in any state it can
  reach answers to the poll of all detectors is summarised without an error into one record for each
  detector of its registry, with the module address it has there, and nothing else; only a
  detector whose network id is the poll-all id is overlooked.
\<close>

theorem discovery_of_simulator:
  assumes "sim_reachable P E s" and "env_laws E" and "same_protocol P L"
    and "handleCANDetectorPoll P E s (0 # le16 (CANDetectorPollAll P)) = Some msgs"
  shows "\<exists>ds. summarizeDiscovery L msgs = Inr ds \<and> distinct (map dd_net_id ds) \<and>
    (\<forall>n a. (\<exists>d \<in> set ds. dd_net_id d = n \<and> dd_addr d = a) \<longleftrightarrow>
       n \<noteq> CANDetectorPollAll P \<and>
       (\<exists>c. canDevice s n = Some c \<and> cd_kind c = CANDeviceDetector \<and> cd_module_addr c = a))"
proof -
  obtain rs where rs: "detector_reports L msgs = Inr rs"
    using reports_of_devices [OF assms(3), of "detectorDevices E s"] assms(4) by (auto simp: poll_all_reports)
  note sim = simulator_reports [OF assms(1-3) assms(4) rs]
  obtain ds where ds: "summarizeDiscovery L msgs = Inr ds" "distinct (map dd_net_id ds)" "set (map dd_net_id ds) = rp_net_id ` set rs"
    "\<forall>d \<in> set ds. dd_addr d = reported_addr rs (dd_net_id d)" using summarized_reports [OF assms(3) rs] by blast
  have "(\<exists>d \<in> set ds. dd_net_id d = n \<and> dd_addr d = a) \<longleftrightarrow> n \<in> rp_net_id ` set rs \<and> reported_addr rs n = a" for n a
    unfolding ds(3) [symmetric] using ds(4) by auto
  then show ?thesis using ds(1,2) sim by auto
qed

theorem discovery_of_simulator_witness:
  "\<exists>msgs ds d. handleCANDetectorPoll example_protocol example_env
       (sim_step example_protocol example_env (new_server 0)
          (CallNotify (Some \<lparr>nr_net_id = 0xDB04, nr_kind = 1, nr_name = ''d'', nr_module_addr = 7,
                            nr_port_count = 2, nr_output_port = 0\<rparr>))) (0 # le16 (CANDetectorPollAll example_protocol)) = Some msgs \<and>
     summarizeDiscovery mw_link msgs = Inr ds \<and> d \<in> set ds \<and> dd_net_id d = 0xDB04 \<and> dd_addr d = 7"
proof -
  let ?s = "sim_step example_protocol example_env (new_server 0)
        (CallNotify (Some \<lparr>nr_net_id = 0xDB04, nr_kind = 1, nr_name = ''d'', nr_module_addr = 7,
                          nr_port_count = 2, nr_output_port = 0\<rparr>))"
  let ?d = "newDetectorDevice 0xDB04 ''d'' 7 2"
  have r: "sim_reachable example_protocol example_env ?s" by (rule sim_reachable_step [OF new_server_reachable])
  have d: "canDevice ?s 0xDB04 = Some ?d" "cd_kind ?d = CANDeviceDetector" "cd_module_addr ?d = 7"
    "(0xDB04 :: u16) \<noteq> CANDetectorPollAll example_protocol" by code_simp+
  have p: "same_protocol example_protocol mw_link"
    by (simp add: same_protocol_def mw_link_def example_protocol_def encodeCANDetectorReport_def mw_parse_def nth_append)
  from discovery_of_simulator [OF r example_env_laws p poll_all_reports] d
  show ?thesis using poll_all_reports by (metis (no_types, lifting))
qed

section \<open>Two writers of one phase\<close>

text \<open>
  C38: The controller undoes the phase Applied. When the gateway has applied a detector's address and
  marked it so, the next error-free reconciliation by the detector controller with a cache that has caught up, which finds the same address for it, stores
  the phase Allocated again, though spec, labels and observed address stay as they were.
\<close>

theorem applied_phase_reset:
  assumes "api_laws c V" and "caught_up c V w" and "detectors_at V w k = Some d" and "det_phase (det_status d) = CANDetectorPhaseApplied"
    and "settled d x" and "det_device_ref (det_spec d) \<noteq> []"
    and "get_device c w (fst k, det_device_ref (det_spec d)) = Inr dev"
    and "get_pool c w (CANAddressPoolNamespace dev, CANAddressPoolName dev) = Inr poolCR"
    and "listPoolDetectors c w (CANAddressPoolNamespace dev) (CANAddressPoolName dev) = Inr ds"
    and "allocateDetectorAddress (poolConfigFromCR poolCR) ds d = Some r" and "allocated_as r x"
    and "Reconcile c w k = Some (w', None)"
  shows "\<exists>d'. detectors_at V w' k = Some d' \<and> det_phase (det_status d') = CANDetectorPhaseAllocated \<and>
    det_spec d' = det_spec d \<and> det_meta d' = det_meta d \<and> det_observed (det_status d') = det_observed (det_status d)"
proof -
  have "writeDetector c w d poolCR r = (w', None)"
    by (rule Reconcile_writes [OF assms(2,3,6) api_get(3) [OF assms(2,7)] api_get(5) [OF assms(2,8)] assms(12)])
      (use assms(9,10) in simp)
  from writeDetector_stores [OF assms(1,3) this refl assms(11)] obtain d' where
    "detectors_at V w' = (detectors_at V w)(k \<mapsto> d')" "settled d x \<Longrightarrow> det_status d' = allocated_status d x"
    "settled d x \<Longrightarrow> det_spec d' = det_spec d \<and> det_meta d' = det_meta d" by metis
  then show ?thesis using assms(5) by (simp add: allocated_status_def)
qed

definition applied_cluster :: mem_cluster where
  "applied_cluster = example_cluster\<lparr>mc_detectors :=
     [((''layout'', ''a''), (example_detector ''a'' 0xDB04 (Some 12))\<lparr>
        det_meta := (example_meta ''layout'' ''a'')\<lparr>om_labels := [(LabelDeviceName, ''sim1'')]\<rparr>,
        det_spec := (det_spec (example_detector ''a'' 0xDB04 (Some 12)))\<lparr>det_desired := Some 12\<rparr>,
        det_status := \<lparr>det_observed = Some 12, det_assigned = Some 12, det_phase = CANDetectorPhaseApplied, det_message = []\<rparr>\<rparr>)]\<rparr>"

theorem applied_phase_reset_witness:
  "\<exists>w' d'. Reconcile mem_client applied_cluster (''layout'', ''a'') = Some (w', None) \<and>
     mem_view w' (''layout'', ''a'') = Some d' \<and> det_phase (det_status d') = CANDetectorPhaseAllocated"
proof -
  let ?k = "(''layout'', ''a'')" and ?d = "snd (hd (mc_detectors applied_cluster))"
  let ?w = "fst (the (Reconcile mem_client applied_cluster ?k))"
  let ?ds = "map snd (mc_detectors applied_cluster)"
  let ?r = "the (allocateDetectorAddress (poolConfigFromCR example_pool_cr) ?ds ?d)"
  have d: "detectors_at mem_api applied_cluster ?k = Some ?d" "det_phase (det_status ?d) = CANDetectorPhaseApplied"
    "settled ?d 12" "det_device_ref (det_spec ?d) \<noteq> []"
    "get_device mem_client applied_cluster (fst ?k, det_device_ref (det_spec ?d)) = Inr example_simulator"
    "get_pool mem_client applied_cluster
       (CANAddressPoolNamespace example_simulator, CANAddressPoolName example_simulator) = Inr example_pool_cr"
    "listPoolDetectors mem_client applied_cluster
       (CANAddressPoolNamespace example_simulator) (CANAddressPoolName example_simulator) = Inr ?ds"
    "allocateDetectorAddress (poolConfigFromCR example_pool_cr) ?ds ?d = Some ?r"
    "allocated_as ?r 12" "Reconcile mem_client applied_cluster ?k = Some (?w, None)"
    by code_simp+
  from applied_phase_reset [OF mem_api_laws mem_caught_up d] d(10) show ?thesis by auto
qed

section \<open>Broadcast flags from the REST API to the gateway\<close>













lemma start_flags:
  assumes "run_start G g w = (w', Inr s)" and "\<not> gc_skip_status g"
    and "gc_get (ge_reporter G) w (gateway_device_key g) = Inr d"
  shows "ss_flags s = ss_flags (setFlags (ge_protocol G) (BroadcastFlagsValue d) s0)"
  using assms
  by (auto simp: run_start_def gateway_reporter_def reporter_BroadcastFlags_def Let_def setFlags_def split: option.splits)








section \<open>From a command to the gateway's discovery\<close>

lemma detector_for_map:
  "(\<And>d. smd_net_id (f d) = smd_net_id d) \<Longrightarrow> detector_for (map f ds) n = map_option f (detector_for ds n)"
  by (induction ds) (auto simp: detector_for_def)

lemma detector_for_found:
  "n \<in> smd_net_id ` set ds \<Longrightarrow> \<exists>d \<in> set ds. detector_for ds n = Some d"
  by (induction ds) (auto simp: detector_for_def)

lemma map_of_detectors: "map_of (map (\<lambda>d. (smd_net_id d, f d)) ds) n = map_option f (detector_for ds n)"
  by (induction ds) (auto simp: detector_for_def)

lemma detectorsFromAPI_map:
  "detectorsFromAPI ds = Inr out \<Longrightarrow> out = map (\<lambda>d.
     d\<lparr>smd_module_address := (if smd_module_address d = 0 then 1 else smd_module_address d),
       smd_port_count := (if smd_port_count d = 0 then 8 else smd_port_count d)\<rparr>) ds"
  by (induction ds arbitrary: out)
    (auto simp: api_defaultDetectorModuleAddress_def api_defaultDetectorPortCount_def split: if_splits sum.splits)

text \<open>A Simulation that is created or patched without a concurrent writer has the spec that was sent.\<close>

definition stores_specs :: "'w rest_client \<Rightarrow> bool" where
  "stores_specs c \<longleftrightarrow>
     (\<forall>a s a1 s1. ra_create_simulation c a s = (a1, Inr s1) \<longrightarrow> smn_spec s1 = smn_spec s) \<and>
     (\<forall>a old s a1 s1. ra_patch_simulation c a old s = (a1, Inr s1) \<longrightarrow> smn_spec s1 = smn_spec s)"

lemma simulateCAN_out:
  assumes "simulateCAN c a ns dev (Inr req) = (a', 200, BodySimulation out)"
    and "stores_specs c"
  shows "\<exists>incoming. detectorsFromAPI (sr_detectors req) = Inr incoming \<and>
    (asm_detectors out = incoming \<or> (\<exists>existing. asm_detectors out = mergeCANDetectors existing incoming))"
proof -
  obtain incoming where i: "detectorsFromAPI (sr_detectors req) = Inr incoming"
    using assms(1) by (auto simp: simulateCAN_def writeError_def Let_def split: if_splits sum.splits kube_error.splits)
  have laws: "\<And>a s a1 s1. ra_create_simulation c a s = (a1, Inr s1) \<Longrightarrow> smn_spec s1 = smn_spec s"
    "\<And>a old s a1 s1. ra_patch_simulation c a old s = (a1, Inr s1) \<Longrightarrow> smn_spec s1 = smn_spec s"
    using assms(2) by (auto simp: stores_specs_def)
  have "asm_detectors out = incoming \<or> (\<exists>existing. asm_detectors out = mergeCANDetectors existing incoming)"
    using assms(1) i
    by (auto simp: simulateCAN_def writeError_def simulationFromCR_def new_simulation_def Let_def
        split: if_splits sum.splits kube_error.splits prod.splits dest!: laws)
  with i show ?thesis by blast
qed

lemma merged_lookup:
  assumes "detector_for (rev incoming) n = Some d"
  shows "detector_for (rev (mergeCANDetectors existing incoming)) n = Some d"
proof -
  let ?m = "mergeCANDetectors existing incoming"
  have "detector_for ?m n = detector_for (rev (existing @ incoming)) n" using merge_exact by blast
  also have "\<dots> = Some d" using assms by (simp add: detector_for_def find_append)
  finally have m: "detector_for ?m n = Some d" .
  have "distinct (map smd_net_id ?m)" using merge_exact strict_sorted_iff by blast
  moreover have "distinct (map smd_net_id (rev ?m))" using calculation by (simp add: rev_map [symmetric])
  ultimately show ?thesis using m detector_for_distinct by (metis set_rev)
qed

lemma declared_lookup:
  assumes "\<forall>b \<in> set (sms_boosters sp). smb_net_id b \<noteq> n" and "detector_for (rev (sms_detectors sp)) n = Some d"
  shows "map_of (rev (declared_devices sp)) n = Some (newDetectorDevice (smd_net_id d) (smd_name d)
    (if smd_module_address d = 0 then 1 else smd_module_address d) (if smd_port_count d = 0 then 8 else smd_port_count d))"
proof -
  have "n \<notin> dom (map_of (rev (map (\<lambda>b. (smb_net_id b, newBoosterDevice (smb_net_id b) (smb_name b) (smb_output_port b))) (sms_boosters sp))))"
    using assms(1) by (auto simp: dom_map_of_conv_image_fst)
  then show ?thesis using assms(2)
    by (simp add: declared_devices_def map_add_dom_app_simps(3) rev_map map_of_detectors)
qed

definition asked_address :: "u16 list \<Rightarrow> u16 option \<Rightarrow> u16" where
  "asked_address ids ma = (case ma of Some m \<Rightarrow> if length ids \<le> 1 \<and> m \<noteq> 0 then m else 1 | None \<Rightarrow> 1)"

definition asked_ids :: "u16 list \<Rightarrow> u16 set" where
  "asked_ids ids = (if ids = [] then {defaultDetectorNetID} else set ids)"

lemma DetectorsFromNetIDs_facts:
  "smd_net_id ` set (DetectorsFromNetIDs ids) = asked_ids ids" "length (DetectorsFromNetIDs ids) = max 1 (length ids)"
  "d \<in> set (DetectorsFromNetIDs ids) \<Longrightarrow> smd_module_address d = 1"
proof -
  have s: "snd ` set (enumerate 0 ids) = set ids" by (simp only: set_map [symmetric] map_snd_enumerate)
  have "smd_net_id ` set (DetectorsFromNetIDs ids) = snd ` set (enumerate 0 ids)" if "ids \<noteq> []"
    using that by (simp add: DetectorsFromNetIDs_def image_image case_prod_unfold)
  then show "smd_net_id ` set (DetectorsFromNetIDs ids) = asked_ids ids"
    unfolding s by (cases "ids = []") (simp_all add: DetectorsFromNetIDs_def asked_ids_def)
  show "length (DetectorsFromNetIDs ids) = max 1 (length ids)" by (cases ids) (simp_all add: DetectorsFromNetIDs_def)
  show "d \<in> set (DetectorsFromNetIDs ids) \<Longrightarrow> smd_module_address d = 1"
    by (auto simp: DetectorsFromNetIDs_def ctl_defaultDetectorModuleAddress_def split: if_splits)
qed

lemma simulate_can_detectors:
  assumes "simulate_can_request nm raws given ma pc = Inr req" and "parse_net_ids raws = Inr ids"
  shows "smd_net_id ` set (sr_detectors req) = asked_ids ids \<and>
    (\<forall>d \<in> set (sr_detectors req). (if smd_module_address d = 0 then 1 else smd_module_address d) = asked_address ids ma)"
proof (cases "\<exists>d. DetectorsFromNetIDs ids = [d]")
  case True
  then obtain d where d: "DetectorsFromNetIDs ids = [d]" ..
  have f: "asked_ids ids = {smd_net_id d}" "smd_module_address d = 1" "length ids \<le> 1"
    using DetectorsFromNetIDs_facts(1,2) [of ids] DetectorsFromNetIDs_facts(3) [of d ids] by (auto simp: d)
  obtain d' where d': "sr_detectors req = [d']" "smd_net_id d' = smd_net_id d"
    "smd_module_address d' = (case ma of None \<Rightarrow> smd_module_address d | Some a \<Rightarrow> a)"
    using assms d by (cases ma; cases pc; force simp: simulate_can_request_def Let_def)
  then show ?thesis using f by (cases ma) (simp_all add: asked_address_def)
next
  case False
  then have s: "sr_detectors req = DetectorsFromNetIDs ids"
    using assms by (auto simp: simulate_can_request_def Let_def split: list.splits)
  have "length (DetectorsFromNetIDs ids) \<noteq> 1" using False by (auto simp: length_Suc_conv)
  then have "asked_address ids ma = 1" by (simp add: DetectorsFromNetIDs_facts(2) asked_address_def max_def split: option.split if_splits)
  then show ?thesis unfolding s using DetectorsFromNetIDs_facts(1,3) by simp
qed

lemma applied_registry:
  assumes "simulation_laws P E cl view sims" and "view w k = Some sim" and "sms_device_ref (smn_spec sim) \<noteq> []"
    and "sc_get_device cl w (fst k, sms_device_ref (smn_spec sim)) = Inr device"
    and "be_type (ds_backend (dev_spec device)) = BackendSimulator" and "sc_configured cl"
    and "addr = SimulatorGRPCAddress (sim_workloadNamespace ns) (om_name (dev_meta device))"
    and "simulation_Reconcile cl ns w k = (w', None)" and "map_option (smt_phase \<circ> smn_status) (view w' k) = Some SimulationPhaseApplied"
  shows "canDevice (sims w' addr) = canDevice (sims w addr) ++ map_of (rev (declared_devices (smn_spec sim)))"
proof -
  have "SimulationPhaseApplied \<noteq> SimulationPhaseFailed" by (simp add: SimulationPhaseApplied_def SimulationPhaseFailed_def)
  then show ?thesis using Reconcile_outcome [OF assms(1-8)] assms(9) unfolding Let_def by (elim exE conjE disjE) simp_all
qed

text \<open>
  C4: A simulated module that was asked for on the command line is discovered by the gateway. For every network id
  of \<^verbatim>\<open>simulate can\<close>, or the default one without any, that the API has answered with 200 and
  the Simulation controller has reported Applied, the summary of the simulator's answer to the poll of all detectors
  has that id with the module address asked for, unless it is the poll-all id.
\<close>

theorem simulate_reaches_gateway:
  assumes "simulate_can_request nm raws given ma pc = Inr req" and "parse_net_ids raws = Inr ids"
    and "simulateCAN c a ns dev (Inr req) = (a', 200, BodySimulation out)"
    and "stores_specs c"
    and "simulation_laws P E cl view sims" and "view w k = Some sim" and "sms_device_ref (smn_spec sim) \<noteq> []"
    and "sms_detectors (smn_spec sim) = asm_detectors out" and "\<forall>b \<in> set (sms_boosters (smn_spec sim)). smb_net_id b \<notin> asked_ids ids"
    and "sc_get_device cl w (fst k, sms_device_ref (smn_spec sim)) = Inr device"
    and "be_type (ds_backend (dev_spec device)) = BackendSimulator" and "sc_configured cl"
    and "addr = SimulatorGRPCAddress (sim_workloadNamespace wns) (om_name (dev_meta device))"
    and "simulation_Reconcile cl wns w k = (w', None)" and "map_option (smt_phase \<circ> smn_status) (view w' k) = Some SimulationPhaseApplied"
    and "sim_reachable P E (sims w' addr)" and "env_laws E" and "same_protocol P L"
    and "handleCANDetectorPoll P E (sims w' addr) (0 # le16 (CANDetectorPollAll P)) = Some msgs"
  shows "\<exists>ds. summarizeDiscovery L msgs = Inr ds \<and>
    (\<forall>n \<in> asked_ids ids. n \<noteq> CANDetectorPollAll P \<longrightarrow> (\<exists>x \<in> set ds. dd_net_id x = n \<and> dd_addr x = asked_address ids ma))"
proof -
  obtain incoming where inc: "detectorsFromAPI (sr_detectors req) = Inr incoming"
    "asm_detectors out = incoming \<or> (\<exists>existing. asm_detectors out = mergeCANDetectors existing incoming)"
    using simulateCAN_out [OF assms(3,4)] by blast
  have dev: "\<exists>cd. canDevice (sims w' addr) n = Some cd \<and> cd_kind cd = CANDeviceDetector \<and> cd_module_addr cd = asked_address ids ma"
    if n: "n \<in> asked_ids ids" for n
  proof -
    have "n \<in> smd_net_id ` set (rev (sr_detectors req))" using n simulate_can_detectors [OF assms(1,2)] by simp
    then obtain d0 where d0: "detector_for (rev (sr_detectors req)) n = Some d0" "d0 \<in> set (sr_detectors req)"
      using detector_for_found by fastforce
    then obtain d where d: "detector_for (rev incoming) n = Some d" "smd_module_address d = asked_address ids ma"
      using simulate_can_detectors [OF assms(1,2)] detectorsFromAPI_map [OF inc(1)] by (simp add: rev_map detector_for_map)
    then have "detector_for (rev (sms_detectors (smn_spec sim))) n = Some d"
      using inc(2) merged_lookup unfolding assms(8) by metis
    moreover have "\<forall>b \<in> set (sms_boosters (smn_spec sim)). smb_net_id b \<noteq> n" using assms(9) n by blast
    moreover have "asked_address ids ma \<noteq> 0" by (simp add: asked_address_def split: option.split)
    ultimately show ?thesis
      using declared_lookup [of "smn_spec sim" n d] applied_registry [OF assms(5-7,10-15)] d(2)
      by (simp add: newDetectorDevice_def Let_def)
  qed
  obtain rs where rs: "detector_reports L msgs = Inr rs"
    using reports_of_devices [OF assms(18), of "detectorDevices E (sims w' addr)"] assms(19) by (auto simp: poll_all_reports)
  obtain ds where ds: "summarizeDiscovery L msgs = Inr ds" "set (map dd_net_id ds) = rp_net_id ` set rs"
    "\<forall>d \<in> set ds. dd_addr d = reported_addr rs (dd_net_id d)" using summarized_reports [OF assms(18) rs] by blast
  have "\<exists>x \<in> set ds. dd_net_id x = n \<and> dd_addr x = asked_address ids ma"
    if "n \<in> asked_ids ids" "n \<noteq> CANDetectorPollAll P" for n
  proof -
    have "n \<in> rp_net_id ` set rs \<and> reported_addr rs n = asked_address ids ma"
      using simulator_reports [OF assms(16-19) rs] dev [OF that(1)] that(2) by blast
    then show ?thesis using ds(2,3) by (metis (no_types, lifting) image_iff list.set_map)
  qed
  then show ?thesis using ds(1) by blast
qed

definition yard_api :: "unit rest_client" where
  "yard_api =
     \<lparr>ra_list = (\<lambda>w ns. Inr []), ra_get = (\<lambda>w k. Inr example_simulator), ra_create = (\<lambda>w d. (w, Inr d)),
      ra_patch = (\<lambda>w a b. (w, Inr b)), ra_delete = (\<lambda>w d. (w, None)), ra_get_simulation = (\<lambda>w k. Inl (KubeNotFound [])),
      ra_create_simulation = (\<lambda>w s. (w, Inr s)), ra_patch_simulation = (\<lambda>w a b. (w, Inr b)), PublishFlags = (\<lambda>w d. (w, None))\<rparr>"

definition yard_simulation :: simulation where
  "yard_simulation = new_simulation ''layout'' ''sim1'' ''sim1''
     [\<lparr>smd_net_id = 0xDB04, smd_name = ''occupancy-a'', smd_module_address = 7, smd_port_count = 8\<rparr>]"

definition yard_world :: simulation_world where
  "yard_world = \<lparr>sw_simulation = yard_simulation, sw_servers = (\<lambda>a. new_server 0)\<rparr>"

definition yard_request :: notify_request where
  "yard_request = \<lparr>nr_net_id = 0xDB04, nr_kind = 1, nr_name = ''occupancy-a'', nr_module_addr = 7, nr_port_count = 8, nr_output_port = 0\<rparr>"

lemma yard_registers: "\<exists>s n. grpc_NotifyCANDeviceDetected example_protocol example_env (new_server 0) (Some yard_request) = (s, Inr n) \<and>
    s = sim_step example_protocol example_env (new_server 0) (CallNotify (Some yard_request))"
proof -
  have "case snd (grpc_NotifyCANDeviceDetected example_protocol example_env (new_server 0) (Some yard_request)) of Inl e \<Rightarrow> False | Inr n \<Rightarrow> True"
    by code_simp
  then show ?thesis by (cases "grpc_NotifyCANDeviceDetected example_protocol example_env (new_server 0) (Some yard_request)") (auto split: sum.splits)
qed

lemma yard_reconciled:
  "\<exists>w'. simulation_Reconcile sw_client [] yard_world (''layout'', ''sim1'') = (w', None) \<and>
     map_option (smt_phase \<circ> smn_status) (sw_view w' (''layout'', ''sim1'')) = Some SimulationPhaseApplied \<and>
     sw_servers w' (SimulatorGRPCAddress (sim_workloadNamespace []) (om_name (dev_meta example_simulator))) =
       sim_step example_protocol example_env (new_server 0) (CallNotify (Some yard_request))"
proof -
  have req: "detector_request \<lparr>smd_net_id = 0xDB04, smd_name = ''occupancy-a'', smd_module_address = 7, smd_port_count = 8\<rparr> = yard_request"
    by code_simp
  have k: "simulation_key yard_simulation = (''layout'', ''sim1'')" "sms_device_ref (smn_spec yard_simulation) = ''sim1''"
    by (simp_all add: simulation_key_def yard_simulation_def new_simulation_def empty_object_meta_def)
  have b: "be_type (ds_backend (dev_spec example_simulator)) = BackendSimulator"
    by (simp add: example_simulator_def example_spec_def BackendSimulator_def)
  obtain s n where s: "grpc_NotifyCANDeviceDetected example_protocol example_env (new_server 0) (Some yard_request) = (s, Inr n)"
    "s = sim_step example_protocol example_env (new_server 0) (CallNotify (Some yard_request))" using yard_registers by blast
  have a: "applyCANDevices sw_client addr yard_world yard_simulation = (yard_world\<lparr>sw_servers := (\<lambda>a. new_server 0)(addr := s)\<rparr>, 1, None)" for addr
    by (simp add: applyCANDevices_def yard_simulation_def new_simulation_def req sw_client_def yard_world_def s(1))
  have g: "sc_get sw_client yard_world (''layout'', ''sim1'') = Inr yard_simulation" "sc_configured sw_client"
    "sc_get_device sw_client yard_world x = Inr example_simulator" for x
    by (simp_all add: sw_client_def sw_view_def yard_world_def k)
  have p: "simulation_patchStatus sw_client (yard_world\<lparr>sw_servers := f\<rparr>) yard_simulation ph m 1 =
      (yard_world\<lparr>sw_servers := f, sw_simulation := yard_simulation\<lparr>smn_status :=
        \<lparr>smt_phase = ph, smt_message = m, smt_observed_generation = 0, smt_applied = 1\<rparr>\<rparr>\<rparr>, None)" for f ph m
    by (simp add: simulation_patchStatus_def Let_def sw_client_def yard_world_def yard_simulation_def new_simulation_def
        empty_object_meta_def simulation_key_def)
  show ?thesis
    unfolding simulation_Reconcile_def g sum.case Let_def k(2) b a prod.case option.case p s(2)
    using k(1) by (simp add: g p sw_view_def simulation_key_def yard_world_def)
qed

theorem simulate_reaches_gateway_witness:
  "\<exists>w' msgs ds x. simulation_Reconcile sw_client [] yard_world (''layout'', ''sim1'') = (w', None) \<and>
     summarizeDiscovery mw_link msgs = Inr ds \<and> x \<in> set ds \<and> dd_net_id x = 0xDB04 \<and> dd_addr x = 7"
proof -
  let ?req = "\<lparr>sr_simulation_name = [],
    sr_detectors = [\<lparr>smd_net_id = 0xDB04, smd_name = ''occupancy-a'', smd_module_address = 7, smd_port_count = 8\<rparr>]\<rparr>"
  let ?addr = "SimulatorGRPCAddress (sim_workloadNamespace []) (om_name (dev_meta example_simulator))"
  obtain w' where w': "simulation_Reconcile sw_client [] yard_world (''layout'', ''sim1'') = (w', None)"
    "map_option (smt_phase \<circ> smn_status) (sw_view w' (''layout'', ''sim1'')) = Some SimulationPhaseApplied"
    "sw_servers w' ?addr = sim_step example_protocol example_env (new_server 0) (CallNotify (Some yard_request))"
    using yard_reconciled by blast
  have req: "simulate_can_request [] [] [] (Some 7) None = Inr ?req" by code_simp
  have api: "simulateCAN yard_api () ''layout'' ''sim1'' (Inr ?req) = ((), 200, BodySimulation (simulationFromCR yard_simulation))"
    by code_simp
  have ids: "parse_net_ids [] = Inr []" by simp
  have st: "stores_specs yard_api" by (simp add: stores_specs_def yard_api_def)
  have v: "sw_view yard_world (''layout'', ''sim1'') = Some yard_simulation"
    by (simp add: sw_view_def yard_world_def simulation_key_def yard_simulation_def new_simulation_def empty_object_meta_def)
  have y: "sms_device_ref (smn_spec yard_simulation) \<noteq> []" "sms_detectors (smn_spec yard_simulation) = asm_detectors (simulationFromCR yard_simulation)"
    "\<forall>b \<in> set (sms_boosters (smn_spec yard_simulation)). smb_net_id b \<notin> asked_ids []"
    by (simp_all add: yard_simulation_def new_simulation_def simulationFromCR_def)
  have d: "sc_get_device sw_client yard_world (fst (''layout'', ''sim1''), sms_device_ref (smn_spec yard_simulation)) = Inr example_simulator"
    "be_type (ds_backend (dev_spec example_simulator)) = BackendSimulator" "sc_configured sw_client"
    by (simp_all add: sw_client_def example_simulator_def example_spec_def BackendSimulator_def)
  have r: "sim_reachable example_protocol example_env (sw_servers w' ?addr)"
    unfolding w'(3) by (rule sim_reachable_step [OF new_server_reachable])
  have p: "same_protocol example_protocol mw_link"
    by (simp add: same_protocol_def mw_link_def example_protocol_def encodeCANDetectorReport_def mw_parse_def nth_append)
  have n: "0xDB04 \<in> asked_ids []" "(0xDB04 :: u16) \<noteq> CANDetectorPollAll example_protocol" "asked_address [] (Some 7) = 7"
    by (simp_all add: asked_ids_def defaultDetectorNetID_def example_protocol_def asked_address_def)
  note reached = simulate_reaches_gateway [OF req ids api st sw_laws, OF v, OF y, OF d, OF refl, OF w'(1), OF w'(2), OF r,
      OF example_env_laws p, OF poll_all_reports]
  from reached obtain ds where ds: "summarizeDiscovery mw_link (concat (map (detectorReports example_protocol) (detectorDevices example_env (sw_servers w' ?addr)))) = Inr ds"
    "\<forall>n \<in> asked_ids []. n \<noteq> CANDetectorPollAll example_protocol \<longrightarrow> (\<exists>x \<in> set ds. dd_net_id x = n \<and> dd_addr x = asked_address [] (Some 7))" by (elim exE conjE)
  from bspec [OF ds(2) n(1)] n(2,3) obtain x where "x \<in> set ds" "dd_net_id x = 0xDB04" "dd_addr x = 7" by auto
  then show ?thesis using w'(1) ds(1) by blast
qed

section \<open>From the command line to the gateway\<close>

text \<open>The API server stores a device as it is sent, under the name and namespace it has.\<close>

definition stores_devices :: "'w rest_client \<Rightarrow> bool" where
  "stores_devices c \<longleftrightarrow> (\<forall>w d w' d'. ra_create c w d = (w', Inr d') \<longrightarrow>
     dev_spec d' = dev_spec d \<and> om_name (dev_meta d') = om_name (dev_meta d) \<and> om_namespace (dev_meta d') = om_namespace (dev_meta d))"

text \<open>The address that the flags of \<^verbatim>\<open>device create\<close> stand for.\<close>

definition asked_z21_address :: "string \<Rightarrow> create_flags \<Rightarrow> string" where
  "asked_z21_address name fl =
     (if cf_backend fl = ''simulator''
      then join_host_port (SimulatorServiceFQDN DefaultWorkloadNamespace name) (i32_dec DefaultZ21Port)
      else (case split_host_port (cf_address fl) of
              Inl e \<Rightarrow> join_host_port (cf_address fl) (i32_dec DefaultZ21Port)
            | Inr (host, port) \<Rightarrow> (case parse_int 32 port of Inl e \<Rightarrow> [] | Inr n \<Rightarrow> join_host_port host (int_dec n))))"

definition asked_flags :: "create_flags \<Rightarrow> u32" where
  "asked_flags fl = (if cf_set_broadcast fl then cf_broadcast_flags fl else DefaultBroadcastFlags)"

lemma created_device:
  assumes "create_request name fl = Inr req" and "name \<noteq> []" and "cf_nats_url fl \<noteq> []" and "stores_devices c"
    and "createDevice c w ns name (Inr req) = (w', 201, body)"
  shows "\<exists>d. body = BodyDevice (DeviceFromCR d) \<and> om_name (dev_meta d) = name \<and> om_namespace (dev_meta d) = ns \<and>
    nats_url (ds_nats (dev_spec d)) = cf_nats_url fl \<and> BroadcastFlagsValue d = asked_flags fl \<and>
    Z21Address d = Inr (asked_z21_address name fl)"
proof -
  have v: "validateDeviceCreate req = None" "dc_name req = name" "an_url (dc_nats req) = cf_nats_url fl"
    using create_request_valid [OF assms(1-3)] create_request_fields [OF assms(1)] by simp_all
  obtain spec d w1 where s: "specFromCreate req = Inr spec"
    "ra_create c w \<lparr>dev_meta = empty_object_meta ns name, dev_spec = spec, dev_status = zero_status\<rparr> = (w1, Inr d)"
    "body = BodyDevice (DeviceFromCR d)"
    using assms(2,5) v(1,2) by (auto simp: createDevice_def writeError_def split: sum.splits prod.splits kube_error.splits)
  have d: "dev_spec d = spec" "om_name (dev_meta d) = name" "om_namespace (dev_meta d) = ns"
    using assms(4) s(2) unfolding stores_devices_def by (fastforce simp: empty_object_meta_def)+
  obtain a where a: "Z21Address d = Inr a" "case dc_backend req of
       None \<Rightarrow>
         (case split_host_port (dc_address req) of
            Inl e \<Rightarrow> a = join_host_port (dc_address req) (i32_dec DefaultZ21Port)
          | Inr (host, port) \<Rightarrow> \<exists>n. parse_int 32 port = Inr n \<and> 1 \<le> n \<and> n \<le> 65535 \<and> a = join_host_port host (int_dec n))
     | Some b \<Rightarrow>
         if bc_type b = BackendHardware then
           (case bc_hardware b of None \<Rightarrow> False | Some hw \<Rightarrow> hcr_host hw \<noteq> [] \<and>
              a = join_host_port (hcr_host hw) (i32_dec (if hcr_port hw = 0 then DefaultZ21Port else hcr_port hw)))
         else bc_type b = BackendSimulator \<and>
           a = join_host_port (SimulatorServiceFQDN DefaultWorkloadNamespace (om_name (dev_meta d))) (i32_dec DefaultZ21Port)"
    using created_device_dials [OF v(1) s(1) d(1)] by blast
  have "a = asked_z21_address name fl"
    using a(2) create_request_fields(4) [OF assms(1)] d(2)
    by (auto simp: asked_z21_address_def BackendHardware_def BackendSimulator_def split: sum.splits prod.splits)
  moreover have "nats_url (ds_nats spec) = cf_nats_url fl" using s(1) v(3) by (auto simp: specFromCreate_def nats_of_def split: sum.splits)
  moreover have "BroadcastFlagsValue d = asked_flags fl"
    using create_request_spec(2) [OF assms(1) s(1)] d(1) by (simp add: BroadcastFlagsValue_def asked_flags_def)
  ultimately show ?thesis using s(3) d a(1) by blast
qed

text \<open>
  C5: A device that was created on the command line is what its gateway serves. When the API has answered 201 to
  the request that \<^verbatim>\<open>device create\<close> builds from its flags, the gateway deployed for the stored device starts with
  the address the flags stand for, the NATS URL given, and the name and namespace of the device; whatever reads the
  stored device, its session has the broadcast flags asked for, those of the protocol for 0 and the default of
  the API without any.
\<close>

theorem create_reaches_gateway:
  assumes "create_request name fl = Inr req" and "name \<noteq> []" and "ns \<noteq> []" and "cf_nats_url fl \<noteq> []"
    and "stores_devices c" and "createDevice c w ns name (Inr req) = (w', 201, body)"
    and "EnsureNATSURLClusterDNS U (cf_nats_url fl) \<noteq> []"
  shows "\<exists>d ct g. body = BodyDevice (DeviceFromCR d) \<and>
    pod_containers (dp_pod (dep_spec (desiredGatewayDeployment U d img sa (asked_z21_address name fl) cfg))) = [ct] \<and>
    Z21Address d = Inr (asked_z21_address name fl) \<and>
    Load (process_env (ct_env ct)) = Inr g \<and> gc_z21_address g = asked_z21_address name fl \<and>
    gc_nats_url g = EnsureNATSURLClusterDNS U (cf_nats_url fl) \<and> gateway_device_key g = (ns, name) \<and>
    (\<forall>G gw gw' s. gc_get (ge_reporter G) gw (ns, name) = Inr d \<longrightarrow> run_start G g gw = (gw', Inr s) \<longrightarrow>
       ss_flags s = (if asked_flags fl = 0 then gp_default_flags (ge_protocol G) else asked_flags fl))"
proof -
  obtain d where d: "body = BodyDevice (DeviceFromCR d)" "om_name (dev_meta d) = name" "om_namespace (dev_meta d) = ns"
    "nats_url (ds_nats (dev_spec d)) = cf_nats_url fl" "BroadcastFlagsValue d = asked_flags fl"
    "Z21Address d = Inr (asked_z21_address name fl)"
    using created_device [OF assms(1,2,4-6)] by blast
  obtain ct where ct: "pod_containers (dp_pod (dep_spec (desiredGatewayDeployment U d img sa (asked_z21_address name fl) cfg))) = [ct]"
    by (simp add: desiredGatewayDeployment_def Let_def)
  obtain g where g: "Load (process_env (ct_env ct)) = Inr g" "gc_z21_address g = asked_z21_address name fl"
    "gc_nats_url g = EnsureNATSURLClusterDNS U (cf_nats_url fl)" "gateway_device_key g = (ns, name)" "\<not> gc_skip_status g"
    using deployed_gateway_loads [OF d(6) _ _ _ ct] assms(2,3,7) d(2-4) by auto
  have "ss_flags s = (if asked_flags fl = 0 then gp_default_flags (ge_protocol G) else asked_flags fl)"
    if "gc_get (ge_reporter G) gw (ns, name) = Inr d" "run_start G g gw = (gw', Inr s)" for G and gw gw' :: 'b and s
    using start_flags [OF that(2) g(5)] that(1) g(4) d(5) by (simp add: setFlags_def)
  then show ?thesis using d ct g by blast
qed

theorem create_reaches_gateway_witness:
  "\<exists>req w' d (ct :: container) g. create_request ''z1'' sim_flags = Inr req \<and>
     createDevice no_devices [] ''layout'' ''z1'' (Inr req) = (w', 201, BodyDevice (DeviceFromCR d)) \<and>
     Load (process_env (ct_env ct)) = Inr g \<and> gateway_device_key g = (''layout'', ''z1'') \<and>
     gc_z21_address g = ''z21-sim-z1.elp.svc.cluster.local.:21105''"
proof -
  obtain req where r: "create_request ''z1'' sim_flags = Inr req" by (simp add: create_request_def sim_flags_def Let_def)
  have f: "cf_nats_url sim_flags = ''nats://nats:4222''" "cf_backend sim_flags = ''simulator''" by (simp_all add: sim_flags_def)
  have n: "''z1'' \<noteq> []" "''layout'' \<noteq> []" "cf_nats_url sim_flags \<noteq> []" by (simp_all add: f)
  have st: "stores_devices no_devices" by (simp add: stores_devices_def no_devices_def)
  have v: "validateDeviceCreate req = None" "dc_name req = ''z1''" using create_request_valid [OF r n(1,3)] create_request_fields [OF r] by simp_all
  obtain spec where s: "specFromCreate req = Inr spec" using create_request_spec(1) [OF r] f(2) by (cases "specFromCreate req") auto
  obtain body where c: "createDevice no_devices [] ''layout'' ''z1'' (Inr req) = ([], 201, body)"
    using v s by (simp add: createDevice_def no_devices_def)
  have u: "EnsureNATSURLClusterDNS example_url (cf_nats_url sim_flags) \<noteq> []"
    by (simp add: f EnsureNATSURLClusterDNS_def example_url_def)
  have p: "int_dec 21105 = ''21105''" by (simp add: int_dec_def nat_dec.simps digit_chars_def)
  have a: "asked_z21_address ''z1'' sim_flags = ''z21-sim-z1.elp.svc.cluster.local.:21105''"
    by (simp add: asked_z21_address_def f i32_dec_def p elp_consts SimulatorServiceFQDN_def SimulatorServiceName_def join_host_port_def)
  obtain d and ct :: container and g where "body = BodyDevice (DeviceFromCR d)" "Load (process_env (ct_env ct)) = Inr g"
    "gateway_device_key g = (''layout'', ''z1'')" "gc_z21_address g = ''z21-sim-z1.elp.svc.cluster.local.:21105''"
    using create_reaches_gateway [OF r n st c u, where img = "[]" and sa = "[]" and cfg = quiet_config] unfolding a
    by blast
  then show ?thesis using r c by blast
qed

end
